(* ===== verification/Prelude.thy ===== *)
theory Prelude
  imports Complex_Main "HOL-Library.AList" "HOL-Library.Multiset" "HOL-Library.Sublist"
    "HOL-Library.Char_ord" "HOL-Library.List_Lexorder"
begin

text \<open>
  The JavaScript runtime the model rests on, and the lemmas every component shares:
  \<^item> the idioms for absent values (\<open>??\<close>, \<open>||\<close>, truthiness of an optional string);
  \<^item> numbers: an integral count or index is a \<open>nat\<close> or \<open>int\<close>, a measure (pixels, percentages)
    an exact \<open>real\<close> (IEEE rounding, NaN and the infinities are not modelled);
  \<^item> strings as lists of 8-bit code units, with the methods the code calls;
  \<^item> \<open>Map\<close> as an insertion-ordered association list, with its laws as the locale
    \<open>ordered_map\<close>, and \<open>Set\<close> (where its order is observable) as a distinct list;
  \<^item> the stable \<open>Array.prototype.sort\<close> by a comparator, with the locale \<open>comparator\<close>;
  \<^item> the locale-sensitive \<open>localeCompare\<close>, whose order the host chooses, as the locale
    \<open>collation\<close>.
\<close>

section \<open>Absent values\<close>

text \<open>An optional string is falsy when it is \<open>undefined\<close> or empty.\<close>

definition truthy :: "string option \<Rightarrow> bool" where
  "truthy o1 = (case o1 of None \<Rightarrow> False | Some s \<Rightarrow> s \<noteq> [])"

text \<open>\<open>a || b\<close> on optional strings, and \<open>a ?? b\<close> with a present default.\<close>

definition or_else :: "string option \<Rightarrow> string option \<Rightarrow> string option" where
  "or_else a b = (if truthy a then a else b)"

definition nullish :: "'a option \<Rightarrow> 'a \<Rightarrow> 'a" where
  "nullish a d = (case a of None \<Rightarrow> d | Some v \<Rightarrow> v)"

lemma nullish_simps [simp]: "nullish None d = d" "nullish (Some v) d = v"
  by (simp_all add: nullish_def)

lemma truthy_simps [simp]: "\<not> truthy None" "truthy (Some s) \<longleftrightarrow> s \<noteq> []"
  by (simp_all add: truthy_def)

lemma truthy_iff: "truthy a \<longleftrightarrow> (\<exists>s. a = Some s \<and> s \<noteq> [])"
  by (cases a) auto

section \<open>Lists\<close>

text \<open>\<open>xs[i]\<close> for an integral index: \<open>undefined\<close> outside the bounds.\<close>

definition js_index :: "'a list \<Rightarrow> int \<Rightarrow> 'a option" where
  "js_index xs i = (if 0 \<le> i \<and> i < int (length xs) then Some (xs ! nat i) else None)"

text \<open>\<open>xs.findIndex(p)\<close>, with \<open>None\<close> for -1.\<close>

fun find_index :: "('a \<Rightarrow> bool) \<Rightarrow> 'a list \<Rightarrow> nat option" where
  "find_index p [] = None"
| "find_index p (x # xs) = (if p x then Some 0 else map_option Suc (find_index p xs))"

text \<open>\<open>xs.filter((_, j) => j !== i)\<close>.\<close>

definition remove_at :: "int \<Rightarrow> 'a list \<Rightarrow> 'a list" where
  "remove_at i xs = map snd (filter (\<lambda>(j, _). int j \<noteq> i) (enumerate 0 xs))"

text \<open>\<open>xs.map((x, j) => j === i ? f(x) : x)\<close>.\<close>

definition map_at :: "int \<Rightarrow> ('a \<Rightarrow> 'a) \<Rightarrow> 'a list \<Rightarrow> 'a list" where
  "map_at i f xs = map (\<lambda>(j, x). if int j = i then f x else x) (enumerate 0 xs)"

text \<open>Adding to a JavaScript \<open>Set\<close>: a present element keeps its place.\<close>

definition set_add :: "'a \<Rightarrow> 'a list \<Rightarrow> 'a list" where
  "set_add x xs = (if x \<in> set xs then xs else xs @ [x])"

lemma set_set_add [simp]: "set (set_add x xs) = insert x (set xs)"
  by (auto simp: set_add_def)

lemma distinct_set_add [simp]: "distinct (set_add x xs) \<longleftrightarrow> distinct xs"
  by (auto simp: set_add_def)

lemma find_index_Some:
  "find_index p xs = Some i \<Longrightarrow> i < length xs \<and> p (xs ! i) \<and> (\<forall>j<i. \<not> p (xs ! j))"
proof (induction xs arbitrary: i)
  case (Cons x xs)
  show ?case
  proof (cases "p x")
    case False
    then obtain k where k: "find_index p xs = Some k" "i = Suc k"
      using Cons.prems by auto
    show ?thesis
      using Cons.IH [OF k(1)] k(2) False by (auto simp: less_Suc_eq_0_disj)
  qed (use Cons.prems in auto)
qed simp

lemma find_index_None: "find_index p xs = None \<longleftrightarrow> (\<forall>x\<in>set xs. \<not> p x)"
  by (induction xs) auto

lemma remove_at_aux:
  "map snd (filter (\<lambda>(j, _). int j \<noteq> int k + int i) (enumerate k xs)) = take i xs @ drop (Suc i) xs"
proof (induction xs arbitrary: k i)
  case (Cons x xs)
  show ?case
  proof (cases i)
    case 0
    have "filter (\<lambda>(j, _). int j \<noteq> int k) (enumerate (Suc k) xs) = enumerate (Suc k) xs"
      by (rule filter_True) (auto simp: in_set_enumerate_eq)
    then show ?thesis using 0 by (simp add: case_prod_unfold)
  next
    case (Suc m)
    then show ?thesis
      using Cons.IH [of "Suc k" m] by (auto simp: case_prod_unfold algebra_simps)
  qed
qed simp

lemma remove_at_nat [simp]: "remove_at (int i) xs = take i xs @ drop (Suc i) xs"
  using remove_at_aux [of 0 i xs] by (simp add: remove_at_def)

lemma remove_at_outside: "\<not> (0 \<le> i \<and> i < int (length xs)) \<Longrightarrow> remove_at i xs = xs"
proof -
  assume out: "\<not> (0 \<le> i \<and> i < int (length xs))"
  have "filter (\<lambda>(j, _). int j \<noteq> i) (enumerate 0 xs) = enumerate 0 xs"
    by (rule filter_True) (use out in \<open>auto simp: in_set_enumerate_eq\<close>)
  then show ?thesis by (simp add: remove_at_def)
qed

lemma js_index_Some:
  "js_index xs i = Some v \<longleftrightarrow> (\<exists>k. i = int k \<and> k < length xs \<and> v = xs ! k)"
  by (auto simp: js_index_def intro: exI [of _ "nat i"])

lemma mset_remove_at:
  assumes "js_index xs i = Some v"
  shows "mset xs = add_mset v (mset (remove_at i xs))"
proof -
  obtain k where "i = int k" "k < length xs" "v = xs ! k"
    using assms by (auto simp: js_index_Some)
  moreover have "mset xs = mset (take k xs @ xs ! k # drop (Suc k) xs)"
    using \<open>k < length xs\<close> by (simp add: id_take_nth_drop [symmetric])
  ultimately show ?thesis by simp
qed

lemma length_remove_at:
  "js_index xs i = Some v \<Longrightarrow> length xs = Suc (length (remove_at i xs))"
  using mset_remove_at [of xs i v] by (metis size_mset size_add_mset)

lemma set_remove_at: "set (remove_at i xs) \<subseteq> set xs"
proof
  fix v assume "v \<in> set (remove_at i xs)"
  then obtain j where "(j, v) \<in> set (enumerate 0 xs)"
    unfolding remove_at_def by auto
  then show "v \<in> set xs"
    by (auto simp: in_set_enumerate_eq)
qed

lemma map_map_at: "(\<And>x. g (f x) = g x) \<Longrightarrow> map g (map_at i f xs) = map g xs"
proof -
  assume g: "\<And>x. g (f x) = g x"
  have "map g (map_at i f xs) = map (g \<circ> snd) (enumerate 0 xs)"
    unfolding map_at_def by (auto simp: g)
  also have "\<dots> = map g (map snd (enumerate 0 xs))" by (simp only: map_map)
  finally show ?thesis by simp
qed

lemma length_map_at [simp]: "length (map_at i f xs) = length xs"
  by (simp add: map_at_def)

section \<open>Strings\<close>

text \<open>
  A number spliced into a template string: the decimal digits of an integer. The inverse
  \<open>nat_of_string\<close> shows that distinct numbers print differently.
\<close>

definition digit_char :: "nat \<Rightarrow> char" where
  "digit_char d = char_of (48 + d)"

fun string_of_nat :: "nat \<Rightarrow> string" where
  "string_of_nat n =
     (if n < 10 then [digit_char n] else string_of_nat (n div 10) @ [digit_char (n mod 10)])"

declare string_of_nat.simps [simp del]

definition string_of_int :: "int \<Rightarrow> string" where
  "string_of_int i = (if i < 0 then ''-'' @ string_of_nat (nat (- i)) else string_of_nat (nat i))"

definition nat_of_string :: "string \<Rightarrow> nat" where
  "nat_of_string s = foldl (\<lambda>a c. a * 10 + (of_char c - 48)) 0 s"

lemma of_char_digit_char: "d < 10 \<Longrightarrow> (of_char (digit_char d) :: nat) = 48 + d"
  by (simp add: digit_char_def of_char_of)

lemma nat_of_string_of_nat [simp]: "nat_of_string (string_of_nat n) = n"
proof (induction n rule: string_of_nat.induct)
  case (1 n)
  show ?case
  proof (cases "n < 10")
    case True
    then show ?thesis
      by (subst string_of_nat.simps) (simp add: nat_of_string_def of_char_digit_char)
  next
    case False
    then have "nat_of_string (string_of_nat n) =
        nat_of_string (string_of_nat (n div 10)) * 10 + n mod 10"
      by (subst string_of_nat.simps) (simp add: nat_of_string_def of_char_digit_char)
    also have "\<dots> = n" using "1.IH" False by simp
    finally show ?thesis .
  qed
qed

lemma string_of_nat_inject [simp]: "string_of_nat m = string_of_nat n \<longleftrightarrow> m = n"
  by (metis nat_of_string_of_nat)

lemma string_of_nat_nonempty [simp]: "string_of_nat n \<noteq> []"
  by (subst string_of_nat.simps) simp

definition is_digit :: "char \<Rightarrow> bool" where
  "is_digit c \<longleftrightarrow> 48 \<le> (of_char c :: nat) \<and> (of_char c :: nat) \<le> 57"

lemma is_digit_digit_char: "d < 10 \<Longrightarrow> is_digit (digit_char d)"
  by (simp add: is_digit_def of_char_digit_char)

lemma string_of_nat_digits: "c \<in> set (string_of_nat n) \<Longrightarrow> is_digit c"
proof (induction n rule: string_of_nat.induct)
  case (1 n)
  show ?case
  proof (cases "n < 10")
    case True
    then show ?thesis
      using "1.prems" by (subst (asm) string_of_nat.simps) (auto simp: is_digit_digit_char)
  next
    case False
    then have "c \<in> set (string_of_nat (n div 10)) \<or> c = digit_char (n mod 10)"
      using "1.prems" by (subst (asm) string_of_nat.simps) auto
    then show ?thesis using "1.IH" False by (auto simp: is_digit_digit_char)
  qed
qed

lemma string_of_int_inject [simp]: "string_of_int i = string_of_int j \<longleftrightarrow> i = j"
proof -
  have minus: "CHR ''-'' # s \<noteq> string_of_nat n" for s n
    using string_of_nat_digits [of "CHR ''-''" n] by (auto simp: is_digit_def) (metis list.set_intros(1))
  show ?thesis
    using minus minus [symmetric] by (auto simp: string_of_int_def)
qed

text \<open>\<open>s.startsWith(p)\<close>, \<open>s.endsWith(p)\<close> and \<open>s.includes(q)\<close>.\<close>

definition starts_with :: "string \<Rightarrow> string \<Rightarrow> bool" where
  "starts_with p s = (take (length p) s = p)"

definition ends_with :: "string \<Rightarrow> string \<Rightarrow> bool" where
  "ends_with p s = starts_with (rev p) (rev s)"

fun str_includes :: "string \<Rightarrow> string \<Rightarrow> bool" where
  "str_includes q [] = (q = [])"
| "str_includes q (c # cs) = (starts_with q (c # cs) \<or> str_includes q cs)"

lemma starts_with_iff: "starts_with p s \<longleftrightarrow> (\<exists>t. s = p @ t)"
  unfolding starts_with_def by (metis append_eq_conv_conj append_take_drop_id)

lemma starts_with_append [simp]: "starts_with p (p @ t)"
  by (simp add: starts_with_def)

lemma ends_with_iff: "ends_with p s \<longleftrightarrow> (\<exists>t. s = t @ p)"
  unfolding ends_with_def starts_with_iff
  by (metis rev_append rev_rev_ident)

lemma str_includes_iff: "str_includes q s \<longleftrightarrow> (\<exists>a b. s = a @ q @ b)"
proof (induction s)
  case (Cons c cs)
  have "(\<exists>a b. c # cs = a @ q @ b) \<longleftrightarrow> (\<exists>b. c # cs = q @ b) \<or> (\<exists>a b. cs = a @ q @ b)"
    by (metis append_Cons append_Nil list.inject neq_Nil_conv)
  then show ?case using Cons by (auto simp: starts_with_iff)
qed auto

text \<open>\<open>s.toLowerCase()\<close> on ASCII letters.\<close>

definition lower_char :: "char \<Rightarrow> char" where
  "lower_char c = (let n = (of_char c :: nat) in if 65 \<le> n \<and> n \<le> 90 then char_of (n + 32) else c)"

definition to_lower :: "string \<Rightarrow> string" where
  "to_lower s = map lower_char s"

lemma length_to_lower [simp]: "length (to_lower s) = length s"
  by (simp add: to_lower_def)

definition hex_digit :: "nat \<Rightarrow> char" where
  "hex_digit d = (if d < 10 then char_of (48 + d) else char_of (55 + d))"

definition uri_unreserved :: "char \<Rightarrow> bool" where
  "uri_unreserved c = (let n = (of_char c :: nat) in
     48 \<le> n \<and> n \<le> 57 \<or> 65 \<le> n \<and> n \<le> 90 \<or> 97 \<le> n \<and> n \<le> 122 \<or> c \<in> set ''-_.!~*'' \<or> n \<in> {39, 40, 41})"

text \<open>\<open>encodeURIComponent\<close> on code units below 256, escaping the UTF-8 bytes of the others.\<close>

definition percent_byte :: "nat \<Rightarrow> string" where
  "percent_byte b = [CHR ''%'', hex_digit (b div 16), hex_digit (b mod 16)]"

definition encode_char :: "char \<Rightarrow> string" where
  "encode_char c = (let n = (of_char c :: nat) in
     if uri_unreserved c then [c]
     else if n < 128 then percent_byte n
     else percent_byte (192 + n div 64) @ percent_byte (128 + n mod 64))"

definition encodeURIComponent :: "string \<Rightarrow> string" where
  "encodeURIComponent s = concat (map encode_char s)"

text \<open>\<open>xs.join(sep)\<close>.\<close>

fun join :: "string \<Rightarrow> string list \<Rightarrow> string" where
  "join sep [] = []"
| "join sep [x] = x"
| "join sep (x # y # ys) = x @ sep @ join sep (y # ys)"

section \<open>Map: insertion-ordered association lists\<close>

type_synonym ('k, 'v) jsmap = "('k \<times> 'v) list"

definition map_get :: "('k, 'v) jsmap \<Rightarrow> 'k \<Rightarrow> 'v option" where
  "map_get m k = map_of m k"

definition map_set :: "('k, 'v) jsmap \<Rightarrow> 'k \<Rightarrow> 'v \<Rightarrow> ('k, 'v) jsmap" where
  "map_set m k v = AList.update k v m"

definition map_delete :: "('k, 'v) jsmap \<Rightarrow> 'k \<Rightarrow> ('k, 'v) jsmap" where
  "map_delete m k = AList.delete k m"

definition map_keys :: "('k, 'v) jsmap \<Rightarrow> 'k list" where
  "map_keys m = map fst m"

definition map_has :: "('k, 'v) jsmap \<Rightarrow> 'k \<Rightarrow> bool" where
  "map_has m k = (map_get m k \<noteq> None)"

text \<open>
  What the code relies on of a \<open>Map\<close>: lookup after every update, and that iteration follows
  the first insertion of each key.
\<close>

locale ordered_map =
  fixes get :: "'m \<Rightarrow> 'k \<Rightarrow> 'v option"
    and put :: "'m \<Rightarrow> 'k \<Rightarrow> 'v \<Rightarrow> 'm"
    and del :: "'m \<Rightarrow> 'k \<Rightarrow> 'm"
    and keys :: "'m \<Rightarrow> 'k list"
  assumes get_put: "get (put m k v) k' = (if k' = k then Some v else get m k')"
    and get_del: "get (del m k) k' = (if k' = k then None else get m k')"
    and keys_put: "keys (put m k v) = set_add k (keys m)"
    and keys_del: "keys (del m k) = filter (\<lambda>k'. k' \<noteq> k) (keys m)"
    and keys_get: "k \<in> set (keys m) \<longleftrightarrow> get m k \<noteq> None"
begin

lemma distinct_put: "distinct (keys m) \<Longrightarrow> distinct (keys (put m k v))"
  by (simp add: keys_put)

lemma distinct_del: "distinct (keys m) \<Longrightarrow> distinct (keys (del m k))"
  by (simp add: keys_del)

lemma get_foldl_put:
  "get (foldl (\<lambda>m x. put m (kf x) (vf x)) m xs) k =
     (case find (\<lambda>x. kf x = k) (rev xs) of None \<Rightarrow> get m k | Some x \<Rightarrow> Some (vf x))"
proof (induction xs rule: rev_induct)
  case (snoc x xs)
  then show ?case by (simp add: get_put)
qed simp

lemma size_put_le: "length (keys (put m k v)) \<le> Suc (length (keys m))"
  by (simp add: keys_put set_add_def)

lemma get_in_keys: "get m k = Some v \<Longrightarrow> k \<in> set (keys m)"
  by (simp add: keys_get)

end

interpretation js: ordered_map map_get map_set map_delete map_keys
proof
  fix m :: "('k, 'v) jsmap" and k k' v
  show "map_get (map_set m k v) k' = (if k' = k then Some v else map_get m k')"
    by (simp add: map_get_def map_set_def update_conv')
  show "map_get (map_delete m k) k' = (if k' = k then None else map_get m k')"
    by (simp add: map_get_def map_delete_def delete_conv')
  show "map_keys (map_set m k v) = set_add k (map_keys m)"
    by (simp add: map_keys_def map_set_def set_add_def update_keys)
  show "map_keys (map_delete m k) = filter (\<lambda>k'. k' \<noteq> k) (map_keys m)"
    by (simp add: map_keys_def map_delete_def delete_keys removeAll_filter_not_eq eq_commute)
  show "k \<in> set (map_keys m) \<longleftrightarrow> map_get m k \<noteq> None"
    by (simp add: map_keys_def map_get_def map_of_eq_None_iff)
qed

lemmas js_map_simps = js.get_put js.get_del js.keys_put js.keys_del

lemma map_get_Nil [simp]: "map_get [] k = None"
  by (simp add: map_get_def)

lemma map_keys_Nil [simp]: "map_keys [] = []"
  by (simp add: map_keys_def)

lemma map_get_SomeD: "map_get m k = Some v \<Longrightarrow> (k, v) \<in> set m"
  by (simp add: map_get_def map_of_SomeD)

lemma map_get_in: "distinct (map_keys m) \<Longrightarrow> (k, v) \<in> set m \<longleftrightarrow> map_get m k = Some v"
  by (metis map_get_def map_keys_def map_of_eq_Some_iff)


text \<open>
  The grouping idiom \<open>list = m.get(k) ?? []; list.push(x); m.set(k, list)\<close>: each key holds,
  in order, the values pushed under it.
\<close>

definition map_push :: "('k, 'v list) jsmap \<Rightarrow> 'k \<Rightarrow> 'v \<Rightarrow> ('k, 'v list) jsmap" where
  "map_push m k v = map_set m k (nullish (map_get m k) [] @ [v])"

definition group_on :: "('x \<Rightarrow> 'k) \<Rightarrow> ('x \<Rightarrow> 'v) \<Rightarrow> 'x list \<Rightarrow> ('k, 'v list) jsmap" where
  "group_on kf vf xs = foldl (\<lambda>m x. map_push m (kf x) (vf x)) [] xs"

definition members :: "('k, 'v list) jsmap \<Rightarrow> 'k \<Rightarrow> 'v list" where
  "members m k = nullish (map_get m k) []"

lemma members_push [simp]:
  "members (map_push m k v) k' = (if k' = k then members m k @ [v] else members m k')"
  by (simp add: members_def map_push_def js.get_put)

lemma map_keys_push: "map_keys (map_push m k v) = set_add k (map_keys m)"
  by (simp add: map_push_def js.keys_put)

lemma members_group_on: "members (group_on kf vf xs) k = map vf (filter (\<lambda>x. kf x = k) xs)"
proof (induction xs rule: rev_induct)
  case Nil
  then show ?case by (simp add: group_on_def members_def)
next
  case (snoc x xs)
  then show ?case by (auto simp: group_on_def)
qed

lemma set_keys_group_on: "set (map_keys (group_on kf vf xs)) = kf ` set xs"
proof (induction xs rule: rev_induct)
  case (snoc x xs)
  then show ?case by (simp add: group_on_def map_keys_push)
qed (simp add: group_on_def)

lemma distinct_keys_group_on [simp]: "distinct (map_keys (group_on kf vf xs))"
proof (induction xs rule: rev_induct)
  case (snoc x xs)
  then show ?case by (simp add: group_on_def map_keys_push)
qed (simp add: group_on_def)

lemma map_get_group_on:
  "map_get (group_on kf vf xs) k =
     (if k \<in> kf ` set xs then Some (map vf (filter (\<lambda>x. kf x = k) xs)) else None)"
proof (cases "k \<in> kf ` set xs")
  case True
  then obtain v where "map_get (group_on kf vf xs) k = Some v"
    using js.keys_get [of k "group_on kf vf xs"] by (auto simp: set_keys_group_on)
  then show ?thesis
    using True members_group_on [of kf vf xs k] by (simp add: members_def)
next
  case False
  then show ?thesis
    using js.keys_get [of k "group_on kf vf xs"] by (auto simp: set_keys_group_on)
qed

lemma group_on_entry:
  "(k, vs) \<in> set (group_on kf vf xs) \<Longrightarrow> vs = map vf (filter (\<lambda>x. kf x = k) xs)"
  using map_get_in [of "group_on kf vf xs" k vs] by (auto simp: map_get_group_on split: if_splits)

section \<open>Sorting\<close>

text \<open>
  \<open>xs.sort(cmp)\<close>: stable since ES2019, so a consistent comparator fixes the result. It is
  computed here by insertion; the locale \<open>comparator\<close> states what consistent means, and
  shows that the result is sorted, a permutation, and keeps ties in order.
\<close>

fun ins_by :: "('a \<Rightarrow> 'a \<Rightarrow> 'n::linordered_idom) \<Rightarrow> 'a \<Rightarrow> 'a list \<Rightarrow> 'a list" where
  "ins_by cmp x [] = [x]"
| "ins_by cmp x (y # ys) = (if cmp x y \<le> 0 then x # y # ys else y # ins_by cmp x ys)"

definition js_sort :: "('a \<Rightarrow> 'a \<Rightarrow> 'n::linordered_idom) \<Rightarrow> 'a list \<Rightarrow> 'a list" where
  "js_sort cmp xs = foldr (ins_by cmp) xs []"

lemma mset_ins_by [simp]: "mset (ins_by cmp x ys) = add_mset x (mset ys)"
  by (induction ys) auto

lemma mset_js_sort [simp]: "mset (js_sort cmp xs) = mset xs"
  by (induction xs) (simp_all add: js_sort_def)

lemma set_js_sort [simp]: "set (js_sort cmp xs) = set xs"
  by (metis mset_js_sort set_mset_mset)

lemma length_js_sort [simp]: "length (js_sort cmp xs) = length xs"
  by (metis mset_js_sort size_mset)

lemma distinct_map_js_sort [simp]: "distinct (map f (js_sort cmp xs)) \<longleftrightarrow> distinct (map f xs)"
  by (metis mset_js_sort mset_map mset_eq_imp_distinct_iff)

lemma js_sort_Cons: "js_sort cmp (x # xs) = ins_by cmp x (js_sort cmp xs)"
  by (simp add: js_sort_def)

text \<open>On distinct elements a sort never compares an element with itself.\<close>

lemma ins_by_cong:
  "(\<And>y. y \<in> set ys \<Longrightarrow> cmp x y \<le> 0 \<longleftrightarrow> cmp' x y \<le> 0) \<Longrightarrow> ins_by cmp x ys = ins_by cmp' x ys"
  by (induction ys) auto

lemma js_sort_cong:
  "distinct xs \<Longrightarrow> (\<And>a b. a \<in> set xs \<Longrightarrow> b \<in> set xs \<Longrightarrow> a \<noteq> b \<Longrightarrow> cmp a b \<le> 0 \<longleftrightarrow> cmp' a b \<le> 0)
    \<Longrightarrow> js_sort cmp xs = js_sort cmp' xs"
proof (induction xs)
  case (Cons x xs)
  have "js_sort cmp xs = js_sort cmp' xs" by (rule Cons.IH) (use Cons.prems in auto)
  moreover have "ins_by cmp x (js_sort cmp' xs) = ins_by cmp' x (js_sort cmp' xs)"
    by (rule ins_by_cong) (use Cons.prems in auto)
  ultimately show ?case by (simp add: js_sort_Cons)
qed (simp add: js_sort_def)

text \<open>Counting by a key loses nothing.\<close>

lemma length_by_key:
  "finite K \<Longrightarrow> f ` set ys \<subseteq> K \<Longrightarrow> (\<Sum>k\<in>K. length (filter (\<lambda>y. f y = k) ys)) = length ys"
proof (induction ys)
  case (Cons y ys)
  have "(\<Sum>k\<in>K. length (filter (\<lambda>z. f z = k) (y # ys)))
      = (\<Sum>k\<in>K. (if f y = k then 1 else 0) + length (filter (\<lambda>z. f z = k) ys))"
    by (rule sum.cong) auto
  also have "\<dots> = Suc (length ys)"
    using Cons by (simp add: sum.distrib)
  finally show ?case by simp
qed simp

locale comparator =
  fixes cmp :: "'a \<Rightarrow> 'a \<Rightarrow> 'n::linordered_idom"
  assumes anti: "cmp a b \<le> 0 \<longleftrightarrow> 0 \<le> cmp b a"
    and trans: "cmp a b \<le> 0 \<Longrightarrow> cmp b c \<le> 0 \<Longrightarrow> cmp a c \<le> 0"
begin

lemma refl: "cmp a a = 0"
  using anti [of a a] by (cases "cmp a a \<le> 0") auto

lemma total: "cmp a b \<le> 0 \<or> cmp b a \<le> 0"
proof (cases "cmp a b \<le> 0")
  case False
  then have "cmp b a < 0" by (simp only: anti [of a b] not_le)
  then show ?thesis by (simp add: order_less_imp_le)
qed simp

lemma tie_sym: "cmp a b = 0 \<longleftrightarrow> cmp b a = 0"
proof -
  have eq: "cmp x y = 0 \<longleftrightarrow> cmp x y \<le> 0 \<and> cmp y x \<le> 0" for x y
    by (metis anti order_antisym order_refl)
  show ?thesis by (simp only: eq conj_commute)
qed

lemma sorted_ins_by:
  assumes "sorted_wrt (\<lambda>a b. cmp a b \<le> 0) ys"
  shows "sorted_wrt (\<lambda>a b. cmp a b \<le> 0) (ins_by cmp x ys)"
  using assms
proof (induction ys)
  case (Cons y ys)
  have s: "set (ins_by cmp x ys) = insert x (set ys)"
    by (metis mset_ins_by set_mset_add_mset_insert set_mset_mset)
  show ?case
  proof (cases "cmp x y \<le> 0")
    case True
    then show ?thesis using Cons.prems by (auto intro: trans)
  next
    case False
    then have "cmp y x \<le> 0" using total by blast
    then show ?thesis using False Cons s by auto
  qed
qed simp

lemma sorted_js_sort: "sorted_wrt (\<lambda>a b. cmp a b \<le> 0) (js_sort cmp xs)"
  by (induction xs) (simp_all add: js_sort_Cons sorted_ins_by, simp add: js_sort_def)

lemma ins_by_sorted:
  "sorted_wrt (\<lambda>a b. cmp a b \<le> 0) (x # xs) \<Longrightarrow> ins_by cmp x xs = x # xs"
  by (cases xs) auto

lemma js_sort_sorted: "sorted_wrt (\<lambda>a b. cmp a b \<le> 0) xs \<Longrightarrow> js_sort cmp xs = xs"
proof (induction xs)
  case (Cons x xs)
  then have "js_sort cmp xs = xs" by simp
  then show ?case using Cons.prems by (simp only: js_sort_Cons ins_by_sorted)
qed (simp add: js_sort_def)

lemma js_sort_idem: "js_sort cmp (js_sort cmp xs) = js_sort cmp xs"
  by (rule js_sort_sorted) (rule sorted_js_sort)

lemma filter_ins_by:
  assumes "sorted_wrt (\<lambda>a b. cmp a b \<le> 0) ys"
    and "\<And>a b. P a \<Longrightarrow> P b \<Longrightarrow> cmp a b = 0"
  shows "filter P (ins_by cmp x ys) = (if P x then x # filter P ys else filter P ys)"
  using assms(1)
proof (induction ys)
  case (Cons y ys)
  show ?case
  proof (cases "cmp x y \<le> 0")
    case False
    then have "\<not> (P x \<and> P y)" using assms(2) [of x y] by auto
    then show ?thesis using False Cons by auto
  qed auto
qed simp

text \<open>Stability: among mutually tied elements the sort keeps the input order.\<close>

lemma js_sort_stable:
  assumes "\<And>a b. P a \<Longrightarrow> P b \<Longrightarrow> cmp a b = 0"
  shows "filter P (js_sort cmp xs) = filter P xs"
proof (induction xs)
  case (Cons x xs)
  then show ?case
    using filter_ins_by [where P = P and ys = "js_sort cmp xs" and x = x, OF sorted_js_sort assms]
    by (simp add: js_sort_Cons)
qed (simp add: js_sort_def)

end

text \<open>
  \<open>a.localeCompare(b)\<close> compares by the host's collation, which ECMA-402 requires to be
  consistent but does not fix: it is a parameter of the model, with the laws of this locale.
  Comparison by code units (the order of \<open>sort()\<close> without a comparator) is an instance.
\<close>

type_synonym collator = "string \<Rightarrow> string \<Rightarrow> int"

locale collation =
  fixes lc :: collator
  assumes lc_anti: "lc a b \<le> 0 \<longleftrightarrow> 0 \<le> lc b a"
    and lc_trans: "lc a b \<le> 0 \<Longrightarrow> lc b c \<le> 0 \<Longrightarrow> lc a c \<le> 0"
begin

lemma lc_refl [simp]: "lc a a = 0"
  using lc_anti [of a a] by (cases "lc a a \<le> 0") auto

lemma lc_tie_sym: "lc a b = 0 \<longleftrightarrow> lc b a = 0"
  using lc_anti [of a b] lc_anti [of b a] by auto

lemma lc_tie_trans: "lc a b = 0 \<Longrightarrow> lc b c = 0 \<Longrightarrow> lc a c = 0"
  by (metis lc_anti lc_tie_sym lc_trans order_antisym order_refl)

lemma lc_pos: "0 < lc a b \<longleftrightarrow> lc b a < 0"
  using lc_anti [of a b] by linarith

end

sublocale collation \<subseteq> names: comparator lc
  by unfold_locales (fact lc_anti, fact lc_trans)

definition code_unit_compare :: collator where
  "code_unit_compare a b = (if a < b then -1 else if a = b then 0 else 1)"

interpretation code_units: collation code_unit_compare
  by unfold_locales (auto simp: code_unit_compare_def split: if_splits)

text \<open>\<open>xs.sort()\<close> on strings, without a comparator.\<close>

abbreviation sort_strings :: "string list \<Rightarrow> string list" where
  "sort_strings \<equiv> sort"

section \<open>Numbers\<close>

text \<open>\<open>Math.round\<close>: to the nearest integer, halves up.\<close>

definition math_round :: "real \<Rightarrow> real" where
  "math_round v = of_int \<lfloor>v + 1 / 2\<rfloor>"

lemma math_round_of_int [simp]: "math_round (of_int i) = of_int i"
proof -
  have "\<lfloor>real_of_int i + 1 / 2\<rfloor> = i" by linarith
  then show ?thesis by (simp add: math_round_def)
qed

lemma math_round_numeral [simp]: "math_round (numeral n) = numeral n"
  using math_round_of_int [of "numeral n"] by simp

lemma math_round_mono: "a \<le> b \<Longrightarrow> math_round a \<le> math_round b"
  by (simp add: math_round_def floor_mono)

lemma math_round_close: "\<bar>math_round v - v\<bar> \<le> 1 / 2"
  unfolding math_round_def by linarith

section \<open>Machines\<close>

text \<open>
  A component with state is a step function over events; a run folds it over a list of them.
  An invariant kept by every enabled event holds after every run of enabled events.
\<close>

definition run :: "('s \<Rightarrow> 'e \<Rightarrow> 's) \<Rightarrow> 's \<Rightarrow> 'e list \<Rightarrow> 's" where
  "run step s es = foldl step s es"

fun enabled_run :: "('s \<Rightarrow> 'e \<Rightarrow> 's) \<Rightarrow> ('s \<Rightarrow> 'e \<Rightarrow> bool) \<Rightarrow> 's \<Rightarrow> 'e list \<Rightarrow> bool" where
  "enabled_run step ok s [] = True"
| "enabled_run step ok s (e # es) = (ok s e \<and> enabled_run step ok (step s e) es)"

lemma run_simps [simp]:
  "run step s [] = s" "run step s (e # es) = run step (step s e) es"
  by (simp_all add: run_def)

lemma run_append: "run step s (es @ fs) = run step (run step s es) fs"
  by (simp add: run_def)

locale machine =
  fixes step :: "'s \<Rightarrow> 'e \<Rightarrow> 's"
    and ok :: "'s \<Rightarrow> 'e \<Rightarrow> bool"
    and inv :: "'s \<Rightarrow> bool"
  assumes step_inv: "inv s \<Longrightarrow> ok s e \<Longrightarrow> inv (step s e)"
begin

lemma run_inv: "inv s \<Longrightarrow> enabled_run step ok s es \<Longrightarrow> inv (run step s es)"
  by (induction es arbitrary: s) (auto intro: step_inv)

end

lemma enabled_run_True [simp]: "enabled_run step (\<lambda>_ _. True) s es"
  by (induction es arbitrary: s) auto

end
