(* ===== verification/Constants.thy ===== *)
theory Constants
  imports Prelude
begin

text \<open>
  The shared constants of \<^verbatim>\<open>frontend/src/utils/constants.ts\<close> the modelled code reads. Pixels,
  opacities and percentages are reals, counts and delays are integral. The collection
  \<open>js_const\<close> unfolds them all.
\<close>

named_theorems js_const \<open>values of the program's constants\<close>

definition CONTAINER_NODE_HEIGHT :: real where
  [js_const]: "CONTAINER_NODE_HEIGHT = 84"
definition VOLUME_NODE_HEIGHT :: real where
  [js_const]: "VOLUME_NODE_HEIGHT = 40"
definition SERVICE_CARD_HEADER_HEIGHT :: real where
  [js_const]: "SERVICE_CARD_HEADER_HEIGHT = 28"
definition SERVICE_CARD_ROW_HEIGHT :: real where
  [js_const]: "SERVICE_CARD_ROW_HEIGHT = 20"
definition SERVICE_CARD_PADDING_BOTTOM :: real where
  [js_const]: "SERVICE_CARD_PADDING_BOTTOM = 6"
definition NODE_BOX_HEADER_HEIGHT :: real where
  [js_const]: "NODE_BOX_HEADER_HEIGHT = 66"
definition NODE_BOX_MIN_HEIGHT :: real where
  [js_const]: "NODE_BOX_MIN_HEIGHT = 108"

definition FADE_OPACITY :: real where
  [js_const]: "FADE_OPACITY = 2 / 10"
definition EDGE_FADE_OPACITY :: real where
  [js_const]: "EDGE_FADE_OPACITY = 15 / 100"
definition RECONNECT_MAX_DELAY :: nat where
  [js_const]: "RECONNECT_MAX_DELAY = 30000"
definition ANIMATION_NODE_LIMIT :: nat where
  [js_const]: "ANIMATION_NODE_LIMIT = 150"
definition DOT_SPEED :: real where
  [js_const]: "DOT_SPEED = 160"
definition MIN_ANIMATION_DURATION :: real where
  [js_const]: "MIN_ANIMATION_DURATION = 15 / 10"
definition DOT_SPACING :: real where
  [js_const]: "DOT_SPACING = 150"
definition MIN_DOTS :: real where
  [js_const]: "MIN_DOTS = 3"
definition MAX_DOTS :: real where
  [js_const]: "MAX_DOTS = 8"
definition DEFAULT_EDGE_STROKE_WIDTH :: real where
  [js_const]: "DEFAULT_EDGE_STROKE_WIDTH = 1"
definition DEFAULT_EDGE_STROKE :: string where
  [js_const]: "DEFAULT_EDGE_STROKE = ''#475569''"
definition HIGHLIGHT_EDGE_STROKE_WIDTH :: real where
  [js_const]: "HIGHLIGHT_EDGE_STROKE_WIDTH = 25 / 10"

definition LOG_BUFFER_SIZE :: nat where
  [js_const]: "LOG_BUFFER_SIZE = 2000"
definition STATS_CPU_WARN :: real where
  [js_const]: "STATS_CPU_WARN = 60"
definition STATS_CPU_CRIT :: real where
  [js_const]: "STATS_CPU_CRIT = 85"
definition STATS_THROTTLE_CRIT :: real where
  [js_const]: "STATS_THROTTLE_CRIT = 50"

definition HEADER_HEIGHT :: real where
  [js_const]: "HEADER_HEIGHT = 50"
definition DOCK_HEIGHT :: real where
  [js_const]: "DOCK_HEIGHT = 36"
definition WINDOW_DEFAULT_W :: real where
  [js_const]: "WINDOW_DEFAULT_W = 460"
definition WINDOW_DEFAULT_H :: real where
  [js_const]: "WINDOW_DEFAULT_H = 340"
definition WINDOW_MIN_W :: real where
  [js_const]: "WINDOW_MIN_W = 280"
definition WINDOW_MIN_H :: real where
  [js_const]: "WINDOW_MIN_H = 160"
definition WINDOW_CASCADE :: real where
  [js_const]: "WINDOW_CASCADE = 28"

end
