(* ===== verification/LogWindows.thy ===== *)
theory LogWindows
  imports Constants
begin

text \<open>
  The floating log windows: the pure state of \<^verbatim>\<open>frontend/src/hooks/logWindowsState.ts\<close> with its
  transitions, and the controller of \<^verbatim>\<open>frontend/src/hooks/useLogWindows.ts\<close> that binds them to
  the viewport and flashes a window that was already open. The invariant \<open>wf_windows\<close> says that
  windows have tabs, an active one among them, distinct ids and stacking positions, and that no
  container is streamed twice.
\<close>

section \<open>State\<close>

record LogTab =
  lt_containerId :: string
  lt_title :: string
  lt_search :: string

record LogWindowState =
  lw_id :: string
  lw_tabs :: "LogTab list"
  lw_activeTab :: int
  lw_x :: real
  lw_y :: real
  lw_w :: real
  lw_h :: real
  lw_z :: nat
  lw_minimized :: bool

record WindowsState =
  ws_windows :: "LogWindowState list"
  ws_nextZ :: nat
  ws_nextId :: nat

record Viewport =
  vp_width :: real
  vp_height :: real
  vp_headerHeight :: real
  vp_dockHeight :: real

definition initialWindowsState :: WindowsState where
  "initialWindowsState = \<lparr>ws_windows = [], ws_nextZ = 1, ws_nextId = 1\<rparr>"

definition window_name :: "nat \<Rightarrow> string" where
  "window_name n = ''lw-'' @ string_of_nat n"

section \<open>Transitions\<close>

definition clampPosition :: "real \<Rightarrow> real \<Rightarrow> real \<Rightarrow> Viewport \<Rightarrow> real \<times> real" where
  "clampPosition px py w vp =
     (let maxX = max 0 (vp_width vp - w);
          minY = vp_headerHeight vp;
          maxY = max minY (vp_height vp - vp_dockHeight vp - 40)
      in (min (max 0 px) maxX, min (max minY py) maxY))"

text \<open>\<open>s.windows.map(w => w.id === id ? f(w) : w)\<close>.\<close>

definition on_window :: "string \<Rightarrow> (LogWindowState \<Rightarrow> LogWindowState) \<Rightarrow> LogWindowState list \<Rightarrow> LogWindowState list" where
  "on_window i f ws = map (\<lambda>w. if lw_id w = i then f w else w) ws"

definition holds_container :: "string \<Rightarrow> LogWindowState \<Rightarrow> bool" where
  "holds_container c w = (\<exists>t\<in>set (lw_tabs w). lt_containerId t = c)"

definition findContainerWindow :: "WindowsState \<Rightarrow> string \<Rightarrow> LogWindowState option" where
  "findContainerWindow s c = find (holds_container c) (ws_windows s)"

definition find_window :: "WindowsState \<Rightarrow> string \<Rightarrow> LogWindowState option" where
  "find_window s i = find (\<lambda>w. lw_id w = i) (ws_windows s)"

definition focusWindow :: "WindowsState \<Rightarrow> string \<Rightarrow> WindowsState" where
  "focusWindow s i = (let z = ws_nextZ s in
     s\<lparr>ws_nextZ := z + 1, ws_windows := on_window i (\<lambda>w. w\<lparr>lw_z := z\<rparr>) (ws_windows s)\<rparr>)"

definition tab_index :: "string \<Rightarrow> LogTab list \<Rightarrow> int" where
  "tab_index c ts = (case find_index (\<lambda>t. lt_containerId t = c) ts of None \<Rightarrow> -1 | Some i \<Rightarrow> int i)"

definition fresh_window :: "WindowsState \<Rightarrow> LogTab \<Rightarrow> real \<Rightarrow> real \<Rightarrow> real \<Rightarrow> real \<Rightarrow> LogWindowState" where
  "fresh_window s t px py w h = \<lparr>lw_id = window_name (ws_nextId s), lw_tabs = [t],
     lw_activeTab = 0, lw_x = px, lw_y = py, lw_w = w, lw_h = h, lw_z = ws_nextZ s,
     lw_minimized = False\<rparr>"

definition openLogs :: "WindowsState \<Rightarrow> string \<Rightarrow> string \<Rightarrow> Viewport \<Rightarrow> WindowsState" where
  "openLogs s c title vp =
     (case findContainerWindow s c of
        Some existing \<Rightarrow>
          (let tabIndex = tab_index c (lw_tabs existing); z = ws_nextZ s
           in s\<lparr>ws_nextZ := z + 1, ws_windows := on_window (lw_id existing)
                (\<lambda>w. w\<lparr>lw_z := z, lw_minimized := False, lw_activeTab := tabIndex\<rparr>) (ws_windows s)\<rparr>)
      | None \<Rightarrow>
          (let count = real (length (ws_windows s));
               baseX = 80 + count * WINDOW_CASCADE;
               baseY = vp_headerHeight vp + 24 + count * WINDOW_CASCADE;
               (px, py) = clampPosition baseX baseY WINDOW_DEFAULT_W vp;
               win = fresh_window s \<lparr>lt_containerId = c, lt_title = title, lt_search = []\<rparr>
                       px py WINDOW_DEFAULT_W WINDOW_DEFAULT_H
           in \<lparr>ws_windows = ws_windows s @ [win], ws_nextZ = ws_nextZ s + 1,
               ws_nextId = ws_nextId s + 1\<rparr>))"

definition closeWindow :: "WindowsState \<Rightarrow> string \<Rightarrow> WindowsState" where
  "closeWindow s i = s\<lparr>ws_windows := filter (\<lambda>w. lw_id w \<noteq> i) (ws_windows s)\<rparr>"

definition moveWindow :: "WindowsState \<Rightarrow> string \<Rightarrow> real \<Rightarrow> real \<Rightarrow> Viewport \<Rightarrow> WindowsState" where
  "moveWindow s i px py vp = s\<lparr>ws_windows := on_window i
     (\<lambda>w. let p = clampPosition px py (lw_w w) vp in w\<lparr>lw_x := fst p, lw_y := snd p\<rparr>) (ws_windows s)\<rparr>"

definition resizeWindow :: "WindowsState \<Rightarrow> string \<Rightarrow> real \<Rightarrow> real \<Rightarrow> WindowsState" where
  "resizeWindow s i w h = s\<lparr>ws_windows := on_window i
     (\<lambda>win. win\<lparr>lw_w := max WINDOW_MIN_W (math_round w), lw_h := max WINDOW_MIN_H (math_round h)\<rparr>)
     (ws_windows s)\<rparr>"

definition minimizeWindow :: "WindowsState \<Rightarrow> string \<Rightarrow> WindowsState" where
  "minimizeWindow s i = s\<lparr>ws_windows := on_window i (\<lambda>w. w\<lparr>lw_minimized := True\<rparr>) (ws_windows s)\<rparr>"

definition restoreWindow :: "WindowsState \<Rightarrow> string \<Rightarrow> WindowsState" where
  "restoreWindow s i = (let z = ws_nextZ s in
     s\<lparr>ws_nextZ := z + 1,
       ws_windows := on_window i (\<lambda>w. w\<lparr>lw_minimized := False, lw_z := z\<rparr>) (ws_windows s)\<rparr>)"

definition clamp_tab :: "int \<Rightarrow> LogWindowState \<Rightarrow> int" where
  "clamp_tab idx w = min (max 0 idx) (int (length (lw_tabs w)) - 1)"

definition setActiveTab :: "WindowsState \<Rightarrow> string \<Rightarrow> int \<Rightarrow> WindowsState" where
  "setActiveTab s i idx = s\<lparr>ws_windows := on_window i
     (\<lambda>w. w\<lparr>lw_activeTab := clamp_tab idx w\<rparr>) (ws_windows s)\<rparr>"

definition setSearch :: "WindowsState \<Rightarrow> string \<Rightarrow> int \<Rightarrow> string \<Rightarrow> WindowsState" where
  "setSearch s i tabIndex query = s\<lparr>ws_windows := on_window i
     (\<lambda>w. w\<lparr>lw_tabs := map_at tabIndex (\<lambda>t. t\<lparr>lt_search := query\<rparr>) (lw_tabs w)\<rparr>) (ws_windows s)\<rparr>"

definition mergeWindows :: "WindowsState \<Rightarrow> string \<Rightarrow> string \<Rightarrow> WindowsState" where
  "mergeWindows s sourceId targetId =
     (if sourceId = targetId then s
      else case (find_window s sourceId, find_window s targetId) of
        (Some source, Some target) \<Rightarrow>
          (let z = ws_nextZ s; mergedTabs = lw_tabs target @ lw_tabs source
           in s\<lparr>ws_nextZ := z + 1, ws_windows := on_window targetId
                (\<lambda>w. w\<lparr>lw_tabs := mergedTabs, lw_activeTab := int (length (lw_tabs target)),
                       lw_z := z, lw_minimized := False\<rparr>)
                (filter (\<lambda>w. lw_id w \<noteq> sourceId) (ws_windows s))\<rparr>)
      | _ \<Rightarrow> s)"

text \<open>The \<open>remaining\<close> tabs of a window that lost one, as \<open>detachTab\<close> and \<open>closeTab\<close> store them.\<close>

definition keep_tabs :: "LogTab list \<Rightarrow> LogWindowState \<Rightarrow> LogWindowState" where
  "keep_tabs remaining w = w\<lparr>lw_tabs := remaining,
     lw_activeTab := min (lw_activeTab w) (int (length remaining) - 1)\<rparr>"

definition detachTab :: "WindowsState \<Rightarrow> string \<Rightarrow> int \<Rightarrow> real \<Rightarrow> real \<Rightarrow> WindowsState" where
  "detachTab s i tabIndex px py =
     (case find_window s i of None \<Rightarrow> s | Some win \<Rightarrow>
        if length (lw_tabs win) \<le> 1 then s
        else case js_index (lw_tabs win) tabIndex of None \<Rightarrow> s | Some tab \<Rightarrow>
          \<lparr>ws_windows = on_window i (keep_tabs (remove_at tabIndex (lw_tabs win)))
               (ws_windows s) @ [fresh_window s tab px py (lw_w win) (lw_h win)],
           ws_nextZ = ws_nextZ s + 1, ws_nextId = ws_nextId s + 1\<rparr>)"

definition closeTab :: "WindowsState \<Rightarrow> string \<Rightarrow> int \<Rightarrow> WindowsState" where
  "closeTab s i tabIndex =
     (case find_window s i of None \<Rightarrow> s | Some win \<Rightarrow>
        if length (lw_tabs win) \<le> 1 then closeWindow s i
        else s\<lparr>ws_windows := on_window i (keep_tabs (remove_at tabIndex (lw_tabs win)))
               (ws_windows s)\<rparr>)"

section \<open>The controller\<close>

record LogWindowsHook =
  hk_state :: WindowsState
  hk_flashId :: "string option"
  hk_viewport :: Viewport

datatype win_action =
  Open string string
| Close string
| CloseTab string int
| Focus string
| Move string real real
| Resize string real real
| Minimize string
| Restore string
| SetActiveTab string int
| SetSearch string int string
| Merge string string
| DetachTab string int real real
| ViewportResized Viewport
| FlashTimeout

definition hook_open :: "LogWindowsHook \<Rightarrow> string \<Rightarrow> string \<Rightarrow> LogWindowsHook" where
  "hook_open h c title =
     (let alreadyOpen = (\<exists>w\<in>set (ws_windows (hk_state h)). holds_container c w);
          next_state = openLogs (hk_state h) c title (hk_viewport h);
          flash = (if alreadyOpen
                   then (case find (holds_container c) (ws_windows next_state) of
                           Some win \<Rightarrow> Some (lw_id win) | None \<Rightarrow> hk_flashId h)
                   else hk_flashId h)
      in h\<lparr>hk_state := next_state, hk_flashId := flash\<rparr>)"

fun hook_step :: "LogWindowsHook \<Rightarrow> win_action \<Rightarrow> LogWindowsHook" where
  "hook_step h (Open c title) = hook_open h c title"
| "hook_step h (Close i) = h\<lparr>hk_state := closeWindow (hk_state h) i\<rparr>"
| "hook_step h (CloseTab i k) = h\<lparr>hk_state := closeTab (hk_state h) i k\<rparr>"
| "hook_step h (Focus i) = h\<lparr>hk_state := focusWindow (hk_state h) i\<rparr>"
| "hook_step h (Move i px py) = h\<lparr>hk_state := moveWindow (hk_state h) i px py (hk_viewport h)\<rparr>"
| "hook_step h (Resize i w v) = h\<lparr>hk_state := resizeWindow (hk_state h) i w v\<rparr>"
| "hook_step h (Minimize i) = h\<lparr>hk_state := minimizeWindow (hk_state h) i\<rparr>"
| "hook_step h (Restore i) = h\<lparr>hk_state := restoreWindow (hk_state h) i\<rparr>"
| "hook_step h (SetActiveTab i k) = h\<lparr>hk_state := setActiveTab (hk_state h) i k\<rparr>"
| "hook_step h (SetSearch i k q) = h\<lparr>hk_state := setSearch (hk_state h) i k q\<rparr>"
| "hook_step h (Merge a b) = h\<lparr>hk_state := mergeWindows (hk_state h) a b\<rparr>"
| "hook_step h (DetachTab i k px py) = h\<lparr>hk_state := detachTab (hk_state h) i k px py\<rparr>"
| "hook_step h (ViewportResized vp) = h\<lparr>hk_viewport := vp\<rparr>"
| "hook_step h FlashTimeout = h\<lparr>hk_flashId := None\<rparr>"

definition hook_init :: "Viewport \<Rightarrow> LogWindowsHook" where
  "hook_init vp = \<lparr>hk_state = initialWindowsState, hk_flashId = None, hk_viewport = vp\<rparr>"

end
