(* ===== verification/LogWindowsCorrect.thy ===== *)
theory LogWindowsCorrect
  imports LogWindows
begin

text \<open>
  Correctness of the floating log windows: \<open>wf_windows\<close> holds in every state a sequence of
  controller actions reaches; opening, merging and detaching do what they promise and lose no tab.
\<close>

section \<open>The invariant\<close>

definition all_tabs :: "WindowsState \<Rightarrow> LogTab list" where
  "all_tabs s = concat (map lw_tabs (ws_windows s))"

definition wf_window :: "nat \<Rightarrow> nat \<Rightarrow> LogWindowState \<Rightarrow> bool" where
  "wf_window nz ni w \<longleftrightarrow> 0 \<le> lw_activeTab w \<and> lw_activeTab w < int (length (lw_tabs w))
     \<and> lw_z w < nz \<and> (\<exists>k<ni. lw_id w = window_name k)
     \<and> WINDOW_MIN_W \<le> lw_w w \<and> WINDOW_MIN_H \<le> lw_h w"

definition wf_windows :: "WindowsState \<Rightarrow> bool" where
  "wf_windows s \<longleftrightarrow> (\<forall>w\<in>set (ws_windows s). wf_window (ws_nextZ s) (ws_nextId s) w)
     \<and> distinct (map lw_id (ws_windows s)) \<and> distinct (map lw_z (ws_windows s))
     \<and> distinct (map lt_containerId (all_tabs s))"

lemma window_name_inject [simp]: "window_name a = window_name b \<longleftrightarrow> a = b"
  by (simp add: window_name_def)

lemma wf_window_mono: "wf_window nz ni w \<Longrightarrow> nz \<le> nz' \<Longrightarrow> ni \<le> ni' \<Longrightarrow> wf_window nz' ni' w"
  by (auto simp: wf_window_def intro: order_less_le_trans)

lemma fresh_id: "wf_window nz ni w \<Longrightarrow> lw_id w \<noteq> window_name ni"
  by (auto simp: wf_window_def)

lemma wf_initial: "wf_windows initialWindowsState"
  by (simp add: wf_windows_def initialWindowsState_def all_tabs_def)

section \<open>Updating one window\<close>

lemma set_on_window: "set (on_window i f ws) = (\<lambda>w. if lw_id w = i then f w else w) ` set ws"
  by (simp add: on_window_def)

lemma map_on_window:
  "(\<And>w. lw_id w = i \<Longrightarrow> g (f w) = g w) \<Longrightarrow> map g (on_window i f ws) = map g ws"
  by (simp add: on_window_def)

lemma on_window_fixed: "(\<And>w. w \<in> set ws \<Longrightarrow> lw_id w = i \<Longrightarrow> f w = w) \<Longrightarrow> on_window i f ws = ws"
  unfolding on_window_def by (rule map_idI) simp

lemma on_window_absent: "(\<And>w. w \<in> set ws \<Longrightarrow> lw_id w \<noteq> i) \<Longrightarrow> on_window i f ws = ws"
  by (induction ws) (auto simp: on_window_def)

lemma window_unique:
  "distinct (map lw_id ws) \<Longrightarrow> v \<in> set ws \<Longrightarrow> w \<in> set ws \<Longrightarrow> lw_id v = lw_id w \<Longrightarrow> v = w"
  by (auto simp: distinct_map dest: inj_onD)

lemma id_notin_tail:
  "distinct (map lw_id (w # ws)) \<Longrightarrow> v \<in> set ws \<Longrightarrow> lw_id v \<noteq> lw_id w"
  by (simp, metis image_eqI)

text \<open>Only one window changes its stacking position, to one above all others.\<close>

lemma distinct_z_on_window:
  assumes "distinct (map lw_id ws)" "distinct (map lw_z ws)" "\<And>w. w \<in> set ws \<Longrightarrow> lw_z w < z"
    and f: "\<And>w. lw_id (f w) = lw_id w" "\<And>w. lw_z (f w) = z \<or> lw_z (f w) = lw_z w"
  shows "distinct (map lw_z (on_window i f ws))"
  using assms(1-3)
proof (induction ws)
  case (Cons w ws)
  have tail: "distinct (map lw_z (on_window i f ws))"
    by (rule Cons.IH) (use Cons.prems in auto)
  show ?case
  proof (cases "lw_id w = i")
    case True
    then have "on_window i f ws = ws"
      using id_notin_tail [OF Cons.prems(1)] by (intro on_window_absent) auto
    moreover have "lw_z (f w) \<notin> lw_z ` set ws"
      using f(2) [of w] Cons.prems by fastforce
    ultimately show ?thesis
      using True tail by (simp add: on_window_def)
  next
    case False
    have "lw_z w \<notin> lw_z ` set (on_window i f ws)"
    proof
      assume "lw_z w \<in> lw_z ` set (on_window i f ws)"
      then obtain v where v: "v \<in> set ws" "lw_z w = lw_z (if lw_id v = i then f v else v)"
        by (auto simp: set_on_window)
      then have "lw_z w = z \<or> lw_z w = lw_z v" using f(2) [of v] by (auto split: if_splits)
      then show False using v(1) Cons.prems by force
    qed
    moreover have "on_window i f (w # ws) = w # on_window i f ws"
      using False by (simp add: on_window_def)
    ultimately show ?thesis using tail by simp
  qed
qed (simp add: on_window_def)

text \<open>The shape most transitions share: one window changes, the ids and containers stay.\<close>

lemma wf_on_window:
  assumes wf: "wf_windows s" and nz: "ws_nextZ s \<le> nz"
    and f: "\<And>w. lw_id (f w) = lw_id w"
      "\<And>w. map lt_containerId (lw_tabs (f w)) = map lt_containerId (lw_tabs w)"
      "\<And>w. lw_z (f w) = lw_z w \<or> lw_z (f w) = ws_nextZ s \<and> ws_nextZ s < nz"
    and ok: "\<And>w. w \<in> set (ws_windows s) \<Longrightarrow> lw_id w = i \<Longrightarrow>
      wf_window (ws_nextZ s) (ws_nextId s) w \<Longrightarrow> wf_window nz (ws_nextId s) (f w)"
  shows "wf_windows (s\<lparr>ws_nextZ := nz, ws_windows := on_window i f (ws_windows s)\<rparr>)"
proof -
  let ?ws = "ws_windows s"
  have old: "\<And>w. w \<in> set ?ws \<Longrightarrow> wf_window (ws_nextZ s) (ws_nextId s) w"
    and ids: "distinct (map lw_id ?ws)" and zs: "distinct (map lw_z ?ws)"
    and cs: "distinct (map lt_containerId (all_tabs s))"
    using wf by (auto simp: wf_windows_def)
  have "\<forall>w\<in>set (on_window i f ?ws). wf_window nz (ws_nextId s) w"
    using old ok nz by (auto simp: set_on_window intro: wf_window_mono)
  moreover have "distinct (map lw_z (on_window i f ?ws))"
    by (rule distinct_z_on_window [where z = "ws_nextZ s"])
      (use ids zs f old in \<open>auto simp: wf_window_def\<close>)
  moreover have "map lw_id (on_window i f ?ws) = map lw_id ?ws"
    by (rule map_on_window) (rule f(1))
  moreover have "map (map lt_containerId \<circ> lw_tabs) (on_window i f ?ws)
      = map (map lt_containerId \<circ> lw_tabs) ?ws"
    by (rule map_on_window) (simp add: f(2))
  then have "map lt_containerId (concat (map lw_tabs (on_window i f ?ws)))
      = map lt_containerId (all_tabs s)"
    by (simp add: map_concat all_tabs_def comp_def)
  ultimately show ?thesis
    using ids cs by (simp add: wf_windows_def all_tabs_def)
qed

lemma wf_on_window_same_z:
  assumes "wf_windows s"
    and "\<And>w. lw_id (f w) = lw_id w"
      "\<And>w. map lt_containerId (lw_tabs (f w)) = map lt_containerId (lw_tabs w)"
      "\<And>w. lw_z (f w) = lw_z w"
    and "\<And>w. w \<in> set (ws_windows s) \<Longrightarrow> lw_id w = i \<Longrightarrow>
      wf_window (ws_nextZ s) (ws_nextId s) w \<Longrightarrow> wf_window (ws_nextZ s) (ws_nextId s) (f w)"
  shows "wf_windows (s\<lparr>ws_windows := on_window i f (ws_windows s)\<rparr>)"
  using wf_on_window [of s "ws_nextZ s" f i] assms by simp

lemma wf_focus: "wf_windows s \<Longrightarrow> wf_windows (focusWindow s i)"
  unfolding focusWindow_def Let_def by (rule wf_on_window) (auto simp: wf_window_def)

lemma wf_restore: "wf_windows s \<Longrightarrow> wf_windows (restoreWindow s i)"
  unfolding restoreWindow_def Let_def by (rule wf_on_window) (auto simp: wf_window_def)

lemma wf_minimize: "wf_windows s \<Longrightarrow> wf_windows (minimizeWindow s i)"
  unfolding minimizeWindow_def by (rule wf_on_window_same_z) (auto simp: wf_window_def)

lemma wf_move: "wf_windows s \<Longrightarrow> wf_windows (moveWindow s i px py vp)"
  unfolding moveWindow_def Let_def by (rule wf_on_window_same_z) (auto simp: wf_window_def)

lemma wf_resize: "wf_windows s \<Longrightarrow> wf_windows (resizeWindow s i w h)"
  unfolding resizeWindow_def by (rule wf_on_window_same_z) (auto simp: wf_window_def)

lemma wf_setActiveTab: "wf_windows s \<Longrightarrow> wf_windows (setActiveTab s i k)"
  unfolding setActiveTab_def by (rule wf_on_window_same_z) (auto simp: wf_window_def clamp_tab_def)

lemma wf_setSearch: "wf_windows s \<Longrightarrow> wf_windows (setSearch s i k q)"
  unfolding setSearch_def
  by (rule wf_on_window_same_z) (auto simp: wf_window_def map_map_at)


section \<open>Adding and removing windows\<close>

lemma all_tabs_filter: "set (concat (map lw_tabs (filter P ws))) \<subseteq> set (concat (map lw_tabs ws))"
  by auto

lemma distinct_concat_filter:
  "distinct (map g (concat (map h ws))) \<Longrightarrow> distinct (map g (concat (map h (filter P ws))))"
proof (induction ws)
  case (Cons w ws)
  have "set (map g (concat (map h (filter P ws)))) \<subseteq> set (map g (concat (map h ws)))"
    by auto
  then show ?case
    using Cons
    by (simp only: filter.simps list.map concat.simps map_append distinct_append split: if_split)
      blast
qed simp

lemma wf_close: "wf_windows s \<Longrightarrow> wf_windows (closeWindow s i)"
  by (auto simp: wf_windows_def closeWindow_def all_tabs_def distinct_map_filter
      intro: distinct_concat_filter)

lemma find_window_Some:
  "find_window s i = Some w \<Longrightarrow> w \<in> set (ws_windows s) \<and> lw_id w = i"
  unfolding find_window_def by (auto simp: find_Some_iff)

lemma find_window_eq:
  "wf_windows s \<Longrightarrow> w \<in> set (ws_windows s) \<Longrightarrow> find_window s (lw_id w) = Some w"
proof -
  assume wf: "wf_windows s" and w: "w \<in> set (ws_windows s)"
  then have "find_window s (lw_id w) \<noteq> None"
    by (auto simp: find_window_def find_None_iff)
  then obtain v where v: "find_window s (lw_id w) = Some v" by auto
  then show ?thesis
    using find_window_Some [OF v] wf w window_unique [of "ws_windows s" v w]
    by (auto simp: wf_windows_def)
qed

lemma findContainerWindow_None:
  "findContainerWindow s c = None \<Longrightarrow> c \<notin> set (map lt_containerId (all_tabs s))"
  by (auto simp: findContainerWindow_def find_None_iff holds_container_def all_tabs_def)

lemma findContainerWindow_Some:
  "findContainerWindow s c = Some w \<Longrightarrow> w \<in> set (ws_windows s) \<and> holds_container c w"
  by (auto simp: findContainerWindow_def find_Some_iff)

lemma tab_index_holds:
  assumes "holds_container c w"
  shows "\<exists>k. tab_index c (lw_tabs w) = int k \<and> k < length (lw_tabs w)
    \<and> lt_containerId (lw_tabs w ! k) = c"
proof -
  obtain k where "find_index (\<lambda>t. lt_containerId t = c) (lw_tabs w) = Some k"
    using assms find_index_None [of "\<lambda>t. lt_containerId t = c" "lw_tabs w"]
    by (auto simp: holds_container_def)
  then show ?thesis using find_index_Some by (auto simp: tab_index_def)
qed

lemma wf_append_window:
  assumes wf: "wf_windows s"
    and w: "lw_z w = ws_nextZ s" "lw_id w = window_name (ws_nextId s)" "lw_tabs w = [t]"
      "lw_activeTab w = 0" "WINDOW_MIN_W \<le> lw_w w" "WINDOW_MIN_H \<le> lw_h w"
    and c: "lt_containerId t \<notin> set (map lt_containerId (all_tabs s))"
  shows "wf_windows \<lparr>ws_windows = ws_windows s @ [w], ws_nextZ = Suc (ws_nextZ s),
    ws_nextId = Suc (ws_nextId s)\<rparr>"
proof -
  have old: "\<And>v. v \<in> set (ws_windows s) \<Longrightarrow> wf_window (ws_nextZ s) (ws_nextId s) v"
    using wf by (auto simp: wf_windows_def)
  have "\<And>v. v \<in> set (ws_windows s) \<Longrightarrow> wf_window (Suc (ws_nextZ s)) (Suc (ws_nextId s)) v"
    using old by (rule wf_window_mono) simp_all
  moreover have "wf_window (Suc (ws_nextZ s)) (Suc (ws_nextId s)) w"
    using w by (auto simp: wf_window_def)
  moreover have "lw_id w \<notin> lw_id ` set (ws_windows s)"
    using old w(2) fresh_id by fastforce
  moreover have "lw_z w \<notin> lw_z ` set (ws_windows s)"
    using old w(1) by (fastforce simp: wf_window_def)
  ultimately show ?thesis
    using wf w(3) c by (auto simp: wf_windows_def all_tabs_def)
qed

lemma wf_open: "wf_windows s \<Longrightarrow> wf_windows (openLogs s c title vp)"
proof (cases "findContainerWindow s c")
  case None
  assume wf: "wf_windows s"
  show ?thesis
    using None findContainerWindow_None [OF None]
    by (auto simp: openLogs_def Let_def fresh_window_def js_const split: prod.splits
        intro!: wf_append_window [OF wf])
next
  case (Some e)
  assume wf: "wf_windows s"
  note e = findContainerWindow_Some [OF Some]
  obtain k where k: "tab_index c (lw_tabs e) = int k" "k < length (lw_tabs e)"
    using tab_index_holds e by blast
  have "wf_windows (s\<lparr>ws_nextZ := ws_nextZ s + 1, ws_windows := on_window (lw_id e)
      (\<lambda>w. w\<lparr>lw_z := ws_nextZ s, lw_minimized := False, lw_activeTab := int k\<rparr>) (ws_windows s)\<rparr>)"
  proof (rule wf_on_window [OF wf])
    fix w
    assume "w \<in> set (ws_windows s)" "lw_id w = lw_id e" "wf_window (ws_nextZ s) (ws_nextId s) w"
    moreover from this have "w = e"
      using wf e window_unique by (auto simp: wf_windows_def)
    ultimately show "wf_window (ws_nextZ s + 1) (ws_nextId s)
        (w\<lparr>lw_z := ws_nextZ s, lw_minimized := False, lw_activeTab := int k\<rparr>)"
      using k(2) by (auto simp: wf_window_def)
  qed auto
  then show ?thesis using Some k by (simp add: openLogs_def Let_def)
qed

section \<open>Conservation of tabs\<close>

text \<open>Splitting a window off the list, for sums over the windows.\<close>

lemma sum_split_window:
  fixes g :: "LogWindowState \<Rightarrow> 'b multiset"
  assumes "distinct (map lw_id ws)" "w \<in> set ws"
  shows "sum_list (map g ws) = g w + sum_list (map g (filter (\<lambda>v. lw_id v \<noteq> lw_id w) ws))"
  using assms
proof (induction ws)
  case (Cons v ws)
  show ?case
  proof (cases "v = w")
    case True
    then have "filter (\<lambda>v. lw_id v \<noteq> lw_id w) ws = ws"
      using id_notin_tail [OF Cons.prems(1)] by (intro filter_True) auto
    then show ?thesis using True by simp
  next
    case False
    then have "w \<in> set ws" "lw_id v \<noteq> lw_id w"
      using Cons.prems id_notin_tail [OF Cons.prems(1)] by auto
    then show ?thesis using Cons by (simp add: union_lcomm)
  qed
qed simp

lemma sum_on_window:
  fixes g :: "LogWindowState \<Rightarrow> 'b multiset"
  assumes "distinct (map lw_id ws)" "w \<in> set ws" "\<And>v. lw_id (f v) = lw_id v"
  shows "sum_list (map g (on_window (lw_id w) f ws))
    = g (f w) + sum_list (map g (filter (\<lambda>v. lw_id v \<noteq> lw_id w) ws))"
proof -
  have ids: "distinct (map lw_id (on_window (lw_id w) f ws))"
    using assms(1) map_on_window [where g = lw_id and f = f and ws = ws] assms(3) by simp
  have "f w \<in> set (on_window (lw_id w) f ws)"
    using assms(2) by (auto simp: set_on_window)
  moreover have "filter (\<lambda>v. lw_id v \<noteq> lw_id w) (on_window (lw_id w) f ws)
      = filter (\<lambda>v. lw_id v \<noteq> lw_id w) ws"
    by (induction ws) (auto simp: on_window_def assms(3))
  ultimately show ?thesis
    using sum_split_window [OF ids, of "f w" g] assms(3) by simp
qed

lemma mset_all_tabs: "mset (all_tabs s) = sum_list (map (\<lambda>w. mset (lw_tabs w)) (ws_windows s))"
  by (simp add: all_tabs_def mset_concat comp_def)

lemma distinct_containers:
  "mset (all_tabs s) = mset (all_tabs t) \<Longrightarrow> distinct (map lt_containerId (all_tabs s))
    \<longleftrightarrow> distinct (map lt_containerId (all_tabs t))"
  by (metis mset_eq_imp_distinct_iff mset_map)

lemma merge_tabs:
  assumes wf: "wf_windows s"
  shows "mset (all_tabs (mergeWindows s a b)) = mset (all_tabs s)"
proof (cases "a = b \<or> find_window s a = None \<or> find_window s b = None")
  case True
  then show ?thesis by (auto simp: mergeWindows_def split: option.splits)
next
  case False
  then obtain v w where vw: "find_window s a = Some v" "find_window s b = Some w" "a \<noteq> b"
    by auto
  let ?ws = "filter (\<lambda>w. lw_id w \<noteq> a) (ws_windows s)"
  let ?f = "\<lambda>u. u\<lparr>lw_tabs := lw_tabs w @ lw_tabs v, lw_activeTab := int (length (lw_tabs w)),
      lw_z := ws_nextZ s, lw_minimized := False\<rparr>"
  note v = find_window_Some [OF vw(1)] and w = find_window_Some [OF vw(2)]
  have ids: "distinct (map lw_id (ws_windows s))" using wf by (simp add: wf_windows_def)
  then have ids': "distinct (map lw_id ?ws)" by (simp add: distinct_map_filter)
  have w': "w \<in> set ?ws" using w vw(3) by auto
  have "mset (all_tabs (mergeWindows s a b))
      = sum_list (map (\<lambda>w. mset (lw_tabs w)) (on_window b ?f ?ws))"
    using vw by (simp add: mset_all_tabs mergeWindows_def Let_def)
  also have "\<dots> = mset (lw_tabs w @ lw_tabs v)
      + sum_list (map (\<lambda>w. mset (lw_tabs w)) (filter (\<lambda>u. lw_id u \<noteq> lw_id w) ?ws))"
    using sum_on_window [OF ids' w', of ?f "\<lambda>w. mset (lw_tabs w)"] w by simp
  also have "\<dots> = mset (all_tabs s)"
    using sum_split_window [OF ids' w', of "\<lambda>w. mset (lw_tabs w)"]
      sum_split_window [OF ids conjunct1 [OF v], of "\<lambda>w. mset (lw_tabs w)"] v
    by (simp add: mset_all_tabs)
  finally show ?thesis .
qed

lemma wf_merge:
  assumes wf: "wf_windows s"
  shows "wf_windows (mergeWindows s a b)"
proof (cases "a = b \<or> find_window s a = None \<or> find_window s b = None")
  case True
  then show ?thesis using wf by (auto simp: mergeWindows_def split: option.splits)
next
  case False
  then obtain v w where vw: "find_window s a = Some v" "find_window s b = Some w" "a \<noteq> b"
    by auto
  let ?ws = "filter (\<lambda>w. lw_id w \<noteq> a) (ws_windows s)"
  let ?f = "\<lambda>u. u\<lparr>lw_tabs := lw_tabs w @ lw_tabs v, lw_activeTab := int (length (lw_tabs w)),
      lw_z := ws_nextZ s, lw_minimized := False\<rparr>"
  let ?t = "mergeWindows s a b"
  note v = find_window_Some [OF vw(1)]
  have t: "ws_windows ?t = on_window b ?f ?ws" "ws_nextZ ?t = Suc (ws_nextZ s)"
      "ws_nextId ?t = ws_nextId s"
    using vw by (simp_all add: mergeWindows_def Let_def)
  have ids: "distinct (map lw_id ?ws)" and zs: "distinct (map lw_z ?ws)"
    using wf by (simp_all add: wf_windows_def distinct_map_filter)
  have old: "\<And>u. u \<in> set (ws_windows s) \<Longrightarrow> wf_window (ws_nextZ s) (ws_nextId s) u"
    using wf by (simp add: wf_windows_def)
  have "0 < length (lw_tabs v)" using old v by (fastforce simp: wf_window_def)
  then have "\<forall>u\<in>set (on_window b ?f ?ws). wf_window (Suc (ws_nextZ s)) (ws_nextId s) u"
    using old by (auto simp: set_on_window wf_window_def intro: less_SucI)
  moreover have "distinct (map lw_z (on_window b ?f ?ws))"
    by (rule distinct_z_on_window [where z = "ws_nextZ s"])
      (use ids zs old in \<open>auto simp: wf_window_def\<close>)
  moreover have "map lw_id (on_window b ?f ?ws) = map lw_id ?ws"
    by (rule map_on_window) simp
  moreover have "distinct (map lt_containerId (all_tabs ?t))"
    using distinct_containers [OF merge_tabs [OF wf, of a b]] wf by (simp add: wf_windows_def)
  ultimately show ?thesis using ids by (simp add: wf_windows_def t)
qed

text \<open>Taking one tab out of a window with several.\<close>

lemma keep_tabs_wf:
  assumes wf: "wf_windows s" and win: "find_window s i = Some win"
    and tab: "js_index (lw_tabs win) k = Some tab" and more: "1 < length (lw_tabs win)"
    and s1: "s1 = s\<lparr>ws_windows := on_window i (keep_tabs (remove_at k (lw_tabs win))) (ws_windows s)\<rparr>"
  shows "wf_windows s1" "mset (all_tabs s) = add_mset tab (mset (all_tabs s1))"
proof -
  let ?f = "keep_tabs (remove_at k (lw_tabs win))"
  note w = find_window_Some [OF win]
  have ids: "distinct (map lw_id (ws_windows s))" and zs: "distinct (map lw_z (ws_windows s))"
    and cs: "distinct (map lt_containerId (all_tabs s))"
    and old: "\<And>u. u \<in> set (ws_windows s) \<Longrightarrow> wf_window (ws_nextZ s) (ws_nextId s) u"
    using wf by (simp_all add: wf_windows_def)
  show tabs: "mset (all_tabs s) = add_mset tab (mset (all_tabs s1))"
    using sum_split_window [OF ids conjunct1 [OF w], of "\<lambda>w. mset (lw_tabs w)"]
      sum_on_window [OF ids conjunct1 [OF w], of ?f "\<lambda>w. mset (lw_tabs w)"]
      mset_remove_at [OF tab] w
    by (simp add: mset_all_tabs s1 keep_tabs_def)
  have "mset (map lt_containerId (all_tabs s))
      = mset (lt_containerId tab # map lt_containerId (all_tabs s1))"
    using tabs by simp
  then have cs1: "distinct (map lt_containerId (all_tabs s1))"
    using cs by (metis distinct.simps(2) mset_eq_imp_distinct_iff)
  have len: "length (lw_tabs win) = Suc (length (remove_at k (lw_tabs win)))"
    by (rule length_remove_at [OF tab])
  have "\<forall>u\<in>set (on_window i ?f (ws_windows s)). wf_window (ws_nextZ s) (ws_nextId s) u"
  proof
    fix u assume "u \<in> set (on_window i ?f (ws_windows s))"
    then obtain v where v: "v \<in> set (ws_windows s)" "u = (if lw_id v = i then ?f v else v)"
      by (auto simp: set_on_window)
    then show "wf_window (ws_nextZ s) (ws_nextId s) u"
      using old [OF v(1)] more len by (auto simp: wf_window_def keep_tabs_def)
  qed
  moreover have "distinct (map lw_z (on_window i ?f (ws_windows s)))"
    using zs map_on_window [of i lw_z ?f "ws_windows s"] by (simp add: keep_tabs_def)
  moreover have "distinct (map lw_id (on_window i ?f (ws_windows s)))"
    using ids map_on_window [of i lw_id ?f "ws_windows s"] by (simp add: keep_tabs_def)
  ultimately show "wf_windows s1"
    using cs1 by (simp add: wf_windows_def s1)
qed

lemma wf_closeTab:
  assumes wf: "wf_windows s"
  shows "wf_windows (closeTab s i k)"
proof (cases "find_window s i")
  case None
  then show ?thesis using wf by (simp add: closeTab_def)
next
  case (Some win)
  note w = find_window_Some [OF Some]
  show ?thesis
  proof (cases "length (lw_tabs win) \<le> 1")
    case True
    then show ?thesis using Some wf_close [OF wf] by (simp add: closeTab_def)
  next
    case more: False
    show ?thesis
    proof (cases "js_index (lw_tabs win) k")
      case None
      have "lw_activeTab win < int (length (lw_tabs win))"
        using wf w by (auto simp: wf_windows_def wf_window_def)
      then have "keep_tabs (lw_tabs win) win = win" by (simp add: keep_tabs_def)
      moreover have "v = win" if "v \<in> set (ws_windows s)" "lw_id v = i" for v
        using that w wf window_unique [of "ws_windows s" v win] by (simp add: wf_windows_def)
      ultimately have "on_window i (keep_tabs (lw_tabs win)) (ws_windows s) = ws_windows s"
        by (intro on_window_fixed) auto
      moreover have "remove_at k (lw_tabs win) = lw_tabs win"
        by (rule remove_at_outside) (use None in \<open>auto simp: js_index_def split: if_splits\<close>)
      ultimately show ?thesis using Some more wf by (simp add: closeTab_def)
    next
      case (Some tab)
      with keep_tabs_wf(1) [OF wf \<open>find_window s i = Some win\<close> Some _ refl] more
      show ?thesis using \<open>find_window s i = Some win\<close> by (simp add: closeTab_def)
    qed
  qed
qed

lemma detach_cases:
  assumes "detachTab s i k px py \<noteq> s"
  obtains win tab where "find_window s i = Some win" "1 < length (lw_tabs win)"
    "js_index (lw_tabs win) k = Some tab"
  using assms by (auto simp: detachTab_def split: option.splits if_splits)

lemma wf_detach:
  assumes wf: "wf_windows s"
  shows "wf_windows (detachTab s i k px py) \<and> mset (all_tabs (detachTab s i k px py)) = mset (all_tabs s)"
proof (cases "detachTab s i k px py = s")
  case True
  then show ?thesis using wf by simp
next
  case False
  then obtain win tab where win: "find_window s i = Some win" and more: "1 < length (lw_tabs win)"
    and tab: "js_index (lw_tabs win) k = Some tab"
    by (rule detach_cases)
  define s1 where
    "s1 = s\<lparr>ws_windows := on_window i (keep_tabs (remove_at k (lw_tabs win))) (ws_windows s)\<rparr>"
  note s1 = keep_tabs_wf [OF wf win tab more s1_def]
  have eq: "detachTab s i k px py = \<lparr>ws_windows = ws_windows s1 @
      [fresh_window s tab px py (lw_w win) (lw_h win)],
      ws_nextZ = Suc (ws_nextZ s1), ws_nextId = Suc (ws_nextId s1)\<rparr>"
    using win tab more by (simp add: detachTab_def s1_def)
  have "mset (map lt_containerId (all_tabs s))
      = mset (lt_containerId tab # map lt_containerId (all_tabs s1))"
    using s1(2) by simp
  then have "lt_containerId tab \<notin> set (map lt_containerId (all_tabs s1))"
    using wf by (metis distinct.simps(2) mset_eq_imp_distinct_iff wf_windows_def)
  moreover have "wf_window (ws_nextZ s) (ws_nextId s) win"
    using wf find_window_Some [OF win] by (simp add: wf_windows_def)
  ultimately have "wf_windows (detachTab s i k px py)"
    unfolding eq
    by (intro wf_append_window [OF s1(1)]) (auto simp: fresh_window_def s1_def wf_window_def)
  moreover have "mset (all_tabs (detachTab s i k px py)) = mset (all_tabs s)"
    using s1(2) by (simp add: eq all_tabs_def fresh_window_def)
  ultimately show ?thesis by simp
qed

section \<open>The controller keeps the invariant\<close>

interpretation log_windows: machine hook_step "\<lambda>_ _. True" 
  "\<lambda>h :: LogWindowsHook. wf_windows (hk_state h)"
proof
  fix h :: LogWindowsHook and e
  assume "wf_windows (hk_state h)"
  then show "wf_windows (hk_state (hook_step h e))"
    by (cases e) (auto simp: hook_open_def Let_def wf_open wf_close wf_closeTab wf_focus wf_move
        wf_resize wf_minimize wf_restore wf_setActiveTab wf_setSearch wf_merge wf_detach)
qed

lemma reach_wf: "wf_windows (hk_state (run hook_step (hook_init vp) es))"
  by (rule log_windows.run_inv) (simp_all add: hook_init_def wf_initial)

section \<open>Properties\<close>

text \<open>
  C3. Whatever the reader does with the log windows (open, close, focus, move, resize, minimise,
  restore, switch and close tabs, search, merge, detach, resize the browser), every window has at
  least one tab and an active tab among them, is at least the minimum size, window ids and
  stacking positions are pairwise distinct and below the next ones to be handed out, and no
  container's logs are open in two tabs.
\<close>

theorem log_windows_invariant: "wf_windows (hk_state (run hook_step (hook_init vp) es))"
  by (rule reach_wf)

lemma unique_holder:
  assumes "distinct (map g (concat (map h ws)))" "w \<in> set ws" "\<exists>x\<in>set (h w). g x = c"
  shows "filter (\<lambda>w. \<exists>x\<in>set (h w). g x = c) ws = [w]"
  using assms
proof (induction ws)
  case (Cons v ws)
  have tail: "distinct (map g (concat (map h ws)))" using Cons.prems(1) by simp
  have apart: "g ` set (h v) \<inter> g ` set (concat (map h ws)) = {}"
    using Cons.prems(1) by (simp only: list.map concat.simps map_append distinct_append set_map)
  show ?case
  proof (cases "\<exists>x\<in>set (h v). g x = c")
    case True
    then have none: "\<forall>u\<in>set ws. \<not> (\<exists>x\<in>set (h u). g x = c)"
      using apart by force
    then have "filter (\<lambda>w. \<exists>x\<in>set (h w). g x = c) ws = []"
      by (simp only: filter_empty_conv) 
    moreover have "w = v" using none Cons.prems(2,3) by auto
    ultimately show ?thesis using True by simp
  next
    case False
    then have "w \<in> set ws" using Cons.prems(2,3) by auto
    then show ?thesis using False Cons.IH [OF tail _ Cons.prems(3)] by simp
  qed
qed simp

lemma open_on_top:
  assumes wf: "wf_windows s"
  shows "\<exists>w. filter (holds_container c) (ws_windows (openLogs s c title vp)) = [w]
    \<and> \<not> lw_minimized w \<and> lw_z w = ws_nextZ s
    \<and> map_option lt_containerId (js_index (lw_tabs w) (lw_activeTab w)) = Some c"
proof -
  let ?t = "openLogs s c title vp"
  have wf': "wf_windows ?t" by (rule wf_open [OF wf])
  obtain w where w: "w \<in> set (ws_windows ?t)" "holds_container c w" "\<not> lw_minimized w"
    "lw_z w = ws_nextZ s" "map_option lt_containerId (js_index (lw_tabs w) (lw_activeTab w)) = Some c"
  proof (cases "findContainerWindow s c")
    case None
    then show ?thesis
      by (intro that [of "last (ws_windows ?t)"])
        (auto simp: openLogs_def Let_def fresh_window_def holds_container_def js_index_def
          split: prod.splits)
  next
    case (Some e)
    note e = findContainerWindow_Some [OF Some]
    obtain k where k: "tab_index c (lw_tabs e) = int k" "k < length (lw_tabs e)"
        "lt_containerId (lw_tabs e ! k) = c"
      using tab_index_holds e by blast
    let ?w = "e\<lparr>lw_z := ws_nextZ s, lw_minimized := False, lw_activeTab := int k\<rparr>"
    have "?w \<in> set (ws_windows ?t)"
      using Some e k by (auto simp: openLogs_def Let_def set_on_window)
    then show ?thesis using e k
      by (intro that [of ?w]) (auto simp: holds_container_def js_index_def)
  qed
  have "distinct (map lt_containerId (concat (map lw_tabs (ws_windows ?t))))"
    using wf' by (simp add: wf_windows_def all_tabs_def)
  then have "filter (holds_container c) (ws_windows ?t) = [w]"
    unfolding holds_container_def
    by (rule unique_holder [OF _ w(1)]) (use w(2) in \<open>simp add: holds_container_def\<close>)
  then show ?thesis using w by blast
qed

lemma find_filter: "find P xs = (case filter P xs of [] \<Rightarrow> None | x # _ \<Rightarrow> Some x)"
  by (induction xs) auto

lemma nextZ_open: "ws_nextZ (openLogs s c title vp) = Suc (ws_nextZ s)"
  by (simp add: openLogs_def Let_def split: option.splits prod.splits)

text \<open>
  C4. Opening a container's logs leaves exactly one window with a tab for it: that tab is the
  active one, the window is not minimised and lies above all others; a container already open is
  focused rather than streamed twice, and its window flashes.
\<close>

theorem open_logs_focuses:
  "let h = run hook_step (hook_init vp) es; h' = hook_step h (Open c title); t = hk_state h'
   in \<exists>w. filter (holds_container c) (ws_windows t) = [w] \<and> \<not> lw_minimized w
     \<and> map_option lt_containerId (js_index (lw_tabs w) (lw_activeTab w)) = Some c
     \<and> lw_z w = Max (set (map lw_z (ws_windows t)))
     \<and> hk_flashId h' = (if list_ex (holds_container c) (ws_windows (hk_state h))
         then Some (lw_id w) else hk_flashId h)"
proof -
  let ?h = "run hook_step (hook_init vp) es"
  let ?t = "openLogs (hk_state ?h) c title (hk_viewport ?h)"
  obtain w where w: "filter (holds_container c) (ws_windows ?t) = [w]" "\<not> lw_minimized w"
    "lw_z w = ws_nextZ (hk_state ?h)"
    "map_option lt_containerId (js_index (lw_tabs w) (lw_activeTab w)) = Some c"
    using open_on_top [OF reach_wf] by blast
  have "wf_windows ?t" by (rule wf_open [OF reach_wf])
  then have le: "\<forall>v\<in>set (ws_windows ?t). lw_z v \<le> lw_z w"
    by (auto simp: wf_windows_def wf_window_def nextZ_open w(3))
  have "w \<in> set (filter (holds_container c) (ws_windows ?t))" by (simp add: w(1))
  then have "w \<in> set (ws_windows ?t)" by simp
  then have "lw_z w = Max (set (map lw_z (ws_windows ?t)))"
    using le by (intro Max_eqI [symmetric]) auto
  moreover have "find (holds_container c) (ws_windows ?t) = Some w"
    by (simp add: find_filter w(1))
  ultimately show ?thesis using w
    by (auto simp: hook_open_def Let_def list_ex_iff)
qed

text \<open>
  C5. Merging two windows and detaching a tab lose no tab and duplicate none.
\<close>

theorem merge_detach_conserve:
  "let s = hk_state (run hook_step (hook_init vp) es)
   in mset (all_tabs (mergeWindows s a b)) = mset (all_tabs s)
    \<and> mset (all_tabs (detachTab s i k px py)) = mset (all_tabs s)"
  by (simp add: Let_def merge_tabs reach_wf wf_detach)

section \<open>Closing a tab\<close>

lemma nth_remove_at:
  "k < length xs \<Longrightarrow> j < length xs - 1 \<Longrightarrow>
    remove_at (int k) xs ! j = (if j < k then xs ! j else xs ! Suc j)"
  by (simp add: nth_append)

lemma active_after_removal:
  assumes "k < length xs" "a < length xs" "1 < length xs"
  shows "js_index (remove_at (int k) xs) (min (int a) (int (length xs - 1) - 1))
    = Some (xs ! (if a = length xs - 1 then (if k = a then a - 1 else a)
        else if k \<le> a then a + 1 else a))"
proof -
  let ?a = "min a (length xs - 2)"
  have len: "length (remove_at (int k) xs) = length xs - 1" using assms(1) by simp
  have eq: "min (int a) (int (length xs - 1) - 1) = int ?a" using assms by auto
  have "?a < length xs - 1" using assms by auto
  then have "js_index (remove_at (int k) xs) (int ?a) = Some (remove_at (int k) xs ! ?a)"
    using len by (simp only: js_index_def) auto
  also have "remove_at (int k) xs ! ?a = xs ! (if ?a < k then ?a else Suc ?a)"
    using nth_remove_at [OF assms(1), of ?a] \<open>?a < length xs - 1\<close> by simp
  also have "(if ?a < k then ?a else Suc ?a) = (if a = length xs - 1 then (if k = a then a - 1 else a)
        else if k \<le> a then a + 1 else a)"
    using assms by auto
  finally show ?thesis by (simp only: eq)
qed

text \<open>
  C6. Closing tab \<open>k\<close> of a window with several tabs keeps the window and its other tabs in order.
  Which tab is shown afterwards: closing a tab right of the active one keeps it active; closing
  the active tab shows the next one, or the previous one if it was last; but closing a tab to the
  left of the active one moves the view to the tab after it, unless the active tab was last.
\<close>

theorem close_tab_active:
  assumes "s = hk_state (run hook_step (hook_init vp) es)" "find_window s i = Some win"
    and "1 < length (lw_tabs win)" "k < length (lw_tabs win)" "lw_activeTab win = int a"
  shows "\<exists>w. find_window (closeTab s i (int k)) i = Some w
    \<and> lw_tabs w = take k (lw_tabs win) @ drop (Suc k) (lw_tabs win)
    \<and> js_index (lw_tabs w) (lw_activeTab w) = Some (lw_tabs win !
        (if a = length (lw_tabs win) - 1 then (if k = a then a - 1 else a)
         else if k \<le> a then a + 1 else a))"
proof -
  have wf: "wf_windows s" using assms(1) reach_wf by simp
  note w = find_window_Some [OF assms(2)]
  let ?r = "remove_at (int k) (lw_tabs win)"
  let ?w = "keep_tabs ?r win"
  have a: "a < length (lw_tabs win)"
    using wf w assms(5) by (auto simp: wf_windows_def wf_window_def)
  have t: "ws_windows (closeTab s i (int k)) = on_window i (keep_tabs ?r) (ws_windows s)"
    using assms(2-4) by (simp add: closeTab_def del: remove_at_nat)
  have "?w \<in> set (ws_windows (closeTab s i (int k)))"
    using w by (auto simp: t set_on_window)
  then have "find_window (closeTab s i (int k)) i = Some ?w"
    using find_window_eq [OF wf_closeTab [OF wf], of ?w i "int k"] w by (simp add: keep_tabs_def)
  moreover have "js_index ?r (lw_activeTab ?w) = Some (lw_tabs win !
        (if a = length (lw_tabs win) - 1 then (if k = a then a - 1 else a)
         else if k \<le> a then a + 1 else a))"
    using active_after_removal [OF assms(4) a assms(3)] assms(4,5) by (simp add: keep_tabs_def)
  ultimately show ?thesis by (auto simp: keep_tabs_def)
qed

section \<open>Sample run\<close>

definition sample_vp :: Viewport where
  "sample_vp = \<lparr>vp_width = 1280, vp_height = 800, vp_headerHeight = 50, vp_dockHeight = 36\<rparr>"

definition sample_actions :: "win_action list" where
  "sample_actions = [Open ''a'' ''A'', Open ''b'' ''B'', Open ''c'' ''C'',
     Merge ''lw-2'' ''lw-1'', Merge ''lw-3'' ''lw-1'', SetActiveTab ''lw-1'' 1]"

definition sample_tabs :: "LogTab list" where
  "sample_tabs = [\<lparr>lt_containerId = ''a'', lt_title = ''A'', lt_search = []\<rparr>,
     \<lparr>lt_containerId = ''b'', lt_title = ''B'', lt_search = []\<rparr>,
     \<lparr>lt_containerId = ''c'', lt_title = ''C'', lt_search = []\<rparr>]"

definition sample_state :: WindowsState where
  "sample_state = hk_state (run hook_step (hook_init sample_vp) sample_actions)"

lemma sample_window: "find_window sample_state ''lw-1'' = Some \<lparr>lw_id = ''lw-1'',
     lw_tabs = sample_tabs, lw_activeTab = 1, lw_x = 80, lw_y = 74, lw_w = 460, lw_h = 340,
     lw_z = 5, lw_minimized = False\<rparr>"
  by code_simp

theorem close_tab_active_witness:
  "\<exists>w. find_window (closeTab sample_state ''lw-1'' 0) ''lw-1'' = Some w
    \<and> map lt_containerId (lw_tabs w) = [''b'', ''c'']
    \<and> map_option lt_containerId (js_index (lw_tabs w) (lw_activeTab w)) = Some ''c''"
  using close_tab_active [OF sample_state_def sample_window, of 0 1]
  by (auto simp: sample_tabs_def)

end
