(* ===== verification/DataModel.thy ===== *)
theory DataModel
  imports Prelude
begin

text \<open>
  The data the frontend receives and draws: the wire types of \<^verbatim>\<open>frontend/src/types.ts\<close> and
  \<^verbatim>\<open>frontend/src/types/stats.ts\<close>, each interface a record (an optional field an \<open>option\<close>),
  and the React Flow nodes and edges built from them. Field names carry a short prefix, since
  a record field is a global constant. Callbacks (\<open>onInfoClick\<close>) are not data and are left out.
\<close>

section \<open>Wire types\<close>

record PortMapping =
  pm_host :: nat
  pm_hostEnd :: "nat option"
  pm_container :: nat
  pm_containerEnd :: "nat option"
  pm_protocol :: "string option"

record Mount =
  mt_type :: string
  mt_source :: string
  mt_destination :: string
  mt_rw :: bool
  mt_name :: "string option"
  mt_propagation :: "string option"

record ComposeConfig =
  cc_service :: string
  cc_command :: "string list option"
  cc_entrypoint :: "string list option"
  cc_environment :: "(string, string) jsmap option"
  cc_labels :: "(string, string) jsmap option"
  cc_restart :: "string option"
  cc_dependsOn :: "string list option"
  cc_volumes :: "Mount list option"
  cc_networks :: "string list option"
  cc_user :: "string option"
  cc_workingDir :: "string option"
  cc_privileged :: "bool option"
  cc_readOnly :: "bool option"
  cc_capAdd :: "string list option"
  cc_capDrop :: "string list option"

record ReplicaCount =
  rc_running :: nat
  rc_desired :: nat
  rc_completed :: "nat option"

record TaskInfo =
  ti_id :: string
  ti_slot :: "nat option"
  ti_nodeId :: "string option"
  ti_nodeHostname :: "string option"
  ti_state :: "string option"
  ti_desiredState :: "string option"
  ti_containerId :: "string option"
  ti_error :: "string option"
  ti_timestamp :: "string option"

record ServiceInfo =
  si_mode :: "string option"
  si_replicas :: ReplicaCount
  si_tasks :: "TaskInfo list option"
  si_updateStatus :: "string option"

record SwarmNodeInfo =
  sn_id :: string
  sn_role :: string
  sn_leader :: "bool option"
  sn_availability :: string
  sn_state :: string
  sn_addr :: "string option"
  sn_engineVersion :: "string option"
  sn_nanoCpus :: "nat option"
  sn_memoryBytes :: "nat option"

datatype node_type = Container | Service | Network | Volume | SwarmNode

fun type_name :: "node_type \<Rightarrow> string" where
  "type_name Container = ''container''"
| "type_name Service = ''service''"
| "type_name Network = ''network''"
| "type_name Volume = ''volume''"
| "type_name SwarmNode = ''swarmnode''"

record DGNode =
  dg_id :: string
  dg_type :: node_type
  dg_name :: string
  dg_image :: "string option"
  dg_status :: "string option"
  dg_ports :: "PortMapping list option"
  dg_labels :: "(string, string) jsmap option"
  dg_networkId :: "string option"
  dg_driver :: "string option"
  dg_subnet :: "string option"
  dg_gateway :: "string option"
  dg_source :: "string option"
  dg_createdAt :: "string option"
  dg_compose :: "ComposeConfig option"
  dg_stack :: "string option"
  dg_service :: "ServiceInfo option"
  dg_swarmNode :: "SwarmNodeInfo option"

datatype edge_type = VolumeMount | DependsOn | SecondaryNetwork

fun edge_type_name :: "edge_type \<Rightarrow> string" where
  "edge_type_name VolumeMount = ''volume_mount''"
| "edge_type_name DependsOn = ''depends_on''"
| "edge_type_name SecondaryNetwork = ''secondary_network''"

record DGEdge =
  de_id :: string
  de_type :: edge_type
  de_source :: string
  de_target :: string
  de_mountPath :: "string option"

record GraphSnapshot =
  gs_nodes :: "DGNode list"
  gs_edges :: "DGEdge list"

text \<open>A node with only its mandatory fields, for the synthetic nodes the code builds.\<close>

definition bare_node :: "string \<Rightarrow> node_type \<Rightarrow> string \<Rightarrow> DGNode" where
  "bare_node i t n = \<lparr>dg_id = i, dg_type = t, dg_name = n, dg_image = None, dg_status = None,
     dg_ports = None, dg_labels = None, dg_networkId = None, dg_driver = None,
     dg_subnet = None, dg_gateway = None, dg_source = None, dg_createdAt = None,
     dg_compose = None, dg_stack = None, dg_service = None, dg_swarmNode = None\<rparr>"

lemma bare_node_sel [simp]:
  "dg_id (bare_node i t n) = i" "dg_type (bare_node i t n) = t" "dg_name (bare_node i t n) = n"
  "dg_image (bare_node i t n) = None" "dg_status (bare_node i t n) = None"
  "dg_ports (bare_node i t n) = None"
  "dg_labels (bare_node i t n) = None" "dg_networkId (bare_node i t n) = None"
  "dg_source (bare_node i t n) = None" "dg_stack (bare_node i t n) = None"
  "dg_service (bare_node i t n) = None" "dg_swarmNode (bare_node i t n) = None"
  by (simp_all add: bare_node_def)

section \<open>Stats\<close>

record ContainerStatsData =
  cs_cpuPercent :: real
  cs_cpuThrottled :: real
  cs_memUsage :: real
  cs_memLimit :: real
  cs_netRx :: real
  cs_netTx :: real
  cs_netRxErrors :: nat
  cs_netTxErrors :: nat
  cs_blockRead :: real
  cs_blockWrite :: real
  cs_pids :: nat

type_synonym stats_map = "(string, ContainerStatsData) jsmap"

record SwarmManager =
  sm_id :: string
  sm_name :: string
  sm_leader :: bool
  sm_reachability :: string
  sm_addr :: "string option"

section \<open>Log lines\<close>

datatype stream = Stdout | Stderr

record LogLine =
  ll_id :: nat
  ll_stream :: stream
  ll_text :: string
  ll_timestamp :: "string option"
  ll_container :: "string option"

section \<open>React Flow nodes and edges\<close>

datatype swarm_role = Manager | Worker

record NodeServiceCardData =
  nc_dgNode :: DGNode
  nc_serviceId :: string
  nc_serviceName :: string
  nc_stack :: "string option"
  nc_mode :: "string option"
  nc_tasks :: "TaskInfo list"
  nc_nodeInactive :: bool

record SwarmNodeGroupData =
  ng_dgNode :: DGNode
  ng_unassigned :: bool
  ng_role :: "swarm_role option"
  ng_taskCount :: nat

record RoleGroupData =
  rg_role :: swarm_role
  rg_nodeCount :: nat
  rg_taskCount :: nat

record ControlSummaryData =
  ctl_ready :: nat
  ctl_total :: nat
  ctl_healthy :: bool

text \<open>
  The \<open>data\<close> payload of a React Flow node, by node type: the plain graph node (containers,
  services, volumes, network groups), a swarm node box, a service card, a role group and the
  control-plane badge.
\<close>

datatype rf_data =
  PlainData DGNode
| BoxData SwarmNodeGroupData
| CardData NodeServiceCardData
| RoleData RoleGroupData
| ControlData ControlSummaryData

record RFNode =
  rf_id :: string
  rf_type :: string
  rf_pos :: "real \<times> real"
  rf_parentId :: "string option"
  rf_data :: rf_data
  rf_nodeWidth :: "real option"
  rf_width :: "real option"
  rf_height :: "real option"
  rf_opacity :: "real option"

definition rf_node :: "string \<Rightarrow> string \<Rightarrow> string option \<Rightarrow> rf_data \<Rightarrow> RFNode" where
  "rf_node i t p d = \<lparr>rf_id = i, rf_type = t, rf_pos = (0, 0), rf_parentId = p, rf_data = d,
     rf_nodeWidth = None, rf_width = None, rf_height = None, rf_opacity = None\<rparr>"

lemma rf_node_sel [simp]:
  "rf_id (rf_node i t p d) = i" "rf_type (rf_node i t p d) = t"
  "rf_parentId (rf_node i t p d) = p" "rf_data (rf_node i t p d) = d"
  "rf_pos (rf_node i t p d) = (0, 0)"
  by (simp_all add: rf_node_def)

datatype rf_edge_data =
  ElkData edge_type bool bool nat "string option"
| ControlLink bool
| OverlayLink "string list" "string option"

record RFEdge =
  re_id :: string
  re_source :: string
  re_target :: string
  re_type :: string
  re_data :: rf_edge_data
  re_stroke :: "string option"
  re_strokeWidth :: "real option"
  re_opacity :: "real option"

text \<open>An optional string field read as a key (\<open>m.get(o)\<close> after a truthiness test).\<close>

definition key_of :: "string option \<Rightarrow> string" where
  "key_of o1 = nullish o1 []"

end
