(* ===== verification/UseLogs.thy ===== *)
theory UseLogs
  imports DataModel Constants
begin

text \<open>
  The log viewer of \<^verbatim>\<open>frontend/src/hooks/useLogs.ts\<close>, with the line parser of
  \<^verbatim>\<open>utils/logParser.ts\<close> and the two hooks that configure it (\<^verbatim>\<open>useContainerLogs.ts\<close>,
  \<^verbatim>\<open>useAggregateLogs.ts\<close>): paged history over REST joined to a live tail over server-sent
  events, in a bounded buffer.

  The hook is a state machine. Its state holds the React state, the refs, the event sources it
  opened (each with its unflushed batch and its scheduled frame) and the requests in flight; an
  aborted request is dropped from the list, which is how its answer is ignored. Its events are
  the calls of its consumer, the answers of the network and the animation frames; React renders
  between two events, so a handler reads the state of the last one.
\<close>

section \<open>URLs\<close>

definition appendParam :: "string \<Rightarrow> string \<Rightarrow> string" where
  "appendParam url param = url @ (if str_includes ''?'' url then ''&'' else ''?'') @ param"

section \<open>Wire entries and lines\<close>

record HistoryEntry =
  he_stream :: string
  he_line :: string
  he_timestamp :: "string option"
  he_container :: "string option"

text \<open>The fields of a parsed SSE payload, each possibly absent.\<close>

record SseData =
  sd_stream :: "string option"
  sd_line :: "string option"
  sd_timestamp :: "string option"
  sd_container :: "string option"

definition toLogLine :: "nat \<Rightarrow> HistoryEntry \<Rightarrow> LogLine" where
  "toLogLine i e = \<lparr>ll_id = i,
     ll_stream = (if he_stream e = ''stderr'' then Stderr else Stdout),
     ll_text = he_line e, ll_timestamp = he_timestamp e, ll_container = he_container e\<rparr>"

text \<open>\<open>data.lines.map(toLogLine)\<close>, the ids drawn from the running counter.\<close>

fun toLogLines :: "nat \<Rightarrow> HistoryEntry list \<Rightarrow> LogLine list" where
  "toLogLines n [] = []"
| "toLogLines n (e # es) = toLogLine n e # toLogLines (Suc n) es"

text \<open>\<open>JSON.parse\<close> throwing is the payload \<open>None\<close>.\<close>

definition parseLogEvent :: "nat \<Rightarrow> SseData option \<Rightarrow> LogLine option" where
  "parseLogEvent i d = (case d of None \<Rightarrow> None | Some p \<Rightarrow>
     if \<not> truthy (sd_line p) \<and> \<not> truthy (sd_timestamp p) then None
     else Some \<lparr>ll_id = i, ll_stream = (if sd_stream p = Some ''stderr'' then Stderr else Stdout),
       ll_text = nullish (sd_line p) [], ll_timestamp = sd_timestamp p,
       ll_container = sd_container p\<rparr>)"

section \<open>State\<close>

record LogsConfig =
  lcf_historyUrl :: "string option"
  lcf_streamUrl :: "string option"
  lcf_active :: bool
  lcf_pageSize :: nat
  lcf_bufferSize :: nat
  lcf_dedupeKey :: "(LogLine \<Rightarrow> string) option"

definition DEFAULT_PAGE_SIZE :: nat where
  "DEFAULT_PAGE_SIZE = 200"

record LogStream =
  st_url :: string
  st_open :: bool
  st_batch :: "LogLine list"
  st_frame :: bool

datatype page_kind = InitialPage | OlderPage string | NewestPage

record PageRequest =
  rq_id :: nat
  rq_kind :: page_kind
  rq_url :: string

datatype reset = ResetIdle | ResetAndFetch

record LogsHook =
  lh_config :: LogsConfig
  lh_lines :: "LogLine list"
  lh_connected :: bool
  lh_loading :: bool
  lh_loadingMore :: bool
  lh_hasMore :: bool
  lh_hasNewer :: bool
  lh_loadingNewer :: bool
  lh_buf :: "LogLine list"
  lh_detached :: bool
  lh_following :: bool
  lh_source :: "nat option"
  lh_streams :: "(nat, LogStream) jsmap"
  lh_requests :: "PageRequest list"
  lh_reset :: "reset option"
  lh_fresh :: nat
  lh_nextLogId :: nat

datatype logs_event =
  Configure LogsConfig
| ResetFrame
| SseOpened nat
| SseMessage nat "SseData option"
| SseError nat
| FlushFrame nat
| LoadMore
| LoadNewer
| FollowChange bool
| PageArrived nat "HistoryEntry list option"
| PageFailed nat

definition logs_initial :: "LogsConfig \<Rightarrow> LogsHook" where
  "logs_initial cfg = \<lparr>lh_config = cfg, lh_lines = [], lh_connected = False, lh_loading = False,
     lh_loadingMore = False, lh_hasMore = True, lh_hasNewer = False, lh_loadingNewer = False,
     lh_buf = [], lh_detached = False, lh_following = True, lh_source = None, lh_streams = [],
     lh_requests = [], lh_reset = None, lh_fresh = 0, lh_nextLogId = 0\<rparr>"

section \<open>The live tail\<close>

definition detach :: "LogsHook \<Rightarrow> LogsHook" where
  "detach h = h\<lparr>lh_detached := True, lh_hasNewer := True\<rparr>"

definition close_stream :: "LogStream \<Rightarrow> LogStream" where
  "close_stream st = st\<lparr>st_open := False\<rparr>"

definition teardownSSE :: "LogsHook \<Rightarrow> LogsHook" where
  "teardownSSE h = (case lh_source h of None \<Rightarrow> h | Some k \<Rightarrow>
     (case map_get (lh_streams h) k of None \<Rightarrow> h\<lparr>lh_source := None\<rparr>
      | Some st \<Rightarrow> h\<lparr>lh_source := None,
          lh_streams := map_set (lh_streams h) k (close_stream st)\<rparr>))"

definition openSSE :: "string \<Rightarrow> LogsHook \<Rightarrow> LogsHook" where
  "openSSE url h = h\<lparr>lh_source := Some (lh_fresh h), lh_fresh := lh_fresh h + 1,
     lh_streams := map_set (lh_streams h) (lh_fresh h)
       \<lparr>st_url = url, st_open = True, st_batch = [], st_frame = False\<rparr>\<rparr>"

definition onmessage :: "nat \<Rightarrow> SseData option \<Rightarrow> LogsHook \<Rightarrow> LogsHook" where
  "onmessage k d h = (case map_get (lh_streams h) k of None \<Rightarrow> h | Some st \<Rightarrow>
     if \<not> st_open st then h
     else case parseLogEvent (lh_nextLogId h) d of None \<Rightarrow> h | Some l \<Rightarrow>
       h\<lparr>lh_nextLogId := lh_nextLogId h + 1,
         lh_streams := map_set (lh_streams h) k
           (st\<lparr>st_batch := st_batch st @ [l], st_frame := True\<rparr>)\<rparr>)"

text \<open>
  \<open>flush\<close> in its scheduled frame: the batch is taken in every case, and appended only if the
  stream is still the current one and the buffer ends at the newest line.
\<close>

definition append_live :: "LogLine list \<Rightarrow> LogsHook \<Rightarrow> LogsHook" where
  "append_live new_lines h =
     (let size = lcf_bufferSize (lh_config h); buf = lh_buf h @ new_lines;
          kept = (if size < length buf then drop (length buf - size) buf else buf)
      in h\<lparr>lh_buf := kept, lh_lines := kept\<rparr>)"

definition flush :: "nat \<Rightarrow> LogsHook \<Rightarrow> LogsHook" where
  "flush k h = (case map_get (lh_streams h) k of None \<Rightarrow> h | Some st \<Rightarrow>
     if \<not> st_frame st then h
     else let taken = h\<lparr>lh_streams := map_set (lh_streams h) k (st\<lparr>st_frame := False, st_batch := []\<rparr>)\<rparr>
       in if st_batch st = [] then taken
          else if lh_source h \<noteq> Some k then taken
          else if lh_detached h then taken
          else if \<not> lh_following h
               \<and> lcf_bufferSize (lh_config h) < length (lh_buf h) + length (st_batch st)
          then detach taken
          else append_live (st_batch st) taken)"

section \<open>Pages\<close>

definition last_timestamp :: "LogLine list \<Rightarrow> string option" where
  "last_timestamp ls = (if ls = [] then None else ll_timestamp (last ls))"

text \<open>A URL the code tests before using it: \<open>null\<close> and the empty string are both falsy.\<close>

definition given :: "string option \<Rightarrow> string option" where
  "given o1 = (if truthy o1 then o1 else None)"

definition live_url :: "string \<Rightarrow> LogLine list \<Rightarrow> string" where
  "live_url url fetched = (if truthy (last_timestamp fetched)
     then appendParam url (''since='' @ encodeURIComponent (the (last_timestamp fetched))) else url)"

definition showLatest :: "LogLine list \<Rightarrow> LogsHook \<Rightarrow> LogsHook" where
  "showLatest fetched h =
     (let h1 = h\<lparr>lh_buf := fetched, lh_lines := fetched, lh_hasMore := fetched \<noteq> [],
                lh_detached := False, lh_hasNewer := False\<rparr>
      in case given (lcf_streamUrl (lh_config h)) of None \<Rightarrow> h1
         | Some url \<Rightarrow> openSSE (live_url url fetched) h1)"

definition send_request :: "page_kind \<Rightarrow> string \<Rightarrow> LogsHook \<Rightarrow> LogsHook" where
  "send_request k url h = h\<lparr>lh_fresh := lh_fresh h + 1,
     lh_requests := lh_requests h @ [\<lparr>rq_id = lh_fresh h, rq_kind = k, rq_url = url\<rparr>]\<rparr>"

definition limit_param :: "LogsHook \<Rightarrow> string" where
  "limit_param h = ''limit='' @ string_of_nat (lcf_pageSize (lh_config h))"

definition loadMore :: "LogsHook \<Rightarrow> LogsHook" where
  "loadMore h = (case given (lcf_historyUrl (lh_config h)) of None \<Rightarrow> h | Some url \<Rightarrow>
     if lh_loadingMore h \<or> \<not> lh_hasMore h then h
     else let oldest = (case lh_buf h of [] \<Rightarrow> None | l # _ \<Rightarrow> ll_timestamp l)
       in if \<not> truthy oldest then h\<lparr>lh_hasMore := False\<rparr>
          else send_request (OlderPage (the oldest))
            (appendParam url (limit_param h @ ''&before='' @ encodeURIComponent (the oldest)))
            (h\<lparr>lh_loadingMore := True\<rparr>))"

definition before_cursor :: "string \<Rightarrow> LogLine \<Rightarrow> bool" where
  "before_cursor oldest l = (\<not> truthy (ll_timestamp l) \<or> the (ll_timestamp l) < oldest)"

definition unseen :: "(LogLine \<Rightarrow> string) option \<Rightarrow> LogLine list \<Rightarrow> LogLine list \<Rightarrow> LogLine list" where
  "unseen dk buf older = (case dk of None \<Rightarrow> older
     | Some f \<Rightarrow> filter (\<lambda>l. f l \<notin> set (map f buf)) older)"

definition end_history :: "LogsHook \<Rightarrow> LogsHook" where
  "end_history h = h\<lparr>lh_hasMore := False, lh_loadingMore := False\<rparr>"

definition prepend_older :: "LogLine list \<Rightarrow> LogsHook \<Rightarrow> LogsHook" where
  "prepend_older older h =
     (let size = lcf_bufferSize (lh_config h); buf = older @ lh_buf h;
          h1 = (if size < length buf then detach (h\<lparr>lh_buf := take size buf\<rparr>) else h\<lparr>lh_buf := buf\<rparr>)
      in h1\<lparr>lh_lines := lh_buf h1, lh_loadingMore := False\<rparr>)"

definition older_arrived :: "string \<Rightarrow> LogLine list \<Rightarrow> LogsHook \<Rightarrow> LogsHook" where
  "older_arrived oldest fetched h =
     (let older = filter (before_cursor oldest) fetched
      in if older = [] then end_history h
         else let fresh = unseen (lcf_dedupeKey (lh_config h)) (lh_buf h) older;
                  h1 = h\<lparr>lh_hasMore := True\<rparr>
           in if fresh = [] then end_history h1 else prepend_older fresh h1)"

definition abort_newer :: "LogsHook \<Rightarrow> LogsHook" where
  "abort_newer h = h\<lparr>lh_requests := filter (\<lambda>r. rq_kind r \<noteq> NewestPage) (lh_requests h)\<rparr>"

definition loadNewer :: "LogsHook \<Rightarrow> LogsHook" where
  "loadNewer h = (case given (lcf_historyUrl (lh_config h)) of None \<Rightarrow> h | Some url \<Rightarrow>
     if lh_loadingNewer h \<or> \<not> lh_detached h then h
     else send_request NewestPage (appendParam url (limit_param h))
       (abort_newer (h\<lparr>lh_loadingNewer := True\<rparr>)))"

definition page_arrived :: "page_kind \<Rightarrow> LogLine list \<Rightarrow> LogsHook \<Rightarrow> LogsHook" where
  "page_arrived k fetched h = (case k of
     InitialPage \<Rightarrow> (showLatest fetched h)\<lparr>lh_loading := False\<rparr>
   | OlderPage oldest \<Rightarrow> older_arrived oldest fetched h
   | NewestPage \<Rightarrow> (showLatest fetched (teardownSSE h))\<lparr>lh_loadingNewer := False\<rparr>)"

definition page_failed :: "page_kind \<Rightarrow> LogsHook \<Rightarrow> LogsHook" where
  "page_failed k h = (case k of
     InitialPage \<Rightarrow> (case given (lcf_streamUrl (lh_config h)) of None \<Rightarrow> h\<lparr>lh_loading := False\<rparr>
       | Some url \<Rightarrow> openSSE url (h\<lparr>lh_loading := False\<rparr>))
   | OlderPage _ \<Rightarrow> h\<lparr>lh_loadingMore := False\<rparr>
   | NewestPage \<Rightarrow> h\<lparr>lh_loadingNewer := False\<rparr>)"

definition find_request :: "LogsHook \<Rightarrow> nat \<Rightarrow> PageRequest option" where
  "find_request h i = find (\<lambda>r. rq_id r = i) (lh_requests h)"

definition settle_request :: "nat \<Rightarrow> LogsHook \<Rightarrow> LogsHook" where
  "settle_request i h = h\<lparr>lh_requests := filter (\<lambda>r. rq_id r \<noteq> i) (lh_requests h)\<rparr>"

section \<open>The main effect\<close>

text \<open>
  A change of configuration: the clean-up of the previous effect and the new one, which defers
  its state reset (and the initial fetch) to the next frame. \<open>loadingMore\<close> is reset by neither.
\<close>

definition configure :: "LogsConfig \<Rightarrow> LogsHook \<Rightarrow> LogsHook" where
  "configure cfg h = (teardownSSE h)\<lparr>lh_config := cfg, lh_requests := [], lh_buf := [],
     lh_detached := False,
     lh_reset := Some (if given (lcf_historyUrl cfg) = None \<or> \<not> lcf_active cfg then ResetIdle else ResetAndFetch)\<rparr>"

definition reset_frame :: "LogsHook \<Rightarrow> LogsHook" where
  "reset_frame h = (case lh_reset h of None \<Rightarrow> h
   | Some ResetIdle \<Rightarrow> h\<lparr>lh_reset := None, lh_connected := False, lh_lines := [],
       lh_loading := False, lh_hasMore := True, lh_hasNewer := False, lh_loadingNewer := False\<rparr>
   | Some ResetAndFetch \<Rightarrow>
       (let h1 = h\<lparr>lh_reset := None, lh_connected := False, lh_lines := [], lh_hasMore := True,
                  lh_hasNewer := False, lh_loadingNewer := False, lh_loading := True\<rparr>
        in send_request InitialPage
             (appendParam (nullish (lcf_historyUrl (lh_config h)) []) (limit_param h)) h1))"

fun logs_step :: "LogsHook \<Rightarrow> logs_event \<Rightarrow> LogsHook" where
  "logs_step h (Configure cfg) = configure cfg h"
| "logs_step h ResetFrame = reset_frame h"
| "logs_step h (SseOpened k) =
     (case map_get (lh_streams h) k of None \<Rightarrow> h
      | Some st \<Rightarrow> if st_open st then h\<lparr>lh_connected := True\<rparr> else h)"
| "logs_step h (SseMessage k d) = onmessage k d h"
| "logs_step h (SseError k) =
     (case map_get (lh_streams h) k of None \<Rightarrow> h
      | Some st \<Rightarrow> if st_open st then h\<lparr>lh_connected := False\<rparr> else h)"
| "logs_step h (FlushFrame k) = flush k h"
| "logs_step h LoadMore = loadMore h"
| "logs_step h LoadNewer = loadNewer h"
| "logs_step h (FollowChange following) = h\<lparr>lh_following := following\<rparr>"
| "logs_step h (PageArrived i page) =
     (case find_request h i of None \<Rightarrow> h | Some r \<Rightarrow>
        let entries = nullish page []
        in page_arrived (rq_kind r) (toLogLines (lh_nextLogId h) entries)
             ((settle_request i h)\<lparr>lh_nextLogId := lh_nextLogId h + length entries\<rparr>))"
| "logs_step h (PageFailed i) =
     (case find_request h i of None \<Rightarrow> h
      | Some r \<Rightarrow> page_failed (rq_kind r) (settle_request i h))"

section \<open>The hooks that configure it\<close>

datatype log_resource = ContainerLogs | ServiceLogs

definition useContainerLogs :: "string option \<Rightarrow> bool \<Rightarrow> log_resource \<Rightarrow> LogsConfig" where
  "useContainerLogs containerId active res =
     (let base = (case res of ServiceLogs \<Rightarrow> ''/api/services'' | ContainerLogs \<Rightarrow> ''/api/containers'');
          path = (\<lambda>suffix. if truthy containerId
            then Some (base @ ''/'' @ encodeURIComponent (the containerId) @ suffix) else None)
      in \<lparr>lcf_historyUrl = path ''/logs/history'', lcf_streamUrl = path ''/logs'',
          lcf_active = active, lcf_pageSize = DEFAULT_PAGE_SIZE,
          lcf_bufferSize = LOG_BUFFER_SIZE, lcf_dedupeKey = None\<rparr>)"

definition AGGREGATE_BUFFER_SIZE :: nat where
  "AGGREGATE_BUFFER_SIZE = 3000"

definition stream_name :: "stream \<Rightarrow> string" where
  "stream_name s = (case s of Stdout \<Rightarrow> ''stdout'' | Stderr \<Rightarrow> ''stderr'')"

definition aggregateDedupeKey :: "LogLine \<Rightarrow> string" where
  "aggregateDedupeKey l = nullish (ll_container l) [] @ ''|'' @ nullish (ll_timestamp l) []
     @ ''|'' @ stream_name (ll_stream l) @ ''|'' @ ll_text l"

definition useAggregateLogs :: "bool \<Rightarrow> string option \<Rightarrow> LogsConfig" where
  "useAggregateLogs active stack =
     (let query = (if truthy stack then ''?stack='' @ encodeURIComponent (the stack) else [])
      in \<lparr>lcf_historyUrl = Some (''/api/logs/history'' @ query),
          lcf_streamUrl = Some (''/api/logs'' @ query), lcf_active = active,
          lcf_pageSize = DEFAULT_PAGE_SIZE, lcf_bufferSize = AGGREGATE_BUFFER_SIZE,
          lcf_dedupeKey = Some aggregateDedupeKey\<rparr>)"

end
