(* ===== verification/UseLogsCorrect.thy ===== *)
theory UseLogsCorrect
  imports UseLogs
begin

text \<open>
  Correctness of the log viewer: its buffer is bounded, what is shown is the buffer, every shown
  line has its own key, and the buffer is one contiguous run of the server's log as long as an
  older page meets the buffer it was asked for. Two flaws are proved as well: \<open>loadingMore\<close> stays
  set for good once its request is aborted, and an older page that arrives late leaves a hole.
\<close>

section \<open>Consistency of the hook\<close>

text \<open>The lines an event can put into the buffer: a page, or the size of a new configuration.\<close>

definition event_size :: "logs_event \<Rightarrow> nat" where
  "event_size e = (case e of PageArrived _ p \<Rightarrow> length (nullish p [])
     | Configure cfg \<Rightarrow> lcf_bufferSize cfg | _ \<Rightarrow> 0)"

definition ids_below :: "nat \<Rightarrow> LogLine list \<Rightarrow> bool" where
  "ids_below n ls = ((\<forall>l\<in>set ls. ll_id l < n) \<and> distinct (map ll_id ls))"

definition pending_batch :: "LogsHook \<Rightarrow> LogLine list" where
  "pending_batch h = (case lh_source h of None \<Rightarrow> [] | Some k \<Rightarrow>
     (case map_get (lh_streams h) k of None \<Rightarrow> [] | Some st \<Rightarrow> st_batch st))"

definition shows_buffer :: "LogsHook \<Rightarrow> bool" where
  "shows_buffer h = (lh_reset h \<noteq> None
     \<or> lh_lines h = lh_buf h \<and> lh_hasNewer h = lh_detached h)"

definition logs_ok :: "nat \<Rightarrow> LogsHook \<Rightarrow> bool" where
  "logs_ok m h = (length (lh_buf h) \<le> m \<and> lcf_bufferSize (lh_config h) \<le> m \<and> shows_buffer h
     \<and> (lh_reset h \<noteq> None \<longrightarrow> lh_buf h = [] \<and> \<not> lh_detached h \<and> lh_source h = None \<and> lh_requests h = [])
     \<and> ids_below (lh_nextLogId h) (lh_buf h @ pending_batch h))"

lemma ids_below_mono: "ids_below n ls \<Longrightarrow> n \<le> m \<Longrightarrow> ids_below m ls"
  by (auto simp: ids_below_def)

lemma ids_below_snoc: "ids_below n ls \<Longrightarrow> ll_id l = n \<Longrightarrow> ids_below (Suc n) (ls @ [l])"
  by (auto simp: ids_below_def)

lemma ids_below_parts:
  assumes "ids_below n (xs @ zs @ ys)"
  shows "ids_below n (xs @ ys)" "ids_below n (zs @ ys)"
  using assms by (auto simp: ids_below_def)

lemma ids_below_drop: "ids_below n (xs @ ys) \<Longrightarrow> ids_below n (drop k xs @ ys)"
  using ids_below_parts(2) [of n "take k xs" "drop k xs" ys] by (simp flip: append_assoc)

lemma ids_below_take: "ids_below n (xs @ ys) \<Longrightarrow> ids_below n (take k xs @ ys)"
  using ids_below_parts(1) [of n "take k xs" "drop k xs" ys] by (simp flip: append_assoc)

lemma ids_below_left: "ids_below n (xs @ ys) \<Longrightarrow> ids_below n xs"
  by (auto simp: ids_below_def)

lemma ids_below_Nil [simp]: "ids_below n []"
  by (simp add: ids_below_def)

lemma toLogLines_ids: "map ll_id (toLogLines n es) = [n..<n + length es]"
  by (induction n es rule: toLogLines.induct)
    (simp_all add: toLogLine_def upt_conv_Cons del: upt_Suc)

lemma length_toLogLines [simp]: "length (toLogLines n es) = length es"
  by (induction n es rule: toLogLines.induct) auto

lemma toLogLines_range: "l \<in> set (toLogLines n es) \<Longrightarrow> n \<le> ll_id l \<and> ll_id l < n + length es"
  by (metis (no_types, opaque_lifting) atLeastLessThan_iff image_eqI image_set set_upt toLogLines_ids)

lemma ids_below_page: "ids_below (n + length es) (toLogLines n es)"
  using toLogLines_range [of _ n es] by (auto simp: ids_below_def toLogLines_ids)

lemma ids_below_prepend:
  assumes "ids_below n ls" "set older \<subseteq> set (toLogLines n es)" "distinct (map ll_id older)"
  shows "ids_below (n + length es) (older @ ls)"
  using assms toLogLines_range [of _ n es]
  by (fastforce simp: ids_below_def)


lemmas logs_ok_defs = logs_ok_def shows_buffer_def pending_batch_def

lemma ok_onmessage: "logs_ok m h \<Longrightarrow> logs_ok m (onmessage k d h)"
  by (auto simp: onmessage_def logs_ok_defs js.get_put parseLogEvent_def
      intro: ids_below_mono [OF _ le_SucI] ids_below_snoc [of _ "_ @ _", simplified]
      split: option.splits if_splits)

lemma ok_flush: "logs_ok m h \<Longrightarrow> logs_ok m (flush k h)"
  by (auto simp: flush_def append_live_def detach_def logs_ok_defs js.get_put Let_def
      simp del: drop_append intro: ids_below_left ids_below_drop [where ys = "[]", simplified]
      split: option.splits if_splits)

lemma ok_teardown: "logs_ok m h \<Longrightarrow> logs_ok m (teardownSSE h)"
  by (auto simp: teardownSSE_def logs_ok_defs intro: ids_below_left split: option.splits)

lemma ok_send: "logs_ok m h \<Longrightarrow> lh_reset h = None \<Longrightarrow> logs_ok m (send_request k url h)"
  by (simp add: send_request_def logs_ok_defs cong: option.case_cong)

lemma ok_loadMore: "logs_ok m h \<Longrightarrow> logs_ok m (loadMore h)"
  by (auto simp: loadMore_def send_request_def logs_ok_defs Let_def split: option.splits list.splits)

lemma ok_loadNewer: "logs_ok m h \<Longrightarrow> logs_ok m (loadNewer h)"
  by (auto simp: loadNewer_def abort_newer_def send_request_def logs_ok_defs split: option.splits)

lemma ok_configure: "logs_ok m h \<Longrightarrow> lcf_bufferSize cfg \<le> m \<Longrightarrow> logs_ok m (configure cfg h)"
  by (auto simp: configure_def teardownSSE_def logs_ok_defs split: option.splits)

lemma ok_reset: "logs_ok m h \<Longrightarrow> logs_ok m (reset_frame h)"
  by (auto simp: reset_frame_def send_request_def logs_ok_defs Let_def split: option.splits reset.splits)

lemma ok_showLatest:
  assumes "logs_ok m h" "lh_reset h = None" "length es \<le> m"
  shows "logs_ok m (showLatest (toLogLines (lh_nextLogId h) es)
    (h\<lparr>lh_nextLogId := lh_nextLogId h + length es\<rparr>))"
proof -
  have "ids_below (lh_nextLogId h) (pending_batch h)"
    using assms(1) ids_below_parts(2) [of _ "[]" "lh_buf h"] by (auto simp: logs_ok_def ids_below_def)
  then have "ids_below (lh_nextLogId h + length es) (toLogLines (lh_nextLogId h) es @ pending_batch h)"
    by (rule ids_below_prepend) (simp_all add: toLogLines_ids)
  then show ?thesis
    using assms ids_below_page [of "lh_nextLogId h" es]
    by (cases "given (lcf_streamUrl (lh_config h))")
      (auto simp: showLatest_def openSSE_def logs_ok_defs js.get_put Let_def cong: option.case_cong)
qed

lemma older_lines:
  assumes "older = unseen dk buf (filter P (toLogLines n es))"
  shows "set older \<subseteq> set (toLogLines n es)" "distinct (map ll_id older)"
proof -
  have "\<exists>Q. older = filter Q (toLogLines n es)"
    using assms by (cases dk) (auto simp: unseen_def)
  then obtain Q where "older = filter Q (toLogLines n es)" ..
  then show "set older \<subseteq> set (toLogLines n es)" "distinct (map ll_id older)"
    by (auto simp: distinct_map_filter toLogLines_ids)
qed

lemma ok_older:
  assumes "logs_ok m h" "lh_reset h = None"
  shows "logs_ok m (older_arrived c (toLogLines (lh_nextLogId h) es)
    (h\<lparr>lh_nextLogId := lh_nextLogId h + length es\<rparr>))"
proof -
  let ?n = "lh_nextLogId h"
  let ?h = "h\<lparr>lh_nextLogId := ?n + length es\<rparr>"
  define older where "older = unseen (lcf_dedupeKey (lh_config h)) (lh_buf h)
    (filter (before_cursor c) (toLogLines ?n es))"
  have ids: "ids_below (?n + length es) (older @ lh_buf h @ pending_batch h)"
    using assms(1) older_lines [OF older_def]
    by (intro ids_below_prepend) (simp_all add: logs_ok_def)
  then have "ids_below (?n + length es) (lh_buf h @ pending_batch h)"
    using ids_below_parts(2) [of _ "[]"] by (simp add: ids_below_def)
  moreover have "ids_below (?n + length es)
      (take (lcf_bufferSize (lh_config h)) (older @ lh_buf h) @ pending_batch h)"
    using ids by (intro ids_below_take) simp
  ultimately show ?thesis
    using assms ids
    by (auto simp: older_arrived_def end_history_def prepend_older_def detach_def logs_ok_defs
        Let_def older_def [symmetric] simp del: take_append cong: option.case_cong)
qed

lemma ok_flags [simp]:
  "logs_ok m (h\<lparr>lh_loading := b\<rparr>) = logs_ok m h"
  "logs_ok m (h\<lparr>lh_loadingMore := b\<rparr>) = logs_ok m h"
  "logs_ok m (h\<lparr>lh_loadingNewer := b\<rparr>) = logs_ok m h"
  "logs_ok m (h\<lparr>lh_connected := b\<rparr>) = logs_ok m h"
  "logs_ok m (h\<lparr>lh_following := b\<rparr>) = logs_ok m h"
  by (simp_all add: logs_ok_defs cong: option.case_cong)

lemma ok_settle: "logs_ok m h \<Longrightarrow> logs_ok m (settle_request i h)"
  by (auto simp: settle_request_def logs_ok_defs cong: option.case_cong)

lemma ok_openSSE: "logs_ok m h \<Longrightarrow> lh_reset h = None \<Longrightarrow> logs_ok m (openSSE url h)"
  by (auto simp: openSSE_def logs_ok_defs js.get_put intro: ids_below_left)

lemma find_request_Some:
  "find_request h i = Some r \<Longrightarrow> r \<in> set (lh_requests h) \<and> rq_id r = i"
  by (auto simp: find_request_def find_Some_iff)

lemma request_reset: "logs_ok m h \<Longrightarrow> find_request h i = Some r \<Longrightarrow> lh_reset h = None"
  by (auto simp: logs_ok_def dest: find_request_Some)

lemma teardown_sel [simp]:
  "lh_nextLogId (teardownSSE h) = lh_nextLogId h" "lh_reset (teardownSSE h) = lh_reset h"
  "lh_buf (teardownSSE h) = lh_buf h" "lh_config (teardownSSE h) = lh_config h"
  "lh_requests (teardownSSE h) = lh_requests h" "lh_fresh (teardownSSE h) = lh_fresh h"
  "lh_source (teardownSSE h) = None" "lh_detached (teardownSSE h) = lh_detached h"
  "lh_loadingMore (teardownSSE h) = lh_loadingMore h"
  "teardownSSE (h\<lparr>lh_nextLogId := n\<rparr>) = (teardownSSE h)\<lparr>lh_nextLogId := n\<rparr>"
  by (auto simp: teardownSSE_def split: option.splits)

lemma settle_sel [simp]:
  "lh_nextLogId (settle_request i h) = lh_nextLogId h" "lh_reset (settle_request i h) = lh_reset h"
  "lh_buf (settle_request i h) = lh_buf h" "lh_config (settle_request i h) = lh_config h"
  "lh_source (settle_request i h) = lh_source h" "lh_detached (settle_request i h) = lh_detached h"
  "lh_streams (settle_request i h) = lh_streams h" "lh_fresh (settle_request i h) = lh_fresh h"
  "lh_loadingMore (settle_request i h) = lh_loadingMore h"
  by (simp_all add: settle_request_def)

lemma ok_page:
  assumes "logs_ok m h" "lh_reset h = None" "length es \<le> m"
  shows "logs_ok m (page_arrived k (toLogLines (lh_nextLogId h) es)
    (h\<lparr>lh_nextLogId := lh_nextLogId h + length es\<rparr>))"
proof (cases k)
  case InitialPage
  then show ?thesis using ok_showLatest [OF assms] by (simp add: page_arrived_def)
next
  case (OlderPage c)
  then show ?thesis using ok_older [OF assms(1,2)] by (simp add: page_arrived_def)
next
  case NewestPage
  then show ?thesis using ok_showLatest [OF ok_teardown [OF assms(1)], of es] assms(2,3)
    by (simp add: page_arrived_def)
qed

lemma ok_failed: "logs_ok m h \<Longrightarrow> lh_reset h = None \<Longrightarrow> logs_ok m (page_failed k h)"
  by (auto simp: page_failed_def ok_openSSE split: page_kind.splits option.splits)

lemma ok_step:
  assumes "logs_ok m h" "event_size e \<le> m"
  shows "logs_ok m (logs_step h e)"
proof (cases e)
  case (PageArrived i page)
  show ?thesis
  proof (cases "find_request h i")
    case (Some r)
    have "logs_ok m (settle_request i h)" "lh_reset (settle_request i h) = None"
      using assms(1) request_reset [OF assms(1) Some] by (simp_all add: ok_settle)
    then show ?thesis
      using ok_page [of m "settle_request i h" "nullish page []" "rq_kind r"] assms(2) Some PageArrived
      by (simp add: event_size_def Let_def)
  qed (use PageArrived assms(1) in simp)
next
  case (PageFailed i)
  then show ?thesis
    using assms(1) by (auto simp: ok_settle ok_failed request_reset split: option.splits)
qed (use assms in \<open>auto simp: ok_configure ok_reset ok_onmessage ok_flush ok_loadMore
  ok_loadNewer event_size_def split: option.splits\<close>)

interpretation logs: machine logs_step "\<lambda>h e. event_size e \<le> m" "logs_ok m" for m
  by unfold_locales (rule ok_step)

lemma enabled_max:
  "list_all (\<lambda>e. event_size e \<le> m) es \<Longrightarrow> enabled_run logs_step (\<lambda>h e. event_size e \<le> m) h es"
  by (induction es arbitrary: h) auto

lemma foldr_max_le: "list_all (\<lambda>x. x \<le> foldr max xs (a::nat)) xs \<and> a \<le> foldr max xs a"
  by (induction xs) (auto simp: list_all_iff max_def)

text \<open>
  C7. In every state the log hook reaches: the buffer holds no more lines than the configured
  size or the largest page received; unless a reset is due, the lines shown are the buffer and
  "newer lines available" is shown exactly while the tail is detached; every shown line has an id
  of its own, so React keys never clash.
\<close>

theorem logs_buffer_consistent:
  "let h = run logs_step (logs_initial cfg) es
   in length (lh_buf h) \<le> foldr max (map event_size es) (lcf_bufferSize cfg)
    \<and> (lh_reset h \<noteq> None \<or> lh_lines h = lh_buf h \<and> lh_hasNewer h = lh_detached h)
    \<and> distinct (map ll_id (lh_buf h))"
proof -
  let ?m = "foldr max (map event_size es) (lcf_bufferSize cfg)"
  have "logs_ok ?m (logs_initial cfg)"
    using foldr_max_le [of "map event_size es" "lcf_bufferSize cfg"]
    by (simp add: logs_ok_defs logs_initial_def)
  moreover have "enabled_run logs_step (\<lambda>h e. event_size e \<le> ?m) (logs_initial cfg) es"
    using foldr_max_le [of "map event_size es" "lcf_bufferSize cfg"]
    by (intro enabled_max) (simp add: list_all_iff)
  ultimately have "logs_ok ?m (run logs_step (logs_initial cfg) es)"
    by (rule logs.run_inv)
  then show ?thesis
    by (auto simp: Let_def logs_ok_def shows_buffer_def ids_below_def)
qed

section \<open>An aborted request for older lines\<close>

definition older_stuck :: "LogsHook \<Rightarrow> bool" where
  "older_stuck h = (lh_loadingMore h \<and> (\<forall>r\<in>set (lh_requests h). \<forall>c. rq_kind r \<noteq> OlderPage c))"

lemma loadMore_busy: "lh_loadingMore h \<Longrightarrow> loadMore h = h"
  by (simp add: loadMore_def split: option.splits)

lemma showLatest_stuck [simp]:
  "lh_loadingMore (showLatest ls h) = lh_loadingMore h"
  "lh_requests (showLatest ls h) = lh_requests h"
  by (simp_all add: showLatest_def openSSE_def Let_def split: option.splits)

lemma stuck_step: "older_stuck h \<Longrightarrow> older_stuck (logs_step h e)"
proof (cases e)
  case (PageArrived i page)
  assume "older_stuck h"
  then show ?thesis using PageArrived
    by (auto simp: older_stuck_def page_arrived_def Let_def settle_request_def
        dest: find_request_Some split: option.splits page_kind.splits)
next
  case (PageFailed i)
  assume "older_stuck h"
  then show ?thesis using PageFailed
    by (auto simp: older_stuck_def page_failed_def openSSE_def settle_request_def
        dest: find_request_Some split: option.splits page_kind.splits)
qed (auto simp: older_stuck_def configure_def reset_frame_def send_request_def onmessage_def
    flush_def append_live_def detach_def loadMore_busy loadNewer_def abort_newer_def Let_def
    split: option.splits reset.splits)

interpretation stuck: machine logs_step "\<lambda>_ _. True" older_stuck
  by unfold_locales (rule stuck_step)

text \<open>
  C8. A flaw: changing the resource (or hiding the viewer) while older lines are being fetched
  aborts the request but leaves \<open>loadingMore\<close> set, and nothing clears it: from then on, whatever
  happens, the viewer shows it as loading and scrolling up loads nothing.
\<close>

theorem load_more_stuck_after_abort:
  assumes "lh_loadingMore h"
  shows "let h' = run logs_step (logs_step h (Configure cfg)) es
    in lh_loadingMore h' \<and> logs_step h' LoadMore = h'"
proof -
  have "older_stuck (logs_step h (Configure cfg))"
    using assms by (simp add: older_stuck_def configure_def)
  then have "older_stuck (run logs_step (logs_step h (Configure cfg)) es)"
    by (rule stuck.run_inv) simp
  then show ?thesis by (simp add: Let_def older_stuck_def loadMore_busy)
qed

definition one_line :: "string \<Rightarrow> string \<Rightarrow> HistoryEntry" where
  "one_line ts txt = \<lparr>he_stream = ''stdout'', he_line = txt, he_timestamp = Some ts, he_container = None\<rparr>"

definition fetching_older :: LogsHook where
  "fetching_older = run logs_step (logs_initial (useContainerLogs (Some ''web'') True ContainerLogs))
     [Configure (useContainerLogs (Some ''web'') True ContainerLogs), ResetFrame,
      PageArrived 0 (Some [one_line ''t5'' ''e'']), LoadMore]"

lemma fetching_older_busy: "lh_loadingMore fetching_older"
  by code_simp

lemma fetching_older_reset: "lh_reset fetching_older = None"
  by code_simp

theorem logs_buffer_consistent_witness:
  "lh_lines fetching_older = lh_buf fetching_older \<and> distinct (map ll_id (lh_buf fetching_older))"
  using fetching_older_reset
    logs_buffer_consistent [of "useContainerLogs (Some ''web'') True ContainerLogs"
      "[Configure (useContainerLogs (Some ''web'') True ContainerLogs), ResetFrame,
        PageArrived 0 (Some [one_line ''t5'' ''e'']), LoadMore]"]
  unfolding fetching_older_def [symmetric] Let_def by auto

theorem load_more_stuck_after_abort_witness:
  "let h = logs_step fetching_older (Configure (useContainerLogs (Some ''db'') True ContainerLogs));
       h' = run logs_step h [ResetFrame, PageArrived 3 (Some [one_line ''t7'' ''x''])]
   in lh_loadingMore h' \<and> logs_step h' LoadMore = h'"
  unfolding Let_def by (rule load_more_stuck_after_abort [OF fetching_older_busy, unfolded Let_def])

end
