(* ===== verification/LogRuns.thy ===== *)
theory LogRuns
  imports UseLogsCorrect
begin

text \<open>
  The log viewer against a server: the log is a list of entries with increasing timestamps, of
  which a growing prefix is visible; an event source delivers the lines after the point it was
  opened at, in order, and a page holds the newest lines (before a cursor, for older pages).
  While every older page arrives at the buffer it was asked for and no event source that has
  delivered a line reconnects, the buffer is one contiguous run of the log, and unless the tail is
  detached the live lines continue it without a gap. Two samples show what happens otherwise.
\<close>

section \<open>The server\<close>

record LogWorld =
  wd_hook :: LogsHook
  wd_visible :: nat
  wd_pos :: "nat \<Rightarrow> nat"
  wd_since :: "nat \<Rightarrow> nat option"

datatype world_event =
  Emit
| Deliver nat
| Answer nat nat nat bool
| Fail nat nat
| Reconnect nat nat
| Activate bool
| Local logs_event

definition sse_of :: "HistoryEntry \<Rightarrow> SseData" where
  "sse_of e = \<lparr>sd_stream = Some (he_stream e), sd_line = Some (he_line e),
     sd_timestamp = he_timestamp e, sd_container = he_container e\<rparr>"

definition last_n :: "nat \<Rightarrow> 'a list \<Rightarrow> 'a list" where
  "last_n n xs = drop (length xs - n) xs"

definition at_or_before :: "bool \<Rightarrow> string \<Rightarrow> HistoryEntry \<Rightarrow> bool" where
  "at_or_before incl c e = (the (he_timestamp e) < c \<or> incl \<and> the (he_timestamp e) = c)"

definition stream_open :: "LogsHook \<Rightarrow> nat \<Rightarrow> bool" where
  "stream_open h k = (case map_get (lh_streams h) k of None \<Rightarrow> False | Some st \<Rightarrow> st_open st)"

text \<open>
  \<open>Answer i v n incl\<close> answers request \<open>i\<close> with at most \<open>n\<close> lines: for an older page the last ones
  before the cursor (\<open>incl\<close>: with the line at the cursor, as older agents do), otherwise the
  newest of the \<open>v\<close> lines visible when the server read its log; a stream opened with the answer
  starts right after them. \<open>Fail i p\<close> fails it; a stream opened in its place starts anywhere.
  \<open>Reconnect k p\<close> is the browser's own: after a network error an \<open>EventSource\<close> that is not closed
  requests its URL again. A URL made from a page's newest line holds that line's timestamp in
  \<open>since\<close>, so the server begins where the stream began; one without it begins at some \<open>p\<close>.
  \<open>Activate\<close> hides the viewer or shows it again.
\<close>

definition resumes_at :: "LogWorld \<Rightarrow> nat \<Rightarrow> nat \<Rightarrow> nat" where
  "resumes_at w k p = (case wd_since w k of Some s \<Rightarrow> s | None \<Rightarrow> min p (wd_visible w))"

fun world_step :: "HistoryEntry list \<Rightarrow> LogWorld \<Rightarrow> world_event \<Rightarrow> LogWorld" where
  "world_step L w Emit = w\<lparr>wd_visible := min (Suc (wd_visible w)) (length L)\<rparr>"
| "world_step L w (Deliver k) =
     (if stream_open (wd_hook w) k \<and> wd_pos w k < wd_visible w
      then w\<lparr>wd_hook := logs_step (wd_hook w) (SseMessage k (Some (sse_of (L ! wd_pos w k)))),
             wd_pos := (wd_pos w)(k := Suc (wd_pos w k))\<rparr>
      else w)"
| "world_step L w (Answer i v n incl) =
     (case find_request (wd_hook w) i of None \<Rightarrow> w | Some r \<Rightarrow>
       (case rq_kind r of
          OlderPage c \<Rightarrow> w\<lparr>wd_hook := logs_step (wd_hook w) (PageArrived i
            (Some (last_n n (filter (at_or_before incl c) (take (wd_visible w) L)))))\<rparr>
        | _ \<Rightarrow> (let u = min v (wd_visible w) in
            w\<lparr>wd_hook := logs_step (wd_hook w) (PageArrived i (Some (last_n n (take u L)))),
              wd_pos := (wd_pos w)(lh_fresh (wd_hook w) := u),
              wd_since := (wd_since w)(lh_fresh (wd_hook w) := (if last_n n (take u L) = [] then None else Some u))\<rparr>)))"
| "world_step L w (Fail i p) =
     w\<lparr>wd_hook := logs_step (wd_hook w) (PageFailed i),
       wd_pos := (wd_pos w)(lh_fresh (wd_hook w) := min p (wd_visible w)),
       wd_since := (wd_since w)(lh_fresh (wd_hook w) := None)\<rparr>"
| "world_step L w (Reconnect k p) =
     (if stream_open (wd_hook w) k then w\<lparr>wd_pos := (wd_pos w)(k := resumes_at w k p)\<rparr> else w)"
| "world_step L w (Activate b) =
     w\<lparr>wd_hook := logs_step (wd_hook w) (Configure ((lh_config (wd_hook w))\<lparr>lcf_active := b\<rparr>))\<rparr>"
| "world_step L w (Local e) = w\<lparr>wd_hook := logs_step (wd_hook w) e\<rparr>"

text \<open>
  The runs considered: an older page arrives while the buffer still begins at its cursor, a stream
  that reconnects resumes where it is (it has delivered nothing since it was opened), the hook's own
  events are those of its consumer, the frames and the connection state, and the viewer stays on
  its log (it may be hidden and shown again).
\<close>

definition first_timestamp :: "LogsHook \<Rightarrow> string option" where
  "first_timestamp h = (case lh_buf h of [] \<Rightarrow> None | l # _ \<Rightarrow> ll_timestamp l)"

fun world_ok :: "LogWorld \<Rightarrow> world_event \<Rightarrow> bool" where
  "world_ok w (Answer i v n incl) =
     (case find_request (wd_hook w) i of None \<Rightarrow> True | Some r \<Rightarrow>
       (case rq_kind r of OlderPage c \<Rightarrow> first_timestamp (wd_hook w) = Some c | _ \<Rightarrow> True))"
| "world_ok w (Local e) =
     (case e of ResetFrame \<Rightarrow> True | SseOpened _ \<Rightarrow> True | SseError _ \<Rightarrow> True | FlushFrame _ \<Rightarrow> True
      | LoadMore \<Rightarrow> True | LoadNewer \<Rightarrow> True | FollowChange _ \<Rightarrow> True | _ \<Rightarrow> False)"
| "world_ok w (Reconnect k p) = (stream_open (wd_hook w) k \<longrightarrow> resumes_at w k p = wd_pos w k)"
| "world_ok w _ = True"

definition world_init :: "LogsConfig \<Rightarrow> LogWorld" where
  "world_init cfg = \<lparr>wd_hook = configure cfg (logs_initial cfg), wd_visible = 0, wd_pos = (\<lambda>_. 0),
     wd_since = (\<lambda>_. None)\<rparr>"

text \<open>What a line says, without its React key.\<close>

type_synonym content = "stream \<times> string \<times> string option \<times> string option"

definition content :: "LogLine \<Rightarrow> content" where
  "content l = (ll_stream l, ll_text l, ll_timestamp l, ll_container l)"

definition entry_content :: "HistoryEntry \<Rightarrow> content" where
  "entry_content e = content (toLogLine 0 e)"

definition segment :: "'a list \<Rightarrow> nat \<Rightarrow> nat \<Rightarrow> 'a list" where
  "segment xs a b = map ((!) xs) [a..<b]"

text \<open>
  The documented shape of a log: every line has a timestamp, they increase, and neither
  timestamps nor container names hold the separator of the de-duplication key.
\<close>

definition server_log :: "HistoryEntry list \<Rightarrow> bool" where
  "server_log L = ((\<forall>e\<in>set L. truthy (he_timestamp e) \<and> CHR ''|'' \<notin> set (the (he_timestamp e))
       \<and> CHR ''|'' \<notin> set (nullish (he_container e) []))
     \<and> sorted_wrt (\<lambda>e f. the (he_timestamp e) < the (he_timestamp f)) L)"

definition known_key :: "LogsConfig \<Rightarrow> bool" where
  "known_key cfg = (lcf_dedupeKey cfg = None \<or> lcf_dedupeKey cfg = Some aggregateDedupeKey)"

section \<open>Segments of the log\<close>

lemma segment_append: "a \<le> b \<Longrightarrow> b \<le> c \<Longrightarrow> segment xs a b @ segment xs b c = segment xs a c"
  unfolding segment_def by (metis le_Suc_ex map_append upt_add_eq_append)

lemma take_segment: "take n (segment xs a b) = segment xs a (min b (a + n))"
  by (simp add: segment_def take_map min_def)

lemma drop_segment: "drop n (segment xs a b) = segment xs (a + n) b"
  by (simp add: segment_def drop_map)

lemma length_segment [simp]: "length (segment xs a b) = b - a"
  by (simp add: segment_def)

lemma segment_Nil [simp]: "segment xs a a = []"
  by (simp add: segment_def)

lemma segment_snoc: "a \<le> b \<Longrightarrow> segment xs a (Suc b) = segment xs a b @ [xs ! b]"
  by (simp add: segment_def)

lemma take_as_segment: "n \<le> length xs \<Longrightarrow> take n xs = segment xs 0 n"
  by (simp add: segment_def list_eq_iff_nth_eq)

lemma last_n_segment: "a \<le> b \<Longrightarrow> last_n n (segment xs a b) = segment xs (a + (b - a - n)) b"
  by (simp add: last_n_def drop_segment)

lemma map_segment: "b \<le> length xs \<Longrightarrow> map f (segment xs a b) = segment (map f xs) a b"
  by (simp add: segment_def)

lemma map_last_n: "map f (last_n n xs) = last_n n (map f xs)"
  by (simp add: last_n_def drop_map)

lemma filter_upt_less: "filter (\<lambda>i. i < a) [x..<y] = [x..<min y a]"
proof (induction y)
  case (Suc y)
  then show ?case by (cases "x \<le> y"; cases "y < a") (auto simp: min_def)
qed simp

text \<open>A filter that holds exactly below an index cuts a segment there.\<close>

lemma filter_segment:
  assumes "\<And>i. i < y \<Longrightarrow> P (xs ! i) \<longleftrightarrow> i < a"
  shows "filter P (segment xs x y) = segment xs x (min y a)"
proof -
  have "filter P (segment xs x y) = map ((!) xs) (filter (\<lambda>i. P (xs ! i)) [x..<y])"
    by (simp add: segment_def filter_map comp_def)
  also have "filter (\<lambda>i. P (xs ! i)) [x..<y] = filter (\<lambda>i. i < a) [x..<y]"
    by (rule filter_cong) (auto simp: assms)
  finally show ?thesis by (simp add: filter_upt_less segment_def)
qed


section \<open>The buffer tracks the log\<close>

definition tail_ok :: "content list \<Rightarrow> (nat \<Rightarrow> nat) \<Rightarrow> nat \<Rightarrow> LogsHook \<Rightarrow> nat \<Rightarrow> bool" where
  "tail_ok C pos vis h b = (\<forall>k st. lh_source h = Some k \<longrightarrow> map_get (lh_streams h) k = Some st \<longrightarrow>
     b \<le> pos k \<and> pos k \<le> vis \<and> map content (st_batch st) = segment C b (pos k))"

definition tracks :: "content list \<Rightarrow> (nat \<Rightarrow> nat) \<Rightarrow> nat \<Rightarrow> LogsHook \<Rightarrow> nat \<Rightarrow> nat \<Rightarrow> bool" where
  "tracks C pos vis h a b = (a \<le> b \<and> b \<le> vis \<and> map content (lh_buf h) = segment C a b
     \<and> (\<not> lh_detached h \<longrightarrow> tail_ok C pos vis h b))"

definition phase :: "LogsHook \<Rightarrow> bool" where
  "phase h = ((\<forall>k. lh_source h = Some k \<longrightarrow> k < lh_fresh h)
     \<and> (lh_reset h \<noteq> None \<longrightarrow>
         lh_requests h = [] \<and> lh_source h = None \<and> lh_buf h = [] \<and> \<not> lh_detached h)
     \<and> (\<forall>r\<in>set (lh_requests h). rq_kind r = InitialPage \<longrightarrow> lh_requests h = [r]
         \<and> lh_reset h = None \<and> lh_source h = None \<and> lh_buf h = [] \<and> \<not> lh_detached h))"

lemma content_parse:
  assumes "truthy (he_timestamp e)"
  shows "\<exists>l. parseLogEvent i (Some (sse_of e)) = Some l \<and> content l = entry_content e"
  using assms
  by (auto simp: parseLogEvent_def sse_of_def content_def entry_content_def toLogLine_def)

lemma tracks_onmessage:
  assumes "tracks C pos vis h a b" "pos k < vis" "truthy (he_timestamp e)"
    and "entry_content e = C ! pos k" "stream_open h k"
  shows "tracks C (pos(k := Suc (pos k))) vis (onmessage k (Some (sse_of e)) h) a b"
proof -
  obtain st where st: "map_get (lh_streams h) k = Some st" "st_open st"
    using assms(5) by (auto simp: stream_open_def split: option.splits)
  obtain l where l: "parseLogEvent (lh_nextLogId h) (Some (sse_of e)) = Some l"
    "content l = C ! pos k"
    using content_parse [OF assms(3)] assms(4) by metis
  show ?thesis using assms(1,2) st l
    by (auto simp: tracks_def tail_ok_def onmessage_def js.get_put segment_snoc)
qed

lemma tracks_flush:
  assumes "tracks C pos vis h a b"
  shows "\<exists>a b. tracks C pos vis (flush k h) a b"
proof -
  have keep: ?thesis if "flush k h = h" using assms that by metis
  show ?thesis
  proof (cases "map_get (lh_streams h) k")
    case None
    then show ?thesis using keep by (simp add: flush_def)
  next
    case (Some st)
    let ?size = "lcf_bufferSize (lh_config h)"
    let ?taken = "h\<lparr>lh_streams := map_set (lh_streams h) k (st\<lparr>st_frame := False, st_batch := []\<rparr>)\<rparr>"
    show ?thesis
    proof (cases "st_frame st")
      case False
      then show ?thesis using keep Some by (simp add: flush_def)
    next
      case True
      have cases: "flush k h = ?taken \<and> (st_batch st = [] \<or> lh_source h \<noteq> Some k \<or> lh_detached h)
        \<or> flush k h = detach ?taken
        \<or> flush k h = append_live (st_batch st) ?taken \<and> lh_source h = Some k \<and> \<not> lh_detached h"
        using Some True by (simp add: flush_def Let_def)
      consider (taken) "flush k h = ?taken" "st_batch st = [] \<or> lh_source h \<noteq> Some k \<or> lh_detached h"
        | (detach) "flush k h = detach ?taken"
        | (append) "flush k h = append_live (st_batch st) ?taken" "lh_source h = Some k" "\<not> lh_detached h"
        using cases by blast
      then show ?thesis
      proof cases
        case taken
        then have "tracks C pos vis (flush k h) a b" using assms Some
          by (auto simp: tracks_def tail_ok_def js.get_put)
        then show ?thesis by blast
      next
        case detach
        then have "tracks C pos vis (flush k h) a b" using assms
          by (simp add: tracks_def detach_def)
        then show ?thesis by blast
      next
        case append
        have t: "b \<le> pos k" "pos k \<le> vis" "map content (st_batch st) = segment C b (pos k)"
          using assms append(2,3) Some by (auto simp: tracks_def tail_ok_def)
        have buf: "map content (lh_buf h @ st_batch st) = segment C a (pos k)" (is "?l = _")
          using assms t by (simp add: tracks_def segment_append)
        then have len: "length (lh_buf h @ st_batch st) = pos k - a"
          by (metis length_map length_segment)
        let ?n = "length (lh_buf h @ st_batch st) - ?size"
        have d: "map content (drop ?n (lh_buf h @ st_batch st)) = segment C (a + ?n) (pos k)"
          using buf by (simp only: drop_map [symmetric] drop_segment)
        have "tracks C pos vis (flush k h) (a + ?n) (pos k)"
          using assms t append d len buf Some
          by (auto simp: tracks_def tail_ok_def append_live_def Let_def js.get_put
              simp del: drop_append map_append length_append)
        then show ?thesis by blast
      qed
    qed
  qed
qed

lemma tracks_showLatest:
  assumes "map content fetched = segment C x u" "x \<le> u" "u \<le> vis" "lh_source h = None"
  shows "tracks C (pos(lh_fresh h := u)) vis (showLatest fetched h) x u"
  using assms
  by (auto simp: tracks_def tail_ok_def showLatest_def openSSE_def Let_def js.get_put
      split: option.splits)


section \<open>Older pages\<close>

definition cts :: "content \<Rightarrow> string option" where
  "cts = (\<lambda>(s, t, ts, c). ts)"

definition ccn :: "content \<Rightarrow> string" where
  "ccn = (\<lambda>(s, t, ts, c). nullish c [])"

definition ordered_content :: "content list \<Rightarrow> bool" where
  "ordered_content C = ((\<forall>i<length C. truthy (cts (C ! i)) \<and> CHR ''|'' \<notin> set (the (cts (C ! i)))
       \<and> CHR ''|'' \<notin> set (ccn (C ! i)))
     \<and> (\<forall>i j. i < j \<longrightarrow> j < length C \<longrightarrow> the (cts (C ! i)) < the (cts (C ! j))))"

lemma content_sel [simp]:
  "cts (content l) = ll_timestamp l" "ccn (content l) = nullish (ll_container l) []"
  "cts (entry_content e) = he_timestamp e" "ccn (entry_content e) = nullish (he_container e) []"
  by (simp_all add: cts_def ccn_def content_def entry_content_def toLogLine_def)

lemma server_log_content: "server_log L \<Longrightarrow> ordered_content (map entry_content L)"
  by (auto simp: server_log_def ordered_content_def sorted_wrt_iff_nth_less)

lemma before_cursor_content:
  "before_cursor c l \<longleftrightarrow> \<not> truthy (cts (content l)) \<or> the (cts (content l)) < c"
  by (simp add: before_cursor_def)

lemma content_toLogLines: "map content (toLogLines n es) = map entry_content es"
  by (induction n es rule: toLogLines.induct)
    (auto simp: entry_content_def content_def toLogLine_def)

lemma ordered_index:
  assumes "ordered_content C" "i < length C" "a < length C"
  shows "the (cts (C ! i)) < the (cts (C ! a)) \<longleftrightarrow> i < a"
    and "the (cts (C ! i)) = the (cts (C ! a)) \<longleftrightarrow> i = a"
proof -
  have lt: "the (cts (C ! i)) < the (cts (C ! j))" if "i < j" "j < length C" for i j
    using assms(1) that by (simp add: ordered_content_def)
  consider "i < a" | "i = a" | "a < i" by linarith
  then show "the (cts (C ! i)) < the (cts (C ! a)) \<longleftrightarrow> i < a"
    "the (cts (C ! i)) = the (cts (C ! a)) \<longleftrightarrow> i = a"
    using lt [of i a] lt [of a i] assms(2,3) by (cases; auto)+
qed

lemma delimiter_inject:
  "x \<notin> set as \<Longrightarrow> x \<notin> set bs \<Longrightarrow> as @ x # cs = bs @ x # ds \<Longrightarrow> as = bs \<and> cs = ds"
proof (induction as arbitrary: bs)
  case (Cons a as)
  then show ?case by (cases bs) auto
next
  case Nil
  then show ?case by (cases bs) auto
qed

lemma dedupe_key_timestamp:
  assumes "aggregateDedupeKey l = aggregateDedupeKey l'"
    and "CHR ''|'' \<notin> set (ccn (content l))" "CHR ''|'' \<notin> set (ccn (content l'))"
    and "CHR ''|'' \<notin> set (the (ll_timestamp l))" "CHR ''|'' \<notin> set (the (ll_timestamp l'))"
    and "truthy (ll_timestamp l)" "truthy (ll_timestamp l')"
  shows "ll_timestamp l = ll_timestamp l'"
proof -
  obtain t t' where t: "ll_timestamp l = Some t" "ll_timestamp l' = Some t'"
    using assms(6,7) by (auto simp: truthy_iff)
  have "nullish (ll_timestamp l) [] @ CHR ''|'' # stream_name (ll_stream l) @ ''|'' @ ll_text l
      = nullish (ll_timestamp l') [] @ CHR ''|'' # stream_name (ll_stream l') @ ''|'' @ ll_text l'"
    using assms(1-3) delimiter_inject [of "CHR ''|''" "nullish (ll_container l) []"
        "nullish (ll_container l') []"] by (auto simp: aggregateDedupeKey_def)
  then show ?thesis
    using assms(4,5) t delimiter_inject [of "CHR ''|''" t t'] by auto
qed

lemma nth_segment: "i < b - a \<Longrightarrow> segment C a b ! i = C ! (a + i)"
  by (simp add: segment_def)

lemma in_segment:
  assumes "map f ls = segment C a b" "l \<in> set ls"
  obtains i where "a \<le> i" "i < b" "f l = C ! i"
proof -
  have "f l \<in> set (segment C a b)" using assms by (metis image_eqI image_set)
  then show ?thesis using that by (auto simp: segment_def)
qed

lemma unseen_all:
  assumes C: "ordered_content C" and dk: "dk = None \<or> dk = Some aggregateDedupeKey"
    and older: "map content older = segment C x a" and buf: "map content buf = segment C a b"
    and le: "b \<le> length C" "a \<le> b"
  shows "unseen dk buf older = older"
proof (cases dk)
  case (Some f)
  have "aggregateDedupeKey l \<noteq> aggregateDedupeKey l'" if l: "l \<in> set older" "l' \<in> set buf" for l l'
  proof
    assume eq: "aggregateDedupeKey l = aggregateDedupeKey l'"
    obtain i where i: "i < a" "content l = C ! i" using in_segment [OF older l(1)] by metis
    obtain j where j: "a \<le> j" "j < b" "content l' = C ! j" using in_segment [OF buf l(2)] by metis
    have w: "truthy (cts (C ! k)) \<and> CHR ''|'' \<notin> set (the (cts (C ! k))) \<and> CHR ''|'' \<notin> set (ccn (C ! k))"
      if "k < length C" for k using C that by (auto simp: ordered_content_def)
    have "ll_timestamp l = ll_timestamp l'"
      using eq w [of i] w [of j] i j le by (intro dedupe_key_timestamp) (metis content_sel(1,2) less_le_trans order_less_trans)+
    then have "the (cts (C ! i)) = the (cts (C ! j))" using i j by (metis content_sel(1))
    then show False using ordered_index(2) [OF C, of i j] i j le by auto
  qed
  then show ?thesis using Some dk by (auto simp: unseen_def filter_id_conv)
qed (simp add: unseen_def)


lemma filter_content: "map f (filter (\<lambda>l. P (f l)) ls) = filter P (map f ls)"
  by (induction ls) auto

lemma tracks_end [simp]: "tracks C pos vis (end_history h) a b = tracks C pos vis h a b"
  by (simp add: tracks_def tail_ok_def end_history_def)

lemma tracks_prepend:
  assumes "tracks C pos vis h a b" "map content older = segment C x a" "x \<le> a"
  shows "\<exists>b'. tracks C pos vis (prepend_older older h) x b'"
proof -
  let ?size = "lcf_bufferSize (lh_config h)"
  have buf: "map content (older @ lh_buf h) = segment C x b"
    using assms by (simp add: tracks_def segment_append)
  then have cut: "map content (take ?size (older @ lh_buf h)) = segment C x (min b (x + ?size))"
    by (simp only: take_map [symmetric] take_segment)
  show ?thesis
  proof (cases "?size < length (older @ lh_buf h)")
    case True
    then have "tracks C pos vis (prepend_older older h) x (min b (x + ?size))"
      using assms cut
      by (simp add: tracks_def prepend_older_def detach_def Let_def min_le_iff_disj del: take_append)
    then show ?thesis by blast
  next
    case False
    then have "tracks C pos vis (prepend_older older h) x b"
      using assms buf by (simp add: tracks_def tail_ok_def prepend_older_def Let_def)
    then show ?thesis by blast
  qed
qed

text \<open>The lines a server sends for an older page, once those at the cursor are dropped.\<close>

lemma older_segment:
  assumes C: "ordered_content C" and a: "a < v" "v \<le> length C" and c: "c = the (cts (C ! a))"
    and fetched: "map content fetched = last_n n (filter (\<lambda>e. the (cts e) < c \<or> incl \<and> the (cts e) = c)
      (segment C 0 v))"
  shows "\<exists>x\<le>a. map content (filter (before_cursor c) fetched) = segment C x a"
proof -
  let ?a = "if incl then Suc a else a"
  have "filter (\<lambda>e. the (cts e) < c \<or> incl \<and> the (cts e) = c) (segment C 0 v) = segment C 0 (min v ?a)"
    using a ordered_index [OF C] by (intro filter_segment) (auto simp: c)
  moreover have "min v ?a = ?a" using a(1) by simp
  ultimately have "map content fetched = segment C (?a - n) ?a"
    using fetched by (simp add: last_n_segment)
  moreover have "filter (\<lambda>e. \<not> truthy (cts e) \<or> the (cts e) < c) (segment C (?a - n) ?a)
      = segment C (?a - n) (min ?a a)"
  proof (rule filter_segment)
    fix i assume "i < ?a"
    then have "i < length C" using a by (simp split: if_splits)
    then show "\<not> truthy (cts (C ! i)) \<or> the (cts (C ! i)) < c \<longleftrightarrow> i < a"
      using ordered_index(1) [OF C _ order_less_le_trans [OF a]] C by (auto simp: c ordered_content_def)
  qed
  ultimately have "map content (filter (before_cursor c) fetched) = segment C (?a - n) a"
    using filter_content [of content "\<lambda>e. \<not> truthy (cts e) \<or> the (cts e) < c" fetched]
    by (simp add: before_cursor_content [abs_def] min_def)
  moreover have "segment C (?a - n) a = segment C (min (?a - n) a) a"
    by (simp add: segment_def min_def)
  ultimately show ?thesis by (intro exI [of _ "min (?a - n) a"]) simp
qed

lemma tracks_older:
  assumes t: "tracks C pos vis h a b" and C: "ordered_content C" and v: "vis \<le> length C"
    and c: "first_timestamp h = Some c" and dk: "known_key (lh_config h)"
    and fetched: "map content fetched = last_n n (filter (\<lambda>e. the (cts e) < c \<or> incl \<and> the (cts e) = c)
      (segment C 0 vis))"
  shows "\<exists>a b. tracks C pos vis (older_arrived c fetched h) a b"
proof -
  obtain l ls where buf: "lh_buf h = l # ls" "ll_timestamp l = Some c"
    using c by (auto simp: first_timestamp_def split: list.splits)
  have seg: "map content (lh_buf h) = segment C a b" and le: "a \<le> b" "b \<le> vis"
    using t by (auto simp: tracks_def)
  then have ab: "a < b" using buf by (cases "a = b") auto
  have "content l = hd (segment C a b)" using seg buf(1) by (metis list.sel(1) list.simps(9))
  then have "content l = C ! a" using ab by (simp add: segment_def hd_map)
  then have "c = the (cts (C ! a))" using buf(2) by (metis content_sel(1) option.sel)
  then obtain x where x: "x \<le> a" "map content (filter (before_cursor c) fetched) = segment C x a"
    using older_segment [OF C _ v _ fetched] ab le by (metis order_less_le_trans)
  then have all: "unseen (lcf_dedupeKey (lh_config h)) (lh_buf h) (filter (before_cursor c) fetched)
      = filter (before_cursor c) fetched"
    using dk le v ab by (intro unseen_all [OF C _ x(2) seg]) (auto simp: known_key_def)
  have "tracks C pos vis (h\<lparr>lh_hasMore := True\<rparr>) a b"
    using t by (simp add: tracks_def tail_ok_def)
  then obtain b' where
    "tracks C pos vis (prepend_older (filter (before_cursor c) fetched) (h\<lparr>lh_hasMore := True\<rparr>)) x b'"
    using tracks_prepend x by metis
  moreover have "tracks C pos vis (end_history h) a b" using t by simp
  ultimately show ?thesis using all
    by (cases "filter (before_cursor c) fetched = []") (auto simp: older_arrived_def Let_def)
qed

section \<open>Requests and streams\<close>

lemma onmessage_sel [simp]:
  "lh_source (onmessage k d h) = lh_source h" "lh_fresh (onmessage k d h) = lh_fresh h"
  "lh_reset (onmessage k d h) = lh_reset h" "lh_requests (onmessage k d h) = lh_requests h"
  "lh_buf (onmessage k d h) = lh_buf h" "lh_detached (onmessage k d h) = lh_detached h"
  "lh_config (onmessage k d h) = lh_config h"
  by (simp_all add: onmessage_def split: option.splits)

lemma flush_sel [simp]:
  "lh_source (flush k h) = lh_source h" "lh_fresh (flush k h) = lh_fresh h"
  "lh_reset (flush k h) = lh_reset h" "lh_requests (flush k h) = lh_requests h"
  "lh_config (flush k h) = lh_config h"
  by (simp_all add: flush_def append_live_def detach_def Let_def split: option.splits)

lemma flush_no_source:
  "lh_source h = None \<Longrightarrow> lh_buf (flush k h) = lh_buf h \<and> lh_detached (flush k h) = lh_detached h"
  by (simp add: flush_def Let_def split: option.splits)

lemma phase_onmessage: "phase h \<Longrightarrow> phase (onmessage k d h)"
  by (simp add: phase_def)

lemma phase_flush: "phase h \<Longrightarrow> phase (flush k h)"
  by (auto simp: phase_def flush_no_source)

lemma phase_reset: "phase h \<Longrightarrow> phase (reset_frame h)"
  by (auto simp: phase_def reset_frame_def send_request_def Let_def split: option.splits reset.splits)

lemma phase_loadMore: "phase h \<Longrightarrow> phase (loadMore h)"
  by (auto simp: phase_def loadMore_def send_request_def Let_def split: option.splits list.splits)

lemma phase_loadNewer: "phase h \<Longrightarrow> phase (loadNewer h)"
  by (auto simp: phase_def loadNewer_def abort_newer_def send_request_def split: option.splits)

text \<open>Settling a request leaves no initial page behind it.\<close>

lemma phase_settle:
  assumes "phase h" "find_request h i = Some r"
  shows "lh_reset h = None" "\<forall>q\<in>set (lh_requests (settle_request i h)). rq_kind q \<noteq> InitialPage"
    "\<forall>k. lh_source h = Some k \<longrightarrow> k < lh_fresh h"
proof -
  have r: "r \<in> set (lh_requests h)" "rq_id r = i" using assms(2) find_request_Some by auto
  then show "lh_reset h = None" "\<forall>k. lh_source h = Some k \<longrightarrow> k < lh_fresh h"
    using assms(1) by (auto simp: phase_def)
  show "\<forall>q\<in>set (lh_requests (settle_request i h)). rq_kind q \<noteq> InitialPage"
  proof
    fix q assume q: "q \<in> set (lh_requests (settle_request i h))"
    then have "q \<in> set (lh_requests h)" "rq_id q \<noteq> i" by (auto simp: settle_request_def)
    then show "rq_kind q \<noteq> InitialPage" using assms(1) r by (auto simp: phase_def)
  qed
qed

lemma phase_settled:
  assumes "lh_reset h = None" "\<forall>q\<in>set (lh_requests h). rq_kind q \<noteq> InitialPage"
    and "\<forall>k. lh_source h = Some k \<longrightarrow> k < lh_fresh h"
  shows "phase (page_arrived pk ls h)" "phase (page_failed pk h)"
  using assms
  by (auto simp: phase_def page_arrived_def page_failed_def showLatest_def openSSE_def
      older_arrived_def end_history_def prepend_older_def detach_def Let_def
      split: page_kind.splits option.splits)


section \<open>The invariant of a run\<close>

lemma config_step [simp]:
  "(\<And>cfg. e \<noteq> Configure cfg) \<Longrightarrow> lh_config (logs_step h e) = lh_config h"
  by (cases e) (auto simp: reset_frame_def loadMore_def loadNewer_def abort_newer_def
      send_request_def page_arrived_def page_failed_def showLatest_def openSSE_def
      older_arrived_def end_history_def prepend_older_def detach_def Let_def
      split: option.splits reset.splits page_kind.splits list.splits)

lemma tracks_local:
  assumes "tracks C pos vis h a b"
  shows "tracks C pos vis (reset_frame h) a b" "tracks C pos vis (loadMore h) a b"
    "tracks C pos vis (loadNewer h) a b"
    "tracks C pos vis (h\<lparr>lh_following := f\<rparr>) a b" "tracks C pos vis (h\<lparr>lh_connected := f\<rparr>) a b"
  using assms
  by (auto simp: tracks_def tail_ok_def reset_frame_def loadMore_def loadNewer_def abort_newer_def
      send_request_def Let_def split: option.splits reset.splits list.splits)

lemma tracks_pos:
  assumes "tracks C pos vis h a b" "\<forall>k. lh_source h = Some k \<longrightarrow> k < n"
  shows "tracks C (pos(n := u)) vis h a b"
  using assms by (auto simp: tracks_def tail_ok_def)

lemma tracks_visible: "tracks C pos vis h a b \<Longrightarrow> vis \<le> vis' \<Longrightarrow> tracks C pos vis' h a b"
  by (auto simp: tracks_def tail_ok_def)

lemma tracks_settle [simp]:
  "tracks C pos vis ((settle_request i h)\<lparr>lh_nextLogId := n\<rparr>) a b = tracks C pos vis h a b"
  "tracks C pos vis (settle_request i h) a b = tracks C pos vis h a b"
  by (simp_all add: tracks_def tail_ok_def)

lemma tracks_flags [simp]:
  "tracks C pos vis (h\<lparr>lh_loading := f\<rparr>) a b = tracks C pos vis h a b"
  "tracks C pos vis (h\<lparr>lh_loadingMore := f\<rparr>) a b = tracks C pos vis h a b"
  "tracks C pos vis (h\<lparr>lh_loadingNewer := f\<rparr>) a b = tracks C pos vis h a b"
  by (simp_all add: tracks_def tail_ok_def)

text \<open>A failed initial page opens the stream at any point of an empty buffer.\<close>

lemma tracks_failed:
  assumes "tracks C pos vis h a b" "p \<le> vis"
    and "rk = InitialPage \<Longrightarrow> lh_buf h = [] \<and> lh_source h = None"
    and "\<forall>k. lh_source h = Some k \<longrightarrow> k < lh_fresh h"
  shows "\<exists>a b. tracks C (pos(lh_fresh h := p)) vis (page_failed rk h) a b"
proof (cases "rk = InitialPage")
  case True
  then have "tracks C (pos(lh_fresh h := p)) vis (page_failed rk h) p p"
    using assms by (auto simp: tracks_def tail_ok_def page_failed_def openSSE_def js.get_put
        split: option.splits)
  then show ?thesis by blast
next
  case False
  then have "tracks C (pos(lh_fresh h := p)) vis (page_failed rk h) a b"
    using tracks_pos [OF assms(1,4)] by (simp add: page_failed_def split: page_kind.splits)
  then show ?thesis by blast
qed

lemma entries_newest:
  assumes "u \<le> length L"
  shows "\<exists>x\<le>u. map entry_content (last_n n (take u L)) = segment (map entry_content L) x u"
proof -
  have "map entry_content (last_n n (take u L)) = last_n n (segment (map entry_content L) 0 u)"
    using assms by (simp add: map_last_n take_as_segment map_segment)
  then show ?thesis by (intro exI [of _ "u - n"]) (simp add: last_n_segment)
qed


lemma entries_older:
  assumes "v \<le> length L"
  shows "map entry_content (last_n n (filter (at_or_before incl c) (take v L)))
    = last_n n (filter (\<lambda>e. the (cts e) < c \<or> incl \<and> the (cts e) = c)
        (segment (map entry_content L) 0 v))"
proof -
  have "segment (map entry_content L) 0 v = map entry_content (take v L)"
    using assms by (simp add: take_as_segment map_segment)
  then show ?thesis
    by (simp add: map_last_n filter_map comp_def at_or_before_def [abs_def])
qed

definition world_run_inv :: "HistoryEntry list \<Rightarrow> LogWorld \<Rightarrow> bool" where
  "world_run_inv L w = (wd_visible w \<le> length L \<and> phase (wd_hook w)
     \<and> known_key (lh_config (wd_hook w))
     \<and> (\<exists>a b. tracks (map entry_content L) (wd_pos w) (wd_visible w) (wd_hook w) a b))"

lemma inv_answer:
  assumes L: "server_log L" and inv: "world_run_inv L w" and ok: "world_ok w (Answer i v n incl)"
  shows "world_run_inv L (world_step L w (Answer i v n incl))"
proof (cases "find_request (wd_hook w) i")
  case None
  then show ?thesis using inv by simp
next
  case (Some r)
  let ?h = "wd_hook w" let ?C = "map entry_content L" let ?vis = "wd_visible w"
  obtain a b where t: "tracks ?C (wd_pos w) ?vis ?h a b" and len: "?vis \<le> length L"
    and ph: "phase ?h" and dk: "known_key (lh_config ?h)"
    using inv by (auto simp: world_run_inv_def)
  define h0 where "h0 m = (settle_request i ?h)\<lparr>lh_nextLogId := m\<rparr>" for m
  note ps = phase_settle [OF ph Some]
  have h0: "tracks ?C (wd_pos w) ?vis (h0 m) a b" "first_timestamp (h0 m) = first_timestamp ?h"
    "lh_config (h0 m) = lh_config ?h" "lh_fresh (h0 m) = lh_fresh ?h" "lh_reset (h0 m) = None"
    "\<forall>q\<in>set (lh_requests (h0 m)). rq_kind q \<noteq> InitialPage"
    "\<forall>k. lh_source (h0 m) = Some k \<longrightarrow> k < lh_fresh (h0 m)" "lh_source (h0 m) = lh_source ?h" for m
    using t ps by (simp_all add: h0_def first_timestamp_def)
  have phase': "phase (page_arrived k ls (h0 m))" for k ls m
    by (rule phase_settled(1) [OF h0(5,6,7)])
  let ?u = "min v ?vis"
  obtain x where x: "x \<le> ?u" "map entry_content (last_n n (take ?u L)) = segment ?C x ?u"
    using entries_newest [of ?u L n] len by (meson min.coboundedI2)
  have latest: "\<exists>a b. tracks ?C ((wd_pos w)(lh_fresh ?h := ?u)) ?vis
      (showLatest (toLogLines k (last_n n (take ?u L))) g) a b"
    if "lh_source g = None" "lh_fresh g = lh_fresh ?h" for g k
    using tracks_showLatest [OF _ x(1) min.cobounded2 that(1), of _ ?C "wd_pos w"] x(2) that(2)
    by (metis content_toLogLines)
  have cfg: "lh_config (logs_step ?h (PageArrived i p)) = lh_config ?h" for p
    by (rule config_step) simp
  show ?thesis
  proof (cases "rq_kind r")
    case (OlderPage c)
    let ?page = "last_n n (filter (at_or_before incl c) (take ?vis L))"
    let ?ls = "toLogLines (lh_nextLogId ?h) ?page"
    let ?h = "page_arrived (OlderPage c) ?ls (h0 (lh_nextLogId ?h + length ?page))"
    have step: "world_step L w (Answer i v n incl) = w\<lparr>wd_hook := ?h\<rparr>"
      using Some OlderPage by (simp add: h0_def Let_def)
    have "first_timestamp (wd_hook w) = Some c" using ok Some OlderPage by simp
    then have "\<exists>a b. tracks ?C (wd_pos w) ?vis ?h a b"
      unfolding page_arrived_def page_kind.case
      using len L dk h0 by (intro tracks_older [where n = n and incl = incl])
        (auto simp: content_toLogLines entries_older server_log_content)
    moreover have "lh_config ?h = lh_config (wd_hook w)"
      using config_step [of "PageArrived i (Some ?page)" "wd_hook w"] Some OlderPage
      by (simp add: h0_def Let_def)
    ultimately show ?thesis using len dk phase' step by (simp add: world_run_inv_def)
  next
    case InitialPage
    let ?page = "last_n n (take ?u L)"
    let ?g = "h0 (lh_nextLogId ?h + length ?page)"
    have "lh_source ?g = None"
      using ph Some InitialPage find_request_Some h0(8) by (metis phase_def)
    then have "\<exists>a b. tracks ?C ((wd_pos w)(lh_fresh ?h := ?u)) ?vis (page_arrived InitialPage
        (toLogLines (lh_nextLogId ?h) ?page) ?g) a b"
      using latest [of ?g] h0(4) by (simp add: page_arrived_def)
    then show ?thesis
      using Some InitialPage len dk phase' cfg [of "Some ?page"] by (simp add: world_run_inv_def h0_def Let_def)
  next
    case NewestPage
    let ?page = "last_n n (take ?u L)"
    let ?g = "teardownSSE (h0 (lh_nextLogId ?h + length ?page))"
    have "\<exists>a b. tracks ?C ((wd_pos w)(lh_fresh ?h := ?u)) ?vis (page_arrived NewestPage
        (toLogLines (lh_nextLogId ?h) ?page) (h0 (lh_nextLogId ?h + length ?page))) a b"
      using latest [of ?g] h0(4) by (simp add: page_arrived_def)
    then show ?thesis
      using Some NewestPage len dk phase' cfg [of "Some ?page"] by (simp add: world_run_inv_def h0_def Let_def)
  qed
qed


lemma inv_fail:
  assumes inv: "world_run_inv L w"
  shows "world_run_inv L (world_step L w (Fail i p))"
proof (cases "find_request (wd_hook w) i")
  case None
  obtain a b where "tracks (map entry_content L) (wd_pos w) (wd_visible w) (wd_hook w) a b"
    using inv by (auto simp: world_run_inv_def)
  moreover have "\<forall>k. lh_source (wd_hook w) = Some k \<longrightarrow> k < lh_fresh (wd_hook w)"
    using inv by (simp add: world_run_inv_def phase_def)
  ultimately have "tracks (map entry_content L) ((wd_pos w)(lh_fresh (wd_hook w) := min p (wd_visible w)))
      (wd_visible w) (wd_hook w) a b" by (rule tracks_pos)
  then show ?thesis using inv None by (auto simp: world_run_inv_def)
next
  case (Some r)
  let ?h = "wd_hook w" let ?C = "map entry_content L" let ?vis = "wd_visible w"
  obtain a b where t: "tracks ?C (wd_pos w) ?vis (settle_request i ?h) a b"
    and ph: "phase ?h" using inv by (auto simp: world_run_inv_def)
  have "rq_kind r = InitialPage \<Longrightarrow> lh_buf (settle_request i ?h) = [] \<and> lh_source (settle_request i ?h) = None"
    using ph find_request_Some [OF Some] by (auto simp: phase_def)
  then have "\<exists>a b. tracks ?C ((wd_pos w)(lh_fresh (settle_request i ?h) := min p ?vis)) ?vis
      (page_failed (rq_kind r) (settle_request i ?h)) a b"
    using phase_settle(3) [OF ph Some] by (intro tracks_failed [OF t]) simp_all
  moreover have "phase (page_failed (rq_kind r) (settle_request i ?h))"
    using phase_settle [OF ph Some] by (intro phase_settled) simp_all
  moreover have "lh_config (logs_step ?h (PageFailed i)) = lh_config ?h" by (rule config_step) simp
  ultimately show ?thesis using inv Some by (simp add: world_run_inv_def)
qed

lemma inv_deliver:
  assumes L: "server_log L" and inv: "world_run_inv L w"
  shows "world_run_inv L (world_step L w (Deliver k))"
proof (cases "stream_open (wd_hook w) k \<and> wd_pos w k < wd_visible w")
  case True
  then have "wd_pos w k < length L" using inv by (auto simp: world_run_inv_def)
  then have "L ! wd_pos w k \<in> set L" by simp
  then have "truthy (he_timestamp (L ! wd_pos w k))" using L by (auto simp: server_log_def)
  then show ?thesis
    using True inv tracks_onmessage [of "map entry_content L" "wd_pos w" "wd_visible w" "wd_hook w" _ _ k
        "L ! wd_pos w k"] \<open>wd_pos w k < length L\<close>
    by (auto simp: world_run_inv_def phase_onmessage)
qed (use inv in auto)

lemma phase_flags:
  "phase h \<Longrightarrow> phase (h\<lparr>lh_following := f\<rparr>)" "phase h \<Longrightarrow> phase (h\<lparr>lh_connected := f\<rparr>)"
  by (simp_all add: phase_def)

lemma inv_local:
  assumes inv: "world_run_inv L w" and ok: "world_ok w (Local e)"
  shows "world_run_inv L (world_step L w (Local e))"
proof -
  have "lh_config (logs_step (wd_hook w) e) = lh_config (wd_hook w)"
    using ok by (intro config_step) auto
  moreover have "phase (logs_step (wd_hook w) e)"
    using phase_reset phase_flush phase_loadMore phase_loadNewer phase_flags ok inv
    by (cases e) (simp_all add: world_run_inv_def split: option.splits)
  moreover have "\<exists>a b. tracks (map entry_content L) (wd_pos w) (wd_visible w) (logs_step (wd_hook w) e) a b"
  proof -
    obtain a b where t: "tracks (map entry_content L) (wd_pos w) (wd_visible w) (wd_hook w) a b"
      using inv by (auto simp: world_run_inv_def)
    show ?thesis
    proof (cases "\<exists>k. e = FlushFrame k")
      case True
      then show ?thesis using tracks_flush [OF t] by auto
    next
      case False
      then have "tracks (map entry_content L) (wd_pos w) (wd_visible w) (logs_step (wd_hook w) e) a b"
        using ok t tracks_local [OF t] by (cases e) (simp_all split: option.splits)
      then show ?thesis by blast
    qed
  qed
  ultimately show ?thesis using inv by (simp add: world_run_inv_def)
qed

lemma inv_activate:
  assumes "world_run_inv L w"
  shows "world_run_inv L (world_step L w (Activate b))"
proof -
  let ?cfg = "(lh_config (wd_hook w))\<lparr>lcf_active := b\<rparr>"
  let ?h = "configure ?cfg (wd_hook w)"
  have h: "lh_config ?h = ?cfg" "lh_source ?h = None" "lh_buf ?h = []" "\<not> lh_detached ?h" "lh_requests ?h = []"
    by (simp_all add: configure_def teardownSSE_def split: option.split)
  then have "phase ?h" "tracks (map entry_content L) (wd_pos w) (wd_visible w) ?h 0 0"
    by (simp_all add: phase_def tracks_def tail_ok_def)
  then show ?thesis using assms h(1) by (auto simp: world_run_inv_def known_key_def)
qed

lemma inv_emit:
  assumes "world_run_inv L w"
  shows "world_run_inv L (world_step L w Emit)"
proof -
  obtain a b where "tracks (map entry_content L) (wd_pos w) (wd_visible w) (wd_hook w) a b"
    using assms by (auto simp: world_run_inv_def)
  then have "tracks (map entry_content L) (wd_pos w) (min (Suc (wd_visible w)) (length L)) (wd_hook w) a b"
    by (rule tracks_visible) (use assms in \<open>simp add: world_run_inv_def\<close>)
  then show ?thesis using assms by (auto simp: world_run_inv_def)
qed

lemma inv_reconnect:
  assumes "world_run_inv L w" "world_ok w (Reconnect k p)"
  shows "world_run_inv L (world_step L w (Reconnect k p))"
  using assms by simp

lemma inv_world_step:
  assumes "server_log L \<and> world_run_inv L w" "world_ok w e"
  shows "server_log L \<and> world_run_inv L (world_step L w e)"
proof -
  have L: "server_log L" and inv: "world_run_inv L w" using assms(1) by auto
  note ok = assms(2)
  have "world_run_inv L (world_step L w e)"
  proof (cases e)
    case Emit
    then show ?thesis using inv_emit [OF inv] by simp
  next
    case (Answer i v n incl)
    then show ?thesis using inv_answer [OF L inv] ok by (simp only:)
  qed (use ok in \<open>simp_all only: inv_deliver [OF L inv] inv_fail [OF inv] inv_reconnect [OF inv]
      inv_activate [OF inv] inv_local [OF inv]\<close>)
  then show ?thesis using L by simp
qed

interpretation world: machine "world_step L" world_ok "\<lambda>w. server_log L \<and> world_run_inv L w" for L
  by unfold_locales (rule inv_world_step)

lemma inv_world_init: "known_key cfg \<Longrightarrow> world_run_inv L (world_init cfg)"
  by (simp add: world_run_inv_def world_init_def configure_def logs_initial_def teardownSSE_def
      phase_def tracks_def tail_ok_def)

text \<open>
  C9. The buffer is always one contiguous run of lines: with a log in which every line has a
  timestamp, the timestamps increase and neither they nor the container names hold a bar, on every
  run of a viewer of that log (any pages, failures, frames, reader's actions, hiding and showing)
  in which each older page arrives while the buffer still begins at its cursor, and no event
  source that has delivered a line is reconnected by the browser, the buffer holds exactly the log
  entries from some \<open>a\<close> to some \<open>b\<close>; and while the tail is attached, the buffer followed by the
  unflushed batch reaches up to the last line the stream has delivered. Both conditions on the run
  are needed: \<open>late_older_page_leaves_hole\<close> and \<open>reconnect_repeats_lines\<close> break each.
\<close>

theorem log_buffer_contiguous:
  assumes "server_log L" "known_key cfg" "enabled_run (world_step L) world_ok (world_init cfg) es"
  shows "let w = run (world_step L) (world_init cfg) es; h = wd_hook w
    in \<exists>a b. a \<le> b \<and> b \<le> wd_visible w
      \<and> map content (lh_buf h) = segment (map entry_content L) a b
      \<and> (\<not> lh_detached h \<longrightarrow> (\<forall>k st. lh_source h = Some k \<longrightarrow> map_get (lh_streams h) k = Some st \<longrightarrow>
           map content (lh_buf h @ st_batch st) = segment (map entry_content L) a (wd_pos w k)))"
proof -
  let ?w = "run (world_step L) (world_init cfg) es"
  have "server_log L \<and> world_run_inv L ?w"
    using world.run_inv [OF _ assms(3)] assms(1,2) inv_world_init by blast
  then obtain a b where t: "tracks (map entry_content L) (wd_pos ?w) (wd_visible ?w) (wd_hook ?w) a b"
    by (auto simp: world_run_inv_def)
  show ?thesis unfolding Let_def
  proof (rule exI [of _ a], rule exI [of _ b], intro conjI impI allI)
    fix k st
    assume "\<not> lh_detached (wd_hook ?w)" "lh_source (wd_hook ?w) = Some k"
      "map_get (lh_streams (wd_hook ?w)) k = Some st"
    then show "map content (lh_buf (wd_hook ?w) @ st_batch st)
        = segment (map entry_content L) a (wd_pos ?w k)"
      using t by (simp add: tracks_def tail_ok_def segment_append)
  qed (use t in \<open>simp_all add: tracks_def\<close>)
qed


section \<open>A sample server, and a late older page\<close>

definition sample_log :: "HistoryEntry list" where
  "sample_log = [one_line ''t1'' ''a'', one_line ''t2'' ''b'', one_line ''t3'' ''c'',
     one_line ''t4'' ''d'', one_line ''t5'' ''e'']"

definition small_config :: LogsConfig where
  "small_config = (useContainerLogs (Some ''web'') True ContainerLogs)\<lparr>lcf_bufferSize := 3\<rparr>"

definition sample_events :: "world_event list" where
  "sample_events = [Emit, Emit, Emit, Local ResetFrame, Answer 0 3 2 False, Emit, Emit,
     Local LoadMore, Answer 2 0 2 True, Deliver 1, Deliver 1, Local (FlushFrame 1)]"

lemma sample_server_log: "server_log sample_log"
  by code_simp

lemma sample_known_key: "known_key small_config"
  by (simp add: known_key_def small_config_def useContainerLogs_def)

lemma sample_enabled: "enabled_run (world_step sample_log) world_ok (world_init small_config) sample_events"
  by code_simp

theorem log_buffer_contiguous_witness:
  "\<exists>a b. map content (lh_buf (wd_hook (run (world_step sample_log) (world_init small_config) sample_events)))
    = segment (map entry_content sample_log) a b"
  using log_buffer_contiguous [OF sample_server_log sample_known_key sample_enabled]
  by (auto simp: Let_def)

text \<open>
  The same viewer when its event source loses the connection after two lines. The browser asks for
  the original URL again, whose \<open>since\<close> is that of the page, and the server sends both once more.
\<close>

definition reconnect_events :: "world_event list" where
  "reconnect_events = [Emit, Local ResetFrame, Answer 0 1 2 False, Emit, Emit, Deliver 1, Deliver 1,
     Local (FlushFrame 1), Local (SseError 1), Reconnect 1 0, Local (SseOpened 1), Deliver 1, Local (FlushFrame 1)]"

definition reconnected_world :: LogWorld where
  "reconnected_world = run (world_step sample_log) (world_init small_config) reconnect_events"

lemma reconnected_state:
  "map content (lh_buf (wd_hook reconnected_world)) = map entry_content
     [one_line ''t2'' ''b'', one_line ''t3'' ''c'', one_line ''t2'' ''b'']"
  "wd_visible reconnected_world = 3"
  by code_simp+

text \<open>
  The second flaw: an \<open>EventSource\<close> keeps the URL it was opened with, so after a network error the
  tail repeats the lines since the page. The buffer holds lines 2, 3 and 2 of the log.
\<close>

lemma reconnect_repeats_lines:
  "\<not> distinct (map content (lh_buf (wd_hook reconnected_world))) \<and>
   \<not> (\<exists>a b. a \<le> b \<and> b \<le> wd_visible reconnected_world
      \<and> map content (lh_buf (wd_hook reconnected_world)) = segment (map entry_content sample_log) a b)"
proof (intro conjI notI)
  assume "distinct (map content (lh_buf (wd_hook reconnected_world)))"
  then show False by (simp add: reconnected_state)
next
  assume "\<exists>a b. a \<le> b \<and> b \<le> wd_visible reconnected_world
      \<and> map content (lh_buf (wd_hook reconnected_world)) = segment (map entry_content sample_log) a b"
  then obtain a b where ab: "a \<le> b" "b \<le> 3" and eq: "[entry_content (one_line ''t2'' ''b''),
      entry_content (one_line ''t3'' ''c''), entry_content (one_line ''t2'' ''b'')] = segment (map entry_content sample_log) a b"
    by (auto simp: reconnected_state)
  have "b - a = 3" using arg_cong [OF eq, of length] by simp
  then have "a = 0" "b = 3" using ab by auto
  then have "segment (map entry_content sample_log) a b ! 0 = entry_content (one_line ''t1'' ''a'')"
    by (simp add: segment_def sample_log_def)
  then show False using eq [symmetric] by (simp add: entry_content_def content_def toLogLine_def one_line_def)
qed

text \<open>
  The same viewer while the reader jumps back to the tail before the older page answers: the
  full buffer lets go of its oldest line, and the page lands in front of a hole.
\<close>

definition race_events :: "world_event list" where
  "race_events = [Emit, Emit, Emit, Local ResetFrame, Answer 0 3 2 False, Emit, Emit,
     Local LoadMore, Deliver 1, Deliver 1, Local (FlushFrame 1), Answer 2 0 2 False]"

definition race_world :: LogWorld where
  "race_world = run (world_step sample_log) (world_init small_config) race_events"

lemma race_state:
  "map content (lh_buf (wd_hook race_world)) = map entry_content (nths sample_log {0, 2, 3})"
  "wd_visible race_world = 5"
  by code_simp+

text \<open>
  A flaw the guard of the property hides: when the tail evicts the oldest line while
  the older page is in flight, the page is put in front of a buffer that no longer begins at its
  cursor. The buffer then holds lines 1, 3 and 4 of the log: it is no contiguous run.
\<close>

lemma late_older_page_leaves_hole:
  "\<not> (\<exists>a b. a \<le> b \<and> b \<le> wd_visible race_world
      \<and> map content (lh_buf (wd_hook race_world)) = segment (map entry_content sample_log) a b)"
proof
  assume "\<exists>a b. a \<le> b \<and> b \<le> wd_visible race_world
      \<and> map content (lh_buf (wd_hook race_world)) = segment (map entry_content sample_log) a b"
  then obtain a b where ab: "a \<le> b" "b \<le> 5"
    and eq: "map entry_content (nths sample_log {0, 2, 3}) = segment (map entry_content sample_log) a b"
    by (auto simp: race_state)
  have three: "map entry_content (nths sample_log {0, 2, 3})
      = [entry_content (one_line ''t1'' ''a''), entry_content (one_line ''t3'' ''c''),
         entry_content (one_line ''t4'' ''d'')]"
    by (simp add: sample_log_def nths_Cons)
  then have "b = a + 3" using arg_cong [OF eq, of length] ab by simp
  then have "a \<in> {0, 1, 2}" "[a..<b] = [a, a + 1, a + 2]" using ab by (auto simp: upt_rec)
  then show False
    using eq unfolding three by (auto simp: segment_def sample_log_def entry_content_def
        content_def toLogLine_def one_line_def)
qed

end
