(* ===== verification/Deltas.thy ===== *)
theory Deltas
  imports DataModel
begin

text \<open>
  Graph updates: the port labels of \<^verbatim>\<open>utils/ports.ts\<close>, and the snapshot fingerprint and delta
  application of \<^verbatim>\<open>utils/deltaUtils.ts\<close>. The abstract state of a graph is the lookup of nodes by
  id; a delta the server computes between two of its snapshots takes the one to the other, unless
  an optional field disappears: the merge keeps the old value.
\<close>

section \<open>Port labels\<close>

definition portSpan :: "nat \<Rightarrow> nat option \<Rightarrow> string" where
  "portSpan start end_port = (case end_port of None \<Rightarrow> string_of_nat start
     | Some e \<Rightarrow> if e = 0 then string_of_nat start else string_of_nat start @ ''-'' @ string_of_nat e)"

definition hostPorts :: "PortMapping \<Rightarrow> string" where
  "hostPorts p = portSpan (pm_host p) (pm_hostEnd p)"

definition containerPorts :: "PortMapping \<Rightarrow> string" where
  "containerPorts p = portSpan (pm_container p) (pm_containerEnd p)"

definition portMapping :: "PortMapping \<Rightarrow> string" where
  "portMapping p = hostPorts p @ '':'' @ containerPorts p"

section \<open>JSON of a swarm node\<close>

text \<open>\<open>JSON.stringify\<close> of strings and of an object in the field order of the wire.\<close>

definition json_char :: "char \<Rightarrow> string" where
  "json_char c = (let n = (of_char c :: nat) in
     if n = 34 then [CHR 0x5C, c] else if n = 92 then [CHR 0x5C, c]
     else if n = 8 then [CHR 0x5C, CHR ''b''] else if n = 9 then [CHR 0x5C, CHR ''t'']
     else if n = 10 then [CHR 0x5C, CHR ''n''] else if n = 12 then [CHR 0x5C, CHR ''f'']
     else if n = 13 then [CHR 0x5C, CHR ''r'']
     else if n < 32 then CHR 0x5C # ''u00'' @ [digit_char (n div 16),
       (if n mod 16 < 10 then digit_char (n mod 16) else char_of (87 + n mod 16))]
     else [c])"

definition json_string :: "string \<Rightarrow> string" where
  "json_string s = CHR 0x22 # concat (map json_char s) @ [CHR 0x22]"

definition json_bool :: "bool \<Rightarrow> string" where
  "json_bool b = (if b then ''true'' else ''false'')"

definition json_field :: "string \<Rightarrow> string option \<Rightarrow> string list" where
  "json_field k v = (case v of None \<Rightarrow> [] | Some s \<Rightarrow> [json_string k @ '':'' @ s])"

definition json_swarmNode :: "SwarmNodeInfo option \<Rightarrow> string" where
  "json_swarmNode o1 = (case o1 of None \<Rightarrow> ''null'' | Some n \<Rightarrow> ''{'' @ join '','' (
       json_field ''id'' (Some (json_string (sn_id n))) @
       json_field ''role'' (Some (json_string (sn_role n))) @
       json_field ''leader'' (map_option json_bool (sn_leader n)) @
       json_field ''availability'' (Some (json_string (sn_availability n))) @
       json_field ''state'' (Some (json_string (sn_state n))) @
       json_field ''addr'' (map_option json_string (sn_addr n)) @
       json_field ''engineVersion'' (map_option json_string (sn_engineVersion n)) @
       json_field ''nanoCpus'' (map_option string_of_nat (sn_nanoCpus n)) @
       json_field ''memoryBytes'' (map_option string_of_nat (sn_memoryBytes n))) @ ''}'')"

section \<open>Fingerprint\<close>

definition taskKey :: "TaskInfo \<Rightarrow> string" where
  "taskKey t = ti_id t @ ''='' @ nullish (ti_state t) [] @ ''/'' @ nullish (ti_desiredState t) []
     @ ''@'' @ nullish (ti_nodeId t) []"

definition serviceKey :: "DGNode \<Rightarrow> string" where
  "serviceKey n = (case dg_service n of None \<Rightarrow> [] | Some s \<Rightarrow>
     string_of_nat (rc_running (si_replicas s)) @ ''/'' @ string_of_nat (rc_desired (si_replicas s))
     @ '':'' @ nullish (si_mode s) [] @ '':'' @ nullish (si_updateStatus s) []
     @ '':'' @ join '';'' (sort_strings (map taskKey (nullish (si_tasks s) []))))"

definition portKey :: "PortMapping \<Rightarrow> string" where
  "portKey p = hostPorts p @ ''>'' @ containerPorts p @ ''/'' @ nullish (pm_protocol p) []"

definition nodeKey :: "DGNode \<Rightarrow> string" where
  "nodeKey n = dg_id n @ '':'' @ nullish (dg_status n) [] @ '':'' @ nullish (dg_image n) []
     @ '':'' @ nullish (dg_networkId n) [] @ '':'' @ join '';'' (map portKey (nullish (dg_ports n) []))
     @ '':'' @ nullish (dg_stack n) [] @ '':'' @ serviceKey n @ '':'' @ json_swarmNode (dg_swarmNode n)"

definition snapshotFingerprint :: "DGNode list \<Rightarrow> DGEdge list \<Rightarrow> string" where
  "snapshotFingerprint nodes edges =
     join '','' (sort_strings (map nodeKey nodes)) @ ''|'' @ join '','' (sort_strings (map de_id edges))"

section \<open>Deltas\<close>

record DeltaUpdate =
  du_nodesAdded :: "DGNode list option"
  du_nodesRemoved :: "string list option"
  du_nodesUpdated :: "DGNode list option"
  du_edgesAdded :: "DGEdge list option"
  du_edgesRemoved :: "string list option"

text \<open>\<open>update.f ?? old.f\<close> for a field the update may not carry.\<close>

definition override :: "'a option \<Rightarrow> 'a option \<Rightarrow> 'a option" where
  "override old new_value = (case new_value of None \<Rightarrow> old | Some v \<Rightarrow> Some v)"

text \<open>\<open>{ ...old, ...update }\<close>: an optional field absent from the update keeps its old value.\<close>

definition merge_node :: "DGNode \<Rightarrow> DGNode \<Rightarrow> DGNode" where
  "merge_node old u = \<lparr>dg_id = dg_id u, dg_type = dg_type u, dg_name = dg_name u,
     dg_image = override (dg_image old) (dg_image u),
     dg_status = override (dg_status old) (dg_status u),
     dg_ports = override (dg_ports old) (dg_ports u),
     dg_labels = override (dg_labels old) (dg_labels u),
     dg_networkId = override (dg_networkId old) (dg_networkId u),
     dg_driver = override (dg_driver old) (dg_driver u),
     dg_subnet = override (dg_subnet old) (dg_subnet u),
     dg_gateway = override (dg_gateway old) (dg_gateway u),
     dg_source = override (dg_source old) (dg_source u),
     dg_createdAt = override (dg_createdAt old) (dg_createdAt u),
     dg_compose = override (dg_compose old) (dg_compose u),
     dg_stack = override (dg_stack old) (dg_stack u),
     dg_service = override (dg_service old) (dg_service u),
     dg_swarmNode = override (dg_swarmNode old) (dg_swarmNode u)\<rparr>"

definition update_node :: "DGNode list \<Rightarrow> DGNode \<Rightarrow> DGNode list" where
  "update_node nodes u = (case find_index (\<lambda>n. dg_id n = dg_id u) nodes of
     None \<Rightarrow> nodes | Some i \<Rightarrow> nodes[i := merge_node (nodes ! i) u])"

definition applyDelta :: "GraphSnapshot \<Rightarrow> DeltaUpdate \<Rightarrow> GraphSnapshot" where
  "applyDelta prev delta =
     (let kept = (case du_nodesRemoved delta of None \<Rightarrow> gs_nodes prev
            | Some removed \<Rightarrow> filter (\<lambda>n. dg_id n \<notin> set removed) (gs_nodes prev));
          grown = (case du_nodesAdded delta of None \<Rightarrow> kept | Some added \<Rightarrow> kept @ added);
          nodes = (case du_nodesUpdated delta of None \<Rightarrow> grown
            | Some updates \<Rightarrow> foldl update_node grown updates);
          edges_kept = (case du_edgesRemoved delta of None \<Rightarrow> gs_edges prev
            | Some removed \<Rightarrow> filter (\<lambda>e. de_id e \<notin> set removed) (gs_edges prev));
          edges = (case du_edgesAdded delta of None \<Rightarrow> edges_kept | Some added \<Rightarrow> edges_kept @ added)
      in \<lparr>gs_nodes = nodes, gs_edges = edges\<rparr>)"

section \<open>Lookup by id\<close>

definition node_at :: "DGNode list \<Rightarrow> string \<Rightarrow> DGNode option" where
  "node_at ns i = find (\<lambda>n. dg_id n = i) ns"

definition edge_at :: "DGEdge list \<Rightarrow> string \<Rightarrow> DGEdge option" where
  "edge_at es i = find (\<lambda>e. de_id e = i) es"

text \<open>
  The delta the server sends between two snapshots: nodes and edges only in the new one are added,
  those only in the old one removed, changed nodes sent whole. Ids are unique within a snapshot.
\<close>

definition server_delta :: "GraphSnapshot \<Rightarrow> GraphSnapshot \<Rightarrow> DeltaUpdate" where
  "server_delta prev cur = \<lparr>
     du_nodesAdded = Some (filter (\<lambda>n. node_at (gs_nodes prev) (dg_id n) = None) (gs_nodes cur)),
     du_nodesRemoved = Some (filter (\<lambda>i. node_at (gs_nodes cur) i = None) (map dg_id (gs_nodes prev))),
     du_nodesUpdated = Some (filter (\<lambda>n. node_at (gs_nodes prev) (dg_id n) \<notin> {None, Some n}) (gs_nodes cur)),
     du_edgesAdded = Some (filter (\<lambda>e. edge_at (gs_edges prev) (de_id e) = None) (gs_edges cur)),
     du_edgesRemoved = Some (filter (\<lambda>i. edge_at (gs_edges cur) i = None) (map de_id (gs_edges prev)))\<rparr>"


lemma node_at_simps [simp]:
  "node_at [] i = None"
  "node_at (n # ns) i = (if dg_id n = i then Some n else node_at ns i)"
  by (simp_all add: node_at_def)

lemma edge_at_simps [simp]:
  "edge_at [] i = None"
  "edge_at (e # es) i = (if de_id e = i then Some e else edge_at es i)"
  by (simp_all add: edge_at_def)

lemma node_at_append: "node_at (ns @ ms) i = (case node_at ns i of None \<Rightarrow> node_at ms i | Some n \<Rightarrow> Some n)"
  by (induction ns) auto

lemma edge_at_append: "edge_at (es @ fs) i = (case edge_at es i of None \<Rightarrow> edge_at fs i | Some e \<Rightarrow> Some e)"
  by (induction es) auto

lemma node_at_keep: "node_at (filter (\<lambda>n. P (dg_id n)) ns) i = (if P i then node_at ns i else None)"
  by (induction ns) auto

lemma edge_at_keep: "edge_at (filter (\<lambda>e. P (de_id e)) es) i = (if P i then edge_at es i else None)"
  by (induction es) auto

lemma node_at_Some: "node_at ns i = Some n \<Longrightarrow> n \<in> set ns \<and> dg_id n = i"
  by (induction ns) (auto split: if_splits)

lemma edge_at_Some: "edge_at es i = Some e \<Longrightarrow> e \<in> set es \<and> de_id e = i"
  by (induction es) (auto split: if_splits)

lemma node_at_None: "node_at ns i = None \<longleftrightarrow> i \<notin> dg_id ` set ns"
  by (induction ns) auto

lemma edge_at_None: "edge_at es i = None \<longleftrightarrow> i \<notin> de_id ` set es"
  by (induction es) auto

lemma node_at_distinct: "distinct (map dg_id ns) \<Longrightarrow> n \<in> set ns \<Longrightarrow> node_at ns (dg_id n) = Some n"
  by (induction ns) (auto simp: image_iff)

lemma update_node_simps [simp]:
  "update_node [] u = []"
  "update_node (n # ns) u = (if dg_id n = dg_id u then merge_node n u # ns else n # update_node ns u)"
  by (auto simp: update_node_def split: option.splits)

lemma merge_id [simp]: "dg_id (merge_node n u) = dg_id u"
  by (simp add: merge_node_def)

lemma node_at_update:
  "node_at (update_node ns u) i =
     (if i = dg_id u then map_option (\<lambda>n. merge_node n u) (node_at ns i) else node_at ns i)"
  by (induction ns) auto

lemma node_at_updates:
  "node_at (foldl update_node ns us) i =
     map_option (\<lambda>n. foldl merge_node n (filter (\<lambda>u. dg_id u = i) us)) (node_at ns i)"
  by (induction us arbitrary: ns) (auto simp: node_at_update option.map_comp comp_def option.map_ident)

lemma applied_node:
  "node_at (gs_nodes (applyDelta prev d)) i =
     map_option (\<lambda>n. foldl merge_node n (filter (\<lambda>u. dg_id u = i) (nullish (du_nodesUpdated d) [])))
       (if i \<notin> set (nullish (du_nodesRemoved d) []) \<and> node_at (gs_nodes prev) i \<noteq> None
        then node_at (gs_nodes prev) i else node_at (nullish (du_nodesAdded d) []) i)"
  by (auto simp: applyDelta_def Let_def node_at_updates node_at_append node_at_keep [of "\<lambda>i. i \<notin> _"]
      option.map_ident split: option.splits)

lemma applied_edge:
  "edge_at (gs_edges (applyDelta prev d)) i =
     (if i \<notin> set (nullish (du_edgesRemoved d) []) \<and> edge_at (gs_edges prev) i \<noteq> None
      then edge_at (gs_edges prev) i else edge_at (nullish (du_edgesAdded d) []) i)"
  by (auto simp: applyDelta_def Let_def edge_at_append edge_at_keep [of "\<lambda>i. i \<notin> _"]
      split: option.splits)

text \<open>
  C10. What a delta does to the graph, as lookups by id: a node is the old one unless removed, else
  an added one, with every update for its id merged in order; an edge the old one unless removed,
  else an added one.
\<close>

theorem apply_delta_lookup:
  "node_at (gs_nodes (applyDelta prev d)) i =
     map_option (\<lambda>n. foldl merge_node n (filter (\<lambda>u. dg_id u = i) (nullish (du_nodesUpdated d) [])))
       (if i \<notin> set (nullish (du_nodesRemoved d) []) \<and> node_at (gs_nodes prev) i \<noteq> None
        then node_at (gs_nodes prev) i else node_at (nullish (du_nodesAdded d) []) i)
   \<and> edge_at (gs_edges (applyDelta prev d)) i =
     (if i \<notin> set (nullish (du_edgesRemoved d) []) \<and> edge_at (gs_edges prev) i \<noteq> None
      then edge_at (gs_edges prev) i else edge_at (nullish (du_edgesAdded d) []) i)"
  by (simp only: applied_node applied_edge)

section \<open>Following the server\<close>

text \<open>No optional field of the old node is missing from the new one.\<close>

definition keeps_fields :: "DGNode \<Rightarrow> DGNode \<Rightarrow> bool" where
  "keeps_fields old new_node = (
     (dg_image old \<noteq> None \<longrightarrow> dg_image new_node \<noteq> None) \<and>
     (dg_status old \<noteq> None \<longrightarrow> dg_status new_node \<noteq> None) \<and>
     (dg_ports old \<noteq> None \<longrightarrow> dg_ports new_node \<noteq> None) \<and>
     (dg_labels old \<noteq> None \<longrightarrow> dg_labels new_node \<noteq> None) \<and>
     (dg_networkId old \<noteq> None \<longrightarrow> dg_networkId new_node \<noteq> None) \<and>
     (dg_driver old \<noteq> None \<longrightarrow> dg_driver new_node \<noteq> None) \<and>
     (dg_subnet old \<noteq> None \<longrightarrow> dg_subnet new_node \<noteq> None) \<and>
     (dg_gateway old \<noteq> None \<longrightarrow> dg_gateway new_node \<noteq> None) \<and>
     (dg_source old \<noteq> None \<longrightarrow> dg_source new_node \<noteq> None) \<and>
     (dg_createdAt old \<noteq> None \<longrightarrow> dg_createdAt new_node \<noteq> None) \<and>
     (dg_compose old \<noteq> None \<longrightarrow> dg_compose new_node \<noteq> None) \<and>
     (dg_stack old \<noteq> None \<longrightarrow> dg_stack new_node \<noteq> None) \<and>
     (dg_service old \<noteq> None \<longrightarrow> dg_service new_node \<noteq> None) \<and>
     (dg_swarmNode old \<noteq> None \<longrightarrow> dg_swarmNode new_node \<noteq> None))"

lemma override_kept: "(old \<noteq> None \<longrightarrow> v \<noteq> None) \<Longrightarrow> override old v = v"
  by (cases v) (auto simp: override_def)

lemma merge_kept: "keeps_fields n u \<Longrightarrow> merge_node n u = u"
  by (simp add: keeps_fields_def merge_node_def override_kept)

lemma filter_same_id:
  assumes "distinct (map dg_id ns)"
  shows "filter (\<lambda>n. dg_id n = i) ns = (case node_at ns i of None \<Rightarrow> [] | Some n \<Rightarrow> [n])"
  using assms
proof (induction ns)
  case (Cons n ns)
  show ?case
  proof (cases "dg_id n = i")
    case True
    then have "node_at ns i = None" using Cons.prems by (simp add: node_at_None)
    then show ?thesis using True Cons by simp
  qed (use Cons in simp)
qed simp

lemma updates_for:
  assumes "distinct (map dg_id ms)"
  shows "filter (\<lambda>u. dg_id u = i) (filter (\<lambda>m. node_at ns (dg_id m) \<notin> {None, Some m}) ms)
    = (case node_at ms i of None \<Rightarrow> [] | Some m \<Rightarrow> if node_at ns i \<in> {None, Some m} then [] else [m])"
proof -
  have "filter (\<lambda>u. dg_id u = i) (filter (\<lambda>m. node_at ns (dg_id m) \<notin> {None, Some m}) ms)
      = filter (\<lambda>m. node_at ns i \<notin> {None, Some m}) (filter (\<lambda>u. dg_id u = i) ms)"
    by (induction ms) auto
  then show ?thesis by (simp add: filter_same_id [OF assms] split: option.splits)
qed

lemma server_delta_node:
  assumes "distinct (map dg_id (gs_nodes cur))"
  shows "node_at (gs_nodes (applyDelta prev (server_delta prev cur))) i =
    (case node_at (gs_nodes cur) i of None \<Rightarrow> None
     | Some m \<Rightarrow> (case node_at (gs_nodes prev) i of None \<Rightarrow> Some m
         | Some n \<Rightarrow> Some (if n = m then m else merge_node n m)))"
proof -
  let ?prev = "gs_nodes prev" let ?cur = "gs_nodes cur"
  have removed: "i \<in> set (filter (\<lambda>i. node_at ?cur i = None) (map dg_id ?prev)) \<longleftrightarrow>
      node_at ?prev i \<noteq> None \<and> node_at ?cur i = None"
    by (auto simp: node_at_None)
  have added: "node_at (filter (\<lambda>n. node_at ?prev (dg_id n) = None) ?cur) i =
      (if node_at ?prev i = None then node_at ?cur i else None)"
    by (rule node_at_keep)
  show ?thesis
    unfolding applied_node server_delta_def DeltaUpdate.select_convs nullish_simps
      updates_for [OF assms] removed added
    by (auto split: option.splits)
qed

lemma server_delta_edge:
  "edge_at (gs_edges (applyDelta prev (server_delta prev cur))) i =
    (case edge_at (gs_edges cur) i of None \<Rightarrow> None
     | Some f \<Rightarrow> (case edge_at (gs_edges prev) i of None \<Rightarrow> Some f | Some e \<Rightarrow> Some e))"
proof -
  let ?prev = "gs_edges prev" let ?cur = "gs_edges cur"
  have removed: "i \<in> set (filter (\<lambda>i. edge_at ?cur i = None) (map de_id ?prev)) \<longleftrightarrow>
      edge_at ?prev i \<noteq> None \<and> edge_at ?cur i = None"
    by (auto simp: edge_at_None)
  have added: "edge_at (filter (\<lambda>n. edge_at ?prev (de_id n) = None) ?cur) i =
      (if edge_at ?prev i = None then edge_at ?cur i else None)"
    by (rule edge_at_keep)
  show ?thesis
    unfolding applied_edge server_delta_def DeltaUpdate.select_convs nullish_simps removed added
    by (auto split: option.splits)
qed


text \<open>
  C11. Applying the delta between two server snapshots to the first yields the second (as lookups
  of nodes and edges by id), provided no changed node lost an optional field and no edge changed
  under its id.
\<close>

theorem delta_follows_server:
  assumes "distinct (map dg_id (gs_nodes cur))"
    and "\<And>i n m. node_at (gs_nodes prev) i = Some n \<Longrightarrow> node_at (gs_nodes cur) i = Some m \<Longrightarrow> keeps_fields n m"
    and "\<And>i e f. edge_at (gs_edges prev) i = Some e \<Longrightarrow> edge_at (gs_edges cur) i = Some f \<Longrightarrow> e = f"
  shows "node_at (gs_nodes (applyDelta prev (server_delta prev cur))) i = node_at (gs_nodes cur) i
    \<and> edge_at (gs_edges (applyDelta prev (server_delta prev cur))) i = edge_at (gs_edges cur) i"
  using assms(2,3)
  by (auto simp: server_delta_node [OF assms(1)] server_delta_edge merge_kept split: option.splits)

definition web :: "string option \<Rightarrow> DGNode" where
  "web st = (bare_node ''c1'' Container ''web'')\<lparr>dg_status := st\<rparr>"

definition running_snapshot :: GraphSnapshot where
  "running_snapshot = \<lparr>gs_nodes = [web (Some ''running''), bare_node ''n1'' Network ''net''], gs_edges = []\<rparr>"

definition exited_snapshot :: GraphSnapshot where
  "exited_snapshot = \<lparr>gs_nodes = [bare_node ''v1'' Volume ''data'', web (Some ''exited'')],
     gs_edges = [\<lparr>de_id = ''e1'', de_type = VolumeMount, de_source = ''v1'', de_target = ''c1'', de_mountPath = None\<rparr>]\<rparr>"

theorem delta_follows_server_witness:
  "map_option dg_status (node_at (gs_nodes (applyDelta running_snapshot
      (server_delta running_snapshot exited_snapshot))) ''c1'') = Some (Some ''exited'')"
proof -
  have k: "\<And>i n m. node_at (gs_nodes running_snapshot) i = Some n \<Longrightarrow>
      node_at (gs_nodes exited_snapshot) i = Some m \<Longrightarrow> keeps_fields n m"
    by (auto simp: running_snapshot_def exited_snapshot_def web_def bare_node_def keeps_fields_def split: if_splits)
  have d: "distinct (map dg_id (gs_nodes exited_snapshot))"
    by (simp add: exited_snapshot_def web_def)
  have "node_at (gs_nodes (applyDelta running_snapshot (server_delta running_snapshot exited_snapshot)))
      ''c1'' = node_at (gs_nodes exited_snapshot) ''c1''
    \<and> edge_at (gs_edges (applyDelta running_snapshot (server_delta running_snapshot exited_snapshot)))
      ''c1'' = edge_at (gs_edges exited_snapshot) ''c1''"
    by (rule delta_follows_server [OF d k]) (auto simp: running_snapshot_def)
  then show ?thesis by (simp add: exited_snapshot_def web_def)
qed

text \<open>
  A flaw: the server sends a changed node whole and leaves its empty fields out, but the client
  merges it over the old node. A service that lost its status, or a container that left its stack,
  keeps the old value in the graph until the next snapshot.
\<close>

lemma delta_keeps_lost_fields:
  assumes "distinct (map dg_id (gs_nodes cur))"
    and "node_at (gs_nodes prev) i = Some n" "node_at (gs_nodes cur) i = Some m"
    and "dg_status m = None" "dg_stack m = None" "dg_service m = None" "dg_ports m = None"
  shows "\<exists>k. node_at (gs_nodes (applyDelta prev (server_delta prev cur))) i = Some k
    \<and> dg_status k = dg_status n \<and> dg_stack k = dg_stack n \<and> dg_service k = dg_service n
    \<and> dg_ports k = dg_ports n"
  using assms(2-) by (auto simp: server_delta_node [OF assms(1)] merge_node_def override_def)

section \<open>The fingerprint\<close>

text \<open>The same node, but for the order in which the tasks of its service are listed.\<close>

definition tasks_reordered :: "DGNode \<Rightarrow> DGNode \<Rightarrow> bool" where
  "tasks_reordered n m = (n\<lparr>dg_service := None\<rparr> = m\<lparr>dg_service := None\<rparr>
     \<and> rel_option (\<lambda>s t. s\<lparr>si_tasks := None\<rparr> = t\<lparr>si_tasks := None\<rparr>
         \<and> rel_option (\<lambda>ts us. mset ts = mset us) (si_tasks s) (si_tasks t))
       (dg_service n) (dg_service m))"

lemma sort_mset: "mset xs = mset ys \<Longrightarrow> sort_strings xs = sort_strings ys"
  by (metis mset_sort properties_for_sort sorted_sort)

lemma tasks_reordered_key:
  assumes "tasks_reordered n m"
  shows "nodeKey n = nodeKey m"
proof -
  have other: "dg_id n = dg_id m" "dg_status n = dg_status m" "dg_image n = dg_image m"
    "dg_networkId n = dg_networkId m" "dg_ports n = dg_ports m" "dg_stack n = dg_stack m"
    "dg_swarmNode n = dg_swarmNode m"
    using assms by (cases n; cases m; simp add: tasks_reordered_def)+
  have "serviceKey n = serviceKey m"
  proof (cases "dg_service n")
    case (Some s)
    then obtain t where t: "dg_service m = Some t" "s\<lparr>si_tasks := None\<rparr> = t\<lparr>si_tasks := None\<rparr>"
      and ts: "rel_option (\<lambda>ts us. mset ts = mset us) (si_tasks s) (si_tasks t)"
      using assms by (auto simp: tasks_reordered_def option_rel_Some1)
    have "si_mode s = si_mode t" "si_replicas s = si_replicas t" "si_updateStatus s = si_updateStatus t"
      using t(2) by (cases s; cases t; simp)+
    moreover have "sort_strings (map taskKey (nullish (si_tasks s) []))
        = sort_strings (map taskKey (nullish (si_tasks t) []))"
      using ts by (cases "si_tasks s"; cases "si_tasks t") (auto intro!: sort_mset)
    ultimately show ?thesis using Some t(1) by (simp add: serviceKey_def)
  qed (use assms in \<open>auto simp: tasks_reordered_def serviceKey_def\<close>)
  with other show ?thesis by (simp add: nodeKey_def)
qed

text \<open>
  C12. The fingerprint of a snapshot does not depend on the order of its nodes, nor on the order of
  its edges, nor on the order in which each service lists its tasks: reordered snapshots, in any of
  these ways at once, never look different.
\<close>

theorem fingerprint_ignores_order:
  assumes "mset ns = mset ns'" "list_all2 tasks_reordered ns' ms" "mset es = mset fs"
  shows "snapshotFingerprint ns es = snapshotFingerprint ms fs"
proof -
  have "map nodeKey ns' = map nodeKey ms"
    using assms(2) by (induction rule: list_all2_induct) (simp_all add: tasks_reordered_key)
  then have "mset (map nodeKey ns) = mset (map nodeKey ms)"
    using assms(1) by (metis mset_map)
  moreover have "mset (map de_id es) = mset (map de_id fs)" using assms(3) by simp
  ultimately show ?thesis by (simp add: snapshotFingerprint_def sort_mset [of "map nodeKey ns"]
        sort_mset [of "map de_id es"] del: mset_map)
qed

definition plain_task :: "string \<Rightarrow> TaskInfo" where
  "plain_task i = \<lparr>ti_id = i, ti_slot = None, ti_nodeId = None, ti_nodeHostname = None,
     ti_state = Some ''running'', ti_desiredState = None, ti_containerId = None, ti_error = None,
     ti_timestamp = None\<rparr>"

definition api_service :: "string list \<Rightarrow> DGNode" where
  "api_service ids = (bare_node ''s1'' Service ''api'')\<lparr>dg_service := Some \<lparr>si_mode = None,
     si_replicas = \<lparr>rc_running = 2, rc_desired = 2, rc_completed = None\<rparr>,
     si_tasks = Some (map plain_task ids), si_updateStatus = None\<rparr>\<rparr>"

definition api_edge :: "string \<Rightarrow> DGEdge" where
  "api_edge i = \<lparr>de_id = i, de_type = VolumeMount, de_source = ''s1'', de_target = ''v1'',
     de_mountPath = None\<rparr>"

theorem fingerprint_ignores_order_witness:
  "snapshotFingerprint [web None, api_service [''t1'', ''t2'']] [api_edge ''e1'', api_edge ''e2'']
    = snapshotFingerprint [api_service [''t2'', ''t1''], web None] [api_edge ''e2'', api_edge ''e1'']"
  by (rule fingerprint_ignores_order [of _ "[api_service [''t1'', ''t2''], web None]"])
    (simp_all add: tasks_reordered_def api_service_def web_def)

end
