(* ===== verification/DockGraph.thy ===== *)
theory DockGraph
  imports Deltas Constants
begin

text \<open>
  The connection to the server: the protocol gate of \<^verbatim>\<open>utils/protocol.ts\<close> with its marker in
  session storage, and the WebSocket hook \<^verbatim>\<open>hooks/useDockGraph.ts\<close> with its reconnects. A page
  is the hook's state together with the session storage, which outlives a reload.
\<close>

section \<open>The protocol gate\<close>

definition PROTOCOL_VERSION :: int where
  "PROTOCOL_VERSION = 3"

datatype protocol_action = Accept | Reload | Ignore

text \<open>
  Storage as the gate sees it: the marker under its key, and how this call finds the storage:
  missing, which of its accesses throw, and whether a write sticks.
\<close>

record StorageFaults =
  sf_missing :: bool
  sf_removeThrows :: bool
  sf_getThrows :: bool
  sf_setThrows :: bool
  sf_setSticks :: bool
  sf_rereadThrows :: bool

definition no_faults :: StorageFaults where
  "no_faults = \<lparr>sf_missing = False, sf_removeThrows = False, sf_getThrows = False,
     sf_setThrows = False, sf_setSticks = True, sf_rereadThrows = False\<rparr>"

type_synonym marker = "string option"

definition protocolAction :: "int \<Rightarrow> StorageFaults \<Rightarrow> marker \<Rightarrow> protocol_action \<times> marker" where
  "protocolAction version st m =
     (if version = PROTOCOL_VERSION
      then (Accept, if sf_missing st \<or> sf_removeThrows st then m else None)
      else if sf_missing st then (Ignore, m)
      else if sf_getThrows st then (Ignore, m)
      else if m = Some (string_of_int version) then (Ignore, m)
      else if sf_setThrows st then (Ignore, m)
      else let written = (if sf_setSticks st then Some (string_of_int version) else m)
        in if sf_rereadThrows st then (Ignore, written)
           else if written \<noteq> Some (string_of_int version) then (Ignore, written)
           else (Reload, written))"

section \<open>The WebSocket hook\<close>

datatype wire_message =
  Unreadable
| AuthExpired int
| SnapshotMsg int "GraphSnapshot option"
| DeltaMsg int "DeltaUpdate option"
| StatsMsg int "stats_map option"
| UnknownType int

text \<open>\<open>Unreadable\<close>: no JSON, or no string \<open>type\<close> and numeric \<open>version\<close>. \<open>None\<close>: no \<open>data\<close>, or a
  snapshot whose \<open>nodes\<close> or \<open>edges\<close> is no array.\<close>

record DockGraphHook =
  dk_graph :: GraphSnapshot
  dk_connected :: bool
  dk_ready :: bool
  dk_ws :: "nat option"
  dk_retry :: nat
  dk_timer :: "nat option"
  dk_unmounted :: bool
  dk_fingerprint :: string
  dk_stats :: "stats_map option"

record Page =
  pg_hook :: DockGraphHook
  pg_marker :: marker
  pg_sockets :: nat
  pg_reloads :: nat

definition hook_fresh :: DockGraphHook where
  "hook_fresh = \<lparr>dk_graph = \<lparr>gs_nodes = [], gs_edges = []\<rparr>, dk_connected = False, dk_ready = False,
     dk_ws = None, dk_retry = 0, dk_timer = None, dk_unmounted = False, dk_fingerprint = [],
     dk_stats = None\<rparr>"

definition ws_connect :: "Page \<Rightarrow> Page" where
  "ws_connect p = p\<lparr>pg_hook := (pg_hook p)\<lparr>dk_ws := Some (pg_sockets p)\<rparr>,
     pg_sockets := pg_sockets p + 1\<rparr>"

text \<open>A fresh page mounts the hook, which connects. A reload keeps only the session storage.\<close>

definition load_page :: "marker \<Rightarrow> nat \<Rightarrow> nat \<Rightarrow> Page" where
  "load_page m sockets reloads = ws_connect
     \<lparr>pg_hook = hook_fresh, pg_marker = m, pg_sockets = sockets, pg_reloads = reloads\<rparr>"

definition reload_page :: "Page \<Rightarrow> Page" where
  "reload_page p = load_page (pg_marker p) (pg_sockets p) (pg_reloads p + 1)"

definition applySnapshot :: "GraphSnapshot \<Rightarrow> DockGraphHook \<Rightarrow> DockGraphHook" where
  "applySnapshot snap h = (let fp = snapshotFingerprint (gs_nodes snap) (gs_edges snap) in
     if fp = dk_fingerprint h then h
     else h\<lparr>dk_fingerprint := fp, dk_graph := snap, dk_ready := True\<rparr>)"

definition hook_delta :: "DeltaUpdate \<Rightarrow> DockGraphHook \<Rightarrow> DockGraphHook" where
  "hook_delta d h = h\<lparr>dk_graph := applyDelta (dk_graph h) d, dk_ready := True\<rparr>"

definition gated :: "int \<Rightarrow> StorageFaults \<Rightarrow> (DockGraphHook \<Rightarrow> DockGraphHook) \<Rightarrow> Page \<Rightarrow> Page" where
  "gated v st f p = (case protocolAction v st (pg_marker p) of
     (Reload, m) \<Rightarrow> reload_page (p\<lparr>pg_marker := m\<rparr>)
   | (Ignore, m) \<Rightarrow> p\<lparr>pg_marker := m\<rparr>
   | (Accept, m) \<Rightarrow> p\<lparr>pg_marker := m, pg_hook := f (pg_hook p)\<rparr>)"

fun onmessage_ws :: "wire_message \<Rightarrow> StorageFaults \<Rightarrow> Page \<Rightarrow> Page" where
  "onmessage_ws Unreadable st p = p"
| "onmessage_ws (AuthExpired v) st p = reload_page p"
| "onmessage_ws (SnapshotMsg v d) st p =
     gated v st (\<lambda>h. case d of None \<Rightarrow> h | Some snap \<Rightarrow> applySnapshot snap h) p"
| "onmessage_ws (DeltaMsg v d) st p =
     gated v st (\<lambda>h. case d of None \<Rightarrow> h | Some delta \<Rightarrow> hook_delta delta h) p"
| "onmessage_ws (StatsMsg v d) st p =
     gated v st (\<lambda>h. case d of None \<Rightarrow> h | Some s \<Rightarrow> h\<lparr>dk_stats := Some s\<rparr>) p"
| "onmessage_ws (UnknownType v) st p = gated v st id p"

definition retry_delay :: "nat \<Rightarrow> nat" where
  "retry_delay n = min (1000 * 2 ^ n) RECONNECT_MAX_DELAY"

definition onclose :: "DockGraphHook \<Rightarrow> DockGraphHook" where
  "onclose h = (let h1 = h\<lparr>dk_connected := False, dk_ws := None\<rparr> in
     if dk_unmounted h then h1
     else h1\<lparr>dk_retry := dk_retry h + 1, dk_timer := Some (retry_delay (dk_retry h))\<rparr>)"

datatype ws_event =
  WsOpen nat
| WsMessage nat wire_message StorageFaults
| WsClose nat
| RetryTimer
| Unmount

text \<open>
  Events of a socket that is no longer the page's are not delivered to this hook: it was closed by
  \<open>onclose\<close> before another opened, or belonged to a page since reloaded. An error closes the socket,
  and so shows as \<open>WsClose\<close>.
\<close>

fun dock_step :: "Page \<Rightarrow> ws_event \<Rightarrow> Page" where
  "dock_step p (WsOpen k) = (if dk_ws (pg_hook p) = Some k
     then p\<lparr>pg_hook := (pg_hook p)\<lparr>dk_retry := 0, dk_connected := True\<rparr>\<rparr> else p)"
| "dock_step p (WsMessage k msg st) = (if dk_ws (pg_hook p) = Some k then onmessage_ws msg st p else p)"
| "dock_step p (WsClose k) = (if dk_ws (pg_hook p) = Some k
     then p\<lparr>pg_hook := onclose (pg_hook p)\<rparr> else p)"
| "dock_step p RetryTimer = (case dk_timer (pg_hook p) of None \<Rightarrow> p
     | Some _ \<Rightarrow> ws_connect (p\<lparr>pg_hook := (pg_hook p)\<lparr>dk_timer := None\<rparr>\<rparr>))"
| "dock_step p Unmount = p\<lparr>pg_hook := (pg_hook p)\<lparr>dk_unmounted := True, dk_timer := None\<rparr>\<rparr>"


section \<open>Reloads\<close>

text \<open>The protocol version a message is judged by; expired sessions reload before the gate.\<close>

fun msg_version :: "wire_message \<Rightarrow> int option" where
  "msg_version Unreadable = None"
| "msg_version (AuthExpired v) = None"
| "msg_version (SnapshotMsg v d) = Some v"
| "msg_version (DeltaMsg v d) = Some v"
| "msg_version (StatsMsg v d) = Some v"
| "msg_version (UnknownType v) = Some v"

definition speaks :: "int \<Rightarrow> ws_event \<Rightarrow> bool" where
  "speaks v e = (case e of WsMessage k msg st \<Rightarrow> msg_version msg \<in> {None, Some v} | _ \<Rightarrow> True)"

text \<open>The expired-session messages that reach the page over its own socket.\<close>

definition expires :: "Page \<Rightarrow> ws_event \<Rightarrow> bool" where
  "expires p e = (case e of
     WsMessage k (AuthExpired v) st \<Rightarrow> dk_ws (pg_hook p) = Some k | _ \<Rightarrow> False)"

fun expirations :: "Page \<Rightarrow> ws_event list \<Rightarrow> nat" where
  "expirations p [] = 0"
| "expirations p (e # es) = (if expires p e then 1 else 0) + expirations (dock_step p e) es"

text \<open>What the gate may still do: one reload for a version not yet marked.\<close>

definition reload_due :: "int \<Rightarrow> Page \<Rightarrow> nat" where
  "reload_due v p = (if v = PROTOCOL_VERSION \<or> pg_marker p = Some (string_of_int v) then 0 else 1)"

lemma reload_page_sel [simp]:
  "pg_reloads (reload_page p) = pg_reloads p + 1"
  "pg_marker (reload_page p) = pg_marker p"
  "pg_sockets (reload_page p) = pg_sockets p + 1"
  "dk_ws (pg_hook (reload_page p)) = Some (pg_sockets p)"
  "dk_timer (pg_hook (reload_page p)) = None"
  "dk_unmounted (pg_hook (reload_page p)) = False"
  by (simp_all add: reload_page_def load_page_def ws_connect_def hook_fresh_def)

lemma gated_reloads:
  "pg_reloads p \<le> pg_reloads (gated v st f p)
    \<and> pg_reloads (gated v st f p) + reload_due v (gated v st f p) \<le> pg_reloads p + reload_due v p"
  by (auto simp: gated_def protocolAction_def reload_due_def Let_def)

lemma step_reloads:
  assumes "speaks v e"
  shows "pg_reloads p + (if expires p e then 1 else 0) \<le> pg_reloads (dock_step p e)
    \<and> pg_reloads (dock_step p e) + reload_due v (dock_step p e)
      \<le> pg_reloads p + (if expires p e then 1 else 0) + reload_due v p"
proof (cases e)
  case (WsMessage k msg st)
  have due: "reload_due v (reload_page p) = reload_due v p" by (simp add: reload_due_def)
  show ?thesis using assms WsMessage gated_reloads due
    by (cases msg) (simp_all add: speaks_def expires_def)
qed (auto simp: expires_def reload_due_def ws_connect_def split: option.split)

lemma run_reloads:
  assumes "list_all (speaks v) es"
  shows "pg_reloads p + expirations p es \<le> pg_reloads (run dock_step p es)
    \<and> pg_reloads (run dock_step p es) + reload_due v (run dock_step p es)
      \<le> pg_reloads p + expirations p es + reload_due v p"
  using assms
proof (induction es arbitrary: p)
  case (Cons e es)
  then have "speaks v e" "list_all (speaks v) es" by simp_all
  from step_reloads [OF this(1), of p] Cons.IH [OF this(2), of "dock_step p e"] show ?case
    by (simp only: expirations.simps run_simps) linarith
qed simp

text \<open>
  C13. Take any sequence of connection events in which every versioned message speaks one protocol
  version, over any reloads, drops and reconnects, however session storage behaves at each message
  (missing, throwing, losing writes), as long as nothing but the gate removes its marker. The page
  reloads exactly once for every expired-session message it receives over its socket, and apart from
  those at most once; never apart from those if the version is the bundle's own or the session's
  marker already holds it.
\<close>

theorem protocol_reloads_once:
  assumes "list_all (speaks v) es"
  shows "let p = load_page m s r; reloads = pg_reloads (run dock_step p es) - r
    in expirations p es \<le> reloads
      \<and> reloads \<le> expirations p es
        + (if v = PROTOCOL_VERSION \<or> m = Some (string_of_int v) then 0 else 1)"
proof -
  have "pg_reloads (load_page m s r) = r" "pg_marker (load_page m s r) = m"
    by (simp_all add: load_page_def ws_connect_def)
  then show ?thesis using run_reloads [OF assms, of "load_page m s r"]
    by (auto simp: reload_due_def Let_def)
qed

definition newer_server :: "ws_event list" where
  "newer_server = [WsMessage 0 (SnapshotMsg 4 None) no_faults, WsMessage 1 (DeltaMsg 4 None) no_faults,
     WsMessage 1 (AuthExpired 4) no_faults, WsMessage 1 (AuthExpired 4) no_faults,
     WsMessage 2 (StatsMsg 4 None) no_faults]"

theorem protocol_reloads_once_witness:
  "expirations (load_page None 0 0) newer_server = 1
    \<and> pg_reloads (run dock_step (load_page None 0 0) newer_server) \<in> {1, 2}"
proof -
  have "list_all (speaks 4) newer_server" by (simp add: newer_server_def speaks_def)
  moreover have "expirations (load_page None 0 0) newer_server = 1" by code_simp
  ultimately show ?thesis
    using protocol_reloads_once [of 4 newer_server None 0 0]
    by (auto simp: Let_def PROTOCOL_VERSION_def)
qed

text \<open>
  A round of two servers behind one address: a message from the first, the socket drops and is
  reopened unless the message already reloaded the page, then a message from the second.
\<close>

definition alternation :: "int \<Rightarrow> int \<Rightarrow> stats_map option \<Rightarrow> nat \<Rightarrow> ws_event list" where
  "alternation v w d k = [WsMessage k (StatsMsg v d) no_faults, WsClose k, RetryTimer,
     WsMessage (k + 1) (StatsMsg w d) no_faults]"

definition mounted_on :: "nat \<Rightarrow> Page \<Rightarrow> bool" where
  "mounted_on k p = (dk_ws (pg_hook p) = Some k \<and> pg_sockets p = k + 1
     \<and> \<not> dk_unmounted (pg_hook p) \<and> dk_timer (pg_hook p) = None)"

lemma alternation_round:
  assumes "v \<noteq> w" "w \<noteq> PROTOCOL_VERSION" "mounted_on k p" "pg_marker p \<noteq> Some (string_of_int v)"
  shows "let q = run dock_step p (alternation v w d k) in mounted_on (k + 2) q
    \<and> pg_marker q \<noteq> Some (string_of_int v)
    \<and> pg_reloads q = pg_reloads p + (if v = PROTOCOL_VERSION then 1 else 2)"
proof (cases "v = PROTOCOL_VERSION")
  case True
  show ?thesis using assms True
    by (auto simp: alternation_def mounted_on_def gated_def protocolAction_def no_faults_def
        onclose_def ws_connect_def Let_def split: option.splits)
next
  case False
  then show ?thesis using assms
    by (auto simp: alternation_def mounted_on_def gated_def protocolAction_def no_faults_def Let_def)
qed

lemma alternation_run:
  assumes "v \<noteq> w" "w \<noteq> PROTOCOL_VERSION" "mounted_on k p" "pg_marker p \<noteq> Some (string_of_int v)"
  shows "pg_reloads (run dock_step p (concat (map (\<lambda>i. alternation v w d (k + 2 * i)) [0..<n])))
    = pg_reloads p + n * (if v = PROTOCOL_VERSION then 1 else 2)
   \<and> mounted_on (k + 2 * n) (run dock_step p (concat (map (\<lambda>i. alternation v w d (k + 2 * i)) [0..<n])))
   \<and> pg_marker (run dock_step p (concat (map (\<lambda>i. alternation v w d (k + 2 * i)) [0..<n])))
    \<noteq> Some (string_of_int v)"
proof (induction n)
  case (Suc n)
  let ?q = "run dock_step p (concat (map (\<lambda>i. alternation v w d (k + 2 * i)) [0..<n]))"
  have "mounted_on (k + 2 * n) ?q" "pg_marker ?q \<noteq> Some (string_of_int v)" using Suc by auto
  from alternation_round [OF assms(1,2) this, of d] Suc show ?case
    by (simp add: Let_def run_append algebra_simps)
qed (use assms in simp)

text \<open>
  C14. A flaw: the marker remembers only the last version reloaded for, and a message of the
  bundle's own version clears it. Two servers of different versions behind one address, with healthy
  session storage, make a page reload again and again: on every message if neither speaks the
  bundle's version (say a stale cached bundle), and on every message of the second server if the
  first speaks it (a rolling update whose socket drops after each message) and the second does
  not. Yet a reload for each version already happened in this session.
\<close>

theorem alternating_versions_reload_forever:
  assumes "v \<noteq> w" "w \<noteq> PROTOCOL_VERSION"
  shows "pg_reloads (run dock_step (load_page None s r)
      (concat (map (\<lambda>i. alternation v w d (s + 2 * i)) [0..<n])))
    = r + n * (if v = PROTOCOL_VERSION then 1 else 2)"
proof -
  have "mounted_on s (load_page None s r)" "pg_marker (load_page None s r) = None"
    "pg_reloads (load_page None s r) = r"
    by (simp_all add: mounted_on_def load_page_def ws_connect_def hook_fresh_def)
  then show ?thesis using alternation_run [OF assms, of s "load_page None s r" d n] by simp
qed

theorem alternating_versions_reload_forever_witness:
  "pg_reloads (run dock_step (load_page None 0 0)
      (concat (map (\<lambda>i. alternation 2 4 None (2 * i)) [0..<3]))) = 6
   \<and> pg_reloads (run dock_step (load_page None 0 0)
      (concat (map (\<lambda>i. alternation 3 4 None (2 * i)) [0..<3]))) = 3"
  using alternating_versions_reload_forever [of 2 4 0 0 None 3]
    alternating_versions_reload_forever [of 3 4 0 0 None 3]
  by (simp add: PROTOCOL_VERSION_def)

section \<open>Staying connected\<close>

text \<open>
  How many sockets in a row were lost, read off the events: a socket that opens, and a reload, start
  the count again. It looks at the page only to tell which socket is its own and whether it reloaded.
\<close>

definition count_lost :: "Page \<Rightarrow> nat \<Rightarrow> ws_event \<Rightarrow> nat" where
  "count_lost p n e = (case e of
     WsOpen k \<Rightarrow> if dk_ws (pg_hook p) = Some k then 0 else n
   | WsClose k \<Rightarrow> if dk_ws (pg_hook p) = Some k then n + 1 else n
   | WsMessage k msg st \<Rightarrow> if pg_reloads (dock_step p e) = pg_reloads p then n else 0
   | _ \<Rightarrow> n)"

fun lost_in_a_row :: "Page \<Rightarrow> nat \<Rightarrow> ws_event list \<Rightarrow> nat" where
  "lost_in_a_row p n [] = n"
| "lost_in_a_row p n (e # es) = lost_in_a_row (dock_step p e) (count_lost p n e) es"

definition link_ok :: "nat \<Rightarrow> Page \<Rightarrow> bool" where
  "link_ok n p = (let h = pg_hook p in
     (\<not> dk_unmounted h \<longrightarrow> dk_retry h = n)
     \<and> (dk_ws h = None \<and> \<not> dk_unmounted h \<longrightarrow> 0 < n)
     \<and> dk_timer h = (if dk_unmounted h \<or> dk_ws h \<noteq> None then None else Some (retry_delay (n - 1)))
     \<and> \<not> (dk_connected h \<and> dk_ws h = None))"

lemma link_load: "link_ok 0 (load_page m s r)"
  by (simp add: link_ok_def load_page_def ws_connect_def hook_fresh_def)

lemma link_gated:
  assumes "link_ok n p"
    and "\<And>h. dk_timer (f h) = dk_timer h \<and> dk_unmounted (f h) = dk_unmounted h \<and> dk_ws (f h) = dk_ws h
      \<and> dk_retry (f h) = dk_retry h \<and> dk_connected (f h) = dk_connected h"
  shows "link_ok (if pg_reloads (gated v st f p) = pg_reloads p then n else 0) (gated v st f p)"
proof -
  obtain a m where "protocolAction v st (pg_marker p) = (a, m)" by fastforce
  then show ?thesis using assms link_load
    by (cases a) (simp_all add: gated_def reload_page_def [symmetric] link_ok_def Let_def,
        simp add: reload_page_def load_page_def ws_connect_def hook_fresh_def)
qed

lemma link_reload: "link_ok 0 (reload_page p)"
  by (simp add: reload_page_def link_load)

lemma link_message:
  "link_ok n p \<Longrightarrow>
    link_ok (if pg_reloads (onmessage_ws msg st p) = pg_reloads p then n else 0) (onmessage_ws msg st p)"
proof (induction msg st p rule: onmessage_ws.induct)
  case (3 v d st p)
  then show ?case unfolding onmessage_ws.simps
    by (intro link_gated) (auto simp: applySnapshot_def Let_def split: option.split)
next
  case (4 v d st p)
  then show ?case unfolding onmessage_ws.simps
    by (intro link_gated) (auto simp: hook_delta_def split: option.split)
next
  case (5 v d st p)
  then show ?case unfolding onmessage_ws.simps
    by (intro link_gated) (auto split: option.split)
next
  case (6 v st p)
  then show ?case unfolding onmessage_ws.simps by (intro link_gated) auto
qed (auto simp: link_reload)

lemma link_step: "link_ok n p \<Longrightarrow> link_ok (count_lost p n e) (dock_step p e)"
proof (cases e)
  case (WsMessage k msg st)
  assume "link_ok n p"
  then show ?thesis using WsMessage link_message by (simp add: count_lost_def)
qed (auto simp: link_ok_def count_lost_def onclose_def ws_connect_def Let_def
    split: option.splits if_splits)

lemma link_run: "link_ok n p \<Longrightarrow> link_ok (lost_in_a_row p n es) (run dock_step p es)"
  by (induction es arbitrary: p n) (auto intro: link_step)

text \<open>
  C15. After any sequence of connection events the mounted page is never left without a future: it
  has a socket or exactly one scheduled reconnect, never both, and the reconnect opens a socket. It
  waits one second after the first socket lost in a row (since one last opened or the page was
  loaded) and twice as long after each further one, but never more than thirty seconds. An unmounted
  page schedules nothing, and the page is shown as connected only over a socket.
\<close>

theorem reconnect_always_pending:
  "let p = load_page m s r; q = run dock_step p es; h = pg_hook q; n = lost_in_a_row p 0 es in
     dk_timer h = (if dk_unmounted h then None
                   else case dk_ws h of
                     None \<Rightarrow> Some (min (1000 * 2 ^ (n - 1)) 30000)
                   | Some _ \<Rightarrow> None)
     \<and> \<not> (dk_timer h \<noteq> None \<and> n = 0)
     \<and> (dk_timer h = None \<or> dk_ws (pg_hook (dock_step q RetryTimer)) = Some (pg_sockets q))
     \<and> \<not> (dk_connected h \<and> dk_ws h = None)"
proof -
  have "link_ok (lost_in_a_row (load_page m s r) 0 es) (run dock_step (load_page m s r) es)"
    by (rule link_run) (rule link_load)
  then show ?thesis
    by (auto simp: link_ok_def Let_def retry_delay_def RECONNECT_MAX_DELAY_def ws_connect_def
        split: option.splits if_splits)
qed

section \<open>A snapshot equal to the last one\<close>

text \<open>Events that bring no snapshot and reload no page: deltas, stats, drops and reconnects.\<close>

definition quiet :: "ws_event \<Rightarrow> bool" where
  "quiet e = (case e of
     WsMessage k (DeltaMsg v d) st \<Rightarrow> v = PROTOCOL_VERSION
   | WsMessage k (StatsMsg v d) st \<Rightarrow> v = PROTOCOL_VERSION
   | WsMessage k msg st \<Rightarrow> False
   | _ \<Rightarrow> True)"

lemma quiet_fingerprint:
  "quiet e \<Longrightarrow> dk_fingerprint (pg_hook (dock_step p e)) = dk_fingerprint (pg_hook p)"
proof (cases e)
  case (WsMessage k msg st)
  assume "quiet e"
  then show ?thesis
    using WsMessage by (cases msg; auto simp: quiet_def hook_delta_def gated_def protocolAction_def split: option.splits)
qed (auto simp: onclose_def ws_connect_def Let_def split: option.splits)

lemma quiet_run:
  "list_all quiet es \<Longrightarrow> dk_fingerprint (pg_hook (run dock_step p es)) = dk_fingerprint (pg_hook p)"
  by (induction es arbitrary: p) (auto simp: quiet_fingerprint)

text \<open>
  C16. A flaw: deltas do not move the fingerprint a snapshot is compared with. After a snapshot and
  any deltas, drops and reconnects, a snapshot equal to that first one is ignored, so a graph that
  went back to its earlier shape while the page was disconnected is shown in its stale state.
\<close>

theorem repeated_snapshot_ignored:
  assumes "dk_ws (pg_hook p) = Some k" "list_all quiet es"
  shows "let q = run dock_step (dock_step p (WsMessage k (SnapshotMsg PROTOCOL_VERSION (Some A)) st)) es
    in dk_graph (pg_hook (dock_step q (WsMessage k' (SnapshotMsg PROTOCOL_VERSION (Some A)) st')))
      = dk_graph (pg_hook q)"
proof -
  let ?q = "run dock_step (dock_step p (WsMessage k (SnapshotMsg PROTOCOL_VERSION (Some A)) st)) es"
  have "dk_fingerprint (pg_hook (dock_step p (WsMessage k (SnapshotMsg PROTOCOL_VERSION (Some A)) st)))
      = snapshotFingerprint (gs_nodes A) (gs_edges A)"
    using assms(1) by (auto simp: gated_def protocolAction_def applySnapshot_def Let_def)
  then have "dk_fingerprint (pg_hook ?q) = snapshotFingerprint (gs_nodes A) (gs_edges A)"
    by (simp add: quiet_run [OF assms(2)])
  then show ?thesis
    by (simp add: Let_def gated_def protocolAction_def applySnapshot_def)
qed

definition stop_delta :: DeltaUpdate where
  "stop_delta = \<lparr>du_nodesAdded = None, du_nodesRemoved = None,
     du_nodesUpdated = Some [web (Some ''exited'')], du_edgesAdded = None, du_edgesRemoved = None\<rparr>"

definition drop_events :: "ws_event list" where
  "drop_events = [WsMessage 0 (DeltaMsg 3 (Some stop_delta)) no_faults, WsClose 0, RetryTimer, WsOpen 1]"

definition dropped_page :: Page where
  "dropped_page = run dock_step (dock_step (load_page None 0 0)
     (WsMessage 0 (SnapshotMsg PROTOCOL_VERSION (Some running_snapshot)) no_faults)) drop_events"

lemma fingerprint_nonempty: "snapshotFingerprint ns es \<noteq> []"
  by (simp add: snapshotFingerprint_def)

lemma dropped_state: "map dg_status (gs_nodes (dk_graph (pg_hook dropped_page))) = [Some ''exited'', None]"
proof -
  have "dk_graph (pg_hook dropped_page) = applyDelta running_snapshot stop_delta"
    by (simp add: dropped_page_def drop_events_def load_page_def ws_connect_def hook_fresh_def
        gated_def protocolAction_def applySnapshot_def hook_delta_def onclose_def no_faults_def
        PROTOCOL_VERSION_def fingerprint_nonempty fingerprint_nonempty [symmetric] Let_def)
  moreover have "map dg_status (gs_nodes (applyDelta running_snapshot stop_delta)) = [Some ''exited'', None]"
    by code_simp
  ultimately show ?thesis by simp
qed

theorem repeated_snapshot_ignored_witness:
  "map dg_status (gs_nodes (dk_graph (pg_hook (dock_step dropped_page
      (WsMessage 1 (SnapshotMsg PROTOCOL_VERSION (Some running_snapshot)) no_faults)))))
      = [Some ''exited'', None]
    \<and> map dg_status (gs_nodes running_snapshot) = [Some ''running'', None]"
proof -
  have ws: "dk_ws (pg_hook (load_page None 0 0)) = Some 0"
    by (simp add: load_page_def ws_connect_def)
  have quiet: "list_all quiet drop_events"
    by (simp add: drop_events_def quiet_def PROTOCOL_VERSION_def)
  have "map dg_status (gs_nodes running_snapshot) = [Some ''running'', None]"
    by (simp add: running_snapshot_def web_def bare_node_def)
  then show ?thesis
    using repeated_snapshot_ignored [OF ws quiet, of running_snapshot no_faults 1 no_faults]
      dropped_state
    unfolding Let_def dropped_page_def [symmetric] by simp
qed

end
