(* ===== verification/Stack.thy ===== *)
theory Stack
  imports DataModel
begin

text \<open>
  Compose projects and swarm stacks: \<^verbatim>\<open>utils/stack.ts\<close>, the scope in the URL
  (\<^verbatim>\<open>hooks/useStackScope.ts\<close>) and the scoped stats of \<^verbatim>\<open>App.tsx\<close>.
\<close>

section \<open>Scopes\<close>

definition COMPOSE_PROJECT_LABEL :: string where
  "COMPOSE_PROJECT_LABEL = ''com.docker.compose.project''"

definition STACK_NAMESPACE_LABEL :: string where
  "STACK_NAMESPACE_LABEL = ''com.docker.stack.namespace''"

definition STANDALONE_STACK :: string where
  "STANDALONE_STACK = ''_standalone''"

definition label_of :: "DGNode \<Rightarrow> string \<Rightarrow> string option" where
  "label_of n k = (case dg_labels n of None \<Rightarrow> None | Some ls \<Rightarrow> map_get ls k)"

definition projectOf :: "DGNode \<Rightarrow> string option" where
  "projectOf n = (let p = or_else (dg_stack n)
       (or_else (label_of n COMPOSE_PROJECT_LABEL) (label_of n STACK_NAMESPACE_LABEL))
     in if truthy p then p else None)"

definition isWorkload :: "DGNode \<Rightarrow> bool" where
  "isWorkload n = (dg_type n = Container \<or> dg_type n = Service)"

definition showsSwarmWorkloads :: "DGNode list \<Rightarrow> bool \<Rightarrow> string option \<Rightarrow> bool" where
  "showsSwarmWorkloads nodes swarm stack =
     (if \<exists>n\<in>set nodes. dg_type n = Service then True
      else if \<exists>n\<in>set nodes. dg_type n = Container then False
      else swarm \<and> stack \<noteq> Some STANDALONE_STACK)"

definition isServiceLive :: "DGNode \<Rightarrow> bool" where
  "isServiceLive n = (case dg_service n of Some s \<Rightarrow> rc_running (si_replicas s) > 0
     | None \<Rightarrow> dg_status n = Some ''running'')"

definition replicaText :: "ReplicaCount \<Rightarrow> string option \<Rightarrow> string" where
  "replicaText r status = (if status = Some ''completed''
     then string_of_nat (nullish (rc_completed r) 0) @ '' done''
     else string_of_nat (rc_running r) @ ''/'' @ string_of_nat (rc_desired r))"

section \<open>Stats keys\<close>

definition NODE_STATS_PREFIX :: string where
  "NODE_STATS_PREFIX = ''node:''"

definition nodeStatsKey :: "string \<Rightarrow> string" where
  "nodeStatsKey hostname = NODE_STATS_PREFIX @ hostname"

definition isNodeStatsKey :: "string \<Rightarrow> bool" where
  "isNodeStatsKey key = starts_with NODE_STATS_PREFIX key"

definition seriesLabel :: "string \<Rightarrow> string" where
  "seriesLabel key = (if isNodeStatsKey key then drop (length NODE_STATS_PREFIX) key else key)"

text \<open>
  The task name pattern, \<open>^(.+)\.(?:\d+|[a-z0-9]{25})\.[a-z0-9]{25}$\<close>. Neither of the last two
  segments holds a dot, so the only candidate split is at the last two dots; the greedy group
  takes everything before, which must be non-empty and hold no line terminator.
\<close>

definition is_base36 :: "char \<Rightarrow> bool" where
  "is_base36 c = (is_digit c \<or> 97 \<le> (of_char c :: nat) \<and> (of_char c :: nat) \<le> 122)"

definition swarm_id :: "string \<Rightarrow> bool" where
  "swarm_id s = (length s = 25 \<and> list_all is_base36 s)"

definition task_segment :: "string \<Rightarrow> bool" where
  "task_segment s = (s \<noteq> [] \<and> list_all is_digit s \<or> swarm_id s)"

definition line_char :: "char \<Rightarrow> bool" where
  "line_char c = (c \<noteq> CHR 0x0A \<and> c \<noteq> CHR 0x0D)"

text \<open>The text before and after the last dot.\<close>

fun split_last_dot :: "string \<Rightarrow> (string \<times> string) option" where
  "split_last_dot [] = None"
| "split_last_dot (c # cs) = (case split_last_dot cs of
     Some (a, b) \<Rightarrow> Some (c # a, b)
   | None \<Rightarrow> if c = CHR ''.'' then Some ([], cs) else None)"

definition serviceOfTask :: "string \<Rightarrow> string option" where
  "serviceOfTask name = (case split_last_dot name of None \<Rightarrow> None | Some (front, task_id) \<Rightarrow>
     (case split_last_dot front of None \<Rightarrow> None | Some (svc, slot) \<Rightarrow>
        if swarm_id task_id \<and> task_segment slot \<and> svc \<noteq> [] \<and> list_all line_char svc
        then Some svc else None))"

definition isCoveredTask :: "string \<Rightarrow> (string \<Rightarrow> bool) \<Rightarrow> bool" where
  "isCoveredTask key has = (case serviceOfTask key of None \<Rightarrow> False | Some svc \<Rightarrow> has svc)"

text \<open>Copying the entries of a map that pass a test, as the loops over \<open>stats\<close> do.\<close>

definition copy_entries :: "('k \<Rightarrow> bool) \<Rightarrow> ('k, 'v) jsmap \<Rightarrow> ('k, 'v) jsmap" where
  "copy_entries keep m = foldl (\<lambda>out (k, v). if keep k then map_set out k v else out) [] m"

definition consumerStats :: "stats_map \<Rightarrow> stats_map" where
  "consumerStats stats =
     copy_entries (\<lambda>k. \<not> (isNodeStatsKey k \<or> isCoveredTask k (map_has stats))) stats"

definition withoutCoveredTasks :: "(string, 'a) jsmap \<Rightarrow> (string, 'a) jsmap" where
  "withoutCoveredTasks series = filter (\<lambda>(k, _). \<not> isCoveredTask k (map_has series)) series"

definition withoutNodeStats :: "stats_map \<Rightarrow> stats_map" where
  "withoutNodeStats stats = (if \<not> list_ex isNodeStatsKey (map_keys stats) then stats
     else copy_entries (\<lambda>k. \<not> isNodeStatsKey k) stats)"

definition taskContainerName :: "string \<Rightarrow> TaskInfo \<Rightarrow> string" where
  "taskContainerName service task = service @ ''.''
     @ (case ti_slot task of Some k \<Rightarrow> if k \<noteq> 0 then string_of_nat k else nullish (ti_nodeId task) []
        | None \<Rightarrow> nullish (ti_nodeId task) []) @ ''.'' @ ti_id task"

section \<open>Stacks\<close>

record StackSummary =
  ss_name :: string
  ss_running :: nat
  ss_total :: nat

definition stack_name :: "DGNode \<Rightarrow> string" where
  "stack_name n = nullish (projectOf n) STANDALONE_STACK"

definition count_workload :: "(string, StackSummary) jsmap \<Rightarrow> DGNode \<Rightarrow> (string, StackSummary) jsmap" where
  "count_workload groups n =
     (if \<not> isWorkload n then groups
      else let name = stack_name n;
               g = nullish (map_get groups name) \<lparr>ss_name = name, ss_running = 0, ss_total = 0\<rparr>;
               g1 = g\<lparr>ss_total := ss_total g + 1\<rparr>;
               g2 = (if dg_status n = Some ''running'' then g1\<lparr>ss_running := ss_running g1 + 1\<rparr> else g1)
           in map_set groups name g2)"

definition compare_stacks :: "collator \<Rightarrow> StackSummary \<Rightarrow> StackSummary \<Rightarrow> int" where
  "compare_stacks lc a b = (if ss_name a = STANDALONE_STACK then 1
     else if ss_name b = STANDALONE_STACK then -1 else lc (ss_name a) (ss_name b))"

definition listStacks :: "collator \<Rightarrow> DGNode list \<Rightarrow> StackSummary list" where
  "listStacks lc nodes = js_sort (compare_stacks lc) (map snd (foldl count_workload [] nodes))"

definition inStack :: "DGNode \<Rightarrow> string \<Rightarrow> bool" where
  "inStack n stack = (if stack = STANDALONE_STACK then projectOf n = None
     else projectOf n = Some stack)"

section \<open>Narrowing the graph\<close>

definition own_node :: "string \<Rightarrow> DGNode \<Rightarrow> bool" where
  "own_node stack n = (dg_type n = SwarmNode
     \<or> (if isWorkload n then inStack n stack else stack \<noteq> STANDALONE_STACK \<and> inStack n stack))"

definition keep_reference :: "string list \<Rightarrow> string list \<Rightarrow> DGEdge \<Rightarrow> string list" where
  "keep_reference workloadIds kept e =
     (let k1 = (if de_type e = SecondaryNetwork \<and> de_source e \<in> set workloadIds
                then set_add (de_target e) kept else kept)
      in if de_type e = VolumeMount \<and> de_target e \<in> set workloadIds
         then set_add (de_source e) k1 else k1)"

definition filterGraphByStack :: "GraphSnapshot \<Rightarrow> string option \<Rightarrow> GraphSnapshot" where
  "filterGraphByStack g sel =
     (if \<not> truthy sel then g
      else let stack = the sel;
               own = foldl (\<lambda>kept n. if own_node stack n then set_add (dg_id n) kept else kept) [] (gs_nodes g);
               workloadIds = map dg_id (filter (\<lambda>n. isWorkload n \<and> dg_id n \<in> set own) (gs_nodes g));
               nets = foldl (\<lambda>kept n. if dg_id n \<in> set workloadIds \<and> truthy (dg_networkId n)
                        then set_add (the (dg_networkId n)) kept else kept) own (gs_nodes g);
               kept = foldl (keep_reference workloadIds) nets (gs_edges g);
               scopedNodes = filter (\<lambda>n. dg_id n \<in> set kept) (gs_nodes g);
               present = map dg_id scopedNodes;
               scopedEdges = filter (\<lambda>e. de_source e \<in> set present \<and> de_target e \<in> set present) (gs_edges g)
           in \<lparr>gs_nodes = scopedNodes, gs_edges = scopedEdges\<rparr>)"

text \<open>The stats of the scoped workloads, as \<open>App\<close> passes them down.\<close>

definition scopedStats :: "stats_map \<Rightarrow> DGNode list \<Rightarrow> string option \<Rightarrow> stats_map" where
  "scopedStats stats nodes sel =
     (if \<not> truthy sel then stats
      else let names = map dg_name (filter isWorkload nodes)
           in copy_entries (\<lambda>k. isNodeStatsKey k \<or> k \<in> set names
                \<or> nullish (serviceOfTask k) [] \<in> set names) stats)"

section \<open>Names across stacks\<close>

definition stripStackPrefix :: "string \<Rightarrow> string option \<Rightarrow> string" where
  "stripStackPrefix name stack =
     (if truthy stack \<and> starts_with (the stack @ ''_'') name \<and> length name > length (the stack) + 1
      then drop (length (the stack) + 1) name else name)"

text \<open>The text before and after the first colon.\<close>

fun split_colon :: "string \<Rightarrow> (string \<times> string) option" where
  "split_colon [] = None"
| "split_colon (c # cs) = (if c = CHR '':'' then Some ([], cs)
     else map_option (\<lambda>(a, b). (c # a, b)) (split_colon cs))"

definition candidate_types :: "string \<Rightarrow> string list" where
  "candidate_types t = (if t = ''container'' then [''container'', ''service'']
     else if t = ''service'' then [''service'', ''container''] else [t])"

definition ref_score :: "string \<Rightarrow> string \<Rightarrow> string option \<Rightarrow> DGNode \<Rightarrow> int" where
  "ref_score name baseName contextStack n =
     (if dg_name n = name then 400
      else if dg_name n = baseName then 350
      else if truthy contextStack \<and> (dg_name n = the contextStack @ ''_'' @ name
              \<or> starts_with (the contextStack @ ''-'' @ name @ ''-'') (dg_name n)) then 300
      else if ends_with (''_'' @ name) (dg_name n) \<or> ends_with (''-'' @ name) (dg_name n)
      then (if truthy contextStack \<and> projectOf n = contextStack then 200 else 100)
      else 0)"

text \<open>The score of a candidate, \<open>None\<close> when the loop skips it.\<close>

definition ref_candidate :: "string \<Rightarrow> string option \<Rightarrow> DGNode \<Rightarrow> int option" where
  "ref_candidate targetId contextStack n = (case split_colon targetId of None \<Rightarrow> None | Some (t, name) \<Rightarrow>
     (case find_index (\<lambda>x. x = type_name (dg_type n)) (candidate_types t) of None \<Rightarrow> None
      | Some rank \<Rightarrow> (let score = ref_score name (nullish (serviceOfTask name) name) contextStack n
          in if score = 0 then None else Some (score - int rank))))"

definition better_ref :: "string \<Rightarrow> string option \<Rightarrow> (string \<times> int) option \<Rightarrow> DGNode \<Rightarrow> (string \<times> int) option" where
  "better_ref targetId contextStack best n = (case ref_candidate targetId contextStack n of
     None \<Rightarrow> best
   | Some score \<Rightarrow> (case best of
       None \<Rightarrow> Some (dg_id n, score)
     | Some (i, b) \<Rightarrow> if score > b then Some (dg_id n, score) else best))"

definition resolveNodeRef :: "DGNode list \<Rightarrow> string \<Rightarrow> string option \<Rightarrow> string" where
  "resolveNodeRef nodes targetId contextStack =
     (if \<exists>n\<in>set nodes. dg_id n = targetId then targetId
      else if split_colon targetId = None then targetId
      else case foldl (better_ref targetId contextStack) None nodes of
             None \<Rightarrow> targetId | Some (i, _) \<Rightarrow> i)"

section \<open>The scope in the URL\<close>

definition STACK_PARAM :: string where
  "STACK_PARAM = ''stack''"

text \<open>The query parameters of \<open>URLSearchParams\<close>, in order, possibly repeated.\<close>

definition param_get :: "(string \<times> string) list \<Rightarrow> string \<Rightarrow> string option" where
  "param_get ps k = map_option snd (find (\<lambda>p. fst p = k) ps)"

definition param_delete :: "(string \<times> string) list \<Rightarrow> string \<Rightarrow> (string \<times> string) list" where
  "param_delete ps k = filter (\<lambda>p. fst p \<noteq> k) ps"

fun param_set :: "(string \<times> string) list \<Rightarrow> string \<Rightarrow> string \<Rightarrow> (string \<times> string) list" where
  "param_set [] k v = [(k, v)]"
| "param_set (p # ps) k v = (if fst p = k then (k, v) # param_delete ps k else p # param_set ps k v)"

definition readStackParam :: "(string \<times> string) list \<Rightarrow> string option" where
  "readStackParam ps = (let s = param_get ps STACK_PARAM in if truthy s then s else None)"

definition setSelectedStack :: "string option \<Rightarrow> (string \<times> string) list \<Rightarrow> string option \<times> (string \<times> string) list" where
  "setSelectedStack stack ps = (let nxt = (if truthy stack then stack else None) in
     (nxt, case nxt of Some s \<Rightarrow> param_set ps STACK_PARAM s | None \<Rightarrow> param_delete ps STACK_PARAM))"

end
