(* ===== verification/NodeTransform.thy ===== *)
theory NodeTransform
  imports Stack
begin

text \<open>
  The per-swarm-node view of the graph: \<^verbatim>\<open>utils/nodeTransform.ts\<close>, from the placement of tasks on
  nodes to the React Flow nodes drawn for them (role groups, node boxes, service cards), with the
  labels, ids and usage figures they carry.
\<close>

definition CONTROL_SUMMARY_ID :: string where
  "CONTROL_SUMMARY_ID = ''controlsummary''"

definition UNASSIGNED_NODE_GROUP_ID :: string where
  "UNASSIGNED_NODE_GROUP_ID = ''nodegroup:unassigned''"

record PlacedTask =
  pt_service :: DGNode
  pt_task :: TaskInfo

section \<open>Ordering\<close>

definition node_leader :: "DGNode \<Rightarrow> bool" where
  "node_leader n = (case dg_swarmNode n of None \<Rightarrow> False | Some s \<Rightarrow> sn_leader s = Some True)"

definition node_manager :: "DGNode \<Rightarrow> bool" where
  "node_manager n = (case dg_swarmNode n of None \<Rightarrow> False | Some s \<Rightarrow> sn_role s = ''manager'')"

definition node_rank :: "DGNode \<Rightarrow> int" where
  "node_rank n = (if node_leader n then 0 else if node_manager n then 1 else 2)"

text \<open>\<open>x || y\<close> on comparison results.\<close>

definition or_compare :: "int \<Rightarrow> int \<Rightarrow> int" where
  "or_compare x y = (if x \<noteq> 0 then x else y)"

definition compareSwarmNodes :: "collator \<Rightarrow> DGNode \<Rightarrow> DGNode \<Rightarrow> int" where
  "compareSwarmNodes lc a b = or_compare (node_rank a - node_rank b) (lc (dg_name a) (dg_name b))"

definition comparePlacedTasks :: "collator \<Rightarrow> PlacedTask \<Rightarrow> PlacedTask \<Rightarrow> int" where
  "comparePlacedTasks lc a b =
     (let sa = projectOf (pt_service a); sb = projectOf (pt_service b) in
      if sa \<noteq> sb then (case (sa, sb) of (None, _) \<Rightarrow> 1 | (_, None) \<Rightarrow> -1 | (Some x, Some y) \<Rightarrow> lc x y)
      else or_compare (lc (dg_name (pt_service a)) (dg_name (pt_service b)))
        (or_compare (int (nullish (ti_slot (pt_task a)) 0) - int (nullish (ti_slot (pt_task b)) 0))
          (or_compare (lc (nullish (ti_nodeId (pt_task a)) []) (nullish (ti_nodeId (pt_task b)) []))
            (lc (ti_id (pt_task a)) (ti_id (pt_task b))))))"

definition listSwarmNodes :: "collator \<Rightarrow> DGNode list \<Rightarrow> DGNode list" where
  "listSwarmNodes lc dgNodes = js_sort (compareSwarmNodes lc) (filter (\<lambda>n. dg_type n = SwarmNode) dgNodes)"

section \<open>Placement\<close>

definition isActiveTask :: "TaskInfo \<Rightarrow> bool" where
  "isActiveTask t = (ti_desiredState t \<noteq> Some ''shutdown'' \<and> ti_desiredState t \<noteq> Some ''remove''
     \<and> ti_state t \<noteq> Some ''complete'')"

definition swarm_node_id :: "DGNode \<Rightarrow> string option" where
  "swarm_node_id n = map_option sn_id (dg_swarmNode n)"

definition by_hostname :: "DGNode list \<Rightarrow> (string, string) jsmap" where
  "by_hostname dgNodes = foldl (\<lambda>m n. if dg_type n = SwarmNode then map_set m (dg_name n) (dg_id n) else m) [] dgNodes"

definition by_node_id :: "DGNode list \<Rightarrow> (string, string) jsmap" where
  "by_node_id dgNodes = foldl (\<lambda>m n. if dg_type n = SwarmNode \<and> truthy (swarm_node_id n)
     then map_set m (the (swarm_node_id n)) (dg_id n) else m) [] dgNodes"

definition task_group :: "DGNode list \<Rightarrow> TaskInfo \<Rightarrow> string" where
  "task_group dgNodes t =
     (let a = (if truthy (ti_nodeHostname t) then map_get (by_hostname dgNodes) (the (ti_nodeHostname t)) else None);
          b = (if truthy (ti_nodeId t) then map_get (by_node_id dgNodes) (the (ti_nodeId t)) else None)
      in if truthy a then the a else if truthy b then the b else UNASSIGNED_NODE_GROUP_ID)"

definition service_tasks :: "DGNode \<Rightarrow> TaskInfo list" where
  "service_tasks n = (case dg_service n of None \<Rightarrow> [] | Some s \<Rightarrow> nullish (si_tasks s) [])"

text \<open>The tasks the nested loops of \<open>placeTasks\<close> visit and do not skip, in their order.\<close>

definition active_tasks :: "DGNode list \<Rightarrow> PlacedTask list" where
  "active_tasks dgNodes = concat (map (\<lambda>s. map (\<lambda>t. \<lparr>pt_service = s, pt_task = t\<rparr>)
     (filter isActiveTask (service_tasks s))) (filter (\<lambda>n. dg_type n = Service) dgNodes))"

definition placeTasks :: "collator \<Rightarrow> DGNode list \<Rightarrow> (string, PlacedTask list) jsmap" where
  "placeTasks lc dgNodes =
     map (\<lambda>(k, ts). (k, js_sort (comparePlacedTasks lc) ts))
       (group_on (\<lambda>p. task_group dgNodes (pt_task p)) id (active_tasks dgNodes))"

section \<open>Labels and ids\<close>

definition taskSlot :: "TaskInfo \<Rightarrow> string option \<Rightarrow> nat option" where
  "taskSlot task mode = (case mode of
     None \<Rightarrow> (case ti_slot task of Some k \<Rightarrow> if k \<noteq> 0 then Some k else None | None \<Rightarrow> None)
   | Some m \<Rightarrow> if m = ''global'' \<or> m = ''global-job'' then None else Some (nullish (ti_slot task) 0))"

definition taskLabel :: "string \<Rightarrow> TaskInfo \<Rightarrow> string option \<Rightarrow> string" where
  "taskLabel serviceName task mode = (case taskSlot task mode of
     None \<Rightarrow> serviceName | Some k \<Rightarrow> serviceName @ ''.'' @ string_of_nat k)"

definition localGroupId :: "DGNode list \<Rightarrow> string option \<Rightarrow> string option" where
  "localGroupId dgNodes localNodeId = (if \<not> truthy localNodeId then None
     else map_option dg_id (find (\<lambda>n. dg_type n = SwarmNode \<and> swarm_node_id n = localNodeId) dgNodes))"

definition swarmRole :: "DGNode \<Rightarrow> swarm_role" where
  "swarmRole n = (if node_manager n then Manager else Worker)"

fun role_name :: "swarm_role \<Rightarrow> string" where
  "role_name Manager = ''manager''"
| "role_name Worker = ''worker''"

definition roleTitle :: "swarm_role \<Rightarrow> string" where
  "roleTitle r = (case r of Manager \<Rightarrow> ''Managers'' | Worker \<Rightarrow> ''Workers'')"

definition ROLE_GROUP_PREFIX :: string where
  "ROLE_GROUP_PREFIX = ''rolegroup:''"

definition roleGroupId :: "swarm_role \<Rightarrow> string" where
  "roleGroupId r = ROLE_GROUP_PREFIX @ role_name r"

definition roleOfGroupId :: "string \<Rightarrow> swarm_role option" where
  "roleOfGroupId i = (if \<not> starts_with ROLE_GROUP_PREFIX i then None
     else let r = drop (length ROLE_GROUP_PREFIX) i
       in if r = ''manager'' then Some Manager else if r = ''worker'' then Some Worker else None)"

definition isRoleGroupId :: "string \<Rightarrow> bool" where
  "isRoleGroupId i = starts_with ROLE_GROUP_PREFIX i"

definition UNASSIGNED_CARD_HOST :: string where
  "UNASSIGNED_CARD_HOST = ''*''"

definition nodeServiceCardId :: "string \<Rightarrow> string \<Rightarrow> string" where
  "nodeServiceCardId hostname serviceName = ''nodesvc:'' @ hostname @ '':'' @ serviceName"

definition node_state :: "DGNode \<Rightarrow> string option" where
  "node_state n = (case dg_swarmNode n of Some s \<Rightarrow> Some (sn_state s) | None \<Rightarrow> dg_status n)"

definition isSwarmNodeInactive :: "DGNode \<Rightarrow> bool" where
  "isSwarmNodeInactive n =
     (if node_state n \<noteq> None \<and> node_state n \<noteq> Some ''ready'' then True
      else (case dg_swarmNode n of None \<Rightarrow> False
        | Some s \<Rightarrow> sn_availability s = ''drain'' \<or> sn_availability s = ''pause''))"

section \<open>Boxes and cards\<close>

definition push_service :: "(DGNode \<times> TaskInfo list) list \<Rightarrow> PlacedTask \<Rightarrow> (DGNode \<times> TaskInfo list) list" where
  "push_service out p =
     (if out \<noteq> [] \<and> dg_id (fst (last out)) = dg_id (pt_service p)
      then butlast out @ [(fst (last out), snd (last out) @ [pt_task p])]
      else out @ [(pt_service p, [pt_task p])])"

definition groupByService :: "PlacedTask list \<Rightarrow> (DGNode \<times> TaskInfo list) list" where
  "groupByService tasks = foldl push_service [] tasks"

definition service_card :: "string \<Rightarrow> string \<Rightarrow> bool \<Rightarrow> DGNode \<times> TaskInfo list \<Rightarrow> RFNode" where
  "service_card boxId host inactive run1 =
     (let service = fst run1; cardId = nodeServiceCardId host (dg_name service); stack = projectOf service
      in rf_node cardId ''nodeServiceCard'' (Some boxId) (CardData
        \<lparr>nc_dgNode = (bare_node cardId Service (dg_name service))\<lparr>dg_status := dg_status service, dg_stack := stack\<rparr>,
         nc_serviceId = dg_id service, nc_serviceName = dg_name service, nc_stack = stack,
         nc_mode = (case dg_service service of None \<Rightarrow> None | Some s \<Rightarrow> si_mode s),
         nc_tasks = snd run1, nc_nodeInactive = inactive\<rparr>))"

definition container_card :: "string option \<Rightarrow> DGNode \<Rightarrow> RFNode" where
  "container_card parent c = rf_node (dg_id c) ''containerNode'' parent (PlainData c)"

record GroupedView =
  gv_roles :: "RFNode list"
  gv_boxes :: "RFNode list"
  gv_cards :: "RFNode list"

text \<open>\<open>addBox\<close>: the box and its cards are appended; the number of its tasks is returned.\<close>

definition box_tasks :: "(string, PlacedTask list) jsmap \<Rightarrow> string \<Rightarrow> PlacedTask list" where
  "box_tasks placed i = nullish (map_get placed i) []"

definition box_local :: "DGNode list \<Rightarrow> string option \<Rightarrow> string \<Rightarrow> DGNode list" where
  "box_local containers localGroup i = (if Some i = localGroup then containers else [])"

definition addBox :: "(string, PlacedTask list) jsmap \<Rightarrow> DGNode list \<Rightarrow> string option \<Rightarrow>
    string \<Rightarrow> DGNode \<Rightarrow> string option \<Rightarrow> swarm_role option \<Rightarrow> GroupedView \<Rightarrow> GroupedView \<times> nat" where
  "addBox placed containers localGroup i dgNode parentId role v =
     (let tasks = box_tasks placed i;
          local_containers = box_local containers localGroup i;
          taskCount = length tasks + length local_containers;
          box = rf_node i ''nodeGroup'' parentId (BoxData
            \<lparr>ng_dgNode = dgNode, ng_unassigned = (role = None), ng_role = role, ng_taskCount = taskCount\<rparr>);
          host = (if role \<noteq> None then dg_name dgNode else UNASSIGNED_CARD_HOST);
          inactive = (role \<noteq> None \<and> isSwarmNodeInactive dgNode)
      in (v\<lparr>gv_boxes := gv_boxes v @ [box],
            gv_cards := gv_cards v @ map (service_card i host inactive) (groupByService tasks)
              @ map (container_card (Some i)) local_containers\<rparr>, taskCount))"

definition add_member :: "(string, PlacedTask list) jsmap \<Rightarrow> DGNode list \<Rightarrow> string option \<Rightarrow> swarm_role \<Rightarrow>
    GroupedView \<times> nat \<Rightarrow> DGNode \<Rightarrow> GroupedView \<times> nat" where
  "add_member placed containers localGroup role acc n =
     (let (v, c) = addBox placed containers localGroup (dg_id n) n (Some (roleGroupId role)) (Some role) (fst acc)
      in (v, snd acc + c))"

definition add_role :: "(string, PlacedTask list) jsmap \<Rightarrow> DGNode list \<Rightarrow> string option \<Rightarrow> DGNode list \<Rightarrow>
    GroupedView \<Rightarrow> swarm_role \<Rightarrow> GroupedView" where
  "add_role placed containers localGroup swarmNodes v role =
     (let members = filter (\<lambda>n. swarmRole n = role) swarmNodes in
      if members = [] then v
      else let (v1, taskCount) = foldl (add_member placed containers localGroup role) (v, 0) members
           in v1\<lparr>gv_roles := gv_roles v1 @ [rf_node (roleGroupId role) ''roleGroup'' None (RoleData
                \<lparr>rg_role = role, rg_nodeCount = length members, rg_taskCount = taskCount\<rparr>)]\<rparr>)"

definition control_summary :: "DGNode list \<Rightarrow> ControlSummaryData" where
  "control_summary workers =
     (let ready = length (filter (\<lambda>n. node_state n = Some ''ready'') workers)
      in \<lparr>ctl_ready = ready, ctl_total = length workers, ctl_healthy = (ready = length workers)\<rparr>)"

text \<open>The containers the view draws, and the view after the roles, the badge and the Unassigned box.\<close>

definition view_containers :: "DGNode list \<Rightarrow> DGNode list" where
  "view_containers dgNodes = filter (\<lambda>n. dg_type n = Container \<and> dg_status n \<noteq> Some ''not_running'') dgNodes"

definition role_view :: "collator \<Rightarrow> DGNode list \<Rightarrow> string option \<Rightarrow> GroupedView" where
  "role_view lc dgNodes localNodeId =
     foldl (add_role (placeTasks lc dgNodes) (view_containers dgNodes) (localGroupId dgNodes localNodeId)
         (listSwarmNodes lc dgNodes))
       \<lparr>gv_roles = [], gv_boxes = [], gv_cards = []\<rparr> [Manager, Worker]"

definition control_view :: "collator \<Rightarrow> DGNode list \<Rightarrow> string option \<Rightarrow> GroupedView" where
  "control_view lc dgNodes localNodeId =
     (let v = role_view lc dgNodes localNodeId;
          swarmNodes = listSwarmNodes lc dgNodes;
          workers = filter (\<lambda>n. swarmRole n = Worker) swarmNodes
      in if list_ex (\<lambda>n. swarmRole n = Manager) swarmNodes \<and> workers \<noteq> []
         then v\<lparr>gv_roles := gv_roles v @ [rf_node CONTROL_SUMMARY_ID ''controlSummary'' None
                (ControlData (control_summary workers))]\<rparr> else v)"

definition grouped_view :: "collator \<Rightarrow> DGNode list \<Rightarrow> string option \<Rightarrow> GroupedView" where
  "grouped_view lc dgNodes localNodeId =
     (let placed = placeTasks lc dgNodes; v = control_view lc dgNodes localNodeId in
      if map_has placed UNASSIGNED_NODE_GROUP_ID
      then fst (addBox placed (view_containers dgNodes) (localGroupId dgNodes localNodeId)
             UNASSIGNED_NODE_GROUP_ID
             (bare_node UNASSIGNED_NODE_GROUP_ID SwarmNode ''Unassigned'') None None v)
      else v)"

definition toNodeGroupedFlowNodes :: "collator \<Rightarrow> DGNode list \<Rightarrow> string option \<Rightarrow> RFNode list" where
  "toNodeGroupedFlowNodes lc dgNodes localNodeId =
     (let v = grouped_view lc dgNodes localNodeId;
          free = (if truthy (localGroupId dgNodes localNodeId) then []
                  else map (container_card None) (view_containers dgNodes))
      in gv_roles v @ gv_boxes v @ gv_cards v @ free)"

definition box_count :: "RFNode \<Rightarrow> nat" where
  "box_count n = (case rf_data n of BoxData d \<Rightarrow> ng_taskCount d | _ \<Rightarrow> 0)"

definition boxTaskCounts :: "collator \<Rightarrow> DGNode list \<Rightarrow> string option \<Rightarrow> (string, nat) jsmap" where
  "boxTaskCounts lc dgNodes localNodeId =
     foldl (\<lambda>m n. if rf_type n = ''nodeGroup'' then map_set m (rf_id n) (box_count n) else m) []
       (toNodeGroupedFlowNodes lc dgNodes localNodeId)"

definition card_service :: "RFNode \<Rightarrow> string option" where
  "card_service n = (case rf_data n of CardData d \<Rightarrow> Some (nc_serviceId d) | _ \<Rightarrow> None)"

definition card_tasks :: "RFNode \<Rightarrow> TaskInfo list" where
  "card_tasks n = (case rf_data n of CardData d \<Rightarrow> nc_tasks d | _ \<Rightarrow> [])"

definition canvasNodesShowing :: "RFNode list \<Rightarrow> string \<Rightarrow> string option \<Rightarrow> string list" where
  "canvasNodesShowing rfNodes i inBox =
     (if \<exists>n\<in>set rfNodes. rf_id n = i then [i]
      else let cards = filter (\<lambda>n. rf_type n = ''nodeServiceCard'' \<and> card_service n = Some i) rfNodes;
               inside = (if truthy inBox then filter (\<lambda>n. rf_parentId n = inBox) cards else [])
           in map rf_id (if inside \<noteq> [] then inside else cards))"

definition nodeGroupedTopologyKey :: "collator \<Rightarrow> DGNode list \<Rightarrow> string option \<Rightarrow> string" where
  "nodeGroupedTopologyKey lc dgNodes localNodeId =
     join '','' (sort_strings (map (\<lambda>n.
       let rows = (if rf_type n = ''nodeServiceCard'' then length (card_tasks n) else 0)
       in rf_id n @ ''>'' @ nullish (rf_parentId n) [] @ ''#'' @ string_of_nat rows)
       (toNodeGroupedFlowNodes lc dgNodes localNodeId)))"

section \<open>Usage\<close>

record NodeUsage =
  nu_cores :: "real option"
  nu_cpuPercent :: "real option"
  nu_memPercent :: "real option"

definition clampPercent :: "real \<Rightarrow> real" where
  "clampPercent v = max 0 (min 100 v)"

definition capacity :: "nat option \<Rightarrow> nat option" where
  "capacity c = (case c of None \<Rightarrow> None | Some k \<Rightarrow> if k = 0 then None else Some k)"

definition nodeUsage :: "SwarmNodeInfo option \<Rightarrow> ContainerStatsData option \<Rightarrow> NodeUsage" where
  "nodeUsage info stats =
     (let cpus = (case info of None \<Rightarrow> None | Some s \<Rightarrow> capacity (sn_nanoCpus s));
          memory = (case info of None \<Rightarrow> None | Some s \<Rightarrow> capacity (sn_memoryBytes s));
          cores = map_option (\<lambda>c. real c / 1000000000) cpus
      in case stats of
           None \<Rightarrow> \<lparr>nu_cores = cores, nu_cpuPercent = None, nu_memPercent = None\<rparr>
         | Some st \<Rightarrow> \<lparr>nu_cores = cores,
             nu_cpuPercent = map_option (\<lambda>c. clampPercent (cs_cpuPercent st / c)) cores,
             nu_memPercent = map_option (\<lambda>m. clampPercent (cs_memUsage st / real m * 100)) memory\<rparr>)"

text \<open>\<open>toFixed(1)\<close> of a non-negative number, and \<open>formatCores\<close>.\<close>

definition to_fixed1 :: "real \<Rightarrow> string" where
  "to_fixed1 v = (let n = nat \<lfloor>v * 10 + 1 / 2\<rfloor> in string_of_nat (n div 10) @ ''.'' @ string_of_nat (n mod 10))"

definition formatCores :: "real \<Rightarrow> string" where
  "formatCores cores = (if cores = of_int \<lfloor>cores\<rfloor> then string_of_int \<lfloor>cores\<rfloor> else to_fixed1 cores)
     @ (if cores = 1 then '' core'' else '' cores'')"

end
