(* ===== verification/StackCorrect.thy ===== *)
theory StackCorrect
  imports Stack
begin

text \<open>
  Correctness of the stack scope: narrowing the graph keeps exactly what the scope owns or
  references and is idempotent; the stack list counts every workload once; task names round-trip;
  and the consumer stats count no usage twice.
\<close>

section \<open>Narrowing the graph\<close>

lemma set_foldl_add:
  "set (foldl (\<lambda>acc x. if P x then set_add (f x) acc else acc) acc xs) = set acc \<union> f ` {x \<in> set xs. P x}"
  by (induction xs arbitrary: acc) auto

lemma set_keep_references:
  "set (foldl (keep_reference ws) kept es) = set kept
     \<union> de_target ` {e \<in> set es. de_type e = SecondaryNetwork \<and> de_source e \<in> set ws}
     \<union> de_source ` {e \<in> set es. de_type e = VolumeMount \<and> de_target e \<in> set ws}"
  by (induction es arbitrary: kept) (auto simp: keep_reference_def Let_def)

text \<open>
  What a scope references: the network of one of its workloads, a secondary network it joins, or a
  volume it mounts.
\<close>

definition scoped_workload :: "GraphSnapshot \<Rightarrow> string \<Rightarrow> string \<Rightarrow> bool" where
  "scoped_workload g stack i = (\<exists>w\<in>set (gs_nodes g). isWorkload w \<and> inStack w stack \<and> dg_id w = i)"

definition referenced :: "GraphSnapshot \<Rightarrow> string \<Rightarrow> string \<Rightarrow> bool" where
  "referenced g stack i =
     ((\<exists>w\<in>set (gs_nodes g). isWorkload w \<and> inStack w stack \<and> dg_networkId w = Some i \<and> i \<noteq> [])
      \<or> (\<exists>e\<in>set (gs_edges g). de_type e = SecondaryNetwork \<and> scoped_workload g stack (de_source e) \<and> de_target e = i)
      \<or> (\<exists>e\<in>set (gs_edges g). de_type e = VolumeMount \<and> scoped_workload g stack (de_target e) \<and> de_source e = i))"

lemma own_workload: "isWorkload w \<Longrightarrow> own_node stack w = inStack w stack"
  by (auto simp: own_node_def isWorkload_def)

lemma same_node: "distinct (map dg_id ns) \<Longrightarrow> n \<in> set ns \<Longrightarrow> m \<in> set ns \<Longrightarrow> dg_id n = dg_id m \<Longrightarrow> n = m"
  by (auto simp: distinct_map dest: inj_onD)

lemma filter_graph_eq:
  assumes d: "distinct (map dg_id (gs_nodes g))" and s: "stack \<noteq> []"
  shows "filterGraphByStack g (Some stack) =
    (let ns = filter (\<lambda>n. own_node stack n \<or> referenced g stack (dg_id n)) (gs_nodes g)
     in \<lparr>gs_nodes = ns, gs_edges = filter (\<lambda>e. de_source e \<in> dg_id ` set ns \<and> de_target e \<in> dg_id ` set ns) (gs_edges g)\<rparr>)"
proof -
  define own where "own = foldl (\<lambda>kept n. if own_node stack n then set_add (dg_id n) kept else kept) [] (gs_nodes g)"
  define ws where "ws = map dg_id (filter (\<lambda>n. isWorkload n \<and> dg_id n \<in> set own) (gs_nodes g))"
  define nets where "nets = foldl (\<lambda>kept n. if dg_id n \<in> set ws \<and> truthy (dg_networkId n)
    then set_add (the (dg_networkId n)) kept else kept) own (gs_nodes g)"
  have own: "dg_id n \<in> set own \<longleftrightarrow> own_node stack n" if "n \<in> set (gs_nodes g)" for n
    using same_node [OF d that] that by (auto simp: own_def set_foldl_add)
  have ws: "set ws = {i. scoped_workload g stack i}"
    by (auto simp: ws_def scoped_workload_def own own_workload)
  have ws_iff: "dg_id n \<in> set ws \<longleftrightarrow> isWorkload n \<and> inStack n stack" if "n \<in> set (gs_nodes g)" for n
  proof -
    have "w = n" if "w \<in> set (gs_nodes g)" "dg_id w = dg_id n" for w
      using same_node [OF d that(1) \<open>n \<in> set (gs_nodes g)\<close> that(2)] .
    then show ?thesis using that unfolding ws scoped_workload_def by blast
  qed
  have nets: "set nets = set own \<union>
      {i. \<exists>w\<in>set (gs_nodes g). isWorkload w \<and> inStack w stack \<and> dg_networkId w = Some i \<and> i \<noteq> []}"
  proof -
    have "(\<lambda>n. the (dg_networkId n)) ` {n \<in> set (gs_nodes g). dg_id n \<in> set ws \<and> truthy (dg_networkId n)}
        = {i. \<exists>w\<in>set (gs_nodes g). isWorkload w \<and> inStack w stack \<and> dg_networkId w = Some i \<and> i \<noteq> []}"
      using ws_iff by (auto simp: truthy_iff image_iff) (metis option.sel)
    then show ?thesis unfolding nets_def set_foldl_add by (rule arg_cong)
  qed
  have kept: "set (foldl (keep_reference ws) nets (gs_edges g)) = set own \<union> {i. referenced g stack i}"
    unfolding set_keep_references nets referenced_def ws by auto
  have "filter (\<lambda>n. dg_id n \<in> set (foldl (keep_reference ws) nets (gs_edges g))) (gs_nodes g)
      = filter (\<lambda>n. own_node stack n \<or> referenced g stack (dg_id n)) (gs_nodes g)"
    by (rule filter_cong) (auto simp: kept own)
  then show ?thesis using s
    unfolding filterGraphByStack_def Let_def truthy_simps option.sel
      own_def [symmetric] ws_def [symmetric] nets_def [symmetric]
    by simp
qed

lemma filter_graph_twice:
  assumes d: "distinct (map dg_id (gs_nodes g))" and s: "stack \<noteq> []"
  shows "filterGraphByStack (filterGraphByStack g (Some stack)) (Some stack) = filterGraphByStack g (Some stack)"
proof -
  let ?r = "filterGraphByStack g (Some stack)"
  let ?kept = "\<lambda>n. own_node stack n \<or> referenced g stack (dg_id n)"
  note r = filter_graph_eq [OF d s, unfolded Let_def]
  have nodes: "gs_nodes ?r = filter ?kept (gs_nodes g)" by (simp add: r)
  have edges: "gs_edges ?r = filter (\<lambda>e. de_source e \<in> dg_id ` set (gs_nodes ?r)
      \<and> de_target e \<in> dg_id ` set (gs_nodes ?r)) (gs_edges g)" by (simp add: r)
  have dr: "distinct (map dg_id (gs_nodes ?r))" using d by (simp add: nodes distinct_map_filter)
  have w: "scoped_workload ?r stack i" "i \<in> dg_id ` set (gs_nodes ?r)" if "scoped_workload g stack i" for i
    using that by (auto simp: scoped_workload_def nodes own_workload)
  have "referenced ?r stack i" if ref: "referenced g stack i" and i: "i \<in> dg_id ` set (gs_nodes ?r)" for i
  proof -
    have e: "e \<in> set (gs_edges ?r)" if "e \<in> set (gs_edges g)"
      "de_source e \<in> dg_id ` set (gs_nodes ?r)" "de_target e \<in> dg_id ` set (gs_nodes ?r)" for e
      using that by (subst edges) simp
    consider (net) v where "v \<in> set (gs_nodes g)" "isWorkload v" "inStack v stack" "dg_networkId v = Some i" "i \<noteq> []"
      | (second) e where "e \<in> set (gs_edges g)" "de_type e = SecondaryNetwork"
          "scoped_workload g stack (de_source e)" "de_target e = i"
      | (mount) e where "e \<in> set (gs_edges g)" "de_type e = VolumeMount"
          "scoped_workload g stack (de_target e)" "de_source e = i"
      using ref unfolding referenced_def by blast
    then show ?thesis
    proof cases
      case net
      then have "v \<in> set (gs_nodes ?r)" by (simp add: nodes own_workload)
      then show ?thesis using net unfolding referenced_def by blast
    next
      case second
      then show ?thesis using e w i unfolding referenced_def by blast
    next
      case mount
      then show ?thesis using e w i unfolding referenced_def by blast
    qed
  qed
  then have "own_node stack n \<or> referenced ?r stack (dg_id n)" if "n \<in> set (gs_nodes ?r)" for n
    using that nodes by (metis (mono_tags, lifting) image_eqI mem_Collect_eq set_filter)
  then have "filter (\<lambda>n. own_node stack n \<or> referenced ?r stack (dg_id n)) (gs_nodes ?r) = gs_nodes ?r"
    by (intro filter_True) blast
  then have "filterGraphByStack ?r (Some stack) = \<lparr>gs_nodes = gs_nodes ?r,
      gs_edges = filter (\<lambda>e. de_source e \<in> dg_id ` set (gs_nodes ?r)
        \<and> de_target e \<in> dg_id ` set (gs_nodes ?r)) (gs_edges ?r)\<rparr>"
    by (simp add: filter_graph_eq [OF dr s] Let_def)
  also have "filter (\<lambda>e. de_source e \<in> dg_id ` set (gs_nodes ?r)
        \<and> de_target e \<in> dg_id ` set (gs_nodes ?r)) (gs_edges ?r) = gs_edges ?r"
  proof (rule filter_True, rule ballI)
    fix e assume "e \<in> set (gs_edges ?r)"
    then show "de_source e \<in> dg_id ` set (gs_nodes ?r) \<and> de_target e \<in> dg_id ` set (gs_nodes ?r)"
      by (subst (asm) edges) simp
  qed
  finally show ?thesis by simp
qed

text \<open>
  C17. Narrowing the graph to a stack keeps, in order, exactly the stack's own nodes, every swarm
  node, and the networks and volumes its workloads reference; exactly the edges whose ends both
  survive; and narrowing again changes nothing.
\<close>

theorem stack_filter_scope:
  assumes "distinct (map dg_id (gs_nodes g))" "stack \<noteq> []"
  shows "let r = filterGraphByStack g (Some stack) in
      gs_nodes r = filter (\<lambda>n. own_node stack n \<or> referenced g stack (dg_id n)) (gs_nodes g)
    \<and> gs_edges r = filter (\<lambda>e. {de_source e, de_target e} \<subseteq> dg_id ` set (gs_nodes r)) (gs_edges g)
    \<and> filterGraphByStack r (Some stack) = r"
  using filter_graph_eq [OF assms] filter_graph_twice [OF assms] by (simp add: Let_def)

definition shop_node :: "string \<Rightarrow> node_type \<Rightarrow> string option \<Rightarrow> string option \<Rightarrow> DGNode" where
  "shop_node i t stack net = (bare_node i t i)\<lparr>dg_stack := stack, dg_networkId := net, dg_status := Some ''running''\<rparr>"

definition shop_graph :: GraphSnapshot where
  "shop_graph = \<lparr>gs_nodes = [shop_node ''web'' Container (Some ''shop'') (Some ''ext''),
       shop_node ''ext'' Network None None, shop_node ''blog'' Container (Some ''blog'') None,
       shop_node ''data'' Volume None None],
     gs_edges = [\<lparr>de_id = ''e1'', de_type = VolumeMount, de_source = ''data'', de_target = ''blog'', de_mountPath = None\<rparr>]\<rparr>"

theorem stack_filter_scope_witness:
  "gs_nodes (filterGraphByStack shop_graph (Some ''shop'')) =
    [shop_node ''web'' Container (Some ''shop'') (Some ''ext''), shop_node ''ext'' Network None None]"
proof -
  have d: "distinct (map dg_id (gs_nodes shop_graph))" by code_simp
  show ?thesis using stack_filter_scope [OF d, of "''shop''"]
    by (simp add: Let_def shop_graph_def shop_node_def own_node_def isWorkload_def inStack_def
        projectOf_def or_else_def referenced_def scoped_workload_def STANDALONE_STACK_def label_of_def bare_node_def)
qed


section \<open>The list of stacks\<close>

definition stack_total :: "DGNode list \<Rightarrow> string \<Rightarrow> nat" where
  "stack_total nodes k = length (filter (\<lambda>n. isWorkload n \<and> stack_name n = k) nodes)"

definition stack_running :: "DGNode list \<Rightarrow> string \<Rightarrow> nat" where
  "stack_running nodes k = length (filter (\<lambda>n. isWorkload n \<and> stack_name n = k \<and> dg_status n = Some ''running'') nodes)"

lemma stack_groups:
  "map_get (foldl count_workload [] nodes) k =
     (if stack_total nodes k = 0 then None
      else Some \<lparr>ss_name = k, ss_running = stack_running nodes k, ss_total = stack_total nodes k\<rparr>)
   \<and> distinct (map_keys (foldl count_workload [] nodes))"
proof (induction nodes rule: rev_induct)
  case Nil
  then show ?case by (simp add: stack_total_def)
next
  case (snoc n nodes)
  have "length (filter (\<lambda>n. isWorkload n \<and> stack_name n = k \<and> dg_status n = Some ''running'') nodes) = 0"
    if "stack_total nodes k = 0"
    using that by (auto simp: stack_total_def filter_empty_conv)
  then show ?case
    using snoc by (auto simp: count_workload_def stack_total_def stack_running_def Let_def js.get_put js.keys_put)
qed

lemma stack_summaries:
  "s \<in> set (map snd (foldl count_workload [] nodes)) \<longleftrightarrow>
     stack_total nodes (ss_name s) \<noteq> 0
     \<and> s = \<lparr>ss_name = ss_name s, ss_running = stack_running nodes (ss_name s), ss_total = stack_total nodes (ss_name s)\<rparr>"
proof -
  let ?m = "foldl count_workload [] nodes"
  have "(k, v) \<in> set ?m \<longleftrightarrow> map_get ?m k = Some v" for k v
    using stack_groups by (intro map_get_in) blast
  then have "s \<in> set (map snd ?m) \<longleftrightarrow> (\<exists>k. map_get ?m k = Some s)" by force
  also have "\<dots> \<longleftrightarrow> stack_total nodes (ss_name s) \<noteq> 0
     \<and> s = \<lparr>ss_name = ss_name s, ss_running = stack_running nodes (ss_name s), ss_total = stack_total nodes (ss_name s)\<rparr>"
    using stack_groups [of nodes] by (cases s) auto
  finally show ?thesis .
qed

lemma stack_names: "map ss_name (map snd (foldl count_workload [] nodes)) = map_keys (foldl count_workload [] nodes)"
proof -
  let ?m = "foldl count_workload [] nodes"
  have "(k, v) \<in> set ?m \<Longrightarrow> ss_name v = k" for k v
    using stack_groups [of nodes k] map_get_in [of ?m k v] by (auto split: if_splits)
  then show ?thesis by (auto simp: map_keys_def)
qed

definition compare_stacks' :: "collator \<Rightarrow> StackSummary \<Rightarrow> StackSummary \<Rightarrow> int" where
  "compare_stacks' lc a b = (if ss_name a = STANDALONE_STACK then if ss_name b = STANDALONE_STACK then 0 else 1
     else if ss_name b = STANDALONE_STACK then -1 else lc (ss_name a) (ss_name b))"

lemma comparator_stacks:
  assumes "collation lc"
  shows "comparator (compare_stacks' lc)"
proof -
  have anti: "lc a b \<le> 0 \<longleftrightarrow> 0 \<le> lc b a" for a b
    using collation.lc_anti [OF assms] .
  have trans: "lc a b \<le> 0 \<Longrightarrow> lc b c \<le> 0 \<Longrightarrow> lc a c \<le> 0" for a b c
    using collation.lc_trans [OF assms] .
  show ?thesis
  proof
    fix a b c
    show "compare_stacks' lc a b \<le> 0 \<longleftrightarrow> 0 \<le> compare_stacks' lc b a"
      by (auto simp: compare_stacks'_def anti)
    show "compare_stacks' lc a b \<le> 0 \<Longrightarrow> compare_stacks' lc b c \<le> 0 \<Longrightarrow> compare_stacks' lc a c \<le> 0"
      using trans [of "ss_name a" "ss_name b" "ss_name c"]
      by (simp add: compare_stacks'_def split: if_splits)
  qed
qed

lemma listStacks_names:
  "distinct (map ss_name (listStacks lc nodes))"
  "s \<in> set (listStacks lc nodes) \<longleftrightarrow> s \<in> set (map snd (foldl count_workload [] nodes))"
  using stack_groups [of nodes] stack_names [of nodes]
  by (simp_all add: listStacks_def del: map_map)

lemma listStacks_eq: "listStacks lc nodes = js_sort (compare_stacks' lc) (map snd (foldl count_workload [] nodes))"
proof -
  let ?ss = "map snd (foldl count_workload [] nodes)"
  have d: "distinct (map ss_name ?ss)" using stack_groups by (metis stack_names)
  have "ss_name a \<noteq> ss_name b" if "a \<in> set ?ss" "b \<in> set ?ss" "a \<noteq> b" for a b
    using d that by (auto simp only: distinct_map dest: inj_onD)
  then have "compare_stacks lc a b \<le> 0 \<longleftrightarrow> compare_stacks' lc a b \<le> 0"
    if "a \<in> set ?ss" "b \<in> set ?ss" "a \<noteq> b" for a b
    using that by (metis compare_stacks_def compare_stacks'_def)
  moreover have "distinct ?ss" using d unfolding distinct_map [of ss_name] by blast
  ultimately show ?thesis unfolding listStacks_def by (intro js_sort_cong)
qed

lemma listStacks_sorted:
  assumes "collation lc"
  shows "sorted_wrt (\<lambda>a b. ss_name a \<noteq> STANDALONE_STACK
    \<and> (ss_name b = STANDALONE_STACK \<or> lc (ss_name a) (ss_name b) \<le> 0)) (listStacks lc nodes)"
proof -
  let ?ss = "listStacks lc nodes"
  have sorted: "sorted_wrt (\<lambda>a b. compare_stacks' lc a b \<le> 0) ?ss"
    using comparator.sorted_js_sort [OF comparator_stacks [OF assms]] by (simp add: listStacks_eq)
  have "ss_name (?ss ! i) \<noteq> STANDALONE_STACK
      \<and> (ss_name (?ss ! j) = STANDALONE_STACK \<or> lc (ss_name (?ss ! i)) (ss_name (?ss ! j)) \<le> 0)"
    if ij: "i < j" "j < length ?ss" for i j
  proof -
    have "ss_name (?ss ! i) \<noteq> ss_name (?ss ! j)"
      using listStacks_names(1) [of lc nodes] ij by (auto simp: distinct_conv_nth)
    moreover have "compare_stacks' lc (?ss ! i) (?ss ! j) \<le> 0"
      using sorted ij by (simp add: sorted_wrt_iff_nth_less)
    ultimately show ?thesis by (auto simp: compare_stacks'_def split: if_splits)
  qed
  then show ?thesis unfolding sorted_wrt_iff_nth_less by blast
qed

lemma listStacks_sum: "sum_list (map ss_total (listStacks lc nodes)) = length (filter isWorkload nodes)"
proof -
  let ?ss = "listStacks lc nodes" let ?names = "ss_name ` set ?ss"
  have tot: "ss_total s = stack_total nodes (ss_name s)" if "s \<in> set ?ss" for s
    using that by (metis StackSummary.select_convs(3) listStacks_names(2) stack_summaries)
  have inj: "inj_on ss_name (set ?ss)" "distinct ?ss"
    using listStacks_names(1) [of lc nodes] by (auto simp: distinct_map)
  have "sum_list (map ss_total ?ss) = (\<Sum>s\<in>set ?ss. stack_total nodes (ss_name s))"
    using inj(2) tot by (simp add: sum_list_distinct_conv_sum_set)
  also have "\<dots> = (\<Sum>k\<in>?names. stack_total nodes k)"
    using inj(1) by (simp add: sum.reindex)
  also have "\<dots> = (\<Sum>k\<in>?names. length (filter (\<lambda>n. stack_name n = k) (filter isWorkload nodes)))"
    by (simp add: stack_total_def conj_commute)
  also have "\<dots> = length (filter isWorkload nodes)"
  proof (rule length_by_key)
    show "stack_name ` set (filter isWorkload nodes) \<subseteq> ?names"
    proof clarsimp
      fix n assume n: "n \<in> set nodes" "isWorkload n"
      let ?k = "stack_name n"
      let ?s = "\<lparr>ss_name = ?k, ss_running = stack_running nodes ?k, ss_total = stack_total nodes ?k\<rparr>"
      have "stack_total nodes ?k \<noteq> 0" using n by (auto simp: stack_total_def filter_empty_conv)
      then have "?s \<in> set ?ss" by (simp only: listStacks_names(2) stack_summaries) simp
      then show "?k \<in> ?names" by force
    qed
  qed simp
  finally show ?thesis .
qed

text \<open>
  C18. The stack list names every stack once, in the host's order with the standalone group last;
  each entry counts the workloads of its stack and the running ones among them; and together the
  entries count every workload of the graph exactly once.
\<close>

theorem list_stacks_counts:
  assumes "collation lc"
  shows "let ss = listStacks lc nodes in
      distinct (map ss_name ss)
    \<and> sorted_wrt (\<lambda>a b. ss_name a \<noteq> STANDALONE_STACK
        \<and> (ss_name b = STANDALONE_STACK \<or> lc (ss_name a) (ss_name b) \<le> 0)) ss
    \<and> (\<forall>s\<in>set ss. ss_total s = stack_total nodes (ss_name s) \<and> ss_running s = stack_running nodes (ss_name s))
    \<and> sum_list (map ss_total ss) = length (filter isWorkload nodes)"
proof -
  have "ss_total s = stack_total nodes (ss_name s) \<and> ss_running s = stack_running nodes (ss_name s)"
    if "s \<in> set (listStacks lc nodes)" for s
    using that by (metis StackSummary.select_convs(2,3) listStacks_names(2) stack_summaries)
  then show ?thesis
    using listStacks_names(1) listStacks_sorted [OF assms] listStacks_sum by (simp add: Let_def)
qed

theorem list_stacks_counts_witness:
  "sum_list (map ss_total (listStacks code_unit_compare (gs_nodes shop_graph))) = 2"
  using list_stacks_counts [OF code_units.collation_axioms, of "gs_nodes shop_graph"]
  by (simp add: Let_def shop_graph_def shop_node_def bare_node_def isWorkload_def)


section \<open>Task names\<close>

lemma split_last_dot_None: "split_last_dot s = None \<longleftrightarrow> CHR ''.'' \<notin> set s"
  by (induction s) (auto split: option.splits)

lemma split_last_dot_app: "CHR ''.'' \<notin> set b \<Longrightarrow> split_last_dot (a @ CHR ''.'' # b) = Some (a, b)"
  by (induction a) (simp_all add: split_last_dot_None [THEN iffD2])

lemma split_last_dot_SomeD:
  "split_last_dot s = Some (a, b) \<Longrightarrow> s = a @ CHR ''.'' # b \<and> CHR ''.'' \<notin> set b"
  by (induction s arbitrary: a) (auto simp: split_last_dot_None split: option.splits if_splits)

lemma digit_no_dot: "list_all is_digit s \<Longrightarrow> CHR ''.'' \<notin> set s"
  by (auto simp: list_all_iff is_digit_def)

lemma swarm_id_no_dot: "swarm_id s \<Longrightarrow> CHR ''.'' \<notin> set s"
  by (auto simp: swarm_id_def list_all_iff is_base36_def is_digit_def)

lemma segment_no_dot: "task_segment s \<Longrightarrow> CHR ''.'' \<notin> set s"
  by (auto simp: task_segment_def dest: digit_no_dot swarm_id_no_dot)

lemma string_of_nat_segment: "task_segment (string_of_nat n)"
  using string_of_nat_digits by (auto simp: task_segment_def list_all_iff)

lemma serviceOfTask_iff:
  "serviceOfTask name = Some svc \<longleftrightarrow> svc \<noteq> [] \<and> list_all line_char svc
    \<and> (\<exists>slot tid. name = svc @ ''.'' @ slot @ ''.'' @ tid \<and> task_segment slot \<and> swarm_id tid)"
proof
  assume "serviceOfTask name = Some svc"
  then obtain front tid slot where
    "split_last_dot name = Some (front, tid)" "split_last_dot front = Some (svc, slot)"
    "swarm_id tid" "task_segment slot" "svc \<noteq> []" "list_all line_char svc"
    by (auto simp: serviceOfTask_def split: option.splits if_splits)
  then show "svc \<noteq> [] \<and> list_all line_char svc
    \<and> (\<exists>slot tid. name = svc @ ''.'' @ slot @ ''.'' @ tid \<and> task_segment slot \<and> swarm_id tid)"
    by (intro conjI, simp, simp) (rule exI [of _ slot], rule exI [of _ tid], auto dest!: split_last_dot_SomeD)
next
  assume "svc \<noteq> [] \<and> list_all line_char svc
    \<and> (\<exists>slot tid. name = svc @ ''.'' @ slot @ ''.'' @ tid \<and> task_segment slot \<and> swarm_id tid)"
  then obtain slot tid where s: "name = (svc @ CHR ''.'' # slot) @ CHR ''.'' # tid"
    "task_segment slot" "swarm_id tid" "svc \<noteq> []" "list_all line_char svc" by auto
  have "split_last_dot name = Some (svc @ CHR ''.'' # slot, tid)"
    unfolding s(1) by (rule split_last_dot_app) (rule swarm_id_no_dot [OF s(3)])
  moreover have "split_last_dot (svc @ CHR ''.'' # slot) = Some (svc, slot)"
    by (rule split_last_dot_app) (rule segment_no_dot [OF s(2)])
  ultimately show "serviceOfTask name = Some svc"
    using s by (simp add: serviceOfTask_def)
qed

text \<open>
  C19. The service of a task container name is found again from the name Docker gives the task,
  whether the task has a slot or runs once per node; and a name is read as a task of a service
  exactly when it is the service followed by a slot or node id and a swarm id.
\<close>

theorem task_name_roundtrip:
  assumes "svc \<noteq> []" "list_all line_char svc" "swarm_id (ti_id task)"
    and "nullish (ti_slot task) 0 \<noteq> 0 \<or> swarm_id (nullish (ti_nodeId task) [])"
  shows "serviceOfTask (taskContainerName svc task) = Some svc
    \<and> (serviceOfTask name = Some s \<longleftrightarrow> s \<noteq> [] \<and> list_all line_char s
        \<and> (\<exists>slot tid. name = s @ ''.'' @ slot @ ''.'' @ tid \<and> task_segment slot \<and> swarm_id tid))"
proof -
  have "\<exists>slot. taskContainerName svc task = svc @ ''.'' @ slot @ ''.'' @ ti_id task \<and> task_segment slot"
  proof (cases "nullish (ti_slot task) 0 \<noteq> 0")
    case True
    then obtain k where "ti_slot task = Some k" "k \<noteq> 0" by (cases "ti_slot task") auto
    then show ?thesis
      by (intro exI [of _ "string_of_nat k"]) (simp add: taskContainerName_def string_of_nat_segment)
  next
    case False
    then have "swarm_id (nullish (ti_nodeId task) [])" using assms(4) by simp
    then show ?thesis using False
      by (intro exI [of _ "nullish (ti_nodeId task) []"])
        (auto simp: taskContainerName_def task_segment_def split: option.splits)
  qed
  then show ?thesis using assms(1-3) by (simp only: serviceOfTask_iff) blast
qed

definition sample_task :: TaskInfo where
  "sample_task = \<lparr>ti_id = ''abcdefghijklmnopqrstuvwxy'', ti_slot = Some 12, ti_nodeId = None, ti_nodeHostname = None,
     ti_state = None, ti_desiredState = None, ti_containerId = None, ti_error = None, ti_timestamp = None\<rparr>"

theorem task_name_roundtrip_witness:
  "serviceOfTask (taskContainerName ''shop.api'' sample_task) = Some ''shop.api''"
proof -
  have "swarm_id (ti_id sample_task)" by code_simp
  then show ?thesis
    using task_name_roundtrip [of "''shop.api''" sample_task]
    by (simp add: sample_task_def line_char_def)
qed

section \<open>Stats counted once\<close>

lemma map_set_fresh: "k \<notin> set (map_keys m) \<Longrightarrow> map_set m k v = m @ [(k, v)]"
  unfolding map_set_def map_keys_def by (induction m) auto

lemma copy_entries_eq:
  "distinct (map_keys m) \<Longrightarrow> copy_entries keep m = filter (\<lambda>(k, _). keep k) m"
proof (induction m rule: rev_induct)
  case (snoc p m)
  obtain k v where p: "p = (k, v)" by fastforce
  have "k \<notin> set (map_keys (filter (\<lambda>(k, _). keep k) m))"
    using snoc.prems p by (auto simp: map_keys_def)
  then show ?case
    using snoc p by (simp add: copy_entries_def map_set_fresh map_keys_def)
qed (simp add: copy_entries_def)

lemma map_get_filter: "map_get (filter (\<lambda>(k, _). P k) m) k = (if P k then map_get m k else None)"
  unfolding map_get_def by (induction m) auto

text \<open>
  The series of the live stats by what they measure: a swarm node, a task of a service (by slot or
  node id), or a workload (a service's aggregate or a container), with the keys the server sends
  them under and the shape of Docker's names. No workload is named like a task.
\<close>

datatype series =
  NodeSeries string
| TaskSeries string string string
| WorkloadSeries string

fun series_key :: "series \<Rightarrow> string" where
  "series_key (NodeSeries host) = ''node:'' @ host"
| "series_key (TaskSeries svc slot tid) = svc @ ''.'' @ slot @ ''.'' @ tid"
| "series_key (WorkloadSeries name) = name"

definition task_shaped :: "string \<Rightarrow> bool" where
  "task_shaped name = (\<exists>svc slot tid. name = svc @ ''.'' @ slot @ ''.'' @ tid \<and> svc \<noteq> []
     \<and> list_all line_char svc \<and> task_segment slot \<and> swarm_id tid)"

definition workload_named :: "string \<Rightarrow> bool" where
  "workload_named name = (name \<noteq> [] \<and> CHR '':'' \<notin> set name \<and> list_all line_char name \<and> \<not> task_shaped name)"

fun series_named :: "series \<Rightarrow> bool" where
  "series_named (NodeSeries host) = True"
| "series_named (TaskSeries svc slot tid) = (workload_named svc \<and> task_segment slot \<and> swarm_id tid)"
| "series_named (WorkloadSeries name) = workload_named name"

text \<open>What is to be counted: every workload, and the tasks of a service that has no series itself.\<close>

fun is_counted :: "series set \<Rightarrow> series \<Rightarrow> bool" where
  "is_counted all (NodeSeries host) = False"
| "is_counted all (TaskSeries svc slot tid) = (WorkloadSeries svc \<notin> all)"
| "is_counted all (WorkloadSeries name) = True"

lemma not_task_shaped: "\<not> task_shaped name \<Longrightarrow> serviceOfTask name = None"
  using serviceOfTask_iff [of name "the (serviceOfTask name)"]
  by (cases "serviceOfTask name") (simp, force simp: task_shaped_def)

lemma task_series_service:
  "series_named (TaskSeries svc slot tid) \<Longrightarrow> serviceOfTask (series_key (TaskSeries svc slot tid)) = Some svc"
  by (auto simp: serviceOfTask_iff workload_named_def)

lemma node_prefix: "isNodeStatsKey k \<Longrightarrow> CHR '':'' \<in> set k"
  by (auto simp: isNodeStatsKey_def NODE_STATS_PREFIX_def starts_with_iff)

lemma swarm_id_no_colon: "swarm_id s \<Longrightarrow> CHR '':'' \<notin> set s"
proof -
  have "\<not> is_base36 (CHR '':'')" by code_simp
  then show "swarm_id s \<Longrightarrow> CHR '':'' \<notin> set s" by (auto simp: swarm_id_def list_all_iff)
qed

lemma segment_no_colon: "task_segment s \<Longrightarrow> CHR '':'' \<notin> set s"
  using swarm_id_no_colon [of s] by (auto simp: task_segment_def list_all_iff is_digit_def)

lemma series_key_colon:
  "series_named s \<Longrightarrow> CHR '':'' \<in> set (series_key s) \<longleftrightarrow> (\<exists>host. s = NodeSeries host)"
  by (cases s) (auto simp: workload_named_def segment_no_colon swarm_id_no_colon)

lemma key_of_workload:
  assumes "series_named s" "workload_named svc"
  shows "series_key s = svc \<longleftrightarrow> s = WorkloadSeries svc"
  using assms by (cases s) (auto simp: workload_named_def task_shaped_def)

lemma stat_has: "map_has m k \<longleftrightarrow> k \<in> set (map_keys m)"
  unfolding map_has_def map_get_def map_keys_def by (induction m) auto

text \<open>
  C20. Each usage is counted once, in its place: of any set of series, each under the key the server
  gives it (\<open>node:\<close> and the hostname, service.slot.id for a task, the name for a workload), the
  consumer stats are the series of the workloads and of the tasks whose service has no series of its
  own, unchanged and in order. Docker's naming is assumed: names have no colon or line break, slots
  and ids have swarm's form, keys are distinct, and no workload is named like a task.
\<close>

theorem consumer_stats_once:
  assumes "list_all (\<lambda>(s, v). series_named s) entries"
    and "distinct (map (\<lambda>(s, v). series_key s) entries)"
  shows "consumerStats (map (\<lambda>(s, v). (series_key s, v)) entries) =
    map (\<lambda>(s, v). (series_key s, v)) (filter (\<lambda>(s, v). is_counted (fst ` set entries) s) entries)"
proof -
  let ?m = "map (\<lambda>(s, v). (series_key s, v)) entries"
  have keys: "map_keys ?m = map (\<lambda>(s, v). series_key s) entries"
    by (induction entries) (auto simp: map_keys_def)
  have keep: "\<not> (isNodeStatsKey (series_key s) \<or> isCoveredTask (series_key s) (map_has ?m))
      \<longleftrightarrow> is_counted (fst ` set entries) s" if "(s, v) \<in> set entries" for s v
  proof -
    have named: "series_named t" if "(t, w) \<in> set entries" for t w
      using assms(1) that by (auto simp: list_all_iff)
    have has: "map_has ?m svc \<longleftrightarrow> WorkloadSeries svc \<in> fst ` set entries" if "workload_named svc" for svc
    proof -
      have "map_has ?m svc \<longleftrightarrow> (\<exists>(t, w) \<in> set entries. series_key t = svc)"
        unfolding stat_has keys by force
      also have "\<dots> \<longleftrightarrow> WorkloadSeries svc \<in> fst ` set entries"
        using key_of_workload [OF named that] by force
      finally show ?thesis .
    qed
    show ?thesis
    proof (cases s)
      case (NodeSeries host)
      then show ?thesis by (simp add: isNodeStatsKey_def NODE_STATS_PREFIX_def starts_with_def)
    next
      case (TaskSeries svc slot tid)
      with named [OF that] show ?thesis
        using has [of svc] task_series_service [of svc slot tid] node_prefix [of "series_key s"]
          series_key_colon [of s] by (auto simp: isCoveredTask_def)
    next
      case (WorkloadSeries name)
      with named [OF that] show ?thesis
        using not_task_shaped [of name] node_prefix [of name]
        by (auto simp: isCoveredTask_def workload_named_def)
    qed
  qed
  have "consumerStats ?m = filter (\<lambda>(k, _). \<not> (isNodeStatsKey k \<or> isCoveredTask k (map_has ?m))) ?m"
    unfolding consumerStats_def by (rule copy_entries_eq) (simp add: keys assms(2))
  also have "\<dots> = map (\<lambda>(s, v). (series_key s, v)) (filter (\<lambda>(s, v). is_counted (fst ` set entries) s) entries)"
    unfolding filter_map o_def by (intro arg_cong [where f = "map _"] filter_cong) (use keep in auto)
  finally show ?thesis .
qed

definition some_stats :: ContainerStatsData where
  "some_stats = \<lparr>cs_cpuPercent = 10, cs_cpuThrottled = 0, cs_memUsage = 1, cs_memLimit = 2, cs_netRx = 0,
     cs_netTx = 0, cs_netRxErrors = 0, cs_netTxErrors = 0, cs_blockRead = 0, cs_blockWrite = 0, cs_pids = 1\<rparr>"

definition sample_series :: "(series \<times> ContainerStatsData) list" where
  "sample_series = map (\<lambda>s. (s, some_stats)) [NodeSeries ''mgr'', WorkloadSeries ''api'',
     TaskSeries ''api'' ''1'' ''abcdefghijklmnopqrstuvwxy'', TaskSeries ''old'' ''2'' ''abcdefghijklmnopqrstuvwxy'']"

lemma short_not_task: "length name < 25 \<Longrightarrow> \<not> task_shaped name"
  by (auto simp: task_shaped_def swarm_id_def)

theorem consumer_stats_once_witness:
  "map_keys (consumerStats (map (\<lambda>(s, v). (series_key s, v)) sample_series))
    = [''api'', ''old.2.abcdefghijklmnopqrstuvwxy'']"
proof -
  have "swarm_id ''abcdefghijklmnopqrstuvwxy''" "task_segment ''1''" "task_segment ''2''" by code_simp+
  moreover have "workload_named ''api''" "workload_named ''old''"
    by (simp_all add: workload_named_def short_not_task line_char_def)
  ultimately show ?thesis
    by (subst consumer_stats_once) (auto simp: sample_series_def map_keys_def)
qed

end
