(* ===== verification/NodeTransformCorrect.thy ===== *)
theory NodeTransformCorrect
  imports NodeTransform StackCorrect
begin

text \<open>
  Correctness of the per-node view: tasks are placed as a partition of the active ones, the boxes
  and cards drawn show every active task and every container exactly once, and every node follows
  its parent.
\<close>

section \<open>Placement\<close>

lemma map_get_map_value: "map_get (map (\<lambda>(k, v). (k, f v)) m) k = map_option f (map_get m k)"
  unfolding map_get_def by (induction m) auto

lemma placed_group:
  "map_get (placeTasks lc ns) k =
     (let ts = filter (\<lambda>p. task_group ns (pt_task p) = k) (active_tasks ns)
      in if ts = [] then None else Some (js_sort (comparePlacedTasks lc) ts))"
proof -
  have "filter (\<lambda>p. task_group ns (pt_task p) = k) (active_tasks ns) = [] \<longleftrightarrow>
      k \<notin> (\<lambda>p. task_group ns (pt_task p)) ` set (active_tasks ns)"
    by (auto simp: filter_empty_conv)
  then show ?thesis
    by (auto simp: placeTasks_def map_get_map_value map_get_group_on)
qed

lemma mset_box_tasks:
  "mset (box_tasks (placeTasks lc ns) k) = mset (filter (\<lambda>p. task_group ns (pt_task p) = k) (active_tasks ns))"
  by (cases "filter (\<lambda>p. task_group ns (pt_task p) = k) (active_tasks ns) = []")
    (simp_all add: box_tasks_def placed_group Let_def del: mset_filter)

text \<open>Values of a map filled from the swarm nodes.\<close>

lemma by_hostname_id: "map_get (by_hostname ns) h = Some i \<Longrightarrow> i \<in> dg_id ` {n \<in> set ns. dg_type n = SwarmNode}"
  unfolding by_hostname_def
  by (induction ns rule: rev_induct) (auto simp: js.get_put split: if_splits)

lemma by_node_id_id: "map_get (by_node_id ns) h = Some i \<Longrightarrow> i \<in> dg_id ` {n \<in> set ns. dg_type n = SwarmNode}"
  unfolding by_node_id_def
  by (induction ns rule: rev_induct) (auto simp: js.get_put split: if_splits)

definition swarm_ids :: "DGNode list \<Rightarrow> string list" where
  "swarm_ids ns = map dg_id (filter (\<lambda>n. dg_type n = SwarmNode) ns)"

lemma group_range: "task_group ns t \<in> set (swarm_ids ns @ [UNASSIGNED_NODE_GROUP_ID])"
proof -
  have pick: "the (if c then m else None) \<in> set (swarm_ids ns)"
    if "truthy (if c then m else None)" "\<And>i. m = Some i \<Longrightarrow> i \<in> dg_id ` {n \<in> set ns. dg_type n = SwarmNode}"
    for c :: bool and m
    using that by (auto simp: truthy_iff swarm_ids_def split: if_splits)
  show ?thesis
    unfolding task_group_def Let_def using pick [OF _ by_hostname_id] pick [OF _ by_node_id_id]
    by simp
qed

lemma mset_by_key:
  assumes "distinct ks"
  shows "(\<forall>x\<in>set xs. g x \<in> set ks) \<Longrightarrow> (\<Sum>k\<leftarrow>ks. mset (filter (\<lambda>x. g x = k) xs)) = mset xs"
proof (induction xs)
  case (Cons x xs)
  have "(\<Sum>k\<leftarrow>ks. mset (filter (\<lambda>y. g y = k) (x # xs)))
      = (\<Sum>k\<leftarrow>ks. (if k = g x then {#x#} else {#}) + mset (filter (\<lambda>y. g y = k) xs))"
    by (rule arg_cong [of _ _ sum_list], rule map_cong) auto
  also have "\<dots> = (\<Sum>k\<leftarrow>ks. if k = g x then {#x#} else {#}) + mset xs"
    using Cons by (simp add: sum_list_addf)
  also have "(\<Sum>k\<leftarrow>ks. if k = g x then {#x#} else {#}) = {#x#}"
    using assms Cons.prems by (simp add: sum_list_distinct_conv_sum_set)
  finally show ?case by simp
qed simp

lemma placed_pairs: "(k, ts) \<in> set (placeTasks lc ns) \<longleftrightarrow> map_get (placeTasks lc ns) k = Some ts"
proof (rule map_get_in)
  have "map_keys (placeTasks lc ns) = map_keys (group_on (\<lambda>p. task_group ns (pt_task p)) id (active_tasks ns))"
    by (auto simp: placeTasks_def map_keys_def)
  then show "distinct (map_keys (placeTasks lc ns))" by simp
qed

text \<open>
  Where a task belongs, stated over the swarm nodes themselves: the last one of the list that has
  the task's hostname, else the last one that has its node id, else the unassigned group.
\<close>

definition last_swarm :: "(DGNode \<Rightarrow> bool) \<Rightarrow> DGNode list \<Rightarrow> string \<Rightarrow> bool" where
  "last_swarm P ns k = (\<exists>xs n ys. ns = xs @ n # ys \<and> dg_type n = SwarmNode \<and> P n \<and> dg_id n = k
     \<and> (\<forall>m\<in>set ys. dg_type m = SwarmNode \<longrightarrow> \<not> P m))"

definition has_host :: "TaskInfo \<Rightarrow> DGNode \<Rightarrow> bool" where
  "has_host t n = (dg_name n \<noteq> [] \<and> ti_nodeHostname t = Some (dg_name n))"

definition has_node_id :: "TaskInfo \<Rightarrow> DGNode \<Rightarrow> bool" where
  "has_node_id t n = (case dg_swarmNode n of None \<Rightarrow> False
     | Some s \<Rightarrow> sn_id s \<noteq> [] \<and> ti_nodeId t = Some (sn_id s))"

definition placed_on :: "DGNode list \<Rightarrow> TaskInfo \<Rightarrow> string \<Rightarrow> bool" where
  "placed_on ns t k =
     (if \<exists>n\<in>set ns. dg_type n = SwarmNode \<and> has_host t n then last_swarm (has_host t) ns k
      else if \<exists>n\<in>set ns. dg_type n = SwarmNode \<and> has_node_id t n then last_swarm (has_node_id t) ns k
      else k = UNASSIGNED_NODE_GROUP_ID)"

lemma last_swarm_Nil: "\<not> last_swarm P [] k"
  by (simp add: last_swarm_def)

lemma last_swarm_Cons:
  "last_swarm P (n # ns) k \<longleftrightarrow> last_swarm P ns k \<or> (dg_type n = SwarmNode \<and> P n \<and> dg_id n = k
     \<and> (\<forall>m\<in>set ns. dg_type m = SwarmNode \<longrightarrow> \<not> P m))"
  by (auto simp: last_swarm_def Cons_eq_append_conv)

lemma last_swarm_none: "\<not> (\<exists>n\<in>set ns. dg_type n = SwarmNode \<and> P n) \<Longrightarrow> \<not> last_swarm P ns k"
  by (auto simp: last_swarm_def)

lemma last_swarm_snoc:
  "last_swarm P (ns @ [n]) k = (if dg_type n = SwarmNode \<and> P n then dg_id n = k else last_swarm P ns k)"
  by (induction ns) (auto simp: last_swarm_Nil last_swarm_Cons)

lemma last_swarm_some: "\<exists>n\<in>set ns. dg_type n = SwarmNode \<and> P n \<Longrightarrow> \<exists>k. last_swarm P ns k"
proof (induction ns)
  case (Cons n ns)
  then show ?case by (cases "\<exists>m\<in>set ns. dg_type m = SwarmNode \<and> P m") (auto simp: last_swarm_Cons)
qed simp

lemma by_hostname_last: "map_get (by_hostname ns) h = Some k \<longleftrightarrow> last_swarm (\<lambda>n. dg_name n = h) ns k"
  unfolding by_hostname_def
  by (induction ns rule: rev_induct) (auto simp: js.get_put last_swarm_snoc, simp add: last_swarm_def map_get_def)

lemma by_node_id_last:
  "map_get (by_node_id ns) h = Some k \<longleftrightarrow> last_swarm (\<lambda>n. truthy (swarm_node_id n) \<and> the (swarm_node_id n) = h) ns k"
  unfolding by_node_id_def
  by (induction ns rule: rev_induct) (auto simp: js.get_put last_swarm_snoc, simp add: last_swarm_def map_get_def)

lemma last_swarm_id: "last_swarm P ns k \<Longrightarrow> k \<in> set (swarm_ids ns)"
  by (auto simp: last_swarm_def swarm_ids_def)

lemma task_group_placed:
  assumes "[] \<notin> set (swarm_ids ns)"
  shows "task_group ns t = k \<longleftrightarrow> placed_on ns t k"
proof -
  define a where "a = (if truthy (ti_nodeHostname t) then map_get (by_hostname ns) (the (ti_nodeHostname t)) else None)"
  define b where "b = (if truthy (ti_nodeId t) then map_get (by_node_id ns) (the (ti_nodeId t)) else None)"
  have a: "a = Some i \<longleftrightarrow> last_swarm (has_host t) ns i" for i
  proof (cases "truthy (ti_nodeHostname t)")
    case True
    then have "has_host t = (\<lambda>n. dg_name n = the (ti_nodeHostname t))"
      by (auto simp: has_host_def truthy_iff fun_eq_iff)
    then show ?thesis using True by (simp add: a_def by_hostname_last)
  qed (auto simp: a_def last_swarm_def has_host_def truthy_iff)
  have b: "b = Some i \<longleftrightarrow> last_swarm (has_node_id t) ns i" for i
  proof (cases "truthy (ti_nodeId t)")
    case True
    then have "has_node_id t = (\<lambda>n. truthy (swarm_node_id n) \<and> the (swarm_node_id n) = the (ti_nodeId t))"
      by (auto simp: has_node_id_def truthy_iff fun_eq_iff swarm_node_id_def split: option.split)
    then show ?thesis using True by (simp add: b_def by_node_id_last)
  qed (auto simp: b_def last_swarm_def has_node_id_def truthy_iff split: option.splits)
  have full: "truthy m" if "m = Some i" "last_swarm P ns i" for m i P
    using that assms last_swarm_id [OF that(2)] by (auto simp: truthy_iff)
  have group: "task_group ns t = (if truthy a then the a else if truthy b then the b else UNASSIGNED_NODE_GROUP_ID)"
    by (simp add: task_group_def a_def b_def Let_def)
  show ?thesis
  proof (cases a)
    case (Some i)
    then have "truthy a" "last_swarm (has_host t) ns i" using a full by blast+
    then show ?thesis using Some a [of k] last_swarm_none [of ns "has_host t" i]
      by (auto simp: group placed_on_def)
  next
    case None
    then have noa: "\<not> (\<exists>n\<in>set ns. dg_type n = SwarmNode \<and> has_host t n)"
      using a last_swarm_some [of ns "has_host t"] by force
    show ?thesis
    proof (cases b)
      case (Some i)
      then have "truthy b" "last_swarm (has_node_id t) ns i" using b full by blast+
      then show ?thesis using Some None b [of k] last_swarm_none [of ns "has_node_id t" i] noa
        by (auto simp: group placed_on_def)
    next
      case bNone: None
      then have "\<not> (\<exists>n\<in>set ns. dg_type n = SwarmNode \<and> has_node_id t n)"
        using b last_swarm_some [of ns "has_node_id t"] by force
      then show ?thesis using None bNone noa by (auto simp: group placed_on_def)
    qed
  qed
qed

text \<open>
  C21. Placing tasks partitions the active tasks of the services: the group of a swarm node holds,
  sorted, exactly the active tasks that carry its hostname, or carry its node id and no swarm node's
  hostname (should nodes share a hostname or id, the last one counts); the unassigned group holds
  those that name no swarm node; an empty group is absent; and no task is lost or placed twice.
  Swarm nodes are assumed to have nonempty graph ids.
\<close>

theorem place_tasks_partition:
  assumes "[] \<notin> set (swarm_ids ns)"
  shows "map_get (placeTasks lc ns) k =
     (let ts = filter (\<lambda>p. placed_on ns (pt_task p) k) (active_tasks ns)
      in if ts = [] then None else Some (js_sort (comparePlacedTasks lc) ts))
   \<and> mset (concat (map snd (placeTasks lc ns))) = mset (active_tasks ns)"
proof -
  let ?g = "\<lambda>p. task_group ns (pt_task p)"
  let ?m = "placeTasks lc ns"
  have keys: "map_keys ?m = map_keys (group_on ?g id (active_tasks ns))"
    by (auto simp: placeTasks_def map_keys_def)
  have "mset (concat (map snd ?m)) = (\<Sum>p\<leftarrow>?m. mset (snd p))" by (simp add: mset_concat comp_def)
  also have "\<dots> = (\<Sum>p\<leftarrow>?m. mset (filter (\<lambda>x. ?g x = fst p) (active_tasks ns)))"
  proof (rule arg_cong [of _ _ sum_list], rule map_cong [OF HOL.refl])
    fix p assume "p \<in> set ?m"
    then have "map_get ?m (fst p) = Some (snd p)" using placed_pairs by (metis prod.collapse)
    then show "mset (snd p) = mset (filter (\<lambda>x. ?g x = fst p) (active_tasks ns))"
      unfolding placed_group Let_def by (metis mset_js_sort option.distinct(1) option.inject)
  qed
  also have "\<dots> = (\<Sum>k\<leftarrow>map_keys ?m. mset (filter (\<lambda>x. ?g x = k) (active_tasks ns)))"
    by (simp add: map_keys_def comp_def)
  also have "\<dots> = mset (active_tasks ns)"
    by (rule mset_by_key) (simp_all add: keys set_keys_group_on)
  finally show ?thesis by (simp add: placed_group task_group_placed [OF assms])
qed

definition swarm_sample :: "DGNode list" where
  "swarm_sample = [bare_node ''swarmnode:m1'' SwarmNode ''m1'', bare_node ''swarmnode:w1'' SwarmNode ''w1'',
     (bare_node ''service:api'' Service ''api'')\<lparr>dg_service := Some \<lparr>si_mode = Some ''replicated'',
        si_replicas = \<lparr>rc_running = 2, rc_desired = 2, rc_completed = None\<rparr>,
        si_tasks = Some [sample_task\<lparr>ti_nodeHostname := Some ''w1''\<rparr>,
          sample_task\<lparr>ti_desiredState := Some ''shutdown''\<rparr>, sample_task\<lparr>ti_slot := Some 2\<rparr>],
        si_updateStatus = None\<rparr>\<rparr>,
     bare_node ''container:adhoc'' Container ''adhoc'']"

lemma swarm_sample_ids: "swarm_ids swarm_sample = [''swarmnode:m1'', ''swarmnode:w1'']"
  by (simp add: swarm_ids_def swarm_sample_def bare_node_def)

theorem place_tasks_partition_witness:
  "map_option (map pt_task) (map_get (placeTasks code_unit_compare swarm_sample) ''swarmnode:w1'')
    = Some [sample_task\<lparr>ti_nodeHostname := Some ''w1''\<rparr>]"
proof -
  have "filter (\<lambda>p. placed_on swarm_sample (pt_task p) ''swarmnode:w1'') (active_tasks swarm_sample)
      = [\<lparr>pt_service = swarm_sample ! 2, pt_task = sample_task\<lparr>ti_nodeHostname := Some ''w1''\<rparr>\<rparr>]"
    by (simp add: swarm_sample_def active_tasks_def service_tasks_def isActiveTask_def placed_on_def
        has_host_def has_node_id_def sample_task_def UNASSIGNED_NODE_GROUP_ID_def
        last_swarm_Cons last_swarm_Nil)
  then show ?thesis
    using place_tasks_partition [of swarm_sample code_unit_compare "''swarmnode:w1''"]
    by (simp add: swarm_sample_ids js_sort_def)
qed

section \<open>What the cards show\<close>

text \<open>The tasks a node shows, with the box the node is in and the service it stands for.\<close>

definition task_places :: "RFNode \<Rightarrow> (string option \<times> string \<times> TaskInfo) list" where
  "task_places n = (case rf_data n of
     CardData d \<Rightarrow> map (\<lambda>t. (rf_parentId n, nc_serviceId d, t)) (nc_tasks d) | _ \<Rightarrow> [])"

definition shown_tasks :: "RFNode list \<Rightarrow> (string option \<times> string \<times> TaskInfo) list" where
  "shown_tasks ns = concat (map task_places ns)"

text \<open>The container a node shows, with the box the node is in.\<close>

definition container_places :: "RFNode \<Rightarrow> (string option \<times> DGNode) list" where
  "container_places n = (case rf_data n of PlainData c \<Rightarrow> [(rf_parentId n, c)] | _ \<Rightarrow> [])"

definition shown_containers :: "RFNode list \<Rightarrow> (string option \<times> DGNode) list" where
  "shown_containers ns = concat (map container_places ns)"

abbreviation boxed_at :: "string \<Rightarrow> PlacedTask \<Rightarrow> string option \<times> string \<times> TaskInfo" where
  "boxed_at i p \<equiv> (Some i, dg_id (pt_service p), pt_task p)"

lemma card_parent:
  "rf_parentId (service_card i h b r) = Some i" "rf_parentId (container_card q c) = q"
  by (simp_all add: service_card_def container_card_def Let_def)

lemma grouped_tasks:
  "concat (map (\<lambda>r. map (\<lambda>t. (dg_id (fst r), t)) (snd r)) (foldl push_service out ts))
    = concat (map (\<lambda>r. map (\<lambda>t. (dg_id (fst r), t)) (snd r)) out)
      @ map (\<lambda>p. (dg_id (pt_service p), pt_task p)) ts"
proof (induction ts arbitrary: out)
  case (Cons t ts)
  have "concat (map (\<lambda>r. map (\<lambda>t. (dg_id (fst r), t)) (snd r)) (push_service out t))
      = concat (map (\<lambda>r. map (\<lambda>t. (dg_id (fst r), t)) (snd r)) out) @ [(dg_id (pt_service t), pt_task t)]"
    by (cases out rule: rev_cases) (simp_all add: push_service_def)
  then show ?case using Cons by simp
qed simp

lemma cards_shown:
  "concat (map (task_places \<circ> service_card i h b) (groupByService ts)) = map (boxed_at i) ts"
  "concat (map (container_places \<circ> service_card i h b) (groupByService ts)) = []"
  "concat (map (task_places \<circ> container_card p) cs) = []"
  "concat (map (container_places \<circ> container_card p) cs) = map (Pair p) cs"
proof -
  have c: "task_places (service_card i h b r) = map (\<lambda>t. (Some i, dg_id (fst r), t)) (snd r)"
    "container_places (service_card i h b r) = []" for r
    by (simp_all add: service_card_def task_places_def container_places_def Let_def)
  have d: "task_places (container_card p c) = []" "container_places (container_card p c) = [(p, c)]" for c
    by (simp_all add: container_card_def task_places_def container_places_def)
  have "concat (map (task_places \<circ> service_card i h b) (groupByService ts))
      = map (Pair (Some i)) (concat (map (\<lambda>r. map (\<lambda>t. (dg_id (fst r), t)) (snd r)) (groupByService ts)))"
    by (simp add: comp_def c map_concat)
  then show "concat (map (task_places \<circ> service_card i h b) (groupByService ts)) = map (boxed_at i) ts"
    using grouped_tasks [of "[]" ts] by (simp add: groupByService_def comp_def)
  show "concat (map (container_places \<circ> service_card i h b) (groupByService ts)) = []"
    by (simp add: comp_def c)
  show "concat (map (task_places \<circ> container_card p) cs) = []" by (simp add: comp_def d)
  show "concat (map (container_places \<circ> container_card p) cs) = map (Pair p) cs"
    by (induction cs) (simp_all add: d)
qed

lemma addBox_shown:
  fixes v :: GroupedView
  shows "shown_tasks (gv_cards (fst (addBox placed cs lg i d p r v)))
      = shown_tasks (gv_cards v) @ map (boxed_at i) (box_tasks placed i)"
    "shown_containers (gv_cards (fst (addBox placed cs lg i d p r v)))
      = shown_containers (gv_cards v) @ map (Pair (Some i)) (box_local cs lg i)"
    "gv_roles (fst (addBox placed cs lg i d p r v)) = gv_roles v"
  by (simp_all add: addBox_def Let_def shown_tasks_def shown_containers_def cards_shown)

lemma members_shown:
  fixes acc :: "GroupedView \<times> nat"
  shows "shown_tasks (gv_cards (fst (foldl (add_member placed cs lg r) acc ms)))
      = shown_tasks (gv_cards (fst acc)) @ concat (map (\<lambda>n. map (boxed_at (dg_id n)) (box_tasks placed (dg_id n))) ms)
    \<and> shown_containers (gv_cards (fst (foldl (add_member placed cs lg r) acc ms)))
      = shown_containers (gv_cards (fst acc)) @ concat (map (\<lambda>n. map (Pair (Some (dg_id n))) (box_local cs lg (dg_id n))) ms)"
  by (induction ms arbitrary: acc)
    (simp_all add: add_member_def Let_def case_prod_unfold addBox_shown)

lemma role_shown:
  fixes v :: GroupedView
  shows "shown_tasks (gv_cards (add_role placed cs lg sw v r)) = shown_tasks (gv_cards v)
      @ concat (map (\<lambda>n. map (boxed_at (dg_id n)) (box_tasks placed (dg_id n))) (filter (\<lambda>n. swarmRole n = r) sw))"
    "shown_containers (gv_cards (add_role placed cs lg sw v r)) = shown_containers (gv_cards v)
      @ concat (map (\<lambda>n. map (Pair (Some (dg_id n))) (box_local cs lg (dg_id n))) (filter (\<lambda>n. swarmRole n = r) sw))"
  using members_shown [of placed cs lg r "(v, 0)" "filter (\<lambda>n. swarmRole n = r) sw"]
  by (auto simp: add_role_def Let_def case_prod_unfold)


text \<open>Role groups, boxes and the control badge carry no task and no container.\<close>

definition bare_frame :: "GroupedView \<Rightarrow> bool" where
  "bare_frame v = (\<forall>n\<in>set (gv_roles v @ gv_boxes v). task_places n = [] \<and> container_places n = [])"

lemma shown_append:
  "shown_tasks (xs @ ys) = shown_tasks xs @ shown_tasks ys"
  "shown_containers (xs @ ys) = shown_containers xs @ shown_containers ys"
  by (simp_all add: shown_tasks_def shown_containers_def)

lemma frame_shown:
  "bare_frame v \<Longrightarrow> shown_tasks (gv_roles v @ gv_boxes v @ xs) = shown_tasks xs
    \<and> shown_containers (gv_roles v @ gv_boxes v @ xs) = shown_containers xs"
  by (auto simp: bare_frame_def shown_tasks_def shown_containers_def concat_eq_Nil_conv
      simp flip: append_assoc)

lemma frame_addBox: "bare_frame v \<Longrightarrow> bare_frame (fst (addBox placed cs lg i d p r v))"
  by (auto simp: bare_frame_def addBox_def Let_def task_places_def container_places_def)

lemma frame_members:
  "bare_frame (fst acc) \<Longrightarrow> bare_frame (fst (foldl (add_member placed cs lg r) acc ms))"
  by (induction ms arbitrary: acc) (simp_all add: add_member_def Let_def case_prod_unfold frame_addBox)

lemma frame_role: "bare_frame v \<Longrightarrow> bare_frame (add_role placed cs lg sw v r)"
  using frame_members [of "(v, 0)" placed cs lg r "filter (\<lambda>n. swarmRole n = r) sw"]
  by (auto simp: add_role_def Let_def case_prod_unfold bare_frame_def task_places_def container_places_def)

lemma frame_control: "bare_frame v \<Longrightarrow>
  bare_frame (v\<lparr>gv_roles := gv_roles v @ [rf_node i t p (ControlData d)]\<rparr>)"
  by (auto simp: bare_frame_def task_places_def container_places_def)

lemma mset_by_role:
  "mset (concat (map f (filter (\<lambda>n. swarmRole n = Manager) ns)))
    + mset (concat (map f (filter (\<lambda>n. swarmRole n = Worker) ns))) = mset (concat (map f ns))"
proof (induction ns)
  case (Cons n ns)
  have "swarmRole n = Manager \<or> swarmRole n = Worker" by (cases "swarmRole n") auto
  then show ?case using Cons by (auto simp: ac_simps)
qed simp

lemma mset_concat_map_sort: "mset (concat (map f (js_sort cmp xs))) = mset (concat (map f xs))"
  by (simp add: mset_concat comp_def flip: sum_mset_sum_list)

text \<open>The cards of all boxes, up to order: the tasks of every swarm node's group.\<close>

lemma view_shown:
  assumes v: "v = foldl (add_role placed cs lg (listSwarmNodes lc ns))
      \<lparr>gv_roles = [], gv_boxes = [], gv_cards = []\<rparr> [Manager, Worker]"
  shows "mset (shown_tasks (gv_cards v)) = mset (concat (map (\<lambda>i. map (boxed_at i) (box_tasks placed i)) (swarm_ids ns)))"
    "mset (shown_containers (gv_cards v)) = mset (concat (map (\<lambda>i. map (Pair (Some i)) (box_local cs lg i)) (swarm_ids ns)))"
    "bare_frame v"
proof -
  let ?sw = "listSwarmNodes lc ns"
  let ?f = "\<lambda>n. map (boxed_at (dg_id n)) (box_tasks placed (dg_id n))"
    and ?g = "\<lambda>n. map (Pair (Some (dg_id n))) (box_local cs lg (dg_id n))"
  have "mset (shown_tasks (gv_cards v)) = mset (concat (map ?f ?sw))"
    using mset_by_role [of ?f ?sw] by (simp add: v role_shown) (simp add: shown_tasks_def)
  then show "mset (shown_tasks (gv_cards v)) = mset (concat (map (\<lambda>i. map (boxed_at i) (box_tasks placed i)) (swarm_ids ns)))"
    by (simp add: listSwarmNodes_def mset_concat_map_sort swarm_ids_def comp_def)
  have "mset (shown_containers (gv_cards v)) = mset (concat (map ?g ?sw))"
    using mset_by_role [of ?g ?sw] by (simp add: v role_shown) (simp add: shown_containers_def)
  then show "mset (shown_containers (gv_cards v)) = mset (concat (map (\<lambda>i. map (Pair (Some i)) (box_local cs lg i)) (swarm_ids ns)))"
    by (simp add: listSwarmNodes_def mset_concat_map_sort swarm_ids_def comp_def)
  show "bare_frame v"
    by (simp add: v) (intro frame_role, simp add: bare_frame_def)
qed

lemma concat_local:
  assumes "distinct ks"
  shows "concat (map (\<lambda>i. map (Pair (Some i)) (box_local cs lg i)) ks)
    = (if lg \<in> Some ` set ks then map (Pair lg) cs else [])"
  using assms by (induction ks) (auto simp: box_local_def)

lemma local_group_id: "localGroupId ns loc = Some i \<Longrightarrow> i \<in> set (swarm_ids ns)"
  by (auto simp: localGroupId_def swarm_ids_def find_Some_iff split: if_splits)

text \<open>The box a container belongs in: a swarm node with the local daemon's node id, if there is one.\<close>

definition is_local :: "string option \<Rightarrow> DGNode \<Rightarrow> bool" where
  "is_local loc n = (dg_type n = SwarmNode \<and> (case dg_swarmNode n of None \<Rightarrow> False
     | Some s \<Rightarrow> sn_id s \<noteq> [] \<and> loc = Some (sn_id s)))"

definition container_box :: "DGNode list \<Rightarrow> string option \<Rightarrow> string option \<Rightarrow> bool" where
  "container_box ns loc b = (case b of
     Some i \<Rightarrow> \<exists>n\<in>set ns. is_local loc n \<and> dg_id n = i | None \<Rightarrow> \<not> (\<exists>n\<in>set ns. is_local loc n))"

lemma local_group_box: "container_box ns loc (localGroupId ns loc)"
proof (cases "truthy loc")
  case True
  then have "is_local loc n \<longleftrightarrow> dg_type n = SwarmNode \<and> swarm_node_id n = loc" for n
    by (auto simp: is_local_def swarm_node_id_def truthy_iff split: option.split)
  then show ?thesis using True
    by (auto simp: container_box_def localGroupId_def find_None_iff find_Some_iff split: option.split)
next
  case False
  then show ?thesis
    by (auto simp: container_box_def localGroupId_def is_local_def truthy_iff split: option.splits)
qed

lemma image_sum_list: "image_mset f (\<Sum>k\<leftarrow>ks. g k) = (\<Sum>k\<leftarrow>ks. image_mset f (g k))"
  by (induction ks) simp_all

lemma all_groups:
  assumes "distinct (swarm_ids ns)" "UNASSIGNED_NODE_GROUP_ID \<notin> set (swarm_ids ns)"
  shows "mset (concat (map (\<lambda>i. map (boxed_at i) (box_tasks (placeTasks lc ns) i))
      (swarm_ids ns @ [UNASSIGNED_NODE_GROUP_ID])))
    = mset (map (\<lambda>p. boxed_at (task_group ns (pt_task p)) p) (active_tasks ns))"
proof -
  let ?ks = "swarm_ids ns @ [UNASSIGNED_NODE_GROUP_ID]"
  let ?g = "\<lambda>p. task_group ns (pt_task p)"
  have all: "(\<Sum>k\<leftarrow>?ks. mset (filter (\<lambda>p. ?g p = k) (active_tasks ns))) = mset (active_tasks ns)"
    by (rule mset_by_key) (use assms group_range in auto)
  have box: "mset (map (boxed_at k) (box_tasks (placeTasks lc ns) k))
      = image_mset (\<lambda>p. boxed_at (?g p) p) (mset (filter (\<lambda>p. ?g p = k) (active_tasks ns)))" for k
    unfolding mset_map mset_box_tasks by (rule image_mset_cong) auto
  have "mset (concat (map (\<lambda>i. map (boxed_at i) (box_tasks (placeTasks lc ns) i)) ?ks))
      = (\<Sum>k\<leftarrow>?ks. mset (map (boxed_at k) (box_tasks (placeTasks lc ns) k)))"
    by (simp add: mset_concat comp_def del: mset_map)
  also have "\<dots> = (\<Sum>k\<leftarrow>?ks. image_mset (\<lambda>p. boxed_at (?g p) p) (mset (filter (\<lambda>p. ?g p = k) (active_tasks ns))))"
    unfolding box ..
  also have "\<dots> = image_mset (\<lambda>p. boxed_at (?g p) p) (\<Sum>k\<leftarrow>?ks. mset (filter (\<lambda>p. ?g p = k) (active_tasks ns)))"
    by (simp only: image_sum_list)
  finally show ?thesis unfolding all by (simp only: mset_map)
qed

lemma view_places:
  assumes "distinct (swarm_ids ns)" "set (swarm_ids ns) \<inter> {[], UNASSIGNED_NODE_GROUP_ID} = {}"
  shows "mset (shown_tasks (toNodeGroupedFlowNodes lc ns loc))
      = mset (map (\<lambda>p. boxed_at (task_group ns (pt_task p)) p) (active_tasks ns))
    \<and> mset (shown_containers (toNodeGroupedFlowNodes lc ns loc))
      = mset (map (Pair (localGroupId ns loc)) (view_containers ns))"
proof -
  define placed where "placed = placeTasks lc ns"
  define cs where "cs = view_containers ns"
  define lg where "lg = localGroupId ns loc"
  define v where "v = role_view lc ns loc"
  define v1 where "v1 = control_view lc ns loc"
  define v2 where "v2 = grouped_view lc ns loc"
  define un where "un = UNASSIGNED_NODE_GROUP_ID"
  define free where "free = (if truthy lg then [] else map (container_card None) cs)"
  note defs = placed_def cs_def lg_def un_def
  note v_shown = view_shown [OF v_def [unfolded role_view_def, folded defs]]
  have v1: "v1 = v \<or> (\<exists>d. v1 = v\<lparr>gv_roles := gv_roles v @ [rf_node CONTROL_SUMMARY_ID ''controlSummary'' None (ControlData d)]\<rparr>)"
    by (simp add: v1_def v_def control_view_def Let_def) blast
  have v2: "v2 = (if map_has placed un
    then fst (addBox placed cs lg un (bare_node un SwarmNode ''Unassigned'') None None v1) else v1)"
    by (simp only: v2_def v1_def grouped_view_def Let_def defs)
  have view: "toNodeGroupedFlowNodes lc ns loc = gv_roles v2 @ gv_boxes v2 @ gv_cards v2 @ free"
    by (simp only: toNodeGroupedFlowNodes_def Let_def v2_def free_def lg_def cs_def)
  have "bare_frame v1" using v1 v_shown(3) frame_control by metis
  then have frame: "bare_frame v2" by (simp add: v2 frame_addBox)
  have cards: "gv_cards v1 = gv_cards v" using v1 by auto
  have empty: "box_tasks placed un = []" if "\<not> map_has placed un"
    using that by (simp add: map_has_def box_tasks_def)
  have lg: "lg = None \<or> (\<exists>i\<in>set (swarm_ids ns). lg = Some i \<and> i \<noteq> [] \<and> i \<noteq> un)"
    using local_group_id [of ns loc] assms(2) by (cases lg) (auto simp: lg_def un_def)
  have "shown_tasks free = []" "shown_containers free = (if lg = None then map (Pair lg) cs else [])"
    using lg cards_shown(3,4) by (auto simp: free_def shown_tasks_def shown_containers_def)
  moreover have "shown_tasks (gv_cards v2) = shown_tasks (gv_cards v) @ map (boxed_at un) (box_tasks placed un)"
    using empty cards by (simp add: v2 addBox_shown)
  moreover have "shown_containers (gv_cards v2) = shown_containers (gv_cards v)"
    using lg cards by (auto simp: v2 addBox_shown box_local_def)
  ultimately have
    tasks: "shown_tasks (toNodeGroupedFlowNodes lc ns loc) = shown_tasks (gv_cards v) @ map (boxed_at un) (box_tasks placed un)"
    and containers: "shown_containers (toNodeGroupedFlowNodes lc ns loc)
      = shown_containers (gv_cards v) @ (if lg = None then map (Pair lg) cs else [])"
    using frame_shown [OF frame, of "gv_cards v2 @ free"] by (simp_all add: view shown_append)
  have "mset (shown_tasks (toNodeGroupedFlowNodes lc ns loc))
      = mset (map (\<lambda>p. boxed_at (task_group ns (pt_task p)) p) (active_tasks ns))"
    using all_groups [OF assms(1), of lc] assms(2) by (simp add: tasks v_shown(1) placed_def un_def)
  moreover have "mset (shown_containers (toNodeGroupedFlowNodes lc ns loc)) = mset (map (Pair lg) cs)"
    using lg by (auto simp: containers v_shown(2) concat_local [OF assms(1)])
  ultimately show ?thesis by (simp add: cs_def lg_def)
qed

text \<open>
  C22. The per-node view draws every active task of every service exactly once, on a card of its
  service, in the box of the swarm node with its hostname, else its node id, else in the Unassigned
  box; and every container that is not a ghost exactly once, in the box of the local daemon's node,
  or free-standing if no swarm node has that id. The swarm nodes are assumed to have distinct,
  nonempty graph ids other than the Unassigned box's.
\<close>

theorem node_view_shows_once:
  assumes "distinct (swarm_ids ns)" "set (swarm_ids ns) \<inter> {[], UNASSIGNED_NODE_GROUP_ID} = {}"
  shows "mset (map snd (shown_tasks (toNodeGroupedFlowNodes lc ns loc)))
      = mset (map (\<lambda>p. (dg_id (pt_service p), pt_task p)) (active_tasks ns))
    \<and> list_all (\<lambda>(b, s, t). \<exists>k. b = Some k \<and> placed_on ns t k) (shown_tasks (toNodeGroupedFlowNodes lc ns loc))
    \<and> mset (map snd (shown_containers (toNodeGroupedFlowNodes lc ns loc)))
      = mset (filter (\<lambda>n. dg_type n = Container \<and> dg_status n \<noteq> Some ''not_running'') ns)
    \<and> list_all (\<lambda>(b, c). container_box ns loc b) (shown_containers (toNodeGroupedFlowNodes lc ns loc))"
proof -
  let ?view = "toNodeGroupedFlowNodes lc ns loc"
  have tasks: "mset (shown_tasks ?view) = mset (map (\<lambda>p. boxed_at (task_group ns (pt_task p)) p) (active_tasks ns))"
    and containers: "mset (shown_containers ?view) = mset (map (Pair (localGroupId ns loc)) (view_containers ns))"
    using view_places [OF assms] by blast+
  have "mset (map snd (shown_tasks ?view)) = mset (map (\<lambda>p. (dg_id (pt_service p), pt_task p)) (active_tasks ns))"
    unfolding mset_map tasks by (simp add: image_mset.compositionality comp_def)
  moreover have "mset (map snd (shown_containers ?view))
      = mset (filter (\<lambda>n. dg_type n = Container \<and> dg_status n \<noteq> Some ''not_running'') ns)"
    unfolding mset_map containers by (simp add: image_mset.compositionality comp_def view_containers_def)
  moreover have "placed_on ns t (task_group ns t)" for t
    using task_group_placed [of ns t] assms(2) by auto
  then have "list_all (\<lambda>(b, s, t). \<exists>k. b = Some k \<and> placed_on ns t k) (shown_tasks ?view)"
    using mset_eq_setD [OF tasks] by (auto simp: list_all_iff)
  moreover have "list_all (\<lambda>(b, c). container_box ns loc b) (shown_containers ?view)"
    using mset_eq_setD [OF containers] local_group_box by (auto simp: list_all_iff)
  ultimately show ?thesis by blast
qed

theorem node_view_shows_once_witness:
  "length (shown_tasks (toNodeGroupedFlowNodes code_unit_compare swarm_sample None)) = 2
   \<and> list_all (\<lambda>(b, c). b = None) (shown_containers (toNodeGroupedFlowNodes code_unit_compare swarm_sample None))"
proof -
  have d: "distinct (swarm_ids swarm_sample)"
    "set (swarm_ids swarm_sample) \<inter> {[], UNASSIGNED_NODE_GROUP_ID} = {}"
    by (simp_all add: swarm_sample_ids UNASSIGNED_NODE_GROUP_ID_def)
  have n: "length (active_tasks swarm_sample) = 2" by code_simp
  have b: "container_box swarm_sample None b \<longleftrightarrow> b = None" for b
    by (auto simp: container_box_def is_local_def swarm_sample_def split: option.splits)
  note drawn = node_view_shows_once [OF d, of code_unit_compare None, unfolded b]
  have "length (shown_tasks (toNodeGroupedFlowNodes code_unit_compare swarm_sample None)) = 2"
    using mset_eq_length [OF drawn [THEN conjunct1]] n by simp
  then show ?thesis using drawn by blast
qed

section \<open>Parents first\<close>

fun parents_first :: "string list \<Rightarrow> RFNode list \<Rightarrow> bool" where
  "parents_first seen [] = True"
| "parents_first seen (n # ns) =
     ((case rf_parentId n of None \<Rightarrow> True | Some p \<Rightarrow> p \<in> set seen) \<and> parents_first (rf_id n # seen) ns)"

lemma parents_first_append:
  "parents_first seen (xs @ ys) = (parents_first seen xs \<and> parents_first (rev (map rf_id xs) @ seen) ys)"
  by (induction xs arbitrary: seen) auto

lemma parents_first_all:
  "(\<And>n p. n \<in> set ns \<Longrightarrow> rf_parentId n = Some p \<Longrightarrow> p \<in> set seen) \<Longrightarrow> parents_first seen ns"
proof (induction ns arbitrary: seen)
  case (Cons n ns)
  have "parents_first (rf_id n # seen) ns" by (rule Cons.IH) (use Cons.prems in auto)
  then show ?case using Cons.prems by (auto split: option.splits)
qed simp

text \<open>Boxes hang on role groups, cards on boxes.\<close>

definition well_parented :: "string set \<Rightarrow> GroupedView \<Rightarrow> bool" where
  "well_parented extra v = ((\<forall>n\<in>set (gv_roles v). rf_parentId n = None)
     \<and> (\<forall>n\<in>set (gv_boxes v). \<forall>p. rf_parentId n = Some p \<longrightarrow> p \<in> extra \<union> rf_id ` set (gv_roles v))
     \<and> (\<forall>n\<in>set (gv_cards v). \<forall>p. rf_parentId n = Some p \<longrightarrow> p \<in> rf_id ` set (gv_boxes v)))"

lemma parented_addBox:
  "well_parented extra v \<Longrightarrow> (\<And>q. p = Some q \<Longrightarrow> q \<in> extra \<union> rf_id ` set (gv_roles v)) \<Longrightarrow>
    well_parented extra (fst (addBox placed cs lg i d p r v))"
  by (auto simp: well_parented_def addBox_def Let_def card_parent)

lemma parented_members:
  "well_parented {roleGroupId r} (fst acc) \<Longrightarrow>
    well_parented {roleGroupId r} (fst (foldl (add_member placed cs lg r) acc ms))"
proof (induction ms arbitrary: acc)
  case (Cons n ms)
  have "well_parented {roleGroupId r} (fst (add_member placed cs lg r acc n))"
    using Cons.prems by (auto simp: add_member_def Let_def case_prod_unfold intro!: parented_addBox)
  then show ?case using Cons.IH by simp
qed simp

lemma parented_role:
  assumes "well_parented {} v"
  shows "well_parented {} (add_role placed cs lg sw v r)"
proof -
  have "well_parented {roleGroupId r} v" using assms by (auto simp: well_parented_def)
  then show ?thesis
    using assms parented_members [of r "(v, 0)" placed cs lg "filter (\<lambda>n. swarmRole n = r) sw"]
    by (auto simp: add_role_def Let_def case_prod_unfold well_parented_def)
qed

lemma parented_view:
  assumes "well_parented {} v" "\<And>n. n \<in> set free \<Longrightarrow> rf_parentId n = None"
  shows "parents_first [] (gv_roles v @ gv_boxes v @ gv_cards v @ free)"
  using assms unfolding parents_first_append well_parented_def
  by (intro conjI parents_first_all) auto

text \<open>
  Every node of the per-node view follows its parent in the list, as React Flow requires.
\<close>

lemma node_view_parents_first:
  "parents_first [] (toNodeGroupedFlowNodes lc ns loc)"
proof -
  have "well_parented {} (role_view lc ns loc)"
    unfolding role_view_def by simp (intro parented_role, simp add: well_parented_def)
  then have "well_parented {} (control_view lc ns loc)"
    by (auto simp: control_view_def Let_def well_parented_def)
  then have "well_parented {} (grouped_view lc ns loc)"
    by (auto simp: grouped_view_def Let_def intro: parented_addBox)
  then show ?thesis
    unfolding toNodeGroupedFlowNodes_def Let_def
    by (rule parented_view) (auto simp: card_parent split: if_splits)
qed

end
