(* ===== verification/NodeLayout.thy ===== *)
theory NodeLayout
  imports NodeTransform Constants
begin

text \<open>
  The grid layout of the per-node view, \<^verbatim>\<open>layout/nodeLayout.ts\<close>. The \<open>out\<close> map the closures of
  \<open>layoutNodeGroups\<close> share is passed explicitly; a style is the node's width and height.
\<close>

named_theorems layout_const \<open>dimensions of the per-node layout\<close>

definition NODE_BOX_WIDTH :: real where [layout_const]: "NODE_BOX_WIDTH = 300"
definition NODE_BOX_PADDING :: real where [layout_const]: "NODE_BOX_PADDING = 12"
definition CARD_GAP :: real where [layout_const]: "CARD_GAP = 8"
definition BOX_GAP_X :: real where [layout_const]: "BOX_GAP_X = 20"
definition BOX_GAP_Y :: real where [layout_const]: "BOX_GAP_Y = 20"
definition MAX_WORKERS_PER_ROW :: nat where [layout_const]: "MAX_WORKERS_PER_ROW = 5"
definition ROLE_GROUP_PADDING_TOP :: real where [layout_const]: "ROLE_GROUP_PADDING_TOP = 40"
definition ROLE_GROUP_PADDING_X :: real where [layout_const]: "ROLE_GROUP_PADDING_X = 18"
definition ROLE_GROUP_PADDING_BOTTOM :: real where [layout_const]: "ROLE_GROUP_PADDING_BOTTOM = 18"
definition SECTION_GAP :: real where [layout_const]: "SECTION_GAP = 40"
definition FREE_GAP :: real where [layout_const]: "FREE_GAP = 20"
definition FREE_NODE_WIDTH :: real where [layout_const]: "FREE_NODE_WIDTH = 220"
definition CARD_WIDTH :: real where
  [layout_const]: "CARD_WIDTH = NODE_BOX_WIDTH - 2 * NODE_BOX_PADDING"

section \<open>Heights\<close>

definition serviceCardHeight :: "nat \<Rightarrow> real" where
  "serviceCardHeight rows = SERVICE_CARD_HEADER_HEIGHT + real rows * SERVICE_CARD_ROW_HEIGHT + SERVICE_CARD_PADDING_BOTTOM"

definition itemHeight :: "RFNode \<Rightarrow> real" where
  "itemHeight n = (if rf_type n = ''nodeServiceCard'' then serviceCardHeight (length (card_tasks n))
     else CONTAINER_NODE_HEIGHT)"

type_synonym children = "(string, RFNode list) jsmap"
type_synonym placement = "(string, RFNode) jsmap"

definition childrenOf :: "RFNode list \<Rightarrow> children" where
  "childrenOf nodes = group_on (\<lambda>n. the (rf_parentId n)) id (filter (\<lambda>n. truthy (rf_parentId n)) nodes)"

definition boxHeight :: "children \<Rightarrow> RFNode \<Rightarrow> real" where
  "boxHeight ch box = (let items = members ch (rf_id box) in
     if items = [] then NODE_BOX_MIN_HEIGHT
     else let content = foldl (\<lambda>h c. h + itemHeight c) 0 items + CARD_GAP * (real (length items) - 1)
       in max NODE_BOX_MIN_HEIGHT (NODE_BOX_HEADER_HEIGHT + content + NODE_BOX_PADDING))"

section \<open>Placing\<close>

definition place :: "RFNode \<Rightarrow> real \<Rightarrow> real \<Rightarrow> (real \<times> real) option \<Rightarrow> real option \<Rightarrow> placement \<Rightarrow> placement" where
  "place n px py dims node_width out =
     (let n1 = n\<lparr>rf_pos := (px, py)\<rparr>;
          n2 = (case dims of None \<Rightarrow> n1 | Some (w, h) \<Rightarrow> n1\<lparr>rf_width := Some w, rf_height := Some h\<rparr>);
          n3 = (case node_width of None \<Rightarrow> n2 | Some w \<Rightarrow> n2\<lparr>rf_nodeWidth := Some w\<rparr>)
      in map_set out (rf_id n) n3)"

fun place_items :: "RFNode list \<Rightarrow> real \<Rightarrow> placement \<Rightarrow> placement" where
  "place_items [] y out = out"
| "place_items (item # items) y out = place_items items (y + (itemHeight item + CARD_GAP))
     (place item NODE_BOX_PADDING y None (Some CARD_WIDTH) out)"

definition placeBoxContent :: "children \<Rightarrow> RFNode \<Rightarrow> placement \<Rightarrow> placement" where
  "placeBoxContent ch box out = place_items (members ch (rf_id box)) NODE_BOX_HEADER_HEIGHT out"

fun place_row :: "children \<Rightarrow> real \<Rightarrow> real \<Rightarrow> real \<Rightarrow> nat \<Rightarrow> RFNode list \<Rightarrow> placement \<Rightarrow> placement" where
  "place_row ch x0 y rowH j [] out = out"
| "place_row ch x0 y rowH j (box # boxes) out = place_row ch x0 y rowH (Suc j) boxes
     (placeBoxContent ch box
       (place box (x0 + real j * (NODE_BOX_WIDTH + BOX_GAP_X)) y (Some (NODE_BOX_WIDTH, rowH)) None out))"

definition max_of :: "real list \<Rightarrow> real" where
  "max_of xs = foldl max (hd xs) (tl xs)"

definition row_width :: "nat \<Rightarrow> real" where
  "row_width k = real k * NODE_BOX_WIDTH + (real k - 1) * BOX_GAP_X"

text \<open>The loop over the rows: its state is the next \<open>y\<close>, the width so far and the placement.\<close>

function grid_loop :: "children \<Rightarrow> nat \<Rightarrow> real \<Rightarrow> RFNode list \<Rightarrow> real \<times> real \<times> placement \<Rightarrow> real \<times> real \<times> placement" where
  "grid_loop ch perRow x0 boxes (y, width, out) =
     (if boxes = [] \<or> perRow = 0 then (y, width, out)
      else let row = take perRow boxes; rowH = max_of (map (boxHeight ch) row)
        in grid_loop ch perRow x0 (drop perRow boxes)
             (y + (rowH + BOX_GAP_Y), max width (row_width (length row)), place_row ch x0 y rowH 0 row out))"
  by pat_completeness auto
termination by (relation "measure (\<lambda>(ch, k, x0, boxes, st). length boxes)") auto

declare grid_loop.simps [simp del]

definition placeGrid :: "children \<Rightarrow> RFNode list \<Rightarrow> nat \<Rightarrow> real \<Rightarrow> real \<Rightarrow> placement \<Rightarrow> (real \<times> real) \<times> placement" where
  "placeGrid ch boxes perRow x0 y0 out =
     (case grid_loop ch perRow x0 boxes (y0, 0, out) of (y, width, out') \<Rightarrow>
       ((width, if boxes \<noteq> [] then y - BOX_GAP_Y - y0 else 0), out'))"

section \<open>Role groups and free nodes\<close>

definition manager_group :: "RFNode \<Rightarrow> bool" where
  "manager_group g = (case rf_data g of RoleData d \<Rightarrow> rg_role d = Manager | _ \<Rightarrow> False)"

record SizedGroup =
  sg_group :: RFNode
  sg_manager :: bool
  sg_width :: real
  sg_height :: real

definition size_group :: "children \<Rightarrow> SizedGroup list \<times> placement \<Rightarrow> RFNode \<Rightarrow> SizedGroup list \<times> placement" where
  "size_group ch acc grp =
     (let boxes = members ch (rf_id grp);
          manager = manager_group grp;
          perRow = (if manager then max 1 (length boxes) else MAX_WORKERS_PER_ROW);
          grid = placeGrid ch boxes perRow ROLE_GROUP_PADDING_X ROLE_GROUP_PADDING_TOP (snd acc)
      in (fst acc @ [\<lparr>sg_group = grp, sg_manager = manager,
             sg_width = fst (fst grid) + 2 * ROLE_GROUP_PADDING_X,
             sg_height = ROLE_GROUP_PADDING_TOP + snd (fst grid) + ROLE_GROUP_PADDING_BOTTOM\<rparr>], snd grid))"

record LayoutCursor =
  lc_y :: real
  lc_managerBottom :: "real option"
  lc_out :: placement

definition place_group :: "real \<Rightarrow> LayoutCursor \<Rightarrow> SizedGroup \<Rightarrow> LayoutCursor" where
  "place_group maxRoleWidth c g =
     \<lparr>lc_y = lc_y c + (sg_height g + SECTION_GAP),
      lc_managerBottom = (if sg_manager g then Some (lc_y c + sg_height g) else lc_managerBottom c),
      lc_out = place (sg_group g) ((maxRoleWidth - sg_width g) / 2) (lc_y c) (Some (sg_width g, sg_height g)) None (lc_out c)\<rparr>"

definition place_summary :: "RFNode list \<Rightarrow> real \<Rightarrow> LayoutCursor \<Rightarrow> LayoutCursor" where
  "place_summary nodes maxRoleWidth c =
     (case (find (\<lambda>n. rf_type n = ''controlSummary'') nodes, lc_managerBottom c) of
        (Some s, Some bottom) \<Rightarrow>
          c\<lparr>lc_out := place s (maxRoleWidth / 2) (bottom + SECTION_GAP / 2) None None (lc_out c)\<rparr>
      | _ \<Rightarrow> c)"

definition place_free_boxes :: "children \<Rightarrow> RFNode list \<Rightarrow> LayoutCursor \<Rightarrow> LayoutCursor" where
  "place_free_boxes ch nodes c =
     (let freeBoxes = filter (\<lambda>n. rf_type n = ''nodeGroup'' \<and> \<not> truthy (rf_parentId n)) nodes in
      if freeBoxes = [] then c
      else let grid = placeGrid ch freeBoxes MAX_WORKERS_PER_ROW 0 (lc_y c) (lc_out c)
        in c\<lparr>lc_y := lc_y c + (snd (fst grid) + SECTION_GAP), lc_out := snd grid\<rparr>)"

definition place_free :: "real \<Rightarrow> real \<times> placement \<Rightarrow> RFNode \<Rightarrow> real \<times> placement" where
  "place_free y acc n =
     (if truthy (rf_parentId n) \<or> map_has (snd acc) (rf_id n) \<or> rf_type n = ''roleGroup'' \<or> rf_type n = ''nodeGroup''
      then acc
      else (fst acc + (FREE_NODE_WIDTH + FREE_GAP), place n (fst acc) y None (Some FREE_NODE_WIDTH) (snd acc)))"

definition layoutNodeGroups :: "RFNode list \<Rightarrow> RFNode list" where
  "layoutNodeGroups nodes =
     (let ch = childrenOf nodes;
          sized = foldl (size_group ch) ([], []) (filter (\<lambda>n. rf_type n = ''roleGroup'') nodes);
          maxRoleWidth = foldl max 0 (map sg_width (fst sized));
          c1 = foldl (place_group maxRoleWidth) \<lparr>lc_y = 0, lc_managerBottom = None, lc_out = snd sized\<rparr> (fst sized);
          c2 = place_summary nodes maxRoleWidth c1;
          c3 = place_free_boxes ch nodes c2;
          out = snd (foldl (place_free (lc_y c3)) (0, lc_out c3) nodes)
      in map (\<lambda>n. nullish (map_get out (rf_id n)) n) nodes)"

end
