(* ===== verification/NodeLayoutCorrect.thy ===== *)
theory NodeLayoutCorrect
  imports NodeLayout
begin

text \<open>
  Correctness of the grid layout: boxes of a grid never overlap and stay inside the grid's size,
  their cards are stacked inside them without overlap, and the layout keeps the nodes in order.
\<close>

section \<open>Placing\<close>

definition placed_node :: "RFNode \<Rightarrow> real \<Rightarrow> real \<Rightarrow> (real \<times> real) option \<Rightarrow> real option \<Rightarrow> RFNode" where
  "placed_node n px py dims node_width = (let n1 = n\<lparr>rf_pos := (px, py)\<rparr>;
      n2 = (case dims of None \<Rightarrow> n1 | Some (w, h) \<Rightarrow> n1\<lparr>rf_width := Some w, rf_height := Some h\<rparr>)
    in (case node_width of None \<Rightarrow> n2 | Some w \<Rightarrow> n2\<lparr>rf_nodeWidth := Some w\<rparr>))"

lemma get_place: "map_get (place n px py dims w out) i =
    (if i = rf_id n then Some (placed_node n px py dims w) else map_get out i)"
  by (simp add: place_def placed_node_def Let_def js.get_put)

lemma placed_id [simp]: "rf_id (placed_node n px py dims w) = rf_id n"
  by (simp add: placed_node_def Let_def split: option.splits)

lemma items_other: "i \<notin> rf_id ` set items \<Longrightarrow> map_get (place_items items y out) i = map_get out i"
  by (induction items arbitrary: y out) (auto simp: get_place)

definition owned :: "children \<Rightarrow> RFNode \<Rightarrow> string list" where
  "owned ch b = rf_id b # map rf_id (members ch (rf_id b))"

definition all_owned :: "children \<Rightarrow> RFNode list \<Rightarrow> string list" where
  "all_owned ch bs = concat (map (owned ch) bs)"

lemma all_owned_simps [simp]:
  "all_owned ch [] = []" "all_owned ch (b # bs) = owned ch b @ all_owned ch bs"
  "all_owned ch (xs @ ys) = all_owned ch xs @ all_owned ch ys"
  by (simp_all add: all_owned_def)

lemma own_id: "b \<in> set bs \<Longrightarrow> rf_id b \<in> set (all_owned ch bs)"
  by (auto simp: all_owned_def owned_def)

lemma content_other: "i \<notin> set (map rf_id (members ch (rf_id b))) \<Longrightarrow>
    map_get (placeBoxContent ch b out) i = map_get out i"
  by (simp add: placeBoxContent_def items_other)

lemma row_other: "i \<notin> set (all_owned ch bs) \<Longrightarrow> map_get (place_row ch x0 y h j bs out) i = map_get out i"
  by (induction bs arbitrary: j out) (auto simp: owned_def content_other get_place)

lemma grid_other: "i \<notin> set (all_owned ch bs) \<Longrightarrow>
    map_get (snd (snd (grid_loop ch k x0 bs (y, w, out)))) i = map_get out i"
proof (induction ch k x0 bs "(y, w, out)" arbitrary: y w out rule: grid_loop.induct)
  case (1 ch k x0 bs y w out)
  show ?case
  proof (cases "bs = [] \<or> k = 0")
    case False
    have "set (all_owned ch bs) = set (all_owned ch (take k bs)) \<union> set (all_owned ch (drop k bs))"
      by (metis all_owned_simps(3) append_take_drop_id set_append)
    then have "i \<notin> set (all_owned ch (take k bs))" "i \<notin> set (all_owned ch (drop k bs))"
      using 1(2) by auto
    then show ?thesis
      using False 1(1) [OF False HOL.refl HOL.refl] by (subst grid_loop.simps) (simp add: row_other Let_def)
  qed (simp add: grid_loop.simps)
qed

section \<open>Rectangles\<close>

definition box_of :: "placement \<Rightarrow> RFNode \<Rightarrow> RFNode" where
  "box_of out b = nullish (map_get out (rf_id b)) b"

definition left :: "RFNode \<Rightarrow> real" where "left n = fst (rf_pos n)"
definition top :: "RFNode \<Rightarrow> real" where "top n = snd (rf_pos n)"
definition right :: "RFNode \<Rightarrow> real" where "right n = left n + nullish (rf_width n) 0"
definition bottom :: "RFNode \<Rightarrow> real" where "bottom n = top n + nullish (rf_height n) 0"

definition apart :: "RFNode \<Rightarrow> RFNode \<Rightarrow> bool" where
  "apart a b = (right a + BOX_GAP_X \<le> left b \<or> bottom a + BOX_GAP_Y \<le> top b)"

lemma row_placed:
  "distinct (all_owned ch bs) \<Longrightarrow> m < length bs \<Longrightarrow>
    box_of (place_row ch x0 y h j bs out) (bs ! m)
      = placed_node (bs ! m) (x0 + real (j + m) * (NODE_BOX_WIDTH + BOX_GAP_X)) y (Some (NODE_BOX_WIDTH, h)) None"
proof (induction bs arbitrary: m j out)
  case (Cons b bs)
  show ?case
  proof (cases m)
    case 0
    have "rf_id b \<notin> set (all_owned ch bs)" "rf_id b \<notin> set (map rf_id (members ch (rf_id b)))"
      using Cons.prems(1) by (auto simp: owned_def)
    then show ?thesis using 0 by (simp add: box_of_def row_other content_other get_place)
  next
    case (Suc l)
    then show ?thesis using Cons.IH [of l "Suc j"] Cons.prems by (simp add: box_of_def)
  qed
qed simp

lemma foldl_max_ge: "a \<le> foldl max a xs \<and> (\<forall>x\<in>set xs. x \<le> foldl max (a::real) xs)"
  by (induction xs arbitrary: a) (auto, (metis max.bounded_iff)+)

lemma max_of_ge: "x \<in> set xs \<Longrightarrow> x \<le> max_of xs"
  using foldl_max_ge [of "hd xs" "tl xs"] by (cases xs) (auto simp: max_of_def)

lemma boxHeight_min: "NODE_BOX_MIN_HEIGHT \<le> boxHeight ch b"
  by (simp add: boxHeight_def Let_def)

lemma row_height: "bs \<noteq> [] \<Longrightarrow> 0 < max_of (map (boxHeight ch) bs)"
  using boxHeight_min [of ch "hd bs"] max_of_ge [of "boxHeight ch (hd bs)" "map (boxHeight ch) bs"]
  by (simp add: NODE_BOX_MIN_HEIGHT_def)

lemma sorted_wrt_nth: "(\<And>i j. i < j \<Longrightarrow> j < length xs \<Longrightarrow> P (xs ! i) (xs ! j)) \<Longrightarrow> sorted_wrt P xs"
  by (simp add: sorted_wrt_iff_nth_less)

text \<open>One row: side by side, with the gap, within the row's width.\<close>

lemma row_boxes:
  assumes d: "distinct (all_owned ch bs)" and out': "out' = place_row ch x0 y h 0 bs out"
  shows "sorted_wrt apart (map (box_of out') bs)"
    and "p \<in> set (map (box_of out') bs) \<Longrightarrow> top p = y \<and> bottom p = y + h \<and> x0 \<le> left p
      \<and> right p \<le> x0 + row_width (length bs)"
proof -
  note at = row_placed [OF d, of _ x0 y h 0 out, folded out']
  show "sorted_wrt apart (map (box_of out') bs)"
  proof (rule sorted_wrt_nth, unfold length_map)
    fix i j assume ij: "i < j" "j < length bs"
    then have "real i + 1 \<le> real j" by linarith
    then have "real i * 320 + 320 \<le> real j * 320" by (simp add: algebra_simps)
    then show "apart (map (box_of out') bs ! i) (map (box_of out') bs ! j)"
      using ij by (simp add: at apart_def right_def left_def placed_node_def layout_const)
  qed
  show "top p = y \<and> bottom p = y + h \<and> x0 \<le> left p \<and> right p \<le> x0 + row_width (length bs)"
    if p: "p \<in> set (map (box_of out') bs)"
  proof -
    obtain i where i: "i < length bs" "p = box_of out' (bs ! i)"
      using p by (auto simp: in_set_conv_nth)
    then have "real i + 1 \<le> real (length bs)" by linarith
    then have "(real i + 1) * 320 \<le> real (length bs) * 320" by simp
    then show ?thesis
      by (simp add: i at [OF i(1)] top_def bottom_def right_def left_def placed_node_def row_width_def
          layout_const algebra_simps)
  qed
qed


text \<open>The rows below one another.\<close>

definition in_rect :: "real \<Rightarrow> real \<Rightarrow> real \<Rightarrow> real \<Rightarrow> RFNode \<Rightarrow> bool" where
  "in_rect x0 y0 x1 y1 p = (x0 \<le> left p \<and> y0 \<le> top p \<and> right p \<le> x1 \<and> bottom p \<le> y1)"

lemma grid_boxes:
  "distinct (all_owned ch bs) \<Longrightarrow> 0 < k \<Longrightarrow> grid_loop ch k x0 bs (y, w, out) = (yf, wd, out') \<Longrightarrow>
    sorted_wrt apart (map (box_of out') bs) \<and> w \<le> wd \<and> y \<le> yf
    \<and> (\<forall>p\<in>set (map (box_of out') bs). in_rect x0 y (x0 + wd) (yf - BOX_GAP_Y) p)"
proof (induction ch k x0 bs "(y, w, out)" arbitrary: y w out rule: grid_loop.induct)
  case (1 ch k x0 bs y w out)
  show ?case
  proof (cases "bs = []")
    case True
    then show ?thesis using 1(4) by (simp add: grid_loop.simps)
  next
    case False
    let ?row = "take k bs" let ?rest = "drop k bs"
    let ?h = "max_of (map (boxHeight ch) ?row)"
    let ?out = "place_row ch x0 y ?h 0 ?row out"
    have split: "all_owned ch bs = all_owned ch ?row @ all_owned ch ?rest"
      by (metis all_owned_simps(3) append_take_drop_id)
    have d: "distinct (all_owned ch ?row)" "distinct (all_owned ch ?rest)"
      "set (all_owned ch ?row) \<inter> set (all_owned ch ?rest) = {}"
      using 1(2) unfolding split by auto
    have loop: "grid_loop ch k x0 ?rest (y + (?h + BOX_GAP_Y), max w (row_width (length ?row)), ?out) = (yf, wd, out')"
      using 1(3,4) False by (simp add: grid_loop.simps [of ch k x0 bs] Let_def)
    have IH: "sorted_wrt apart (map (box_of out') ?rest)" "max w (row_width (length ?row)) \<le> wd"
      "y + (?h + BOX_GAP_Y) \<le> yf"
      "\<And>p. p \<in> set (map (box_of out') ?rest) \<Longrightarrow> in_rect x0 (y + (?h + BOX_GAP_Y)) (x0 + wd) (yf - BOX_GAP_Y) p"
      using 1(1) [OF _ HOL.refl HOL.refl d(2) 1(3) loop] False 1(3) by blast+
    have same: "map (box_of out') ?row = map (box_of ?out) ?row"
    proof (rule map_cong [OF HOL.refl])
      fix b assume "b \<in> set ?row"
      then have "rf_id b \<notin> set (all_owned ch ?rest)" using d(3) own_id by blast
      then have "map_get (snd (snd (grid_loop ch k x0 ?rest
          (y + (?h + BOX_GAP_Y), max w (row_width (length ?row)), ?out)))) (rf_id b) = map_get ?out (rf_id b)"
        by (rule grid_other)
      then show "box_of out' b = box_of ?out b" by (simp only: loop snd_conv box_of_def)
    qed
    note row = row_boxes [where ?x0.0 = x0 and y = y and h = ?h and out = out, OF d(1) HOL.refl]
    have in_row: "top p = y \<and> bottom p = y + ?h \<and> x0 \<le> left p \<and> right p \<le> x0 + wd"
      if "p \<in> set (map (box_of out') ?row)" for p
      using row(2) [of p] that IH(2) by (auto simp: same simp del: length_take)
    have h: "0 < ?h" by (rule row_height) (use False 1(3) in simp)
    have "map (box_of out') bs = map (box_of out') ?row @ map (box_of out') ?rest"
      by (metis append_take_drop_id map_append)
    moreover have "apart p q" if "p \<in> set (map (box_of out') ?row)" "q \<in> set (map (box_of out') ?rest)" for p q
      using in_row [OF that(1)] IH(4) [OF that(2)] by (simp add: apart_def in_rect_def)
    then have "sorted_wrt apart (map (box_of out') ?row @ map (box_of out') ?rest)"
      using IH(1) row(1) unfolding sorted_wrt_append same by blast
    moreover have "in_rect x0 y (x0 + wd) (yf - BOX_GAP_Y) p"
      if "p \<in> set (map (box_of out') ?row @ map (box_of out') ?rest)" for p
      using that in_row [of p] IH(3) IH(4) [of p] h by (auto simp: in_rect_def layout_const)
    ultimately show ?thesis using IH(2,3) h by (simp add: layout_const)
  qed
qed

text \<open>
  C23. Laying out the boxes of a group in a grid of any number of columns: no two boxes overlap
  (those in a row are a gap apart, rows a gap below each other), and every box lies inside the
  rectangle the grid reports, from which the group's size is computed.
\<close>

theorem grid_boxes_apart:
  assumes "distinct (all_owned ch boxes)" "0 < perRow"
    and "placeGrid ch boxes perRow x0 y0 out = ((width, height), out')"
  shows "sorted_wrt apart (map (box_of out') boxes)
    \<and> (\<forall>p\<in>set (map (box_of out') boxes). in_rect x0 y0 (x0 + width) (y0 + height) p)"
proof -
  obtain yf wd o1 where loop: "grid_loop ch perRow x0 boxes (y0, 0, out) = (yf, wd, o1)"
    by (metis prod_cases3)
  then have "width = wd" "out' = o1" "boxes \<noteq> [] \<Longrightarrow> height = yf - BOX_GAP_Y - y0"
    using assms(3) by (auto simp: placeGrid_def)
  then show ?thesis using grid_boxes [OF assms(1,2) loop] by (cases "boxes = []") auto
qed

definition box_node :: "string \<Rightarrow> RFNode" where
  "box_node i = rf_node i ''nodeGroup'' (Some ''rolegroup:worker'') (PlainData (bare_node i SwarmNode i))"

definition sample_boxes :: "RFNode list" where
  "sample_boxes = map box_node [''a'', ''b'', ''c'']"

theorem grid_boxes_apart_witness:
  "apart (box_of (snd (placeGrid [] sample_boxes 2 18 40 [])) (box_node ''a''))
         (box_of (snd (placeGrid [] sample_boxes 2 18 40 [])) (box_node ''c''))"
proof -
  have d: "distinct (all_owned [] sample_boxes)"
    by (simp add: sample_boxes_def owned_def members_def box_node_def)
  obtain sz o1 where g: "placeGrid [] sample_boxes 2 18 40 [] = (sz, o1)" by fastforce
  have k: "0 < (2::nat)" by simp
  show ?thesis
    using grid_boxes_apart [OF d k, of 18 40 "[]" "fst sz" "snd sz" o1] g
    by (simp add: sample_boxes_def)
qed

section \<open>Cards in their box\<close>

fun item_top :: "real \<Rightarrow> RFNode list \<Rightarrow> nat \<Rightarrow> real" where
  "item_top y items 0 = y"
| "item_top y [] (Suc m) = y"
| "item_top y (c # items) (Suc m) = item_top (y + (itemHeight c + CARD_GAP)) items m"

lemma item_placed:
  "distinct (map rf_id items) \<Longrightarrow> m < length items \<Longrightarrow>
    box_of (place_items items y out) (items ! m)
      = placed_node (items ! m) NODE_BOX_PADDING (item_top y items m) None (Some CARD_WIDTH)"
proof (induction items arbitrary: y m out)
  case (Cons c items)
  show ?case
  proof (cases m)
    case 0
    then show ?thesis using Cons.prems by (simp add: box_of_def items_other get_place)
  next
    case (Suc l)
    then show ?thesis using Cons.IH [of l] Cons.prems by (simp add: box_of_def)
  qed
qed simp

lemma item_next:
  "Suc m < length items \<Longrightarrow> item_top y items (Suc m) = item_top y items m + itemHeight (items ! m) + CARD_GAP"
proof (induction items arbitrary: y m)
  case (Cons c items)
  show ?case
  proof (cases m)
    case 0
    then show ?thesis using Cons.prems by (cases items) auto
  next
    case (Suc l)
    then show ?thesis using Cons.IH [of l "y + (itemHeight c + CARD_GAP)"] Cons.prems
      by (simp only: item_top.simps nth_Cons_Suc length_Cons Suc_less_eq)
  qed
qed simp

lemma itemHeight_pos: "0 < itemHeight n"
  by (simp add: itemHeight_def serviceCardHeight_def js_const add_pos_nonneg)

lemma foldl_add_const: "foldl (\<lambda>h c. h + f c) (a::real) xs = a + (\<Sum>x\<leftarrow>xs. f x)"
  by (induction xs arbitrary: a) (auto simp: add.assoc)

lemma item_bottom:
  "m < length items \<Longrightarrow> item_top y items m + itemHeight (items ! m)
    \<le> y + (\<Sum>c\<leftarrow>items. itemHeight c) + CARD_GAP * (real (length items) - 1)"
proof (induction items arbitrary: y m)
  case (Cons c items)
  have pos: "0 \<le> (\<Sum>c\<leftarrow>items. itemHeight c)"
    by (rule sum_list_nonneg) (auto intro: less_imp_le itemHeight_pos)
  show ?case
  proof (cases m)
    case 0
    have "0 \<le> CARD_GAP * real (length items)" by (simp add: CARD_GAP_def)
    then show ?thesis using 0 pos by simp
  next
    case (Suc l)
    then show ?thesis using Cons.IH [of l "y + (itemHeight c + CARD_GAP)"] Cons.prems
      by (simp add: algebra_simps)
  qed
qed simp

lemma item_above: "m < length items \<Longrightarrow> y \<le> item_top y items m"
proof (induction items arbitrary: y m)
  case (Cons c items)
  have "0 < itemHeight c" by (rule itemHeight_pos)
  then show ?case using Cons.IH [of "m - 1" "y + (itemHeight c + CARD_GAP)"] Cons.prems
    by (cases m) (auto simp: CARD_GAP_def)
qed simp

text \<open>
  C24. The cards of a box are stacked inside it: each starts below the header, one gap below the
  card before it, is indented by the padding, and ends above the bottom padding of the box's
  natural height, whatever the number of cards and task rows.
\<close>

theorem cards_stacked_in_box:
  assumes "distinct (map rf_id (members ch (rf_id box)))" "m < length (members ch (rf_id box))"
  shows "let items = members ch (rf_id box);
        card = box_of (placeBoxContent ch box out) (items ! m)
    in NODE_BOX_HEADER_HEIGHT \<le> top card \<and> left card = NODE_BOX_PADDING
      \<and> rf_nodeWidth card = Some (NODE_BOX_WIDTH - 2 * NODE_BOX_PADDING)
      \<and> top card + itemHeight (items ! m) + NODE_BOX_PADDING \<le> boxHeight ch box
      \<and> (Suc m < length items \<longrightarrow> top (box_of (placeBoxContent ch box out) (items ! Suc m))
           = top card + itemHeight (items ! m) + CARD_GAP)"
proof -
  let ?items = "members ch (rf_id box)"
  have at: "box_of (placeBoxContent ch box out) (?items ! i)
      = placed_node (?items ! i) NODE_BOX_PADDING (item_top NODE_BOX_HEADER_HEIGHT ?items i) None (Some CARD_WIDTH)"
    if "i < length ?items" for i
    unfolding placeBoxContent_def by (rule item_placed [OF assms(1) that])
  have "?items \<noteq> []" using assms(2) by auto
  then have "NODE_BOX_HEADER_HEIGHT + ((\<Sum>c\<leftarrow>?items. itemHeight c) + CARD_GAP * (real (length ?items) - 1))
      + NODE_BOX_PADDING \<le> boxHeight ch box"
    by (simp add: boxHeight_def Let_def foldl_add_const)
  then show ?thesis
    using item_bottom [OF assms(2), of NODE_BOX_HEADER_HEIGHT] item_above [OF assms(2)]
      item_next [of m ?items NODE_BOX_HEADER_HEIGHT] at assms(2)
    by (simp add: Let_def top_def left_def placed_node_def CARD_WIDTH_def)
qed

definition two_cards :: children where
  "two_cards = [(''n1'', [container_card (Some ''n1'') (bare_node ''a'' Container ''a''),
     container_card (Some ''n1'') (bare_node ''b'' Container ''b'')])]"

theorem cards_stacked_in_box_witness:
  "top (box_of (placeBoxContent two_cards (box_node ''n1'') []) (container_card (Some ''n1'') (bare_node ''b'' Container ''b'')))
    = top (box_of (placeBoxContent two_cards (box_node ''n1'') []) (container_card (Some ''n1'') (bare_node ''a'' Container ''a''))) + 92"
proof -
  have m: "members two_cards (rf_id (box_node ''n1'')) = [container_card (Some ''n1'') (bare_node ''a'' Container ''a''),
     container_card (Some ''n1'') (bare_node ''b'' Container ''b'')]"
    by (simp add: two_cards_def members_def box_node_def map_get_def)
  have d: "distinct (map rf_id (members two_cards (rf_id (box_node ''n1''))))"
    by (simp add: m container_card_def)
  show ?thesis
    using cards_stacked_in_box [OF d, of 0 "[]"]
    by (simp add: Let_def m itemHeight_def container_card_def rf_node_def js_const layout_const)
qed

end
