(* ===== verification/Components.thy ===== *)
theory Components
  imports DataModel
begin

text \<open>
  Connected components of the top-level graph elements (\<^verbatim>\<open>layout/components.ts\<close>), each of
  which ELK lays out as a cluster of its own. The adjacency is a \<open>Map\<close> of \<open>Set\<close>s; the search
  is the code's explicit stack, popped and pushed at its end. The lemmas show that the search
  ends and that the components are the classes of the connectedness relation.
\<close>

type_synonym adjacency = "(string, string list) jsmap"

definition topOf :: "(string, string) jsmap \<Rightarrow> string list \<Rightarrow> string \<Rightarrow> string option" where
  "topOf childToParent topIds i =
     (case map_get childToParent i of
        Some p \<Rightarrow> Some p
      | None \<Rightarrow> if i \<in> set topIds then Some i else None)"

text \<open>\<open>adj.get(s)?.add(t)\<close>.\<close>

definition add_neighbor :: "adjacency \<Rightarrow> string \<Rightarrow> string \<Rightarrow> adjacency" where
  "add_neighbor adj s t =
     (case map_get adj s of None \<Rightarrow> adj | Some ns \<Rightarrow> map_set adj s (set_add t ns))"

definition add_link :: "(string, string) jsmap \<Rightarrow> string list \<Rightarrow> adjacency \<Rightarrow> RFEdge \<Rightarrow> adjacency" where
  "add_link childToParent topIds adj e =
     (case (topOf childToParent topIds (re_source e), topOf childToParent topIds (re_target e)) of
        (Some s, Some t) \<Rightarrow>
          if s \<noteq> [] \<and> t \<noteq> [] \<and> s \<noteq> t then add_neighbor (add_neighbor adj s t) t s else adj
      | _ \<Rightarrow> adj)"

definition component_links :: "string list \<Rightarrow> RFEdge list \<Rightarrow> (string, string) jsmap \<Rightarrow> adjacency" where
  "component_links topIds edges childToParent =
     foldl (add_link childToParent topIds) (foldl (\<lambda>m i. map_set m i []) [] topIds) edges"

definition neighbors :: "adjacency \<Rightarrow> string \<Rightarrow> string list" where
  "neighbors adj x = nullish (map_get adj x) []"

text \<open>
  The inner loop: pop an id; an unvisited one joins the component and pushes its unvisited
  neighbours. Every turn pops one id or visits one of the finitely many ids the stack and the
  adjacency hold.
\<close>

definition search_ids :: "adjacency \<Rightarrow> string list \<Rightarrow> string set" where
  "search_ids adj stack = set stack \<union> \<Union> (set ` snd ` set adj)"

lemma finite_search_ids [simp]: "finite (search_ids adj stack)"
  by (auto simp: search_ids_def)

lemma neighbors_ids: "y \<in> set (neighbors adj x) \<Longrightarrow> y \<in> search_ids adj st"
  by (cases "map_get adj x") (force simp: neighbors_def search_ids_def dest: map_get_SomeD)+

function component_loop ::
    "adjacency \<Rightarrow> string list \<Rightarrow> string list \<Rightarrow> string list \<Rightarrow> string list \<times> string list" where
  "component_loop adj visited component stack =
     (if stack = [] then (visited, component)
      else let cur = last stack; rest = butlast stack in
        if cur \<in> set visited then component_loop adj visited component rest
        else let visited' = set_add cur visited in
          component_loop adj visited' (component @ [cur])
            (rest @ filter (\<lambda>n. n \<notin> set visited') (neighbors adj cur)))"
  by pat_completeness auto
termination
proof (relation "measures [\<lambda>(adj, visited, component :: string list, stack). card (search_ids adj stack - set visited),
                           \<lambda>(adj :: adjacency, visited :: string list, component :: string list, stack). length stack]", goal_cases)
  case 1
  then show ?case by simp
next
  case (2 adj visited component stack x xa)
  have "search_ids adj (butlast stack) \<subseteq> search_ids adj stack"
    by (auto simp: search_ids_def dest: in_set_butlastD)
  then have "card (search_ids adj (butlast stack) - set visited) \<le>
      card (search_ids adj stack - set visited)"
    by (intro card_mono) auto
  then show ?case using 2 by (cases stack) auto
next
  case (3 adj visited component stack cur rest v')
  have "search_ids adj (rest @ filter (\<lambda>n. n \<notin> set v') (neighbors adj cur)) \<subseteq> search_ids adj stack"
    using 3 neighbors_ids [of _ adj cur stack]
    by (auto simp: search_ids_def dest: in_set_butlastD)
  moreover have "cur \<in> search_ids adj stack"
    using 3 by (auto simp: search_ids_def)
  ultimately have "search_ids adj (rest @ filter (\<lambda>n. n \<notin> set v') (neighbors adj cur)) - set v' \<subset>
      search_ids adj stack - set visited"
    using 3 by auto
  then show ?case by (simp add: psubset_card_mono)
qed

declare component_loop.simps [simp del]

text \<open>The outer loop over the top-level ids.\<close>

definition component_step ::
    "adjacency \<Rightarrow> string list \<times> string list list \<Rightarrow> string \<Rightarrow> string list \<times> string list list" where
  "component_step adj st i =
     (let (visited, comps) = st in
      if i \<in> set visited then (visited, comps)
      else let (visited', component) = component_loop adj visited [] [i] in
        (visited', comps @ [component]))"

definition findComponents :: "string list \<Rightarrow> RFEdge list \<Rightarrow> (string, string) jsmap \<Rightarrow> string list list" where
  "findComponents topIds edges childToParent =
     snd (foldl (component_step (component_links topIds edges childToParent)) ([], []) topIds)"

section \<open>Connectedness\<close>

text \<open>Two different top-level elements are linked when an edge joins them or their children.\<close>

definition linked :: "string list \<Rightarrow> RFEdge list \<Rightarrow> (string, string) jsmap \<Rightarrow> (string \<times> string) set" where
  "linked topIds edges childToParent =
     {(s, t). s \<noteq> [] \<and> t \<noteq> [] \<and> s \<noteq> t \<and> (\<exists>e\<in>set edges.
        {topOf childToParent topIds (re_source e), topOf childToParent topIds (re_target e)} =
        {Some s, Some t})}"

lemma linked_sym: "(s, t) \<in> linked topIds edges c2p \<Longrightarrow> (t, s) \<in> linked topIds edges c2p"
  by (auto simp: linked_def insert_commute)

lemma linked_Nil [simp]: "linked topIds [] c2p = {}"
  by (simp add: linked_def)

definition neighbor_rel :: "adjacency \<Rightarrow> (string \<times> string) set" where
  "neighbor_rel adj = {(x, y). y \<in> set (neighbors adj x)}"

lemma neighbors_add:
  "set (neighbors (add_neighbor adj s t) x) =
     (if x = s \<and> map_has adj s then insert t (set (neighbors adj x)) else set (neighbors adj x))"
  by (auto simp: neighbors_def add_neighbor_def map_has_def js.get_put split: option.splits)

lemma map_has_add_neighbor [simp]: "map_has (add_neighbor adj s t) k = map_has adj k"
  by (auto simp: add_neighbor_def map_has_def js.get_put split: option.splits)

lemma map_has_add_link [simp]: "map_has (add_link c2p topIds adj e) k = map_has adj k"
  by (auto simp: add_link_def split: option.splits)

text \<open>Every parent named by the map is a top-level element.\<close>

definition parents_on_top :: "string list \<Rightarrow> (string, string) jsmap \<Rightarrow> bool" where
  "parents_on_top topIds childToParent \<longleftrightarrow> (\<forall>(c, p)\<in>set childToParent. p \<in> set topIds)"

lemma topOf_in: "parents_on_top topIds c2p \<Longrightarrow> topOf c2p topIds i = Some s \<Longrightarrow> s \<in> set topIds"
  by (auto simp: topOf_def parents_on_top_def dest: map_get_SomeD split: option.splits if_splits)

lemma linked_in:
  "parents_on_top topIds c2p \<Longrightarrow> (s, t) \<in> linked topIds edges c2p \<Longrightarrow> s \<in> set topIds \<and> t \<in> set topIds"
  by (auto simp: linked_def doubleton_eq_iff dest: topOf_in)

lemma empty_links:
  "map_get (foldl (\<lambda>m i. map_set m i []) [] topIds) k = (if k \<in> set topIds then Some [] else None)"
  by (induction topIds rule: rev_induct) (auto simp: js.get_put)

lemma links_built:
  assumes "parents_on_top topIds c2p"
  shows "neighbor_rel (component_links topIds edges c2p) = linked topIds edges c2p \<and>
     (\<forall>k. map_has (component_links topIds edges c2p) k \<longleftrightarrow> k \<in> set topIds)"
proof (induction edges rule: rev_induct)
  case Nil
  then show ?case
    by (auto simp: component_links_def empty_links neighbor_rel_def neighbors_def map_has_def)
next
  case (snoc e es)
  have step: "component_links topIds (es @ [e]) c2p = add_link c2p topIds (component_links topIds es c2p) e"
    by (simp add: component_links_def)
  have new: "(x, y) \<in> linked topIds (es @ [e]) c2p \<longleftrightarrow> (x, y) \<in> linked topIds es c2p \<or>
      x \<noteq> [] \<and> y \<noteq> [] \<and> x \<noteq> y \<and>
        {topOf c2p topIds (re_source e), topOf c2p topIds (re_target e)} = {Some x, Some y}" for x y
    by (auto simp: linked_def)
  have "(x, y) \<in> neighbor_rel (component_links topIds (es @ [e]) c2p) \<longleftrightarrow>
      (x, y) \<in> linked topIds (es @ [e]) c2p" for x y
  proof -
    have ih: "(x, y) \<in> linked topIds es c2p \<longleftrightarrow>
        y \<in> set (neighbors (component_links topIds es c2p) x)" for x y
      using snoc.IH by (auto simp: neighbor_rel_def)
    show ?thesis
      unfolding new step ih using snoc.IH topOf_in [OF assms]
      by (auto simp: neighbor_rel_def add_link_def neighbors_add doubleton_eq_iff
          split: option.splits if_splits)
  qed
  then show ?case using snoc.IH by (auto simp: step)
qed

section \<open>The search\<close>

definition search_inv ::
    "adjacency \<Rightarrow> string list \<Rightarrow> string \<Rightarrow> string list \<Rightarrow> string list \<Rightarrow> string list \<Rightarrow> bool" where
  "search_inv adj v0 start v c st \<longleftrightarrow>
     set v = set v0 \<union> set c \<and> set c \<inter> set v0 = {} \<and> distinct c \<and> start \<in> set c \<union> set st - set v0 \<and>
     neighbor_rel adj `` set c \<subseteq> set v \<union> set st \<and>
     set c \<union> set st \<subseteq> (neighbor_rel adj)\<^sup>* `` {start}"

lemma component_loop_inv:
  "search_inv adj v0 start v c st \<Longrightarrow> component_loop adj v c st = (v', c') \<Longrightarrow>
     search_inv adj v0 start v' c' []"
proof (induction adj v c st rule: component_loop.induct)
  case (1 adj v c st)
  show ?case
  proof (cases "st = []")
    case True
    then show ?thesis using 1 by (simp add: component_loop.simps)
  next
    case False
    then have st: "set st = insert (last st) (set (butlast st))"
      by (metis append_butlast_last_id list.set(2) rotate1.simps(2) set_rotate1)
    show ?thesis
    proof (cases "last st \<in> set v")
      case True
      have "search_inv adj v0 start v c (butlast st)"
        using "1.prems"(1) True by (auto simp: search_inv_def st)
      then show ?thesis
        using "1.IH"(1) [OF False refl refl True] "1.prems"(2) False True
        by (simp add: component_loop.simps [of adj v c st] Let_def)
    next
      case new: False
      let ?v = "set_add (last st) v"
      let ?st = "butlast st @ filter (\<lambda>n. n \<notin> set ?v) (neighbors adj (last st))"
      have "x \<in> (neighbor_rel adj)\<^sup>* `` {start}" if "x \<in> set (neighbors adj (last st))" for x
        using "1.prems"(1) that
        by (auto simp: search_inv_def st neighbor_rel_def intro: rtrancl_into_rtrancl)
      then have "search_inv adj v0 start ?v (c @ [last st]) ?st"
        using "1.prems"(1) new by (auto simp: search_inv_def st neighbor_rel_def)
      then show ?thesis
        using "1.IH"(2) [OF False refl refl new refl] "1.prems"(2) False new
        by (simp add: component_loop.simps [of adj v c st] Let_def)
    qed
  qed
qed

text \<open>Started on an unvisited id, with the visited ones closed, it collects that id's class.\<close>

lemma component_loop_class:
  assumes sym: "sym (neighbor_rel adj)" and closed: "neighbor_rel adj `` set v0 \<subseteq> set v0"
    and new: "i \<notin> set v0" and run: "component_loop adj v0 [] [i] = (v, c)"
  shows "set c = (neighbor_rel adj)\<^sup>* `` {i}" "distinct c" "set c \<inter> set v0 = {}"
    "set v = set v0 \<union> set c" "neighbor_rel adj `` set v \<subseteq> set v"
proof -
  have "search_inv adj v0 i v0 [] [i]" using new
    by (auto simp: search_inv_def)
  then have fin: "search_inv adj v0 i v c []"
    using run by (rule component_loop_inv)
  then show "distinct c" and disj: "set c \<inter> set v0 = {}" and v: "set v = set v0 \<union> set c"
    by (auto simp: search_inv_def)
  have c: "neighbor_rel adj `` set c \<subseteq> set c"
  proof
    fix y assume "y \<in> neighbor_rel adj `` set c"
    then obtain x where x: "x \<in> set c" "(x, y) \<in> neighbor_rel adj" by auto
    then have "y \<in> set v" using fin unfolding search_inv_def by auto
    moreover have "y \<notin> set v0" using x sym closed disj by (auto simp: sym_def)
    ultimately show "y \<in> set c" using v by auto
  qed
  then show "neighbor_rel adj `` set v \<subseteq> set v"
    using closed v by auto
  have "i \<in> set c" and sub: "set c \<subseteq> (neighbor_rel adj)\<^sup>* `` {i}"
    using fin by (auto simp: search_inv_def)
  then have "(neighbor_rel adj)\<^sup>* `` {i} \<subseteq> (neighbor_rel adj)\<^sup>* `` set c" by auto
  also have "\<dots> = set c" using c by (rule Image_closed_trancl)
  finally show "set c = (neighbor_rel adj)\<^sup>* `` {i}" using sub by auto
qed

definition partition_inv :: "adjacency \<Rightarrow> string list \<times> string list list \<Rightarrow> bool" where
  "partition_inv adj st \<longleftrightarrow> (case st of (v, cs) \<Rightarrow>
     set v = set (concat cs) \<and> distinct (concat cs) \<and> neighbor_rel adj `` set v \<subseteq> set v \<and>
     (\<forall>c\<in>set cs. \<exists>r. set c = (neighbor_rel adj)\<^sup>* `` {r}))"

lemma component_step_inv:
  assumes "sym (neighbor_rel adj)" "partition_inv adj st"
  shows "partition_inv adj (component_step adj st i) \<and>
    set (fst (component_step adj st i)) = set (fst st) \<union> (neighbor_rel adj)\<^sup>* `` {i}"
proof -
  obtain v cs where st: "st = (v, cs)" by force
  show ?thesis
  proof (cases "i \<in> set v")
    case True
    have "(neighbor_rel adj)\<^sup>* `` {i} \<subseteq> (neighbor_rel adj)\<^sup>* `` set v" using True by auto
    also have "\<dots> = set v"
      using assms(2) unfolding st partition_inv_def prod.case by (intro Image_closed_trancl) blast
    finally show ?thesis using True assms(2) st by (auto simp: component_step_def)
  next
    case False
    obtain v' c where run: "component_loop adj v [] [i] = (v', c)" by force
    have closed: "neighbor_rel adj `` set v \<subseteq> set v"
      using assms(2) st unfolding partition_inv_def prod.case by blast
    note cl = component_loop_class [OF assms(1) closed False run]
    show ?thesis
      using cl assms(2) False st run by (auto simp: component_step_def partition_inv_def)
  qed
qed

lemma components_inv:
  assumes "sym (neighbor_rel adj)"
  shows "partition_inv adj (foldl (component_step adj) ([], []) ids) \<and>
    set (fst (foldl (component_step adj) ([], []) ids)) = (neighbor_rel adj)\<^sup>* `` set ids"
proof (induction ids rule: rev_induct)
  case Nil
  then show ?case by (simp add: partition_inv_def)
next
  case (snoc i ids)
  then show ?case using component_step_inv [OF assms, of _ i] by auto
qed

lemma findComponents_classes:
  assumes "parents_on_top topIds c2p"
  shows "distinct (concat (findComponents topIds edges c2p))"
    "set (concat (findComponents topIds edges c2p)) = set topIds"
    "c \<in> set (findComponents topIds edges c2p) \<Longrightarrow> \<exists>r. set c = (linked topIds edges c2p)\<^sup>* `` {r}"
proof -
  let ?adj = "component_links topIds edges c2p"
  let ?L = "linked topIds edges c2p"
  have rel: "neighbor_rel ?adj = ?L" using links_built [OF assms] by simp
  have sym: "sym ?L" by (auto simp: sym_def intro: linked_sym)
  note inv = components_inv [of ?adj topIds, unfolded rel, OF sym]
  obtain v cs where fin: "foldl (component_step ?adj) ([], []) topIds = (v, cs)" by force
  then have cs: "findComponents topIds edges c2p = cs"
    by (simp add: findComponents_def)
  have "?L\<^sup>* `` set topIds = set topIds"
    using linked_in [OF assms] by (intro Image_closed_trancl) auto
  then show "set (concat (findComponents topIds edges c2p)) = set topIds"
    using inv fin rel cs by (auto simp: partition_inv_def)
  show "distinct (concat (findComponents topIds edges c2p))"
    using inv fin rel cs by (auto simp: partition_inv_def)
  show "c \<in> set (findComponents topIds edges c2p) \<Longrightarrow> \<exists>r. set c = ?L\<^sup>* `` {r}"
    using inv fin rel cs by (auto simp: partition_inv_def)
qed

lemma same_component_iff:
  assumes "parents_on_top topIds c2p" and x: "x \<in> set topIds"
  shows "(\<exists>c\<in>set (findComponents topIds edges c2p). x \<in> set c \<and> y \<in> set c) \<longleftrightarrow>
    (x, y) \<in> (linked topIds edges c2p)\<^sup>*"
proof -
  let ?cs = "findComponents topIds edges c2p"
  let ?L = "linked topIds edges c2p"
  note classes = findComponents_classes [OF assms(1), where edges = edges]
  have conv: "(a, b) \<in> ?L\<^sup>* \<Longrightarrow> (b, a) \<in> ?L\<^sup>*" for a b
    using sym_rtrancl [of ?L] by (auto simp: sym_def intro: linked_sym)
  show ?thesis
  proof
    assume "\<exists>c\<in>set ?cs. x \<in> set c \<and> y \<in> set c"
    then obtain c where c: "c \<in> set ?cs" "x \<in> set c" "y \<in> set c" by blast
    then obtain r where "set c = ?L\<^sup>* `` {r}" using classes(3) by blast
    then have "(r, x) \<in> ?L\<^sup>*" "(r, y) \<in> ?L\<^sup>*" using c by auto
    then show "(x, y) \<in> ?L\<^sup>*" using conv by (meson rtrancl_trans)
  next
    assume xy: "(x, y) \<in> ?L\<^sup>*"
    have "x \<in> \<Union> (set ` set ?cs)" using x classes(2) by simp
    then obtain c where c: "c \<in> set ?cs" "x \<in> set c" by blast
    then obtain r where r: "set c = ?L\<^sup>* `` {r}" using classes(3) by blast
    have "(r, y) \<in> ?L\<^sup>*" using c(2) xy unfolding r by auto
    then show "\<exists>c\<in>set ?cs. x \<in> set c \<and> y \<in> set c" using r c by auto
  qed
qed

text \<open>
  C25. The components partition the top-level elements: each is in exactly one, and two are
  in the same component exactly when a chain of edges between them or their children
  connects them. The code assumes that every parent is a top-level element; the edges may
  repeat, cross groups or end outside the graph.
\<close>

theorem components_are_classes:
  assumes "parents_on_top topIds childToParent"
  shows "distinct (concat (findComponents topIds edges childToParent)) \<and>
    set (concat (findComponents topIds edges childToParent)) = set topIds \<and>
    (\<forall>x y. x \<in> set topIds \<and> y \<in> set topIds \<longrightarrow>
      ((\<exists>c\<in>set (findComponents topIds edges childToParent). x \<in> set c \<and> y \<in> set c) \<longleftrightarrow>
       (x, y) \<in> (linked topIds edges childToParent)\<^sup>*))"
  using findComponents_classes [OF assms] same_component_iff [OF assms] by blast

definition sample_link :: "string \<Rightarrow> string \<Rightarrow> RFEdge" where
  "sample_link s t = \<lparr>re_id = s @ t, re_source = s, re_target = t, re_type = ''elk'',
     re_data = ElkData DependsOn False False 0 None, re_stroke = None, re_strokeWidth = None,
     re_opacity = None\<rparr>"

theorem components_are_classes_witness:
  "distinct (concat (findComponents [''g'', ''b'', ''z'']
      [sample_link ''a'' ''b'']
      [(''a'', ''g'')]))"
  using components_are_classes [of "[''g'', ''b'', ''z'']" "[(''a'', ''g'')]"]
  by (simp add: parents_on_top_def)

end
