(* ===== verification/Numbers.thy ===== *)
theory Numbers
  imports Prelude
begin

text \<open>
  Numbers as text: the notation a number has when a template string splices it
  (\<open>Number.prototype.toString\<close>), and \<open>Number(token)\<close> on the tokens of digits and dots the code
  cuts out of text. The mantissa is printed to at most 17 decimals, which is exact for every
  number the round trip below speaks of. The lemmas show that reading a printed decimal gives
  it back.
\<close>

section \<open>Printing\<close>

fun frac_digits :: "nat \<Rightarrow> real \<Rightarrow> string" where
  "frac_digits 0 f = []"
| "frac_digits (Suc k) f =
     (if f = 0 then [] else digit_char (nat \<lfloor>10 * f\<rfloor>) # frac_digits k (10 * f - of_int \<lfloor>10 * f\<rfloor>))"

text \<open>Plain notation of a nonnegative number.\<close>

definition plain_notation :: "real \<Rightarrow> string" where
  "plain_notation x =
     (let f = frac_digits 17 (x - of_int \<lfloor>x\<rfloor>)
      in string_of_nat (nat \<lfloor>x\<rfloor>) @ (if f = [] then [] else CHR ''.'' # f))"

text \<open>
  Exponents are written below \<open>10\<^sup>-\<^sup>6\<close> and from \<open>10\<^sup>2\<^sup>1\<close> on: the least shift that brings the
  mantissa to 1 or above (below 10). 330 shifts cover the range of a double.
\<close>

fun shift_up :: "nat \<Rightarrow> real \<Rightarrow> nat" where
  "shift_up 0 x = 0"
| "shift_up (Suc k) x = (if x \<ge> 1 then 0 else Suc (shift_up k (10 * x)))"

fun shift_down :: "nat \<Rightarrow> real \<Rightarrow> nat" where
  "shift_down 0 x = 0"
| "shift_down (Suc k) x = (if x < 10 then 0 else Suc (shift_down k (x / 10)))"

definition unsigned_notation :: "real \<Rightarrow> string" where
  "unsigned_notation x =
     (if x = 0 \<or> 1 / 10 ^ 6 \<le> x \<and> x < 10 ^ 21 then plain_notation x
      else if x < 1 then
        (let e = shift_up 330 x in plain_notation (x * 10 ^ e) @ ''e-'' @ string_of_nat e)
      else (let e = shift_down 330 x in plain_notation (x / 10 ^ e) @ ''e+'' @ string_of_nat e))"

definition js_number :: "real \<Rightarrow> string" where
  "js_number x = (if x < 0 then CHR ''-'' # unsigned_notation (- x) else unsigned_notation x)"

section \<open>Reading\<close>

text \<open>The characters of \<open>[\d.]\<close>.\<close>

definition number_char :: "char \<Rightarrow> bool" where
  "number_char c \<longleftrightarrow> is_digit c \<or> c = CHR ''.''"

text \<open>\<open>Number(s)\<close> of an unsigned token: \<open>None\<close> is NaN.\<close>

definition unsigned_value :: "string \<Rightarrow> real option" where
  "unsigned_value s =
     (let i = takeWhile is_digit s; r = dropWhile is_digit s
      in if r = [] then (if i = [] then None else Some (of_nat (nat_of_string i)))
         else let f = tl r in
           if list_all is_digit f \<and> \<not> (i = [] \<and> f = [])
           then Some (of_nat (nat_of_string i) + of_nat (nat_of_string f) / 10 ^ length f)
           else None)"

definition token_value :: "string \<Rightarrow> real option" where
  "token_value s =
     (case s of [] \<Rightarrow> None
      | c # cs \<Rightarrow> if c = CHR ''-'' then map_option uminus (unsigned_value cs) else unsigned_value s)"

section \<open>Reading what was printed\<close>

lemma nat_of_string_acc:
  "foldl (\<lambda>a c. a * 10 + (of_char c - 48)) a s = a * 10 ^ length s + nat_of_string s"
proof (induction s arbitrary: a)
  case (Cons c s)
  show ?case
    using Cons [of "a * 10 + (of_char c - 48)"] Cons [of "of_char c - 48"]
    by (simp add: nat_of_string_def algebra_simps)
qed (simp add: nat_of_string_def)

lemma nat_of_string_Cons:
  "nat_of_string (c # s) = (of_char c - 48) * 10 ^ length s + nat_of_string s"
  using nat_of_string_acc [of "of_char c - 48" s] by (simp add: nat_of_string_def)

lemma nat_of_string_Nil [simp]: "nat_of_string [] = 0"
  by (simp add: nat_of_string_def)

lemma floor_digit: "0 \<le> f \<Longrightarrow> f < 1 \<Longrightarrow> nat \<lfloor>10 * f\<rfloor> < 10" for f :: real
  by linarith

lemma frac_digits_digit: "0 \<le> f \<Longrightarrow> f < 1 \<Longrightarrow> c \<in> set (frac_digits k f) \<Longrightarrow> is_digit c"
proof (induction k arbitrary: f)
  case (Suc k)
  have g: "0 \<le> 10 * f - of_int \<lfloor>10 * f\<rfloor>" "10 * f - of_int \<lfloor>10 * f\<rfloor> < 1" by linarith+
  show ?case
    using Suc.prems Suc.IH [OF g] is_digit_digit_char [OF floor_digit [OF Suc.prems(1,2)]]
    by (auto split: if_splits)
qed simp

lemma frac_digits_value:
  assumes "0 \<le> f" "f < 1" "f * 10 ^ k \<in> \<int>"
  shows "of_nat (nat_of_string (frac_digits k f)) / 10 ^ length (frac_digits k f) = f"
  using assms
proof (induction k arbitrary: f)
  case 0
  then show ?case by (auto elim!: Ints_cases)
next
  case (Suc k)
  let ?g = "10 * f - of_int \<lfloor>10 * f\<rfloor>"
  show ?case
  proof (cases "f = 0")
    case False
    have g: "0 \<le> ?g" "?g < 1" by linarith+
    have "?g * 10 ^ k = f * 10 ^ Suc k - of_int (\<lfloor>10 * f\<rfloor> * 10 ^ k)" by (simp add: algebra_simps)
    then have "?g * 10 ^ k \<in> \<int>" using Suc.prems(3) by (metis Ints_diff Ints_of_int)
    note ih = Suc.IH [OF g this]
    have d: "nat_of_string (digit_char (nat \<lfloor>10 * f\<rfloor>) # s) =
        nat \<lfloor>10 * f\<rfloor> * 10 ^ length s + nat_of_string s" for s
      using of_char_digit_char [OF floor_digit [OF Suc.prems(1,2)]] by (simp add: nat_of_string_Cons)
    have nn: "real (nat \<lfloor>10 * f\<rfloor>) = of_int \<lfloor>10 * f\<rfloor>" using Suc.prems(1) by simp
    have "real (nat_of_string (frac_digits k ?g)) = ?g * 10 ^ length (frac_digits k ?g)"
      using ih by (simp add: field_simps)
    then show ?thesis
      using False nn by (simp only: frac_digits.simps d if_False of_nat_add of_nat_mult)
        (simp add: field_simps)
  qed simp
qed

text \<open>The decimals: at most 12 places, and no exponent in their notation.\<close>

definition decimal :: "real \<Rightarrow> bool" where
  "decimal x \<longleftrightarrow> x * 10 ^ 12 \<in> \<int> \<and> (x = 0 \<or> 1 / 10 ^ 6 \<le> \<bar>x\<bar> \<and> \<bar>x\<bar> < 10 ^ 21)"

lemma plain_chars: "0 \<le> x \<Longrightarrow> c \<in> set (plain_notation x) \<Longrightarrow> number_char c"
  using frac_digits_digit [of "x - of_int \<lfloor>x\<rfloor>" c 17] string_of_nat_digits [of c "nat \<lfloor>x\<rfloor>"]
  by (auto simp: plain_notation_def number_char_def Let_def split: if_splits) linarith+

lemma plain_nonempty [simp]: "plain_notation x \<noteq> []"
  by (simp add: plain_notation_def Let_def)

lemma takeWhile_digits:
  "list_all P xs \<Longrightarrow> ys = [] \<or> \<not> P (hd ys) \<Longrightarrow>
     takeWhile P (xs @ ys) = xs \<and> dropWhile P (xs @ ys) = ys"
  by (cases ys) (auto simp: list_all_iff takeWhile_append dropWhile_append)

lemma plain_value:
  assumes "0 \<le> x" "x * 10 ^ 12 \<in> \<int>"
  shows "unsigned_value (plain_notation x) = Some x"
proof -
  let ?f = "frac_digits 17 (x - of_int \<lfloor>x\<rfloor>)"
  have b: "0 \<le> x - of_int \<lfloor>x\<rfloor>" "x - of_int \<lfloor>x\<rfloor> < 1" by linarith+
  have "(x - of_int \<lfloor>x\<rfloor>) * 10 ^ 17 = (x * 10 ^ 12) * of_int (10 ^ 5) - of_int (\<lfloor>x\<rfloor> * 10 ^ 17)"
    by (simp add: algebra_simps)
  then have "(x - of_int \<lfloor>x\<rfloor>) * 10 ^ 17 \<in> \<int>"
    using assms(2) by (metis Ints_diff Ints_mult Ints_of_int)
  note val = frac_digits_value [OF b this]
  have digits: "list_all is_digit ?f" "list_all is_digit (string_of_nat (nat \<lfloor>x\<rfloor>))"
    using frac_digits_digit [OF b] string_of_nat_digits by (auto simp: list_all_iff)
  have dot: "\<not> is_digit CHR ''.''" by (simp add: is_digit_def)
  have fl: "real (nat \<lfloor>x\<rfloor>) = of_int \<lfloor>x\<rfloor>" using assms(1) by simp
  show ?thesis
  proof (cases "?f = []")
    case True
    then have "x = of_int \<lfloor>x\<rfloor>" using val by simp
    then show ?thesis
      using True fl takeWhile_digits [OF digits(2), of "[]"]
      by (simp add: plain_notation_def unsigned_value_def Let_def
          del: takeWhile_eq_all_conv dropWhile_eq_Nil_conv)
  next
    case False
    then show ?thesis
      using takeWhile_digits [OF digits(2), of "CHR ''.'' # ?f"] dot digits(1) val fl
      by (simp add: plain_notation_def unsigned_value_def Let_def)
  qed
qed

lemma decimal_minus [simp]: "decimal (- x) \<longleftrightarrow> decimal x"
  by (simp add: decimal_def)

lemma decimal_unsigned: "decimal x \<Longrightarrow> 0 \<le> x \<Longrightarrow> unsigned_notation x = plain_notation x"
  by (auto simp: decimal_def unsigned_notation_def)

lemma hd_plain: "0 \<le> x \<Longrightarrow> number_char (hd (plain_notation x))"
  by (meson hd_in_set plain_chars plain_nonempty)

lemma minus_no_number: "\<not> number_char CHR ''-''"
  by (simp add: number_char_def is_digit_def)

lemma number_roundtrip: "decimal x \<Longrightarrow> token_value (js_number x) = Some x"
proof -
  assume dec: "decimal x"
  then have pos: "unsigned_value (plain_notation \<bar>x\<bar>) = Some \<bar>x\<bar>"
    by (intro plain_value) (auto simp: decimal_def abs_if)
  show ?thesis
  proof (cases "x < 0")
    case True
    then show ?thesis
      using pos dec decimal_unsigned [of "- x"] by (simp add: js_number_def token_value_def)
  next
    case False
    then have "hd (plain_notation x) \<noteq> CHR ''-''"
      using hd_plain [of x] minus_no_number by auto
    then show ?thesis
      using pos dec decimal_unsigned [of x] False
      by (cases "plain_notation x") (simp_all add: js_number_def token_value_def)
  qed
qed

end
