(* ===== verification/PathUtils.thy ===== *)
theory PathUtils
  imports Numbers Constants
begin

text \<open>
  Polylines (\<^verbatim>\<open>utils/pathUtils.ts\<close>): reading them back from SVG path text, their length,
  bounding box, and the point and direction at a fraction of the way; and the viewport test of
  the canvas renderer (\<^verbatim>\<open>canvas/canvasEdgeUtils.ts\<close>). Coordinates are exact reals. The lemmas
  show that a moving dot stays on its edge at the right distance, that arrowheads have unit
  direction, and that no edge with a point on screen is culled.
\<close>

record Point =
  px :: real
  py :: real

record BBox =
  minX :: real
  minY :: real
  maxX :: real
  maxY :: real

section \<open>Reading SVG path text\<close>

text \<open>The matches of \<open>/-?[\d.]+/g\<close>, in order.\<close>

function number_tokens :: "string \<Rightarrow> string list" where
  "number_tokens [] = []"
| "number_tokens (c # cs) =
     (if number_char c
      then (c # takeWhile number_char cs) # number_tokens (dropWhile number_char cs)
      else if c = CHR ''-'' \<and> takeWhile number_char cs \<noteq> []
      then (c # takeWhile number_char cs) # number_tokens (dropWhile number_char cs)
      else number_tokens cs)"
  by pat_completeness auto
termination
  by (relation "measure length") (auto simp: le_imp_less_Suc length_dropWhile_le)

text \<open>Consecutive pairs; an odd last number is dropped.\<close>

fun pair_up :: "real list \<Rightarrow> Point list" where
  "pair_up (x # y # zs) = \<lparr>px = x, py = y\<rparr> # pair_up zs"
| "pair_up _ = []"

text \<open>\<open>None\<close> stands for a list with a NaN coordinate.\<close>

definition parsePolyline :: "string \<Rightarrow> Point list option" where
  "parsePolyline d = map_option pair_up (those (map token_value (number_tokens d)))"

section \<open>Length, ends and bounds\<close>

definition segment_length :: "Point \<Rightarrow> Point \<Rightarrow> real" where
  "segment_length p q = sqrt ((px q - px p) * (px q - px p) + (py q - py p) * (py q - py p))"

fun length_from :: "real \<Rightarrow> Point list \<Rightarrow> real" where
  "length_from len (p # q # ps) = length_from (len + segment_length p q) (q # ps)"
| "length_from len _ = len"

definition polylineLength :: "Point list \<Rightarrow> real" where
  "polylineLength ps = length_from 0 ps"

definition polylineEndpoints :: "Point list \<Rightarrow> (Point \<times> Point) option" where
  "polylineEndpoints ps = (if length ps < 2 then None else Some (hd ps, last ps))"

text \<open>
  The running minima and maxima start at the infinities, so that the first point always
  replaces them.
\<close>

definition widen :: "BBox \<Rightarrow> Point \<Rightarrow> BBox" where
  "widen b p = \<lparr>minX = (if px p < minX b then px p else minX b),
     minY = (if py p < minY b then py p else minY b),
     maxX = (if px p > maxX b then px p else maxX b),
     maxY = (if py p > maxY b then py p else maxY b)\<rparr>"

definition polylineBBox :: "Point list \<Rightarrow> BBox option" where
  "polylineBBox ps =
     (case ps of [] \<Rightarrow> None
      | p # qs \<Rightarrow> Some (foldl widen \<lparr>minX = px p, minY = py p, maxX = px p, maxY = py p\<rparr> qs))"

section \<open>Along the path\<close>

definition interpolate :: "Point \<Rightarrow> Point \<Rightarrow> real \<Rightarrow> Point" where
  "interpolate p q f = \<lparr>px = px p + (px q - px p) * f, py = py p + (py q - py p) * f\<rparr>"

text \<open>The loop, with the distance accumulated before the first point of the list.\<close>

fun point_from :: "real \<Rightarrow> real \<Rightarrow> Point list \<Rightarrow> Point option" where
  "point_from targetDist accumulated (p # q # ps) =
     (let segLen = segment_length p q in
      if accumulated + segLen \<ge> targetDist
      then Some (interpolate p q (if segLen > 0 then (targetDist - accumulated) / segLen else 0))
      else point_from targetDist (accumulated + segLen) (q # ps))"
| "point_from targetDist accumulated [p] = Some p"
| "point_from targetDist accumulated [] = None"

text \<open>\<open>None\<close> for the \<open>undefined\<close> of an empty polyline.\<close>

definition polylinePointAt :: "Point list \<Rightarrow> real \<Rightarrow> real \<Rightarrow> Point option" where
  "polylinePointAt ps t totalLen =
     (if length ps < 2 \<or> t \<le> 0 then js_index ps 0
      else if t \<ge> 1 then Some (last ps)
      else point_from (t * totalLen) 0 ps)"

definition unit_x :: Point where
  "unit_x = \<lparr>px = 1, py = 0\<rparr>"

definition polylineDirectionAt :: "Point list \<Rightarrow> real \<Rightarrow> real \<Rightarrow> Point" where
  "polylineDirectionAt ps t totalLen =
     (if length ps < 2 then unit_x
      else let eps = 1 / max totalLen 1 in
        (case (polylinePointAt ps (max 0 (t - eps)) totalLen, polylinePointAt ps (min 1 (t + eps)) totalLen) of
           (Some p0, Some p1) \<Rightarrow>
             let len = segment_length p0 p1 in
             if len > 0 then \<lparr>px = (px p1 - px p0) / len, py = (py p1 - py p0) / len\<rparr> else unit_x
         | _ \<Rightarrow> unit_x))"

section \<open>Viewport culling\<close>

record CanvasViewport =
  vp_tx :: real
  vp_ty :: real
  vp_zoom :: real

record ViewBounds =
  vb_left :: real
  vb_top :: real
  vb_right :: real
  vb_bottom :: real

definition CULL_PAD :: real where
  "CULL_PAD = 20"

definition viewBounds :: "CanvasViewport \<Rightarrow> real \<Rightarrow> real \<Rightarrow> ViewBounds" where
  "viewBounds vp w h = \<lparr>vb_left = - vp_tx vp / vp_zoom vp - CULL_PAD,
     vb_top = - vp_ty vp / vp_zoom vp - CULL_PAD,
     vb_right = (w - vp_tx vp) / vp_zoom vp + CULL_PAD,
     vb_bottom = (h - vp_ty vp) / vp_zoom vp + CULL_PAD\<rparr>"

definition isVisible :: "BBox \<Rightarrow> ViewBounds \<Rightarrow> bool" where
  "isVisible b vb \<longleftrightarrow> maxX b \<ge> vb_left vb \<and> minX b \<le> vb_right vb
     \<and> maxY b \<ge> vb_top vb \<and> minY b \<le> vb_bottom vb"

record EdgeStyle =
  es_stroke :: string
  es_lineWidth :: real
  es_opacity :: real

definition resolveEdgeStyle :: "string option \<Rightarrow> real option \<Rightarrow> real option \<Rightarrow> EdgeStyle" where
  "resolveEdgeStyle stroke strokeWidth opacity =
     \<lparr>es_stroke = nullish stroke DEFAULT_EDGE_STROKE,
      es_lineWidth = nullish strokeWidth DEFAULT_EDGE_STROKE_WIDTH,
      es_opacity = nullish opacity 1\<rparr>"

section \<open>Points on a path\<close>

text \<open>
  \<open>at_distance d ps p\<close>: \<open>p\<close> is on one of the segments, \<open>d\<close> along the path from its start.
\<close>

inductive at_distance :: "real \<Rightarrow> Point list \<Rightarrow> Point \<Rightarrow> bool" where
  here: "0 \<le> f \<Longrightarrow> f \<le> 1 \<Longrightarrow> at_distance (f * segment_length p q) (p # q # ps) (interpolate p q f)"
| there: "at_distance d (q # ps) r \<Longrightarrow> at_distance (segment_length p q + d) (p # q # ps) r"

lemma segment_nonneg [simp]: "0 \<le> segment_length p q"
  by (simp add: segment_length_def)

lemma length_from_add: "length_from a ps = a + length_from 0 ps"
proof (induction ps arbitrary: a rule: induct_list012)
  case (3 p q ps)
  show ?case
    using "3"(2) [of "a + segment_length p q"] "3"(2) [of "segment_length p q"] by simp
qed simp_all

lemma length_Cons: "length_from 0 (p # q # ps) = segment_length p q + length_from 0 (q # ps)"
  by (simp add: length_from_add [of "segment_length p q"])

lemma interpolate_ends [simp]: "interpolate p q 0 = p" "interpolate p q 1 = q"
  by (simp_all add: interpolate_def)

lemma at_start: "ps \<noteq> [] \<Longrightarrow> at_distance 0 (p # ps) p"
  using at_distance.here [of 0 p "hd ps" "tl ps"] by (cases ps) auto

lemma at_end: "ps \<noteq> [] \<Longrightarrow> at_distance (length_from 0 (p # ps)) (p # ps) (last ps)"
proof (induction ps arbitrary: p)
  case (Cons q qs)
  show ?case
  proof (cases "qs = []")
    case True
    then show ?thesis using at_distance.here [of 1 p q "[]"] by simp
  next
    case False
    then show ?thesis using at_distance.there [OF Cons.IH [of q], of p] by (simp add: length_Cons del: length_from.simps)
  qed
qed simp

lemma point_from_on_path:
  assumes "acc \<le> target" "target \<le> acc + length_from 0 ps" "length ps \<ge> 2"
  shows "\<exists>r. point_from target acc ps = Some r \<and> at_distance (target - acc) ps r"
  using assms
proof (induction target acc ps rule: point_from.induct)
  case (1 target acc p q ps)
  let ?s = "segment_length p q"
  show ?case
  proof (cases "acc + ?s \<ge> target")
    case True
    let ?f = "if ?s > 0 then (target - acc) / ?s else 0"
    have "0 \<le> ?f" "?f \<le> 1" "?f * ?s = target - acc"
      using True "1.prems"(1) segment_nonneg [of p q] by (auto simp: field_simps)
    then show ?thesis
      using at_distance.here [of ?f p q ps] True by (auto simp: Let_def)
  next
    case False
    show ?thesis
    proof (cases "ps = []")
      case True
      then show ?thesis using False "1.prems"(2) by (simp add: length_Cons del: length_from.simps(1))
    next
      case ne: False
      then have "\<exists>r. point_from target (acc + ?s) (q # ps) = Some r \<and>
          at_distance (target - (acc + ?s)) (q # ps) r"
        using False "1.prems" by (intro "1.IH") (auto simp: length_Cons Suc_le_eq simp del: length_from.simps)
      then obtain r where r: "point_from target (acc + ?s) (q # ps) = Some r"
        "at_distance (target - (acc + ?s)) (q # ps) r" by blast
      then show ?thesis
        using False at_distance.there [OF r(2), of p] by (auto simp: Let_def)
    qed
  qed
qed auto

text \<open>
  The dot of an animated edge: at fraction \<open>t\<close> of a polyline with its own length it is a
  point of the polyline, exactly \<open>t\<close> of the whole length from its start, for every \<open>t\<close> clamped
  to the unit interval.
\<close>

lemma point_at_fraction:
  assumes "length ps \<ge> 2"
  shows "\<exists>r. polylinePointAt ps t (polylineLength ps) = Some r \<and>
    at_distance (min 1 (max 0 t) * polylineLength ps) ps r"
proof -
  obtain p qs where p: "ps = p # qs" using assms by (cases ps) auto
  then have "qs \<noteq> []" using assms by auto
  note ps = p this
  have "0 \<le> length_from 0 xs" for xs
    by (induction xs rule: induct_list012) (simp_all add: length_Cons del: length_from.simps(1))
  then have "t * length_from 0 ps \<le> length_from 0 ps" "0 \<le> t * length_from 0 ps" if "0 < t" "t < 1"
    using that by (auto simp: mult_left_le_one_le)
  then show ?thesis
    using at_start [OF ps(2), of p] at_end [OF ps(2), of p] assms ps
      point_from_on_path [of 0 "t * length_from 0 ps" ps]
    by (auto simp: polylinePointAt_def polylineLength_def js_index_def min_def max_def)
qed

section \<open>Culling\<close>

definition in_box :: "BBox \<Rightarrow> Point \<Rightarrow> bool" where
  "in_box b p \<longleftrightarrow> minX b \<le> px p \<and> px p \<le> maxX b \<and> minY b \<le> py p \<and> py p \<le> maxY b"

lemma widen_all: "in_box b p \<Longrightarrow> in_box (foldl widen b qs) p \<and> (\<forall>q\<in>set qs. in_box (foldl widen b qs) q)"
proof (induction qs arbitrary: b p)
  case (Cons q qs)
  have "in_box (widen b q) p" "in_box (widen b q) q"
    using Cons.prems by (auto simp: in_box_def widen_def)
  then show ?case using Cons.IH by auto
qed simp

lemma bbox_points: "polylineBBox ps = Some b \<Longrightarrow> p \<in> set ps \<Longrightarrow> in_box b p"
proof (cases ps)
  case (Cons q qs)
  have "in_box \<lparr>minX = px q, minY = py q, maxX = px q, maxY = py q\<rparr> q" by (simp add: in_box_def)
  note widen_all [OF this, of qs]
  moreover assume "polylineBBox ps = Some b" "p \<in> set ps"
  ultimately show ?thesis using Cons by (auto simp: polylineBBox_def)
qed simp

lemma convex_between:
  "0 \<le> f \<Longrightarrow> f \<le> 1 \<Longrightarrow> a \<le> x \<Longrightarrow> a \<le> y \<Longrightarrow> a \<le> x + (y - x) * f" for a x y f :: real
  by (smt (verit) mult_left_le mult_nonneg_nonneg mult_nonpos_nonneg mult_minus_left)

lemma interpolate_in_box:
  assumes "in_box b p" "in_box b q" "0 \<le> f" "f \<le> 1"
  shows "in_box b (interpolate p q f)"
  using assms convex_between [of f "minX b" "px p" "px q"] convex_between [of f "minY b" "py p" "py q"]
    convex_between [of f "- maxX b" "- px p" "- px q"] convex_between [of f "- maxY b" "- py p" "- py q"]
  by (simp add: in_box_def interpolate_def algebra_simps)

lemma path_in_box: "at_distance d ps r \<Longrightarrow> \<forall>p\<in>set ps. in_box b p \<Longrightarrow> in_box b r"
  by (induction rule: at_distance.induct) (auto intro: interpolate_in_box)

definition on_screen :: "CanvasViewport \<Rightarrow> real \<Rightarrow> real \<Rightarrow> Point \<Rightarrow> bool" where
  "on_screen vp w h p \<longleftrightarrow>
     0 \<le> px p * vp_zoom vp + vp_tx vp \<and> px p * vp_zoom vp + vp_tx vp \<le> w \<and>
     0 \<le> py p * vp_zoom vp + vp_ty vp \<and> py p * vp_zoom vp + vp_ty vp \<le> h"

text \<open>
  Culling is safe: an edge any point of which (not only a bend) is on screen under the
  viewport's pan and zoom passes the visibility test of its bounding box.
\<close>

lemma visible_edge_not_culled:
  assumes "vp_zoom vp > 0" and "polylineBBox ps = Some b" and "at_distance d ps r"
    and "on_screen vp w h r"
  shows "isVisible b (viewBounds vp w h)"
proof -
  have "in_box b r" using path_in_box [OF assms(3)] bbox_points [OF assms(2)] by blast
  moreover have "- vp_tx vp / vp_zoom vp \<le> px r" "px r \<le> (w - vp_tx vp) / vp_zoom vp"
      "- vp_ty vp / vp_zoom vp \<le> py r" "py r \<le> (h - vp_ty vp) / vp_zoom vp"
    using assms(1,4) by (auto simp: on_screen_def field_simps)
  ultimately show ?thesis
    by (auto simp: isVisible_def viewBounds_def in_box_def CULL_PAD_def)
qed

text \<open>
  The arrowhead on an edge is drawn along a unit vector, for every polyline, fraction and
  length passed: no division by a zero length reaches the canvas.
\<close>

lemma direction_is_unit:
  "(px (polylineDirectionAt ps t len))\<^sup>2 + (py (polylineDirectionAt ps t len))\<^sup>2 = 1"
proof -
  have "((px q - px p) / segment_length p q)\<^sup>2 + ((py q - py p) / segment_length p q)\<^sup>2 = 1"
    if "0 < segment_length p q" for p q
  proof -
    have "(segment_length p q)\<^sup>2 = (px q - px p)\<^sup>2 + (py q - py p)\<^sup>2"
      by (simp add: segment_length_def power2_eq_square)
    moreover have "(segment_length p q)\<^sup>2 \<noteq> 0" using that by simp
    ultimately show ?thesis
      by (metis add_divide_distrib divide_self power_divide)
  qed
  then show ?thesis
    by (simp add: polylineDirectionAt_def Let_def unit_x_def split: option.split)
qed

end
