(* ===== verification/ElkGraph.thy ===== *)
theory ElkGraph
  imports Components PathUtils
begin

text \<open>
  The graph handed to ELK (\<^verbatim>\<open>layout/elkGraph.ts\<close>): nodes split into groups, children and
  free nodes; one ELK node per top-level element, with a group's own edges attached to it; each
  connected component wrapped for a layout of its own. ELK's node and edge types are those of
  its \<open>elkjs\<close> interface, with the fields the code writes or reads.
\<close>

section \<open>ELK's graph types\<close>

record ElkSection =
  sec_start :: Point
  sec_bends :: "Point list option"
  sec_end :: Point

record ElkEdge =
  ee_id :: string
  ee_sources :: "string list"
  ee_targets :: "string list"
  ee_sections :: "ElkSection list option"

datatype ElkNode = ElkNode
  (en_id: string) (en_x: "real option") (en_y: "real option")
  (en_width: "real option") (en_height: "real option")
  (en_options: "(string \<times> string) list")
  (en_children: "ElkNode list option") (en_edges: "ElkEdge list option")

definition elk_kids :: "ElkNode \<Rightarrow> ElkNode list" where
  "elk_kids n = nullish (en_children n) []"

lemma elk_kid_size [termination_simp]: "k \<in> set (elk_kids n) \<Longrightarrow> size k < size n"
proof (cases n)
  case (ElkNode i x y w h opts cs es)
  assume "k \<in> set (elk_kids n)"
  then obtain l where "cs = Some l" "k \<in> set l"
    using ElkNode by (cases cs) (auto simp: elk_kids_def)
  moreover from this have "size k < Suc (size_list size l)"
    by (simp add: size_list_estimation' less_Suc_eq_le)
  ultimately show ?thesis using ElkNode by simp
qed

section \<open>Classification\<close>

definition isGroupType :: "string \<Rightarrow> bool" where
  "isGroupType t \<longleftrightarrow> t \<in> {''networkGroup'', ''nodeGroup'', ''roleGroup''}"

definition GROUP_OPTIONS :: "(string \<times> string) list" where
  "GROUP_OPTIONS = [(''elk.padding'', ''[top=35,left=15,bottom=12,right=15]''),
     (''elk.layered.nodePlacement.networkSimplex.nodeFlexibility'', ''NONE'')]"

definition ELK_OPTIONS :: "(string \<times> string) list" where
  "ELK_OPTIONS = [
     (''elk.algorithm'', ''layered''),
     (''elk.direction'', ''DOWN''),
     (''elk.hierarchyHandling'', ''INCLUDE_CHILDREN''),
     (''elk.edgeRouting'', ''ORTHOGONAL''),
     (''elk.spacing.nodeNode'', ''20''),
     (''elk.spacing.edgeNode'', ''20''),
     (''elk.spacing.edgeEdge'', ''12''),
     (''elk.layered.spacing.nodeNodeBetweenLayers'', ''35''),
     (''elk.layered.spacing.edgeNodeBetweenLayers'', ''15''),
     (''elk.layered.spacing.edgeEdgeBetweenLayers'', ''12''),
     (''elk.spacing.componentComponent'', ''60''),
     (''elk.layered.crossingMinimization.strategy'', ''LAYER_SWEEP''),
     (''elk.layered.nodePlacement.strategy'', ''NETWORK_SIMPLEX''),
     (''elk.layered.nodePlacement.networkSimplex.nodeFlexibility.default'', ''NODE_SIZE''),
     (''elk.layered.compaction.postCompaction.strategy'', ''NONE'')]"

record ClassifiedNodes =
  cn_groups :: "RFNode list"
  cn_children :: "RFNode list"
  cn_freeNodes :: "RFNode list"
  cn_childToParent :: "(string, string) jsmap"

definition classifyNodes :: "RFNode list \<Rightarrow> ClassifiedNodes" where
  "classifyNodes nodes =
     (let children = filter (\<lambda>n. truthy (rf_parentId n)) nodes in
      \<lparr>cn_groups = filter (\<lambda>n. isGroupType (rf_type n)) nodes,
       cn_children = children,
       cn_freeNodes = filter (\<lambda>n. \<not> isGroupType (rf_type n) \<and> \<not> truthy (rf_parentId n)) nodes,
       cn_childToParent = foldl (\<lambda>m c. map_set m (rf_id c) (key_of (rf_parentId c))) [] children\<rparr>)"

definition nodeHeight :: "RFNode \<Rightarrow> real" where
  "nodeHeight n = (if rf_type n = ''volumeNode'' then VOLUME_NODE_HEIGHT else CONTAINER_NODE_HEIGHT)"

section \<open>ELK nodes and edges\<close>

definition align_top :: "(string \<times> string) list" where
  "align_top = [(''elk.alignment'', ''TOP'')]"

definition elk_leaf :: "string \<Rightarrow> real \<Rightarrow> real \<Rightarrow> (string \<times> string) list \<Rightarrow> ElkNode" where
  "elk_leaf i w h opts = ElkNode i None None (Some w) (Some h) opts None None"

definition elk_child ::
    "(string, RFNode) jsmap \<Rightarrow> RFNode list \<Rightarrow> real \<Rightarrow> string \<Rightarrow> ElkNode option" where
  "elk_child nodeMap children nodeWidth i =
     (case map_get nodeMap i of
        None \<Rightarrow> None
      | Some n \<Rightarrow>
          if isGroupType (rf_type n) then
            let kids = filter (\<lambda>c. rf_parentId c = Some i) children in
            Some (ElkNode i None None None None GROUP_OPTIONS
              (Some (if kids \<noteq> []
                 then map (\<lambda>c. elk_leaf (rf_id c) nodeWidth
                             (nodeHeight (nullish (map_get nodeMap (rf_id c)) c)) align_top) kids
                 else [elk_leaf (i @ ''__placeholder'') 120 1 []]))
              None)
          else Some (elk_leaf i nodeWidth (nodeHeight n) align_top))"

definition elk_edge :: "RFEdge \<Rightarrow> ElkEdge" where
  "elk_edge e = \<lparr>ee_id = re_id e, ee_sources = [re_source e], ee_targets = [re_target e],
     ee_sections = None\<rparr>"

text \<open>\<open>childToParent.get(x) ?? x\<close>.\<close>

definition top_or_self :: "(string, string) jsmap \<Rightarrow> string \<Rightarrow> string" where
  "top_or_self childToParent x = nullish (map_get childToParent x) x"

text \<open>Whether an edge joins two children of one group, and that group.\<close>

definition shared_group :: "(string, string) jsmap \<Rightarrow> RFEdge \<Rightarrow> string option" where
  "shared_group childToParent e =
     (let sGroup = map_get childToParent (re_source e) in
      if truthy sGroup \<and> sGroup = map_get childToParent (re_target e) then sGroup else None)"

definition partition_edge :: "(string, string) jsmap \<Rightarrow> string list \<Rightarrow>
    (string, ElkEdge list) jsmap \<times> ElkEdge list \<Rightarrow> RFEdge \<Rightarrow>
    (string, ElkEdge list) jsmap \<times> ElkEdge list" where
  "partition_edge childToParent compIds st e =
     (let (groupEdgeMap, rootEdges) = st in
      if top_or_self childToParent (re_source e) \<notin> set compIds \<or>
         top_or_self childToParent (re_target e) \<notin> set compIds then st
      else case shared_group childToParent e of
             Some g \<Rightarrow> (map_push groupEdgeMap g (elk_edge e), rootEdges)
           | None \<Rightarrow> (groupEdgeMap, rootEdges @ [elk_edge e]))"

definition attach_edges :: "(string, ElkEdge list) jsmap \<Rightarrow> ElkNode \<Rightarrow> ElkNode" where
  "attach_edges groupEdgeMap n =
     (case map_get groupEdgeMap (en_id n) of
        None \<Rightarrow> n
      | Some es \<Rightarrow> ElkNode (en_id n) (en_x n) (en_y n) (en_width n) (en_height n) (en_options n)
                    (en_children n) (Some es))"

definition build_component :: "(string, RFNode) jsmap \<Rightarrow> RFNode list \<Rightarrow> RFEdge list \<Rightarrow>
    (string, string) jsmap \<Rightarrow> real \<Rightarrow> ElkNode list \<times> ElkEdge list \<Rightarrow> string list \<Rightarrow>
    ElkNode list \<times> ElkEdge list" where
  "build_component nodeMap children edges childToParent nodeWidth st compIds =
     (let (elkChildren, rootEdges) = st;
          elkChildren' = elkChildren @ List.map_filter (elk_child nodeMap children nodeWidth) compIds;
          (groupEdgeMap, rootEdges') = foldl (partition_edge childToParent compIds) ([], rootEdges) edges
      in (map (attach_edges groupEdgeMap) elkChildren', rootEdges'))"

definition buildElkChildren :: "string list list \<Rightarrow> (string, RFNode) jsmap \<Rightarrow> RFNode list \<Rightarrow>
    RFEdge list \<Rightarrow> (string, string) jsmap \<Rightarrow> real \<Rightarrow> ElkNode list \<times> ElkEdge list" where
  "buildElkChildren components nodeMap children edges childToParent nodeWidth =
     foldl (build_component nodeMap children edges childToParent nodeWidth) ([], []) components"

section \<open>Wrapping the components\<close>

definition wrapper_options :: "(string \<times> string) list" where
  "wrapper_options = map_set (map_set ELK_OPTIONS ''elk.hierarchyHandling'' ''INCLUDE_CHILDREN'')
     ''elk.padding'' ''[top=0,left=0,bottom=0,right=0]''"

definition within_component :: "(string, string) jsmap \<Rightarrow> string list \<Rightarrow> ElkEdge \<Rightarrow> bool" where
  "within_component childToParent compIds e \<longleftrightarrow>
     top_or_self childToParent (hd (ee_sources e)) \<in> set compIds \<and>
     top_or_self childToParent (hd (ee_targets e)) \<in> set compIds"

definition wrap_component :: "ElkNode list \<Rightarrow> ElkEdge list \<Rightarrow> (string, string) jsmap \<Rightarrow>
    string list \<Rightarrow> ElkNode" where
  "wrap_component elkChildren rootEdges childToParent compIds =
     (let compChildren = filter (\<lambda>c. en_id c \<in> set compIds) elkChildren;
          compEdges = filter (within_component childToParent compIds) rootEdges
      in if length compChildren = 1 \<and> compEdges = [] then hd compChildren
         else ElkNode (''__comp_'' @ hd compIds) None None None None wrapper_options
                (Some compChildren) (Some compEdges))"

text \<open>The \<open>wrappedEdges\<close> of the result stay empty: no code adds to them.\<close>

definition wrapComponents :: "string list list \<Rightarrow> ElkNode list \<Rightarrow> ElkEdge list \<Rightarrow>
    (string, string) jsmap \<Rightarrow> ElkNode list \<times> ElkEdge list" where
  "wrapComponents components elkChildren rootEdges childToParent =
     (map (wrap_component elkChildren rootEdges childToParent) components, [])"

section \<open>The graph of a node list\<close>

definition top_ids :: "RFNode list \<Rightarrow> string list" where
  "top_ids nodes = map rf_id (cn_groups (classifyNodes nodes)) @ map rf_id (cn_freeNodes (classifyNodes nodes))"

text \<open>The pipeline of \<open>computeLayout\<close> up to the call of ELK.\<close>

definition elk_input :: "RFNode list \<Rightarrow> RFEdge list \<Rightarrow> real \<Rightarrow> ElkNode list \<times> ElkEdge list" where
  "elk_input nodes edges nodeWidth =
     (let cn = classifyNodes nodes; c2p = cn_childToParent cn;
          comps = findComponents (top_ids nodes) edges c2p;
          nodeMap = foldl (\<lambda>m n. map_set m (rf_id n) n) [] nodes;
          (elkChildren, rootEdges) = buildElkChildren comps nodeMap (cn_children cn) edges c2p nodeWidth
      in wrapComponents comps elkChildren rootEdges c2p)"

fun elk_edges :: "ElkNode \<Rightarrow> ElkEdge list" where
  "elk_edges n = nullish (en_edges n) [] @ concat (map elk_edges (elk_kids n))"

declare elk_edges.simps [simp del]

end
