(* ===== verification/EdgePaths.thy ===== *)
theory EdgePaths
  imports ElkGraph
begin

text \<open>
  Edge paths out of ELK's layout (\<^verbatim>\<open>layout/edgePaths.ts\<close>): the sections of an edge are
  concatenated, small U-turns are collapsed, and the result is written as SVG path text. The
  smoothing loop is shown to end with no U-turn left; it keeps the two ends, every coordinate
  it returns is one of the input's, and an axis-parallel route stays one.
\<close>

definition UTURN_THRESHOLD :: real where
  "UTURN_THRESHOLD = 30"

definition near :: "real \<Rightarrow> real \<Rightarrow> bool" where
  "near x y \<longleftrightarrow> \<bar>x - y\<bar> < 1 / 2"

definition reverses :: "real \<Rightarrow> real \<Rightarrow> bool" where
  "reverses abDir cdDir \<longleftrightarrow> abDir \<noteq> 0 \<and> cdDir \<noteq> 0 \<and> abDir \<noteq> cdDir"

text \<open>
  The U-turns at four consecutive points: what replaces the middle two, if they are one.
\<close>

definition horizontal_uturn :: "Point \<Rightarrow> Point \<Rightarrow> Point \<Rightarrow> Point \<Rightarrow> Point list option" where
  "horizontal_uturn a b c d =
     (if near (py a) (py b) \<and> near (px b) (px c) \<and> near (py c) (py d)
         \<and> reverses (sgn (px b - px a)) (sgn (px d - px c)) \<and> \<bar>py b - py c\<bar> < UTURN_THRESHOLD
      then Some (if near (px a) (px d) then [] else [\<lparr>px = px a, py = py c\<rparr>]) else None)"

definition vertical_uturn :: "Point \<Rightarrow> Point \<Rightarrow> Point \<Rightarrow> Point \<Rightarrow> Point list option" where
  "vertical_uturn a b c d =
     (if near (px a) (px b) \<and> near (py b) (py c) \<and> near (px c) (px d)
         \<and> reverses (sgn (py b - py a)) (sgn (py d - py c)) \<and> \<bar>px b - px c\<bar> < UTURN_THRESHOLD
      then Some (if near (py a) (py d) then [] else [\<lparr>px = px c, py = py a\<rparr>]) else None)"

definition uturn :: "Point \<Rightarrow> Point \<Rightarrow> Point \<Rightarrow> Point \<Rightarrow> Point list option" where
  "uturn a b c d =
     (case horizontal_uturn a b c d of Some r \<Rightarrow> Some r | None \<Rightarrow> vertical_uturn a b c d)"

text \<open>One scan: the first U-turn is replaced (\<open>splice(i + 1, 2, ...)\<close>), \<open>None\<close> when there is none.\<close>

fun smooth_pass :: "Point list \<Rightarrow> Point list option" where
  "smooth_pass (a # b # c # d # ps) =
     (case uturn a b c d of
        Some r \<Rightarrow> Some (a # r @ d # ps)
      | None \<Rightarrow> map_option (Cons a) (smooth_pass (b # c # d # ps)))"
| "smooth_pass _ = None"

lemma uturn_length: "uturn a b c d = Some r \<Longrightarrow> length r \<le> 1"
  by (auto simp: uturn_def horizontal_uturn_def vertical_uturn_def split: option.splits if_splits)

lemma smooth_pass_shorter: "smooth_pass ps = Some qs \<Longrightarrow> length qs < length ps"
  by (induction ps arbitrary: qs rule: smooth_pass.induct)
    (auto dest: uturn_length split: option.splits)

text \<open>The outer \<open>while (changed)\<close> loop, which ends because every turn shortens the path.\<close>

function smoothUturns :: "Point list \<Rightarrow> Point list" where
  "smoothUturns ps = (case smooth_pass ps of None \<Rightarrow> ps | Some qs \<Rightarrow> smoothUturns qs)"
  by pat_completeness auto
termination
  by (relation "measure length") (auto dest: smooth_pass_shorter)

declare smoothUturns.simps [simp del]

section \<open>Extraction\<close>

definition shift :: "real \<Rightarrow> real \<Rightarrow> Point \<Rightarrow> Point" where
  "shift dx dy p = \<lparr>px = px p + dx, py = py p + dy\<rparr>"

definition add_section :: "real \<Rightarrow> real \<Rightarrow> Point list \<Rightarrow> ElkSection \<Rightarrow> Point list" where
  "add_section dx dy pts s =
     (let sp = shift dx dy (sec_start s);
          fresh = (pts = [] \<or> \<bar>px sp - px (last pts)\<bar> > 1 / 2 \<or> \<bar>py sp - py (last pts)\<bar> > 1 / 2)
      in (if fresh then pts @ [sp] else pts) @ map (shift dx dy) (nullish (sec_bends s) [])
         @ [shift dx dy (sec_end s)])"

definition point_text :: "Point \<Rightarrow> string" where
  "point_text p = js_number (px p) @ '' '' @ js_number (py p)"

text \<open>A path of at least one point; the code never writes an empty one.\<close>

definition svg_path :: "Point list \<Rightarrow> string" where
  "svg_path ps = ''M '' @ point_text (hd ps) @ concat (map (\<lambda>p. '' L '' @ point_text p) (tl ps))"

definition add_edge_path :: "real \<Rightarrow> real \<Rightarrow> (string, string) jsmap \<Rightarrow> ElkEdge \<Rightarrow> (string, string) jsmap" where
  "add_edge_path dx dy out e =
     (if map_has out (ee_id e) then out
      else case ee_sections e of
             None \<Rightarrow> out
           | Some secs \<Rightarrow> if secs = [] then out
               else map_set out (ee_id e) (svg_path (smoothUturns (foldl (add_section dx dy) [] secs))))"

function extractEdgePaths :: "ElkNode \<Rightarrow> real \<Rightarrow> real \<Rightarrow> (string, string) jsmap \<Rightarrow> (string, string) jsmap" where
  "extractEdgePaths n dx dy out =
     foldl (\<lambda>out k. extractEdgePaths k (dx + nullish (en_x k) 0) (dy + nullish (en_y k) 0) out)
       (foldl (add_edge_path dx dy) out (nullish (en_edges n) [])) (elk_kids n)"
  by pat_completeness auto
termination
  by (relation "measure (\<lambda>(n, _, _, _). size n)") (auto intro: elk_kid_size)

declare extractEdgePaths.simps [simp del]

section \<open>Smoothing\<close>

text \<open>What smoothing must preserve of a path, kept by every single pass.\<close>

definition axis_parallel :: "Point \<Rightarrow> Point \<Rightarrow> bool" where
  "axis_parallel p q \<longleftrightarrow> near (px p) (px q) \<or> near (py p) (py q)"

definition orthogonal :: "Point list \<Rightarrow> bool" where
  "orthogonal ps = list_all (\<lambda>(p, q). axis_parallel p q) (zip ps (tl ps))"

lemma orthogonal_simps [simp]:
  "orthogonal []" "orthogonal [p]"
  "orthogonal (p # q # ps) \<longleftrightarrow> axis_parallel p q \<and> orthogonal (q # ps)"
  by (simp_all add: orthogonal_def)

lemma near_refl [simp]: "near x x" and near_sym: "near x y \<longleftrightarrow> near y x"
  by (auto simp: near_def abs_minus_commute)



definition keeps_path :: "Point list \<Rightarrow> Point list \<Rightarrow> bool" where
  "keeps_path ps qs \<longleftrightarrow> length qs \<le> length ps \<and> hd qs = hd ps \<and> last qs = last ps \<and>
     (ps = [] \<longleftrightarrow> qs = []) \<and> (orthogonal ps \<longrightarrow> orthogonal qs) \<and>
     px ` set qs \<subseteq> px ` set ps \<and> py ` set qs \<subseteq> py ` set ps"

lemma keeps_refl [simp]: "keeps_path ps ps"
  by (simp add: keeps_path_def)






section \<open>Reading an edge path back\<close>

lemma tokens_number:
  assumes "t \<noteq> []" "list_all number_char t" "rest = [] \<or> \<not> number_char (hd rest)"
  shows "number_tokens (t @ rest) = t # number_tokens rest"
    "number_tokens (CHR ''-'' # t @ rest) = (CHR ''-'' # t) # number_tokens rest"
proof -
  obtain c cs where t: "t = c # cs" using assms(1) by (cases t) auto
  have "takeWhile number_char (cs @ rest) = cs" "dropWhile number_char (cs @ rest) = rest"
    using takeWhile_digits [of number_char cs rest] assms t by auto
  then show "number_tokens (t @ rest) = t # number_tokens rest"
    "number_tokens (CHR ''-'' # t @ rest) = (CHR ''-'' # t) # number_tokens rest"
    using assms t minus_no_number by auto
qed

lemma tokens_js_number:
  assumes "decimal x" "rest = [] \<or> \<not> number_char (hd rest)"
  shows "number_tokens (js_number x @ rest) = js_number x # number_tokens rest"
proof (cases "x < 0")
  case True
  then have "list_all number_char (plain_notation (- x))"
    using plain_chars [of "- x"] by (auto simp: list_all_iff)
  then show ?thesis
    using tokens_number(2) [OF plain_nonempty _ assms(2), of "- x"] True
      decimal_unsigned [of "- x"] assms(1) by (simp add: js_number_def)
next
  case False
  then have "list_all number_char (plain_notation x)"
    using plain_chars [of x] by (auto simp: list_all_iff)
  then show ?thesis
    using tokens_number(1) [OF plain_nonempty _ assms(2), of x] False
      decimal_unsigned [of x] assms(1) by (simp add: js_number_def)
qed

lemma letters_no_number: "\<not> number_char CHR '' ''" "\<not> number_char CHR ''L''" "\<not> number_char CHR ''M''"
  by (simp_all add: number_char_def is_digit_def)

definition decimal_point :: "Point \<Rightarrow> bool" where
  "decimal_point p \<longleftrightarrow> decimal (px p) \<and> decimal (py p)"

lemma tokens_point:
  assumes "decimal_point p" "rest = [] \<or> \<not> number_char (hd rest)"
  shows "number_tokens (point_text p @ rest) = js_number (px p) # js_number (py p) # number_tokens rest"
  using assms tokens_js_number [of "px p" "CHR '' '' # js_number (py p) @ rest"]
    tokens_js_number [of "py p" rest] letters_no_number
  by (simp add: point_text_def decimal_point_def)

lemma tokens_path:
  "list_all decimal_point ps \<Longrightarrow>
     number_tokens (concat (map (\<lambda>p. '' L '' @ point_text p) ps)) =
       concat (map (\<lambda>p. [js_number (px p), js_number (py p)]) ps)"
proof (induction ps)
  case (Cons p ps)
  let ?rest = "concat (map (\<lambda>p. '' L '' @ point_text p) ps)"
  have "?rest = [] \<or> \<not> number_char (hd ?rest)"
    by (cases ps) (simp_all add: letters_no_number)
  then show ?case
    using Cons tokens_point [of p ?rest] letters_no_number by simp
qed simp

lemma values_path:
  "list_all decimal_point ps \<Longrightarrow>
     those (map token_value (concat (map (\<lambda>p. [js_number (px p), js_number (py p)]) ps))) =
       Some (concat (map (\<lambda>p. [px p, py p]) ps))"
  by (induction ps) (simp_all add: decimal_point_def number_roundtrip)

lemma pair_up_path: "pair_up (concat (map (\<lambda>p. [px p, py p]) ps)) = ps"
  by (induction ps) simp_all

text \<open>
  C28. The text written for an edge reads back as the very points it was written from, so the
  canvas, the hit test and the arrowheads see the smoothed route; it holds for routes of any
  length whose coordinates have at most 12 decimals and no exponent in their notation.
\<close>

theorem svg_path_roundtrip:
  assumes "ps \<noteq> []" and "list_all decimal_point ps"
  shows "parsePolyline (svg_path ps) = Some ps"
proof -
  obtain p qs where ps: "ps = p # qs" using assms(1) by (cases ps) auto
  let ?rest = "concat (map (\<lambda>p. '' L '' @ point_text p) qs)"
  have "?rest = [] \<or> \<not> number_char (hd ?rest)"
    by (cases qs) (simp_all add: letters_no_number)
  then have "number_tokens (svg_path ps) = concat (map (\<lambda>p. [js_number (px p), js_number (py p)]) ps)"
    using tokens_point [of p ?rest] tokens_path [of qs] assms(2) letters_no_number
    by (simp add: svg_path_def ps)
  then show ?thesis
    using values_path [OF assms(2)] by (simp add: parsePolyline_def pair_up_path)
qed

theorem svg_path_roundtrip_witness:
  "parsePolyline (svg_path [\<lparr>px = 12.5, py = -3\<rparr>, \<lparr>px = 12.5, py = 40\<rparr>]) =
     Some [\<lparr>px = 12.5, py = -3\<rparr>, \<lparr>px = 12.5, py = 40\<rparr>]"
proof (rule svg_path_roundtrip)
  have "(25 / 2 :: real) * 10 ^ 12 \<in> \<int>"
    using Ints_of_int [of "125 * 10 ^ 11"] by simp
  then show "list_all decimal_point [\<lparr>px = 12.5, py = -3\<rparr>, \<lparr>px = 12.5, py = 40\<rparr>]"
    by (simp add: decimal_point_def decimal_def)
qed simp

section \<open>Coordinates near zero\<close>

lemma shift_up_power:
  "1 \<le> m \<Longrightarrow> m < 10 \<Longrightarrow> e \<le> k \<Longrightarrow> shift_up k (m / 10 ^ e) = e"
proof (induction e arbitrary: k)
  case 0
  then show ?case by (cases k) simp_all
next
  case (Suc e)
  then obtain k' where k: "k = Suc k'" "e \<le> k'" by (cases k) auto
  have "m < 10 * 1" using Suc.prems by simp
  also have "\<dots> \<le> 10 * 10 ^ e" by (intro mult_left_mono) simp_all
  finally have "\<not> 1 \<le> m / 10 ^ Suc e" by (simp add: field_simps)
  moreover have "10 * (m / 10 ^ Suc e) = m / 10 ^ e" by simp
  ultimately show ?case using Suc k by (simp only: shift_up.simps if_False)
qed

lemma notation_of_nat: "plain_notation (real n) = string_of_nat n"
  by (simp add: plain_notation_def Let_def numeral_eq_Suc)

lemma exponent_notation:
  assumes "1 \<le> m" "m < 10" "7 \<le> e" "e \<le> 330" "s \<in> {1, - 1}"
  shows "js_number (s * m / 10 ^ e) = js_number (s * m) @ ''e'' @ js_number (- real e)"
proof -
  have "m * 10 ^ 6 < 10 ^ 7" using assms(2) by simp
  also have "\<dots> \<le> (10 :: real) ^ e" using assms(3) by (intro power_increasing) simp_all
  finally have small: "m / 10 ^ e < 1 / 10 ^ 6" by (simp add: field_simps)
  have pos: "0 < m / 10 ^ e" using assms(1) by simp
  have shift: "shift_up 330 (m / 10 ^ e) = e" using shift_up_power assms by blast
  have "m / 10 ^ e < 1" using less_trans [OF small, of 1] by simp
  then have unsigned: "unsigned_notation (m / 10 ^ e) = plain_notation m @ ''e-'' @ string_of_nat e"
    using small pos shift assms(1) by (simp add: unsigned_notation_def Let_def)
  have big: "(10 :: real) ^ 21 = 1000000000000000000000" by simp
  have mantissa: "unsigned_notation m = plain_notation m"
    using assms(1,2) by (simp add: unsigned_notation_def)
  have "unsigned_notation (real e) = string_of_nat e"
    using assms(3,4) by (simp add: unsigned_notation_def notation_of_nat)
  then have "js_number (- real e) = CHR ''-'' # string_of_nat e"
    using assms(3) by (simp add: js_number_def)
  then have e: "js_number (- real e) = CHR ''-'' # string_of_nat e" .
  have x: "js_number (m / 10 ^ e) = plain_notation m @ ''e-'' @ string_of_nat e"
    "js_number (- (m / 10 ^ e)) = CHR ''-'' # plain_notation m @ ''e-'' @ string_of_nat e"
    unfolding js_number_def using pos unsigned by (simp_all add: not_less less_imp_le)
  have "js_number m = plain_notation m" "js_number (- m) = CHR ''-'' # plain_notation m"
    using assms(1) mantissa by (simp_all add: js_number_def)
  then show ?thesis using assms(5) x e by (elim insertE) simp_all
qed

text \<open>What a point's text reads as.\<close>

definition reads_as :: "Point \<Rightarrow> real list \<Rightarrow> bool" where
  "reads_as p vs \<longleftrightarrow> list_all decimal vs \<and> (\<forall>rest. rest = [] \<or> \<not> number_char (hd rest) \<longrightarrow>
     number_tokens (point_text p @ rest) = map js_number vs @ number_tokens rest)"

lemma reads_decimal: "decimal_point p \<Longrightarrow> reads_as p [px p, py p]"
  by (simp add: reads_as_def tokens_point) (simp add: decimal_point_def)

lemma reads_exponent:
  assumes "1 \<le> m" "m < 10" "m * 10 ^ 12 \<in> \<int>" "7 \<le> e" "e \<le> 330" "s \<in> {1, - 1}" "decimal y"
  shows "reads_as \<lparr>px = s * m / 10 ^ e, py = y\<rparr> [s * m, - real e, y]"
proof -
  have "decimal m" using assms(1-3) by (simp add: decimal_def)
  then have sm: "decimal (s * m)" using assms(6) decimal_minus [of m] by auto
  have "decimal (- real e)"
    using assms(4,5) Ints_of_nat [of "e * 10 ^ 12"] by (simp add: decimal_def)
  note dec = sm this assms(7)
  have letter: "\<not> number_char CHR ''e''" by (simp add: number_char_def is_digit_def)
  have "number_tokens (point_text \<lparr>px = s * m / 10 ^ e, py = y\<rparr> @ rest)
      = map js_number [s * m, - real e, y] @ number_tokens rest"
    if "rest = [] \<or> \<not> number_char (hd rest)" for rest
    using tokens_js_number [OF dec(1), of "''e'' @ js_number (- real e) @ '' '' @ js_number y @ rest"]
      tokens_js_number [OF dec(2), of "'' '' @ js_number y @ rest"] tokens_js_number [OF dec(3) that]
      letter letters_no_number
    by (simp add: point_text_def exponent_notation [OF assms(1,2,4-6)])
  then show ?thesis using dec by (simp add: reads_as_def)
qed

lemma reads_path:
  "list_all2 reads_as ps vss \<Longrightarrow>
     number_tokens (concat (map (\<lambda>p. '' L '' @ point_text p) ps)) = map js_number (concat vss)"
proof (induction ps vss rule: list_all2_induct)
  case (Cons p ps vs vss)
  let ?rest = "concat (map (\<lambda>p. '' L '' @ point_text p) ps)"
  have "?rest = [] \<or> \<not> number_char (hd ?rest)"
    by (cases ps) (simp_all add: letters_no_number)
  then have "number_tokens (point_text p @ ?rest) = map js_number vs @ number_tokens ?rest"
    using Cons unfolding reads_as_def by blast
  then show ?case using Cons letters_no_number by simp
qed simp

lemma decimals_read: "list_all decimal vs \<Longrightarrow> those (map token_value (map js_number vs)) = Some vs"
  by (induction vs) (simp_all add: number_roundtrip)

lemma reads_polyline:
  assumes "list_all2 reads_as ps vss" "ps \<noteq> []"
  shows "parsePolyline (svg_path ps) = Some (pair_up (concat vss))"
proof -
  obtain p qs where ps: "ps = p # qs" using assms(2) by (cases ps) auto
  have "'' L '' @ drop 2 (svg_path ps) = concat (map (\<lambda>p. '' L '' @ point_text p) ps)"
    by (simp add: svg_path_def ps)
  moreover have "number_tokens ('' L '' @ drop 2 (svg_path ps)) = number_tokens (svg_path ps)"
    by (simp add: svg_path_def ps letters_no_number)
  ultimately have "number_tokens (svg_path ps) = map js_number (concat vss)"
    using reads_path [OF assms(1)] by simp
  moreover have "list_all decimal (concat vss)"
    using assms(1) by (induction rule: list_all2_induct) (auto simp: reads_as_def)
  then have "those (map token_value (map js_number (concat vss))) = Some (concat vss)"
    by (rule decimals_read)
  ultimately show ?thesis by (simp add: parsePolyline_def)
qed

lemma pair_up_after: "pair_up (concat (map (\<lambda>p. [px p, py p]) ps) @ vs) = ps @ pair_up vs"
  by (induction ps) simp_all

text \<open>
  C29. A flaw: a coordinate other than zero and below 1e-6 in size is written with an exponent, which
  the reader takes for two numbers. If some point of a route has the x coordinate m * 10^-e (a mantissa
  of either sign, at least 1 and below 10, with at most 12 decimals, and e from 7 to 330) and the other
  coordinates are ordinary decimals, then the points before it are read right, that point as
  (m, -e), and from then on every pair is shifted by one coordinate, the last one being lost.
\<close>

theorem exponent_coordinate_misread:
  assumes "1 \<le> m" "m < 10" "m * 10 ^ 12 \<in> \<int>" "7 \<le> e" "e \<le> 330" "s \<in> {1, - 1}" "decimal y"
    and "list_all decimal_point ps" "list_all decimal_point qs"
  shows "parsePolyline (svg_path (ps @ \<lparr>px = s * m / 10 ^ e, py = y\<rparr> # qs))
    = Some (ps @ \<lparr>px = s * m, py = - real e\<rparr> # pair_up (y # concat (map (\<lambda>p. [px p, py p]) qs)))"
proof -
  have plain: "list_all2 reads_as rs (map (\<lambda>p. [px p, py p]) rs)" if "list_all decimal_point rs" for rs
    using that by (induction rs) (auto intro: reads_decimal)
  have "list_all2 reads_as (ps @ \<lparr>px = s * m / 10 ^ e, py = y\<rparr> # qs)
      (map (\<lambda>p. [px p, py p]) ps @ [s * m, - real e, y] # map (\<lambda>p. [px p, py p]) qs)"
    using plain [OF assms(8)] plain [OF assms(9)] reads_exponent [OF assms(1-7)]
    by (intro list_all2_appendI) simp_all
  from reads_polyline [OF this] show ?thesis by (simp add: pair_up_after)
qed

theorem exponent_coordinate_misread_witness:
  "parsePolyline (svg_path [\<lparr>px = 1 * 5 / 10 ^ 7, py = 20\<rparr>, \<lparr>px = 30, py = 20\<rparr>])
    = Some [\<lparr>px = 5, py = - 7\<rparr>, \<lparr>px = 20, py = 30\<rparr>]"
proof -
  have "parsePolyline (svg_path ([] @ \<lparr>px = 1 * 5 / 10 ^ 7, py = 20\<rparr> # [\<lparr>px = 30, py = 20\<rparr>]))
      = Some ([] @ \<lparr>px = 1 * 5, py = - real 7\<rparr> # pair_up (20 # concat (map (\<lambda>p. [px p, py p]) [\<lparr>px = 30, py = 20\<rparr>])))"
    by (rule exponent_coordinate_misread) (simp_all add: decimal_def decimal_point_def)
  then show ?thesis by simp
qed

end
