(* ===== verification/ElkGraphCorrect.thy ===== *)
theory ElkGraphCorrect
  imports ElkGraph
begin

text \<open>
  What reaches ELK: every edge between nodes of the graph reaches it exactly once, in its
  group, in its component's wrapper, or nowhere else, whatever the edges; and every node once.
\<close>

section \<open>Splitting a list by a key\<close>

lemma mset_filter_disj:
  "(\<And>e. e \<in> set es \<Longrightarrow> \<not> (P e \<and> Q e)) \<Longrightarrow>
     mset (filter (\<lambda>e. P e \<or> Q e) es) = mset (filter P es) + mset (filter Q es)"
  by (induction es) (auto simp del: mset_filter)

lemma mset_filter_split:
  assumes "distinct xs"
    and "\<And>e x y. e \<in> set es \<Longrightarrow> x \<in> set xs \<Longrightarrow> y \<in> set xs \<Longrightarrow> P x e \<Longrightarrow> P y e \<Longrightarrow> x = y"
  shows "mset (concat (map (\<lambda>x. filter (P x) es) xs)) = mset (filter (\<lambda>e. \<exists>x\<in>set xs. P x e) es)"
  using assms
proof (induction xs)
  case (Cons x xs)
  have "mset (filter (\<lambda>e. P x e \<or> (\<exists>y\<in>set xs. P y e)) es) =
      mset (filter (P x) es) + mset (filter (\<lambda>e. \<exists>y\<in>set xs. P y e) es)"
    using Cons.prems by (intro mset_filter_disj) auto
  then show ?case
    using Cons by (simp del: mset_filter)
qed simp

lemma mset_map_cong: "mset xs = mset ys \<Longrightarrow> mset (map f xs) = mset (map f ys)"
  by simp

lemma mset_concat_cong:
  "(\<And>x. x \<in> set xs \<Longrightarrow> mset (f x) = mset (g x)) \<Longrightarrow>
     mset (concat (map f xs)) = mset (concat (map g xs))"
  by (induction xs) auto

section \<open>Well-formed node lists\<close>

text \<open>
  What the graph conversion provides: distinct, nonempty ids; groups have no parent, and
  every parent is a group of the list.
\<close>

definition layout_ready :: "RFNode list \<Rightarrow> bool" where
  "layout_ready nodes \<longleftrightarrow> distinct (map rf_id nodes) \<and> [] \<notin> rf_id ` set nodes \<and>
     (\<forall>n\<in>set nodes. truthy (rf_parentId n) \<longrightarrow> \<not> isGroupType (rf_type n) \<and>
        (\<exists>g\<in>set nodes. rf_parentId n = Some (rf_id g) \<and> isGroupType (rf_type g)))"

definition parent_map :: "RFNode list \<Rightarrow> (string, string) jsmap" where
  "parent_map nodes = cn_childToParent (classifyNodes nodes)"

lemma set_top_ids: "set (top_ids nodes) = rf_id ` {n \<in> set nodes. isGroupType (rf_type n) \<or> \<not> truthy (rf_parentId n)}"
  by (auto simp: top_ids_def classifyNodes_def Let_def)

lemma get_foldl_distinct:
  "distinct (map kf xs) \<Longrightarrow>
     map_get (foldl (\<lambda>m x. map_set m (kf x) (vf x)) [] xs) k = Some v \<longleftrightarrow>
       (\<exists>x\<in>set xs. kf x = k \<and> vf x = v)"
proof (induction xs rule: rev_induct)
  case (snoc x xs)
  then show ?case by (auto simp: js.get_put) (metis imageI)+
qed simp

lemma distinct_foldl_set:
  "distinct (map_keys (foldl (\<lambda>m x. map_set m (kf x) (vf x)) [] xs))"
  by (induction xs rule: rev_induct) (auto simp: js.distinct_put)

lemma parent_map_get:
  assumes "distinct (map rf_id nodes)"
  shows "map_get (parent_map nodes) i = Some p \<longleftrightarrow>
    (\<exists>n\<in>set nodes. rf_id n = i \<and> rf_parentId n = Some p \<and> p \<noteq> [])"
proof -
  have d: "distinct (map rf_id (filter (\<lambda>n. truthy (rf_parentId n)) nodes))"
    using assms by (rule distinct_map_filter)
  have "map_get (parent_map nodes) i = Some p \<longleftrightarrow>
      (\<exists>n\<in>set (filter (\<lambda>n. truthy (rf_parentId n)) nodes). rf_id n = i \<and> key_of (rf_parentId n) = p)"
    by (simp only: parent_map_def classifyNodes_def Let_def ClassifiedNodes.simps get_foldl_distinct [OF d])
  then show ?thesis by (auto simp: truthy_iff key_of_def)
qed

lemma same_id: "distinct (map rf_id nodes) \<Longrightarrow> a \<in> set nodes \<Longrightarrow> b \<in> set nodes \<Longrightarrow> rf_id a = rf_id b \<Longrightarrow> a = b"
  by (metis distinct_map inj_onD)

lemma top_of_known:
  assumes "layout_ready nodes"
  shows "topOf (parent_map nodes) (top_ids nodes) i =
    (if i \<in> rf_id ` set nodes then Some (top_or_self (parent_map nodes) i) else None)"
proof -
  have d: "distinct (map rf_id nodes)" using assms by (simp add: layout_ready_def)
  show ?thesis
  proof (cases "map_get (parent_map nodes) i")
    case None
    then have "\<not> (\<exists>n\<in>set nodes. rf_id n = i \<and> truthy (rf_parentId n))"
      using parent_map_get [OF d, of i] by (auto simp: truthy_iff)
    then show ?thesis
      using None by (auto simp: topOf_def top_or_self_def set_top_ids)
  next
    case (Some p)
    then show ?thesis
      using parent_map_get [OF d, of i p] by (auto simp: topOf_def top_or_self_def)
  qed
qed

lemma ready_parent:
  assumes "layout_ready nodes" "map_get (parent_map nodes) i = Some p"
  shows "p \<in> set (top_ids nodes)" "p \<noteq> []"
proof -
  have d: "distinct (map rf_id nodes)" using assms(1) by (simp add: layout_ready_def)
  obtain n where n: "n \<in> set nodes" "rf_parentId n = Some p" "p \<noteq> []"
    using assms(2) unfolding parent_map_get [OF d] by blast
  then have "truthy (rf_parentId n)" by simp
  then obtain g where "g \<in> set nodes" "rf_parentId n = Some (rf_id g)" "isGroupType (rf_type g)"
    using assms(1) n(1) unfolding layout_ready_def by blast
  then show "p \<in> set (top_ids nodes)" using n(2) by (auto simp: set_top_ids)
  show "p \<noteq> []" by fact
qed

lemma ready_parents_on_top:
  assumes "layout_ready nodes"
  shows "parents_on_top (top_ids nodes) (parent_map nodes)"
proof -
  have "distinct (map_keys (parent_map nodes))"
    by (simp only: parent_map_def classifyNodes_def Let_def ClassifiedNodes.simps distinct_foldl_set)
  then have "p \<in> set (top_ids nodes)" if "(c, p) \<in> set (parent_map nodes)" for c p
    using that ready_parent(1) [OF assms] by (simp add: map_get_in)
  then show ?thesis by (auto simp: parents_on_top_def)
qed

lemma ready_top_nonempty: "layout_ready nodes \<Longrightarrow> i \<in> set (top_ids nodes) \<Longrightarrow> i \<noteq> []"
  unfolding layout_ready_def set_top_ids by blast

lemma ready_top_distinct:
  assumes "layout_ready nodes"
  shows "distinct (top_ids nodes)"
proof -
  have d: "distinct (map rf_id nodes)" using assms by (simp add: layout_ready_def)
  show ?thesis
    using distinct_map_filter [OF d] same_id [OF d]
    by (simp add: top_ids_def classifyNodes_def Let_def) blast
qed

section \<open>Building the children\<close>

text \<open>Edges of a component, of a group, and those that go to the component's root.\<close>

definition inside :: "(string, string) jsmap \<Rightarrow> string list \<Rightarrow> RFEdge \<Rightarrow> bool" where
  "inside c2p cids e \<longleftrightarrow> top_or_self c2p (re_source e) \<in> set cids \<and> top_or_self c2p (re_target e) \<in> set cids"

definition root_edges :: "(string, string) jsmap \<Rightarrow> RFEdge list \<Rightarrow> string list \<Rightarrow> ElkEdge list" where
  "root_edges c2p edges cids =
     map elk_edge (filter (\<lambda>e. inside c2p cids e \<and> shared_group c2p e = None) edges)"

definition group_edges :: "(string, string) jsmap \<Rightarrow> RFEdge list \<Rightarrow> string \<Rightarrow> ElkEdge list" where
  "group_edges c2p edges g = map elk_edge (filter (\<lambda>e. shared_group c2p e = Some g) edges)"

lemma shared_inside: "shared_group c2p e = Some g \<Longrightarrow> inside c2p cids e \<longleftrightarrow> g \<in> set cids"
  by (cases "map_get c2p (re_target e)")
    (auto simp: shared_group_def inside_def top_or_self_def Let_def split: if_splits)

lemma partition_edge_inside:
  "partition_edge c2p cids (gm, r) e =
     (if \<not> inside c2p cids e then (gm, r)
      else case shared_group c2p e of
             Some g \<Rightarrow> (map_push gm g (elk_edge e), r)
           | None \<Rightarrow> (gm, r @ [elk_edge e]))"
  by (simp add: partition_edge_def inside_def)

lemma partition_edges:
  "foldl (partition_edge c2p cids) ([], rest) edges = (gm, rest') \<Longrightarrow>
     rest' = rest @ root_edges c2p edges cids \<and>
     (\<forall>g. map_get gm g = (if g \<in> set cids \<and> group_edges c2p edges g \<noteq> []
        then Some (group_edges c2p edges g) else None))"
proof (induction edges arbitrary: gm rest' rule: rev_induct)
  case (snoc e es)
  obtain gm0 r0 where st: "foldl (partition_edge c2p cids) ([], rest) es = (gm0, r0)" by force
  note ih = snoc.IH [OF st]
  show ?case
  proof (cases "inside c2p cids e")
    case False
    then have "(gm, rest') = (gm0, r0)"
      using snoc.prems st by (simp add: partition_edge_inside)
    moreover have "shared_group c2p e = Some g \<Longrightarrow> g \<notin> set cids" for g
      using shared_inside False by blast
    ultimately show ?thesis using ih False by (auto simp: root_edges_def group_edges_def)
  next
    case True
    show ?thesis
    proof (cases "shared_group c2p e")
      case None
      then have "(gm, rest') = (gm0, r0 @ [elk_edge e])"
        using snoc.prems st True by (simp add: partition_edge_inside)
      then show ?thesis using ih True None by (auto simp: root_edges_def group_edges_def)
    next
      case (Some g)
      then have st': "(gm, rest') = (map_push gm0 g (elk_edge e), r0)"
        using snoc.prems st True by (simp add: partition_edge_inside)
      have "g \<in> set cids" using shared_inside [OF Some] True by simp
      then have "map_get gm g' = (if g' \<in> set cids \<and> group_edges c2p (es @ [e]) g' \<noteq> []
          then Some (group_edges c2p (es @ [e]) g') else None)" for g'
        using ih st' Some by (auto simp: group_edges_def map_push_def js.get_put nullish_def)
      then show ?thesis using ih st' Some True by (auto simp: root_edges_def)
    qed
  qed
qed (simp add: root_edges_def group_edges_def)

definition with_group_edges :: "(string, string) jsmap \<Rightarrow> RFEdge list \<Rightarrow> ElkNode \<Rightarrow> ElkNode" where
  "with_group_edges c2p edges n =
     (if group_edges c2p edges (en_id n) = [] then n
      else ElkNode (en_id n) (en_x n) (en_y n) (en_width n) (en_height n) (en_options n)
             (en_children n) (Some (group_edges c2p edges (en_id n))))"

lemma with_group_edges_id [simp]: "en_id (with_group_edges c2p edges n) = en_id n"
  by (simp add: with_group_edges_def)

lemma elk_child_id: "elk_child nm cs w i = Some n \<Longrightarrow> en_id n = i"
  by (auto simp: elk_child_def elk_leaf_def Let_def split: option.splits if_splits)

definition built :: "(string, RFNode) jsmap \<Rightarrow> RFNode list \<Rightarrow> RFEdge list \<Rightarrow>
    (string, string) jsmap \<Rightarrow> real \<Rightarrow> string list \<Rightarrow> ElkNode list" where
  "built nm cs edges c2p w ids =
     map (with_group_edges c2p edges) (List.map_filter (elk_child nm cs w) ids)"

lemma built_simps [simp]: "built nm cs edges c2p w [] = []"
  "built nm cs edges c2p w (xs @ ys) = built nm cs edges c2p w xs @ built nm cs edges c2p w ys"
  by (simp_all add: built_def map_filter_def)

lemma built_ids: "n \<in> set (built nm cs edges c2p w ids) \<Longrightarrow> en_id n \<in> set ids"
  by (auto simp: built_def map_filter_def elk_child_id)

lemma build_children:
  "distinct (concat comps) \<Longrightarrow>
     buildElkChildren comps nm cs edges c2p w =
       (built nm cs edges c2p w (concat comps), concat (map (root_edges c2p edges) comps))"
proof (induction comps rule: rev_induct)
  case (snoc cids comps)
  have ih: "foldl (build_component nm cs edges c2p w) ([], []) comps =
      (built nm cs edges c2p w (concat comps), concat (map (root_edges c2p edges) comps))"
    using snoc by (simp add: buildElkChildren_def)
  obtain gm r where st: "foldl (partition_edge c2p cids)
      ([], concat (map (root_edges c2p edges) comps)) edges = (gm, r)" by force
  note pe = partition_edges [OF st]
  have old: "attach_edges gm n = n" if "n \<in> set (built nm cs edges c2p w (concat comps))" for n
  proof -
    have "en_id n \<notin> set cids" using built_ids [OF that] snoc.prems by auto
    then show ?thesis using pe by (simp add: attach_edges_def)
  qed
  have new: "attach_edges gm n = with_group_edges c2p edges n"
    if "n \<in> set (List.map_filter (elk_child nm cs w) cids)" for n
  proof -
    have "en_id n \<in> set cids" using that by (auto simp: map_filter_def elk_child_id)
    then show ?thesis using pe by (simp add: attach_edges_def with_group_edges_def)
  qed
  have "map (attach_edges gm) (built nm cs edges c2p w (concat comps)) = built nm cs edges c2p w (concat comps)"
    using old by (simp add: map_idI)
  moreover have "map (attach_edges gm) (List.map_filter (elk_child nm cs w) cids) = built nm cs edges c2p w cids"
    using new by (simp add: built_def)
  ultimately show ?case
    using pe by (simp add: buildElkChildren_def ih build_component_def st)
qed (simp add: buildElkChildren_def)

section \<open>Wrapping\<close>

lemma distinct_concat_split:
  assumes "distinct (concat comps)" "c \<in> set comps"
  obtains pre post where "comps = pre @ c # post"
    "set (concat pre) \<inter> set c = {}" "set (concat post) \<inter> set c = {}" "distinct c"
proof -
  obtain pre post where "comps = pre @ c # post" using assms(2) by (meson split_list)
  then show thesis using assms(1) by (intro that [of pre post]) auto
qed

lemma filter_other: "(\<And>x. x \<in> set xs \<Longrightarrow> \<not> P x) \<Longrightarrow> filter P xs = []"
  by (simp add: filter_empty_conv)

lemma component_children:
  assumes "distinct (concat comps)" "c \<in> set comps"
  shows "filter (\<lambda>n. en_id n \<in> set c) (built nm cs edges c2p w (concat comps)) = built nm cs edges c2p w c"
proof -
  obtain pre post where s: "comps = pre @ c # post"
    "set (concat pre) \<inter> set c = {}" "set (concat post) \<inter> set c = {}"
    by (rule distinct_concat_split [OF assms])
  have "filter (\<lambda>n. en_id n \<in> set c) (built nm cs edges c2p w (concat pre)) = []"
    "filter (\<lambda>n. en_id n \<in> set c) (built nm cs edges c2p w (concat post)) = []"
    "filter (\<lambda>n. en_id n \<in> set c) (built nm cs edges c2p w c) = built nm cs edges c2p w c"
    using s(2,3) built_ids by (fastforce intro!: filter_other filter_True)+
  then show ?thesis by (simp add: s(1))
qed

lemma within_elk_edge: "within_component c2p c (elk_edge e) = inside c2p c e"
  by (simp add: within_component_def elk_edge_def inside_def)

lemma filter_root_edges:
  "filter (within_component c2p c) (root_edges c2p edges c) = root_edges c2p edges c"
  "set c' \<inter> set c = {} \<Longrightarrow> filter (within_component c2p c) (root_edges c2p edges c') = []"
  by (force simp: root_edges_def within_elk_edge inside_def intro!: filter_True filter_other)+

lemma component_root_edges:
  assumes "distinct (concat comps)" "c \<in> set comps"
  shows "filter (within_component c2p c) (concat (map (root_edges c2p edges) comps)) = root_edges c2p edges c"
proof -
  obtain pre post where s: "comps = pre @ c # post"
    "set (concat pre) \<inter> set c = {}" "set (concat post) \<inter> set c = {}"
    by (rule distinct_concat_split [OF assms])
  have none: "filter (within_component c2p c) (concat (map (root_edges c2p edges) l)) = []"
    if "set (concat l) \<inter> set c = {}" for l
    using that
  proof (induction l)
    case (Cons c' l)
    then have "set c' \<inter> set c = {}" "set (concat l) \<inter> set c = {}" by auto
    then show ?case using Cons.IH by (simp add: filter_root_edges(2))
  qed simp
  show ?thesis using none [OF s(2)] none [OF s(3)] by (simp add: s(1) filter_root_edges(1))
qed

lemma child_edges:
  assumes "\<And>i. i \<in> set ids \<Longrightarrow> map_get nm i \<noteq> None"
  shows "concat (map elk_edges (built nm cs edges c2p w ids)) = concat (map (group_edges c2p edges) ids)"
  using assms
proof (induction ids)
  case (Cons i ids)
  then obtain n where n: "elk_child nm cs w i = Some n"
    by (fastforce simp: elk_child_def Let_def split: option.splits if_splits)
  have leaf: "elk_edges (elk_leaf j a b opts) = []" for j a b opts
    by (subst elk_edges.simps) (simp add: elk_leaf_def elk_kids_def)
  have bare: "en_edges n = None" "concat (map elk_edges (elk_kids n)) = []"
    using n leaf
    by (auto simp: elk_child_def elk_kids_def elk_leaf_def Let_def split: option.splits if_splits)
  then have "elk_edges (with_group_edges c2p edges n) = group_edges c2p edges i"
    using elk_child_id [OF n]
    by (subst elk_edges.simps) (simp add: with_group_edges_def elk_kids_def)
  then show ?case using Cons n by (simp add: built_def map_filter_def)
qed simp

lemma component_edges:
  assumes "distinct c"
  shows "mset (root_edges c2p edges c @ concat (map (group_edges c2p edges) c)) =
    mset (map elk_edge (filter (inside c2p c) edges))"
proof -
  let ?own = "\<lambda>i e. shared_group c2p e = Some i"
  have "mset (filter (inside c2p c) edges) =
      mset (filter (\<lambda>e. (inside c2p c e \<and> shared_group c2p e = None) \<or> (\<exists>i\<in>set c. ?own i e)) edges)"
  proof -
    have "inside c2p c e \<longleftrightarrow> (inside c2p c e \<and> shared_group c2p e = None) \<or> (\<exists>i\<in>set c. ?own i e)" for e
      using shared_inside [of c2p e _ c] by (cases "shared_group c2p e") auto
    then show ?thesis by (simp del: mset_filter)
  qed
  also have "\<dots> = mset (filter (\<lambda>e. inside c2p c e \<and> shared_group c2p e = None) edges) +
      mset (filter (\<lambda>e. \<exists>i\<in>set c. ?own i e) edges)"
    by (rule mset_filter_disj) auto
  also have "mset (filter (\<lambda>e. \<exists>i\<in>set c. ?own i e) edges) =
      mset (concat (map (\<lambda>i. filter (?own i) edges) c))"
    by (rule mset_filter_split [symmetric]) (use assms in auto)
  finally have "mset (filter (inside c2p c) edges) =
      mset (filter (\<lambda>e. inside c2p c e \<and> shared_group c2p e = None) edges @
        concat (map (\<lambda>i. filter (?own i) edges) c))" by simp
  from mset_map_cong [OF this, of elk_edge] show ?thesis
    by (simp add: root_edges_def group_edges_def [abs_def] map_concat comp_def del: mset_map mset_filter)
qed

lemma wrapped_edges:
  assumes "distinct (concat comps)" "c \<in> set comps" "\<And>i. i \<in> set c \<Longrightarrow> map_get nm i \<noteq> None"
  shows "mset (elk_edges (wrap_component (built nm cs edges c2p w (concat comps))
      (concat (map (root_edges c2p edges) comps)) c2p c)) =
    mset (map elk_edge (filter (inside c2p c) edges))"
proof -
  let ?kids = "built nm cs edges c2p w c"
  have "elk_edges (if length ?kids = 1 \<and> r = [] then hd ?kids
      else ElkNode i None None None None opts (Some ?kids) (Some r)) =
      r @ concat (map elk_edges ?kids)" for r i opts
    by (cases ?kids) (auto simp: elk_edges.simps [of "ElkNode _ _ _ _ _ _ _ _"] elk_kids_def)
  moreover have "distinct c" using distinct_concat_split [OF assms(1,2)] by metis
  ultimately show ?thesis
    using component_edges [of c c2p edges] child_edges [OF assms(3), where cs = cs and edges = edges and c2p = c2p and w = w]
    by (simp only: wrap_component_def component_children [OF assms(1,2)]
        component_root_edges [OF assms(1,2)] Let_def)
qed

section \<open>The whole graph\<close>

lemma linkedI:
  assumes "e \<in> set edges" "topOf c2p ids (re_source e) = Some a" "topOf c2p ids (re_target e) = Some b"
    and "a \<noteq> []" "b \<noteq> []" "a \<noteq> b"
  shows "(a, b) \<in> linked ids edges c2p"
  using assms unfolding linked_def by auto

lemma top_known:
  assumes "layout_ready nodes" "top_or_self (parent_map nodes) x \<in> set (top_ids nodes)"
  shows "x \<in> rf_id ` set nodes"
proof (cases "map_get (parent_map nodes) x")
  case None
  then have "x \<in> set (top_ids nodes)" using assms(2) by (simp add: top_or_self_def)
  then show ?thesis unfolding set_top_ids by blast
next
  case (Some p)
  have "distinct (map rf_id nodes)" using assms(1) by (simp add: layout_ready_def)
  then obtain n where "n \<in> set nodes" "rf_id n = x"
    using Some parent_map_get [of nodes x p] by auto
  then show ?thesis by blast
qed

lemma known_linked:
  assumes "layout_ready nodes" "e \<in> set edges"
    and "re_source e \<in> rf_id ` set nodes" "re_target e \<in> rf_id ` set nodes"
  shows "top_or_self (parent_map nodes) (re_source e) \<in> set (top_ids nodes)"
    and "(top_or_self (parent_map nodes) (re_source e), top_or_self (parent_map nodes) (re_target e))
      \<in> (linked (top_ids nodes) edges (parent_map nodes))\<^sup>*"
proof -
  define a where "a = top_or_self (parent_map nodes) (re_source e)"
  define b where "b = top_or_self (parent_map nodes) (re_target e)"
  have t: "topOf (parent_map nodes) (top_ids nodes) (re_source e) = Some a"
      "topOf (parent_map nodes) (top_ids nodes) (re_target e) = Some b"
    unfolding top_of_known [OF assms(1)] a_def b_def using assms(3,4) by (simp_all only: if_True)
  note top = topOf_in [OF ready_parents_on_top [OF assms(1)] t(1)]
    topOf_in [OF ready_parents_on_top [OF assms(1)] t(2)]
  show "top_or_self (parent_map nodes) (re_source e) \<in> set (top_ids nodes)"
    using top(1) unfolding a_def .
  have "a \<noteq> []" "b \<noteq> []" using ready_top_nonempty [OF assms(1)] top by blast+
  then have "a = b \<or> (a, b) \<in> linked (top_ids nodes) edges (parent_map nodes)"
    using linkedI [OF assms(2) t] by blast
  then have "(a, b) \<in> (linked (top_ids nodes) edges (parent_map nodes))\<^sup>*" by blast
  then show "(top_or_self (parent_map nodes) (re_source e), top_or_self (parent_map nodes) (re_target e))
      \<in> (linked (top_ids nodes) edges (parent_map nodes))\<^sup>*"
    unfolding a_def b_def .
qed

lemma known_inside:
  assumes "layout_ready nodes" "e \<in> set edges"
  shows "(\<exists>c\<in>set (findComponents (top_ids nodes) edges (parent_map nodes)). inside (parent_map nodes) c e) \<longleftrightarrow>
    re_source e \<in> rf_id ` set nodes \<and> re_target e \<in> rf_id ` set nodes" (is "?L \<longleftrightarrow> ?R")
proof
  assume ?L
  then obtain c where c: "c \<in> set (findComponents (top_ids nodes) edges (parent_map nodes))"
    "inside (parent_map nodes) c e" by blast
  have "set c \<subseteq> set (top_ids nodes)"
    using findComponents_classes(2) [OF ready_parents_on_top [OF assms(1)], where edges = edges] c(1)
    unfolding set_concat by blast
  then show ?R using c(2) top_known [OF assms(1)] unfolding inside_def by blast
next
  assume r: ?R
  note k = known_linked [OF assms conjunct1 [OF r] conjunct2 [OF r]]
  show ?L
    using k(2) unfolding inside_def same_component_iff [OF ready_parents_on_top [OF assms(1)] k(1)] .
qed

text \<open>Up to its place, each edge between nodes of the list is handed over exactly once.\<close>

lemma elk_graph_bag:
  assumes "layout_ready nodes"
  shows "mset (concat (map elk_edges (fst (elk_input nodes edges w)))) =
      mset (map elk_edge (filter (\<lambda>e. re_source e \<in> rf_id ` set nodes \<and>
        re_target e \<in> rf_id ` set nodes) edges))"
proof -
  let ?c2p = "parent_map nodes" and ?known = "\<lambda>e. re_source e \<in> rf_id ` set nodes \<and> re_target e \<in> rf_id ` set nodes"
  let ?comps = "findComponents (top_ids nodes) edges ?c2p"
  let ?nm = "foldl (\<lambda>m n. map_set m (rf_id n) n) [] nodes"
  have d: "distinct (map rf_id nodes)" using assms by (simp add: layout_ready_def)
  note top = ready_parents_on_top [OF assms]
  note classes = findComponents_classes [OF top, where edges = edges]
  have nm: "map_get ?nm i \<noteq> None" if "c \<in> set ?comps" "i \<in> set c" for c i
  proof -
    have "i \<in> set (top_ids nodes)" using that classes(2) by auto
    then obtain n where "n \<in> set nodes" "rf_id n = i" by (auto simp: set_top_ids)
    then show ?thesis using get_foldl_distinct [OF d, of "\<lambda>n. n" i n] by auto
  qed
  have inside_known: "(\<exists>c\<in>set ?comps. inside ?c2p c e) \<longleftrightarrow> ?known e" if "e \<in> set edges" for e
    using known_inside [OF assms that] .
  have "[] \<notin> set ?comps" using classes(3) by force
  then have "distinct ?comps"
    using classes(1) unfolding distinct_concat_iff by (simp add: removeAll_id)
  moreover have "c = c'" if "c \<in> set ?comps" "c' \<in> set ?comps" "inside ?c2p c e" "inside ?c2p c' e" for c c' e
    using classes(1) that unfolding distinct_concat_iff inside_def by blast
  ultimately have "mset (concat (map (\<lambda>c. filter (inside ?c2p c) edges) ?comps)) =
      mset (filter (\<lambda>e. \<exists>c\<in>set ?comps. inside ?c2p c e) edges)"
    by (rule mset_filter_split)
  also have "\<dots> = mset (filter ?known edges)"
    using known_inside [OF assms] by (intro arg_cong [where f = mset] filter_cong) auto
  finally have "mset (concat (map (\<lambda>c. map elk_edge (filter (inside ?c2p c) edges)) ?comps)) =
      mset (map elk_edge (filter ?known edges))"
    using mset_map_cong [of "concat (map (\<lambda>c. filter (inside ?c2p c) edges) ?comps)" _ elk_edge]
    by (simp add: map_concat comp_def del: mset_map mset_filter)
  moreover have "mset (concat (map (\<lambda>c. elk_edges (wrap_component
        (built ?nm (cn_children (classifyNodes nodes)) edges ?c2p w (concat ?comps))
        (concat (map (root_edges ?c2p edges) ?comps)) ?c2p c)) ?comps)) =
      mset (concat (map (\<lambda>c. map elk_edge (filter (inside ?c2p c) edges)) ?comps))"
    using wrapped_edges [OF classes(1) _ nm] by (intro mset_concat_cong) simp
  ultimately show ?thesis
    unfolding elk_input_def Let_def parent_map_def [symmetric]
    by (simp add: build_children [OF classes(1)] wrapComponents_def comp_def del: mset_map mset_filter)
qed

section \<open>Where each edge goes\<close>

text \<open>The ELK nodes that hold edges, with each of their edges; and the ids strictly below a node.\<close>

fun elk_hosts :: "ElkNode \<Rightarrow> (ElkNode \<times> ElkEdge) list" where
  "elk_hosts n = map (Pair n) (nullish (en_edges n) []) @ concat (map elk_hosts (elk_kids n))"

declare elk_hosts.simps [simp del]

fun elk_ids :: "ElkNode \<Rightarrow> string list" where
  "elk_ids n = en_id n # concat (map elk_ids (elk_kids n))"

declare elk_ids.simps [simp del]

definition node_ids_below :: "ElkNode \<Rightarrow> string list" where
  "node_ids_below n = concat (map elk_ids (elk_kids n))"

lemma own_elk_id: "en_id n \<in> set (elk_ids n)"
  by (subst elk_ids.simps) simp

lemma below_ids: "set (node_ids_below n) \<subseteq> set (elk_ids n)"
  by (subst elk_ids.simps) (auto simp: node_ids_below_def)

text \<open>The two ends of an edge are children of the same group.\<close>

definition siblings :: "RFNode list \<Rightarrow> RFEdge \<Rightarrow> string \<Rightarrow> bool" where
  "siblings nodes e g = (g \<noteq> [] \<and> (\<exists>s\<in>set nodes. rf_id s = re_source e \<and> rf_parentId s = Some g)
     \<and> (\<exists>t\<in>set nodes. rf_id t = re_target e \<and> rf_parentId t = Some g))"

lemma shared_siblings:
  assumes "distinct (map rf_id nodes)"
  shows "shared_group (parent_map nodes) e = Some g \<longleftrightarrow> siblings nodes e g"
proof -
  have "shared_group (parent_map nodes) e = Some g \<longleftrightarrow> g \<noteq> []
      \<and> map_get (parent_map nodes) (re_source e) = Some g \<and> map_get (parent_map nodes) (re_target e) = Some g"
    by (auto simp: shared_group_def Let_def truthy_iff)
  then show ?thesis by (auto simp: siblings_def parent_map_get [OF assms])
qed

abbreviation node_map :: "RFNode list \<Rightarrow> (string, RFNode) jsmap" where
  "node_map nodes \<equiv> foldl (\<lambda>m n. map_set m (rf_id n) n) [] nodes"

abbreviation child_of :: "RFNode list \<Rightarrow> real \<Rightarrow> string \<Rightarrow> ElkNode option" where
  "child_of nodes w i \<equiv> elk_child (node_map nodes) (cn_children (classifyNodes nodes)) w i"

lemma child_below:
  assumes "layout_ready nodes" "n \<in> set nodes" "rf_parentId n = Some i" "i \<noteq> []" "child_of nodes w i = Some k"
  shows "rf_id n \<in> set (node_ids_below k)"
proof -
  have d: "distinct (map rf_id nodes)" using assms(1) by (simp add: layout_ready_def)
  have t: "truthy (rf_parentId n)" using assms(3,4) by simp
  then obtain g where g: "g \<in> set nodes" "rf_id g = i" "isGroupType (rf_type g)"
    using assms(1-3) unfolding layout_ready_def by fastforce
  then have "map_get (node_map nodes) i = Some g" using get_foldl_distinct [OF d, of "\<lambda>n. n" i g] by blast
  moreover define kids where "kids = filter (\<lambda>c. rf_parentId c = Some i) (cn_children (classifyNodes nodes))"
  moreover have kid: "n \<in> set kids"
    using assms(2,3) t by (simp add: kids_def classifyNodes_def Let_def)
  ultimately have "elk_kids k = map (\<lambda>c. elk_leaf (rf_id c) w
      (nodeHeight (nullish (map_get (node_map nodes) (rf_id c)) c)) align_top) kids"
    using assms(5) g(3) length_pos_if_in_set [OF kid]
    by (auto simp: elk_child_def elk_kids_def Let_def simp flip: kids_def)
  then have "\<exists>l\<in>set (elk_kids k). en_id l = rf_id n"
    using kid by (auto simp: elk_leaf_def)
  then obtain l where "l \<in> set (elk_kids k)" "en_id l = rf_id n" by blast
  then show ?thesis using own_elk_id [of l] by (auto simp: node_ids_below_def)
qed

lemma group_kids [simp]: "elk_kids (with_group_edges c2p edges n) = elk_kids n"
  by (simp add: with_group_edges_def elk_kids_def)

lemma built_member:
  "k \<in> set (built nm cs edges c2p w ids) \<longleftrightarrow>
     (\<exists>i\<in>set ids. \<exists>n. elk_child nm cs w i = Some n \<and> k = with_group_edges c2p edges n)"
  by (auto simp: built_def map_filter_def image_iff) force+

lemma built_hosts:
  assumes "elk_child nm cs w i = Some n"
  shows "elk_hosts (with_group_edges c2p edges n)
    = map (Pair (with_group_edges c2p edges n)) (group_edges c2p edges i)"
proof -
  have leaf: "elk_hosts (elk_leaf j a b opts) = []" for j a b opts
    by (subst elk_hosts.simps) (simp add: elk_leaf_def elk_kids_def)
  have "en_edges n = None" "concat (map elk_hosts (elk_kids n)) = []"
    using assms leaf
    by (auto simp: elk_child_def elk_kids_def elk_leaf_def Let_def split: option.splits if_splits)
  then show ?thesis using elk_child_id [OF assms]
    by (subst elk_hosts.simps) (simp add: with_group_edges_def elk_kids_def)
qed

text \<open>Both ends of an edge lie below the node that holds it.\<close>

definition rightly_held :: "RFNode list \<Rightarrow> RFEdge list \<Rightarrow> ElkNode list \<Rightarrow> ElkNode \<times> ElkEdge \<Rightarrow> bool" where
  "rightly_held nodes edges tops he = (case he of (h, ee) \<Rightarrow>
     \<exists>e\<in>set edges. ee = elk_edge e \<and> re_source e \<in> set (node_ids_below h) \<and> re_target e \<in> set (node_ids_below h)
       \<and> (if \<exists>g. siblings nodes e g then siblings nodes e (en_id h)
          else h \<in> set tops \<and> starts_with ''__comp_'' (en_id h)))"

lemma group_held:
  assumes "layout_ready nodes" "child_of nodes w i = Some n"
    and "he \<in> set (elk_hosts (with_group_edges (parent_map nodes) edges n))"
  shows "rightly_held nodes edges tops he"
proof -
  let ?k = "with_group_edges (parent_map nodes) edges n"
  have d: "distinct (map rf_id nodes)" using assms(1) by (simp add: layout_ready_def)
  obtain e where e: "he = (?k, elk_edge e)" "e \<in> set edges" "shared_group (parent_map nodes) e = Some i"
    using assms(3) unfolding built_hosts [OF assms(2)] by (auto simp: group_edges_def)
  have sib: "siblings nodes e i" using e(3) shared_siblings [OF d] by blast
  have ids: "node_ids_below ?k = node_ids_below n" by (simp add: node_ids_below_def)
  have "re_source e \<in> set (node_ids_below ?k)" "re_target e \<in> set (node_ids_below ?k)"
    using sib child_below [OF assms(1) _ _ _ assms(2)] unfolding siblings_def ids by metis+
  then show ?thesis using e(1,2) sib elk_child_id [OF assms(2)]
    by (auto simp: rightly_held_def intro!: bexI [of _ e])
qed

lemma end_in_component:
  assumes "layout_ready nodes" "x \<in> rf_id ` set nodes" "top_or_self (parent_map nodes) x \<in> set c"
    and "\<And>i. i \<in> set c \<Longrightarrow> map_get (node_map nodes) i \<noteq> None"
  shows "\<exists>k\<in>set (built (node_map nodes) (cn_children (classifyNodes nodes)) edges c2p w c).
    x \<in> set (elk_ids k)"
proof -
  have d: "distinct (map rf_id nodes)" using assms(1) by (simp add: layout_ready_def)
  define i where "i = top_or_self (parent_map nodes) x"
  have "map_get (node_map nodes) i \<noteq> None" using assms(3,4) by (simp add: i_def)
  then obtain n where n: "child_of nodes w i = Some n"
    by (fastforce simp: elk_child_def Let_def split: option.splits if_splits)
  let ?k = "with_group_edges c2p edges n"
  have k: "?k \<in> set (built (node_map nodes) (cn_children (classifyNodes nodes)) edges c2p w c)"
    using n assms(3) unfolding built_member i_def by blast
  have ids: "node_ids_below ?k = node_ids_below n" by (simp add: node_ids_below_def)
  have "x \<in> set (elk_ids ?k)"
  proof (cases "map_get (parent_map nodes) x")
    case None
    then have "x = en_id ?k" using elk_child_id [OF n] by (simp add: i_def top_or_self_def)
    then show ?thesis using own_elk_id by metis
  next
    case (Some p)
    then obtain m where m: "m \<in> set nodes" "rf_id m = x" "rf_parentId m = Some p" "p \<noteq> []"
      using parent_map_get [OF d] by blast
    have "i = p" using Some by (simp add: i_def top_or_self_def)
    then have "x \<in> set (node_ids_below n)" using child_below [OF assms(1) m(1) _ _ n] m by simp
    then show ?thesis using below_ids [of ?k] ids by auto
  qed
  then show ?thesis using k by blast
qed

lemma wrapper_held:
  assumes "layout_ready nodes" "\<And>i. i \<in> set c \<Longrightarrow> map_get (node_map nodes) i \<noteq> None"
    and "set c \<subseteq> set (top_ids nodes)"
    and t: "t = (let kids = built (node_map nodes) (cn_children (classifyNodes nodes)) edges (parent_map nodes) w c;
        r = root_edges (parent_map nodes) edges c
      in if length kids = 1 \<and> r = [] then hd kids
         else ElkNode (''__comp_'' @ hd c) None None None None wrapper_options (Some kids) (Some r))"
    and "t \<in> set tops" "he \<in> set (elk_hosts t)"
  shows "rightly_held nodes edges tops he"
proof -
  let ?kids = "built (node_map nodes) (cn_children (classifyNodes nodes)) edges (parent_map nodes) w c"
  let ?r = "root_edges (parent_map nodes) edges c"
  have d: "distinct (map rf_id nodes)" using assms(1) by (simp add: layout_ready_def)
  have kid: "rightly_held nodes edges tops he" if "k \<in> set ?kids" "he \<in> set (elk_hosts k)" for k
    using that group_held [OF assms(1)] unfolding built_member by blast
  show ?thesis
  proof (cases "length ?kids = 1 \<and> ?r = []")
    case True
    then have "t \<in> set ?kids" using t by (cases ?kids) (auto simp: Let_def)
    then show ?thesis using kid assms(6) by blast
  next
    case False
    then have t': "t = ElkNode (''__comp_'' @ hd c) None None None None wrapper_options (Some ?kids) (Some ?r)"
      using t by (simp only: Let_def if_False)
    then have "elk_hosts t = map (Pair t) ?r @ concat (map elk_hosts ?kids)"
      by (subst elk_hosts.simps) (simp add: elk_kids_def)
    then consider "he \<in> Pair t ` set ?r" | k where "k \<in> set ?kids" "he \<in> set (elk_hosts k)"
      using assms(6) by auto
    then show ?thesis
    proof cases
      case 1
      then obtain e where e: "he = (t, elk_edge e)" "e \<in> set edges" "inside (parent_map nodes) c e"
        "shared_group (parent_map nodes) e = None"
        by (auto simp: root_edges_def)
      have "\<not> siblings nodes e g" for g using e(4) shared_siblings [OF d, of e g] by simp
      moreover have "x \<in> set (node_ids_below t)" if "top_or_self (parent_map nodes) x \<in> set c" for x
      proof -
        have "x \<in> rf_id ` set nodes" using that assms(3) top_known [OF assms(1)] by blast
        from end_in_component [OF assms(1) this that assms(2)] show ?thesis
          by (auto simp: t' node_ids_below_def elk_kids_def)
      qed
      moreover have "starts_with ''__comp_'' (en_id t)"
        by (simp only: t' ElkNode.sel starts_with_append)
      ultimately show ?thesis using e assms(5)
        by (auto simp: rightly_held_def inside_def intro!: bexI [of _ e])
    qed (rule kid)
  qed
qed

lemma elk_graph_held:
  assumes "layout_ready nodes"
  shows "list_all (rightly_held nodes edges (fst (elk_input nodes edges w)))
    (concat (map elk_hosts (fst (elk_input nodes edges w))))"
proof -
  let ?c2p = "parent_map nodes" and ?cs = "cn_children (classifyNodes nodes)"
  let ?comps = "findComponents (top_ids nodes) edges ?c2p"
  have d: "distinct (map rf_id nodes)" using assms by (simp add: layout_ready_def)
  note classes = findComponents_classes [OF ready_parents_on_top [OF assms], where edges = edges]
  have tops: "set c \<subseteq> set (top_ids nodes)" if "c \<in> set ?comps" for c
    using classes(2) that unfolding set_concat by blast
  have nm: "map_get (node_map nodes) i \<noteq> None" if "c \<in> set ?comps" "i \<in> set c" for c i
  proof -
    have "i \<in> set (top_ids nodes)" using tops that by blast
    then obtain n where "n \<in> set nodes" "rf_id n = i" by (auto simp: set_top_ids)
    then show ?thesis using get_foldl_distinct [OF d, of "\<lambda>n. n" i n] by auto
  qed
  have input: "fst (elk_input nodes edges w) = map (wrap_component (built (node_map nodes) ?cs edges ?c2p w
      (concat ?comps)) (concat (map (root_edges ?c2p edges) ?comps)) ?c2p) ?comps"
    unfolding elk_input_def Let_def parent_map_def [symmetric]
    by (simp add: build_children [OF classes(1)] wrapComponents_def)
  have "rightly_held nodes edges (fst (elk_input nodes edges w)) he"
    if t: "t \<in> set (fst (elk_input nodes edges w))" "he \<in> set (elk_hosts t)" for t he
  proof -
    obtain c where c: "c \<in> set ?comps" "t = wrap_component (built (node_map nodes) ?cs edges ?c2p w
        (concat ?comps)) (concat (map (root_edges ?c2p edges) ?comps)) ?c2p c"
      using t(1) unfolding input by auto
    have "t = (let kids = built (node_map nodes) ?cs edges ?c2p w c; r = root_edges ?c2p edges c
      in if length kids = 1 \<and> r = [] then hd kids
         else ElkNode (''__comp_'' @ hd c) None None None None wrapper_options (Some kids) (Some r))"
      unfolding c(2) wrap_component_def component_children [OF classes(1) c(1)]
        component_root_edges [OF classes(1) c(1)] ..
    from wrapper_held [OF assms nm [OF c(1)] tops [OF c(1)] this t] show ?thesis .
  qed
  then show ?thesis by (auto simp: list_all_iff)
qed

text \<open>
  C26. The layout hands ELK each edge whose two ends are nodes of the list exactly once, and no
  other edge. Each is held by an ELK node below which both of its ends lie: by their group when both
  ends are children of one group, and by a component's wrapper at the top level otherwise. The nodes
  are assumed to be as the graph conversion makes them: distinct nonempty ids, and only groups as
  parents, which have no parent themselves (flat graph view).
\<close>

theorem elk_graph_keeps_edges:
  assumes "layout_ready nodes"
  shows "let tops = fst (elk_input nodes edges w); held = concat (map elk_hosts tops) in
    mset (map snd held) = mset (map elk_edge (filter (\<lambda>e. re_source e \<in> rf_id ` set nodes \<and>
        re_target e \<in> rf_id ` set nodes) edges))
    \<and> list_all (\<lambda>(h, ee). \<exists>e\<in>set edges. ee = elk_edge e
        \<and> re_source e \<in> set (node_ids_below h) \<and> re_target e \<in> set (node_ids_below h)
        \<and> (if \<exists>g. siblings nodes e g then siblings nodes e (en_id h)
           else h \<in> set tops \<and> starts_with ''__comp_'' (en_id h))) held"
proof -
  have "map snd (elk_hosts n) = elk_edges n" for n
    by (induction n rule: elk_hosts.induct)
      (subst elk_hosts.simps, subst elk_edges.simps, simp add: comp_def map_concat cong: map_cong)
  then have "map snd (concat (map elk_hosts ts)) = concat (map elk_edges ts)" for ts
    by (simp add: map_concat comp_def)
  then show ?thesis
    using elk_graph_bag [OF assms, of edges w] elk_graph_held [OF assms, of edges w]
    unfolding Let_def rightly_held_def by presburger
qed

definition sample_flow_nodes :: "RFNode list" where
  "sample_flow_nodes =
     [rf_node ''g'' ''networkGroup'' None (PlainData (bare_node ''g'' Network ''net'')),
      rf_node ''a'' ''containerNode'' (Some ''g'') (PlainData (bare_node ''a'' Container ''web'')),
      rf_node ''b'' ''volumeNode'' None (PlainData (bare_node ''b'' Volume ''data''))]"

lemma sample_flow_ready: "layout_ready sample_flow_nodes"
  by (simp add: layout_ready_def sample_flow_nodes_def isGroupType_def)

theorem elk_graph_keeps_edges_witness:
  "mset (map snd (concat (map elk_hosts (fst (elk_input sample_flow_nodes
      [sample_link ''a'' ''b'', sample_link ''a'' ''gone''] 200))))) = {#elk_edge (sample_link ''a'' ''b'')#}"
  using elk_graph_keeps_edges [OF sample_flow_ready,
      of "[sample_link ''a'' ''b'', sample_link ''a'' ''gone'']" 200]
  by (simp add: sample_flow_nodes_def sample_link_def Let_def)

end
