(* ===== verification/Colors.thy ===== *)
theory Colors
  imports Stack Constants "HOL-Library.Word"
begin

text \<open>
  Identity and status colours (\<^verbatim>\<open>utils/colors.ts\<close>) and the bounded caches of the frontend.
  The string hash is 32-bit two's complement arithmetic; its absolute value is taken as a
  number, so the hash of \<open>-2\<^sup>3\<^sup>1\<close> is \<open>2\<^sup>3\<^sup>1\<close>. The network colour goes through a first-in
  first-out cache of 256 entries, an instance of the locale \<open>memo\<close>: whatever was asked before,
  the answer is that of the pure function.
\<close>

unbundle bit_operations_syntax

section \<open>Bounded caches\<close>

text \<open>
  A lookup that computes and stores a missing value, dropping the oldest entry (the first key
  of the \<open>Map\<close>) when the cache is full.
\<close>

definition cache_store :: "nat \<Rightarrow> ('k, 'v) jsmap \<Rightarrow> 'k \<Rightarrow> 'v \<Rightarrow> ('k, 'v) jsmap" where
  "cache_store cap cache k v =
     map_set (if length (map_keys cache) \<ge> cap then map_delete cache (hd (map_keys cache)) else cache) k v"

definition cached :: "nat \<Rightarrow> ('k \<Rightarrow> 'v) \<Rightarrow> ('k, 'v) jsmap \<Rightarrow> 'k \<Rightarrow> 'v \<times> ('k, 'v) jsmap" where
  "cached cap f cache k =
     (case map_get cache k of Some v \<Rightarrow> (v, cache) | None \<Rightarrow> (f k, cache_store cap cache k (f k)))"

locale memo =
  fixes pure :: "'q \<Rightarrow> 'v"
    and look :: "'m \<Rightarrow> 'q \<Rightarrow> 'v \<times> 'm"
    and valid :: "'m \<Rightarrow> bool"
  assumes look_pure: "valid m \<Longrightarrow> fst (look m q) = pure q"
    and look_valid: "valid m \<Longrightarrow> valid (snd (look m q))"
begin

text \<open>A sequence of lookups, with the answers it gives.\<close>

primrec answers :: "'m \<Rightarrow> 'q list \<Rightarrow> 'v list" where
  "answers m [] = []"
| "answers m (q # qs) = fst (look m q) # answers (snd (look m q)) qs"

lemma answers_pure: "valid m \<Longrightarrow> answers m qs = map pure qs"
  by (induction qs arbitrary: m) (simp_all add: look_pure look_valid)

lemma valid_after: "valid m \<Longrightarrow> valid (foldl (\<lambda>m q. snd (look m q)) m qs)"
  by (induction qs arbitrary: m) (simp_all add: look_valid)

end

definition cache_of :: "nat \<Rightarrow> ('k \<Rightarrow> 'v) \<Rightarrow> ('k, 'v) jsmap \<Rightarrow> bool" where
  "cache_of cap f cache \<longleftrightarrow> (\<forall>k v. map_get cache k = Some v \<longrightarrow> v = f k) \<and> distinct (map_keys cache)
     \<and> length (map_keys cache) \<le> cap"

lemma cache_of_Nil [simp]: "cache_of cap f []"
  by (simp add: cache_of_def)

lemma length_map_delete:
  assumes "distinct (map_keys m)" "map_keys m \<noteq> []"
  shows "length (map_keys (map_delete m (hd (map_keys m)))) < length (map_keys m)"
  using assms by (cases "map_keys m") (auto simp: js.keys_del less_Suc_eq_le)

lemma cache_store_of:
  assumes "cache_of cap f cache" "0 < cap"
  shows "cache_of cap f (cache_store cap cache k (f k))"
proof (cases "length (map_keys cache) \<ge> cap")
  case False
  then show ?thesis
    using assms js.size_put_le [of cache k "f k"]
    by (auto simp: cache_of_def cache_store_def js.get_put js.distinct_put split: if_splits)
next
  case True
  then have "map_keys cache \<noteq> []" using assms(2) by auto
  then have "length (map_keys (map_delete cache (hd (map_keys cache)))) < cap"
    using length_map_delete [of cache] assms by (simp add: cache_of_def)
  then have "length (map_keys (cache_store cap cache k (f k))) \<le> cap"
    using js.size_put_le [of "map_delete cache (hd (map_keys cache))" k "f k"] True
    by (simp add: cache_store_def)
  then show ?thesis
    using assms True
    by (auto simp: cache_of_def cache_store_def js.get_put js.get_del js.distinct_put js.distinct_del
        split: if_splits)
qed

lemma cached_memo: "0 < cap \<Longrightarrow> memo f (cached cap f) (cache_of cap f)"
  by unfold_locales (auto simp: cached_def cache_store_of split: option.split,
      auto simp: cache_of_def)

section \<open>Colours\<close>

definition PALETTE :: "string list" where
  "PALETTE = [''#3b82f6'', ''#a855f7'', ''#22c55e'', ''#f59e0b'', ''#ef4444'', ''#06b6d4'',
     ''#ec4899'', ''#f97316'']"

definition VOLUME_COLOR :: string where
  "VOLUME_COLOR = ''#f97316''"

definition MAX_CACHE_SIZE :: nat where
  "MAX_CACHE_SIZE = 256"

text \<open>\<open>((hash << 5) - hash + code) | 0\<close>.\<close>

definition hash_char :: "32 word \<Rightarrow> char \<Rightarrow> 32 word" where
  "hash_char h c = push_bit 5 h - h + of_nat (of_char c)"

definition hashString :: "string \<Rightarrow> nat" where
  "hashString str = nat \<bar>sint (foldl hash_char 0 str)\<bar>"

definition palette_color :: "string \<Rightarrow> string" where
  "palette_color name = PALETTE ! (hashString name mod length PALETTE)"

definition networkColor :: "(string, string) jsmap \<Rightarrow> string \<Rightarrow> string option \<Rightarrow>
    string \<times> (string, string) jsmap" where
  "networkColor cache name stack = cached MAX_CACHE_SIZE palette_color cache (stripStackPrefix name stack)"

definition NO_STACK_COLOR :: string where
  "NO_STACK_COLOR = ''#64748b''"

definition stackColor :: "string option \<Rightarrow> string" where
  "stackColor stack = (if \<not> truthy stack then NO_STACK_COLOR else palette_color (the stack))"

definition SWARM_NODE_STATE_COLORS :: "(string, string) jsmap" where
  "SWARM_NODE_STATE_COLORS = [(''ready'', ''#22c55e''), (''down'', ''#ef4444''),
     (''disconnected'', ''#ef4444''), (''unknown'', ''#f59e0b'')]"

definition swarmNodeStateColor :: "string option \<Rightarrow> string" where
  "swarmNodeStateColor state =
     nullish (map_get SWARM_NODE_STATE_COLORS (nullish state ''unknown''))
       (the (map_get SWARM_NODE_STATE_COLORS ''unknown''))"

text \<open>The colours of a role in the dark and the light theme.\<close>

definition SWARM_ROLE_COLORS :: "swarm_role \<Rightarrow> string \<times> string" where
  "SWARM_ROLE_COLORS r = (case r of Manager \<Rightarrow> (''#a78bfa'', ''#7c3aed'') | Worker \<Rightarrow> (''#22d3ee'', ''#0e7490''))"

definition swarmRoleColor :: "swarm_role \<Rightarrow> bool \<Rightarrow> string" where
  "swarmRoleColor r dark = (if dark then fst (SWARM_ROLE_COLORS r) else snd (SWARM_ROLE_COLORS r))"

definition STATUS_COLORS :: "(string, string) jsmap" where
  "STATUS_COLORS = [(''running'', ''#22c55e''), (''unhealthy'', ''#f59e0b''), (''paused'', ''#3b82f6''),
     (''exited'', ''#ef4444''), (''dead'', ''#a855f7''), (''created'', ''#06b6d4''),
     (''not_running'', ''#64748b''), (''degraded'', ''#f59e0b''), (''updating'', ''#3b82f6''),
     (''stopped'', ''#ef4444''), (''completed'', ''#14b8a6''), (''unknown'', ''#64748b'')]"

definition cpuColor :: "real \<Rightarrow> real \<Rightarrow> string" where
  "cpuColor cpu throttle =
     (if cpu \<ge> STATS_CPU_CRIT \<or> throttle \<ge> STATS_THROTTLE_CRIT then ''#ef4444''
      else if cpu \<ge> STATS_CPU_WARN \<or> throttle > 0 then ''#f59e0b'' else ''#22c55e'')"

definition STATUS_LABELS :: "(string, string) jsmap" where
  "STATUS_LABELS = [(''running'', ''Running''), (''unhealthy'', ''Unhealthy''), (''paused'', ''Paused''),
     (''exited'', ''Exited''), (''dead'', ''Dead''), (''created'', ''Created''),
     (''not_running'', ''Not running''), (''degraded'', ''Degraded''), (''updating'', ''Updating''),
     (''stopped'', ''Stopped''), (''completed'', ''Completed''), (''unknown'', ''Unknown'')]"

text \<open>Every status with a colour has a label, and the other way round.\<close>

lemma status_tables: "map_keys STATUS_COLORS = map_keys STATUS_LABELS"
  by (simp add: STATUS_COLORS_def STATUS_LABELS_def map_keys_def)

section \<open>Network colours do not depend on history\<close>

lemma hashString_bound: "hashString s \<le> 2 ^ 31"
  using sint_range_size [of "foldl hash_char 0 s"]
  by (simp add: hashString_def word_size nat_le_iff abs_le_iff)

lemma palette_in: "palette_color n \<in> set PALETTE"
  unfolding palette_color_def by (rule nth_mem) (simp add: PALETTE_def)

definition color_cache :: "(string, string) jsmap \<Rightarrow> bool" where
  "color_cache = cache_of MAX_CACHE_SIZE palette_color"

definition network_query :: "(string, string) jsmap \<Rightarrow> string \<times> string option \<Rightarrow> string \<times> (string, string) jsmap" where
  "network_query cache q = networkColor cache (fst q) (snd q)"

interpretation palette: memo palette_color "cached MAX_CACHE_SIZE palette_color" color_cache
  unfolding color_cache_def by (rule cached_memo) (simp add: MAX_CACHE_SIZE_def)

interpretation colors: memo "\<lambda>(name, stack). palette_color (stripStackPrefix name stack)"
  network_query color_cache
  by unfold_locales
    (auto simp: network_query_def networkColor_def palette.look_pure palette.look_valid)

text \<open>
  A network's colour depends only on its name without the stack prefix: whatever colours
  were asked for before, in any number and order, past any evictions, it is the palette entry
  of the name's hash, and the cache never holds more than 256 entries.
\<close>

lemma network_color_pure:
  "let cache = foldl (\<lambda>m q. snd (networkColor m (fst q) (snd q))) [] qs
   in fst (networkColor cache name stack) = PALETTE ! (hashString (stripStackPrefix name stack) mod 8)
    \<and> fst (networkColor cache name stack) \<in> set PALETTE
    \<and> length (map_keys (snd (networkColor cache name stack))) \<le> 256"
proof -
  let ?cache = "foldl (\<lambda>m q. snd (networkColor m (fst q) (snd q))) [] qs"
  have "color_cache ?cache"
    using colors.valid_after [of "[]" qs] by (simp add: network_query_def color_cache_def)
  then have "fst (networkColor ?cache name stack) = palette_color (stripStackPrefix name stack)"
    "color_cache (snd (networkColor ?cache name stack))"
    using colors.look_pure [of ?cache "(name, stack)"] colors.look_valid [of ?cache "(name, stack)"]
    by (simp_all add: network_query_def)
  then show ?thesis
    using palette_in [of "stripStackPrefix name stack"]
    by (simp add: Let_def color_cache_def cache_of_def MAX_CACHE_SIZE_def palette_color_def PALETTE_def)
qed

end
