(* ===== verification/Elk.thy ===== *)
theory Elk
  imports EdgePaths ElkGraphCorrect Colors
begin

text \<open>
  The network layout (\<^verbatim>\<open>layout/elk.ts\<close>, \<^verbatim>\<open>layout/elkPositions.ts\<close>): names are measured, the
  graph is handed to ELK, and the positions and routes it returns are written back. ELK, the
  canvas's \<open>measureText\<close> and the page's font family are parameters; an exception and a
  rejected promise are \<open>None\<close>. React Flow nodes are objects the code mutates through several
  references, so they live in a store (a list) and are referred to by index.
\<close>

section \<open>Measuring names\<close>

record Font =
  ft_weight :: nat
  ft_size :: real

definition monoLabel :: "real \<Rightarrow> Font" where
  "monoLabel fontSize = \<lparr>ft_weight = 600, ft_size = fontSize\<rparr>"

definition NODE_NAME_FONT :: Font where "NODE_NAME_FONT = monoLabel (125 / 10)"
definition VOLUME_NAME_FONT :: Font where "VOLUME_NAME_FONT = monoLabel (115 / 10)"
definition REPLICA_BADGE_FONT :: Font where "REPLICA_BADGE_FONT = monoLabel 10"

definition MIN_NODE_WIDTH :: real where "MIN_NODE_WIDTH = 140"
definition MAX_NODE_WIDTH :: real where "MAX_NODE_WIDTH = 280"
definition BADGE_CHROME :: real where "BADGE_CHROME = 12"
definition BADGE_MIN_TEXT :: string where "BADGE_MIN_TEXT = ''00/00''"
definition MAX_LABEL_CACHE_SIZE :: nat where "MAX_LABEL_CACHE_SIZE = 1024"

definition NAME_ROW_CHROME :: "string \<Rightarrow> real" where
  "NAME_ROW_CHROME t = (if t = ''serviceNode'' then 48 else if t = ''volumeNode'' then 58 else 54)"

text \<open>The font stack is read from a style property; an empty one falls back.\<close>

definition canvasFont :: "string \<Rightarrow> Font \<Rightarrow> string" where
  "canvasFont family font = string_of_nat (ft_weight font) @ '' '' @ js_number (ft_size font) @ ''px ''
     @ (if family = [] then ''monospace'' else family)"

type_synonym width_cache = "(string, real) jsmap"
type_synonym text_measure = "string \<Rightarrow> string \<Rightarrow> real"

definition textWidth :: "text_measure \<Rightarrow> width_cache \<Rightarrow> string \<Rightarrow> string \<Rightarrow> real \<times> width_cache" where
  "textWidth msr cache font txt =
     (let cacheKey = font @ ''|'' @ txt in
      case map_get cache cacheKey of
        Some width \<Rightarrow> (width, cache)
      | None \<Rightarrow> (msr font txt, cache_store MAX_LABEL_CACHE_SIZE cache cacheKey (msr font txt)))"

definition graph_node_of :: "RFNode \<Rightarrow> DGNode option" where
  "graph_node_of n = (case rf_data n of PlainData d \<Rightarrow> Some d | _ \<Rightarrow> None)"

definition node_replicas :: "RFNode \<Rightarrow> DGNode \<Rightarrow> ReplicaCount option" where
  "node_replicas n d = (if rf_type n = ''serviceNode''
     then map_option si_replicas (dg_service d) else None)"

definition measure_name :: "text_measure \<Rightarrow> string \<Rightarrow> RFNode \<Rightarrow> DGNode \<Rightarrow> width_cache \<Rightarrow> real \<times> width_cache" where
  "measure_name msr family n d cache =
     (let font = canvasFont family (if rf_type n = ''volumeNode'' then VOLUME_NAME_FONT else NODE_NAME_FONT);
          badge = canvasFont family REPLICA_BADGE_FONT;
          (w, cache1) = textWidth msr cache font (dg_name d);
          width = w + NAME_ROW_CHROME (rf_type n)
      in case node_replicas n d of
           None \<Rightarrow> (width, cache1)
         | Some r \<Rightarrow>
             let (b1, cache2) = textWidth msr cache1 badge (replicaText r (dg_status d));
                 (b2, cache3) = textWidth msr cache2 badge BADGE_MIN_TEXT
             in (width + (max b1 b2 + BADGE_CHROME), cache3))"

definition measure_step :: "text_measure \<Rightarrow> string \<Rightarrow> (real \<times> width_cache) option \<Rightarrow> RFNode \<Rightarrow>
    (real \<times> width_cache) option" where
  "measure_step msr family st n =
     (case st of
        None \<Rightarrow> None
      | Some (maxW, cache) \<Rightarrow>
          if isGroupType (rf_type n) then st
          else case graph_node_of n of
                 None \<Rightarrow> None
               | Some d \<Rightarrow> let (width, cache') = measure_name msr family n d cache
                           in Some (max maxW width, cache'))"

definition measureNodeWidth :: "text_measure \<Rightarrow> string \<Rightarrow> width_cache \<Rightarrow> RFNode list \<Rightarrow>
    (real \<times> width_cache) option" where
  "measureNodeWidth msr family cache nodes =
     map_option (\<lambda>(maxW, cache'). (max MIN_NODE_WIDTH (min MAX_NODE_WIDTH (of_int \<lceil>maxW\<rceil>)), cache'))
       (foldl (measure_step msr family) (Some (0, cache)) nodes)"

section \<open>Positions\<close>

type_synonym node_store = "RFNode list"

definition update_rf :: "(string, nat) jsmap \<Rightarrow> string \<Rightarrow> (RFNode \<Rightarrow> RFNode) \<Rightarrow> node_store \<Rightarrow> node_store" where
  "update_rf nodeMap i f store =
     (case map_get nodeMap i of None \<Rightarrow> store | Some k \<Rightarrow> store[k := f (store ! k)])"

definition elk_placed :: "real \<Rightarrow> real \<Rightarrow> ElkNode \<Rightarrow> RFNode \<Rightarrow> RFNode" where
  "elk_placed offsetX offsetY e n =
     (let n1 = n\<lparr>rf_pos := (nullish (en_x e) 0 + offsetX, nullish (en_y e) 0 + offsetY)\<rparr>
      in if isGroupType (rf_type n) then n1\<lparr>rf_width := en_width e, rf_height := en_height e\<rparr> else n1)"

definition place_elk_child :: "(string, nat) jsmap \<Rightarrow> node_store \<Rightarrow> ElkNode \<Rightarrow> node_store" where
  "place_elk_child nodeMap store c =
     update_rf nodeMap (en_id c) (\<lambda>n. n\<lparr>rf_pos := (nullish (en_x c) 0, nullish (en_y c) 0)\<rparr>) store"

definition place_elk_node :: "(string, nat) jsmap \<Rightarrow> real \<Rightarrow> real \<Rightarrow> node_store \<Rightarrow> ElkNode \<Rightarrow> node_store" where
  "place_elk_node nodeMap offsetX offsetY store e =
     (if \<not> map_has nodeMap (en_id e) then store
      else foldl (place_elk_child nodeMap)
             (update_rf nodeMap (en_id e) (elk_placed offsetX offsetY e) store) (elk_kids e))"

definition place_top_node :: "(string, nat) jsmap \<Rightarrow> node_store \<Rightarrow> ElkNode \<Rightarrow> node_store" where
  "place_top_node nodeMap store topNode =
     (if starts_with ''__comp_'' (en_id topNode)
      then foldl (place_elk_node nodeMap (nullish (en_x topNode) 0) (nullish (en_y topNode) 0)) store (elk_kids topNode)
      else place_elk_node nodeMap 0 0 store topNode)"

definition applyElkPositions :: "ElkNode \<Rightarrow> (string, nat) jsmap \<Rightarrow> node_store \<Rightarrow> node_store" where
  "applyElkPositions layout nodeMap store = foldl (place_top_node nodeMap) store (elk_kids layout)"

section \<open>The pipeline\<close>

definition root_options :: "(string \<times> string) list" where
  "root_options = [(''elk.algorithm'', ''layered''), (''elk.direction'', ''DOWN''),
     (''elk.edgeRouting'', ''ORTHOGONAL''), (''elk.separateConnectedComponents'', ''true''),
     (''elk.spacing.nodeNode'', ''40''), (''elk.aspectRatio'', ''1.4''),
     (''elk.padding'', ''[top=0,left=0,bottom=0,right=0]'')]"

definition elk_root :: "RFNode list \<Rightarrow> RFEdge list \<Rightarrow> real \<Rightarrow> ElkNode" where
  "elk_root nodes edges nodeWidth =
     (let (kids, es) = elk_input nodes edges nodeWidth
      in ElkNode ''root'' None None None None root_options (Some kids) (Some es))"

fun with_path :: "string \<Rightarrow> rf_edge_data \<Rightarrow> rf_edge_data" where
  "with_path p (ElkData t active animated nodeCount _) = ElkData t active animated nodeCount (Some p)"
| "with_path p d = d"

definition update_edge :: "(string, string) jsmap \<Rightarrow> RFEdge \<Rightarrow> RFEdge" where
  "update_edge edgePaths e =
     (if truthy (map_get edgePaths (re_id e))
      then e\<lparr>re_type := ''elk'', re_data := with_path (the (map_get edgePaths (re_id e))) (re_data e)\<rparr>
      else e)"

text \<open>The indices of the groups, the children and the free nodes, in this order.\<close>

definition all_node_refs :: "RFNode list \<Rightarrow> nat list" where
  "all_node_refs nodes =
     (let refs = [0..<length nodes] in
      filter (\<lambda>k. isGroupType (rf_type (nodes ! k))) refs @ filter (\<lambda>k. truthy (rf_parentId (nodes ! k))) refs
      @ filter (\<lambda>k. \<not> isGroupType (rf_type (nodes ! k)) \<and> \<not> truthy (rf_parentId (nodes ! k))) refs)"

definition widen_node :: "real \<Rightarrow> node_store \<Rightarrow> nat \<Rightarrow> node_store" where
  "widen_node nodeWidth store k =
     (if isGroupType (rf_type (store ! k)) then store
      else store[k := (store ! k)\<lparr>rf_nodeWidth := Some nodeWidth\<rparr>])"

definition computeLayout :: "(ElkNode \<Rightarrow> ElkNode option) \<Rightarrow> text_measure \<Rightarrow> string \<Rightarrow> width_cache \<Rightarrow>
    RFNode list \<Rightarrow> RFEdge list \<Rightarrow> (RFNode list \<times> RFEdge list \<times> width_cache) option" where
  "computeLayout elk msr family cache nodes edges =
     (case measureNodeWidth msr family cache nodes of
        None \<Rightarrow> None
      | Some (nodeWidth, cache') \<Rightarrow>
          (case elk (elk_root nodes edges nodeWidth) of
             None \<Rightarrow> None
           | Some layout \<Rightarrow>
               let nodeMap = foldl (\<lambda>m k. map_set m (rf_id (nodes ! k)) k) [] [0..<length nodes];
                   store = applyElkPositions layout nodeMap nodes;
                   edgePaths = extractEdgePaths layout 0 0 [];
                   refs = all_node_refs nodes;
                   store' = foldl (widen_node nodeWidth) store refs
               in Some (map (nth store') refs, map (update_edge edgePaths) edges, cache')))"

section \<open>What the layout keeps\<close>

text \<open>The parts of a node no layout step may change.\<close>

definition identity_of :: "RFNode \<Rightarrow> string \<times> string \<times> string option \<times> rf_data" where
  "identity_of n = (rf_id n, rf_type n, rf_parentId n, rf_data n)"

definition same_identities :: "RFNode list \<Rightarrow> RFNode list \<Rightarrow> bool" where
  "same_identities xs ys \<longleftrightarrow> map identity_of xs = map identity_of ys"

lemma same_update:
  assumes "\<And>n. identity_of (f n) = identity_of n"
  shows "map identity_of (store[k := f (store ! k)]) = map identity_of store"
  using assms by (cases "k < length store") (simp_all add: map_update list_update_same_conv list_update_beyond)

lemma identity_updates [simp]:
  "identity_of (elk_placed x y e n) = identity_of n"
  "identity_of (n\<lparr>rf_pos := p\<rparr>) = identity_of n"
  "identity_of (n\<lparr>rf_nodeWidth := w\<rparr>) = identity_of n"
  by (simp_all add: identity_of_def elk_placed_def Let_def)

lemma identity_update_rf [simp]:
  "(\<And>n. identity_of (f n) = identity_of n) \<Longrightarrow>
     map identity_of (update_rf nm i f store) = map identity_of store"
  by (simp add: update_rf_def same_update split: option.split)

lemma foldl_keeps:
  "(\<And>s x. g (f s x) = g s) \<Longrightarrow> g (foldl f s xs) = g s"
  by (induction xs arbitrary: s) simp_all

lemma identity_elk_child [simp]: "map identity_of (place_elk_child nm store c) = map identity_of store"
  by (simp add: place_elk_child_def)

lemma identity_elk_node [simp]: "map identity_of (place_elk_node nm x y store e) = map identity_of store"
  by (simp add: place_elk_node_def foldl_keeps [where g = "map identity_of"])

lemma identity_top_node [simp]: "map identity_of (place_top_node nm store t) = map identity_of store"
  by (simp add: place_top_node_def foldl_keeps [where g = "map identity_of"])

lemma identity_positions [simp]: "map identity_of (applyElkPositions l nm store) = map identity_of store"
  by (simp add: applyElkPositions_def foldl_keeps [where g = "map identity_of"])

lemma identity_widen [simp]: "map identity_of (widen_node w store k) = map identity_of store"
  by (simp add: widen_node_def same_update)

lemma node_width_bounds:
  "measureNodeWidth m fam c ns = Some (w, c') \<Longrightarrow> MIN_NODE_WIDTH \<le> w \<and> w \<le> MAX_NODE_WIDTH"
  by (auto simp: measureNodeWidth_def MIN_NODE_WIDTH_def MAX_NODE_WIDTH_def)

lemma identity_of_edge [simp]: "re_id (update_edge paths e) = re_id e" "re_source (update_edge paths e) = re_source e"
  "re_target (update_edge paths e) = re_target e"
  by (simp_all add: update_edge_def)

lemma mset_refs:
  assumes "\<forall>n\<in>set nodes. truthy (rf_parentId n) \<longrightarrow> \<not> isGroupType (rf_type n)"
  shows "mset (all_node_refs nodes) = mset [0..<length nodes]"
proof -
  let ?refs = "[0..<length nodes]" and ?g = "\<lambda>k. isGroupType (rf_type (nodes ! k))" and ?p = "\<lambda>k. truthy (rf_parentId (nodes ! k))"
  have "mset ?refs = mset (filter (\<lambda>k. (?g k \<or> ?p k) \<or> (\<not> ?g k \<and> \<not> ?p k)) ?refs)"
    by (intro arg_cong [where f = mset] filter_True [symmetric]) auto
  also have "\<dots> = mset (filter (\<lambda>k. ?g k \<or> ?p k) ?refs) + mset (filter (\<lambda>k. \<not> ?g k \<and> \<not> ?p k) ?refs)"
    by (rule mset_filter_disj) auto
  also have "mset (filter (\<lambda>k. ?g k \<or> ?p k) ?refs) = mset (filter ?g ?refs) + mset (filter ?p ?refs)"
    by (rule mset_filter_disj) (use assms in auto)
  finally show ?thesis by (simp only: all_node_refs_def Let_def mset_append add.assoc)
qed

lemma compute_layout_keeps:
  assumes "computeLayout elk m fam c nodes edges = Some (ns, es, c')"
    and "\<forall>n\<in>set nodes. truthy (rf_parentId n) \<longrightarrow> \<not> isGroupType (rf_type n)"
  shows "mset (map identity_of ns) = mset (map identity_of nodes)"
    "map re_id es = map re_id edges" "map re_source es = map re_source edges" "map re_target es = map re_target edges"
proof -
  obtain w layout where ns: "ns = map (nth (foldl (widen_node w) (applyElkPositions layout
        (foldl (\<lambda>m k. map_set m (rf_id (nodes ! k)) k) [] [0..<length nodes]) nodes) (all_node_refs nodes)))
        (all_node_refs nodes)"
    and es: "es = map (update_edge (extractEdgePaths layout 0 0 [])) edges"
  proof -
    obtain w c1 layout where run: "measureNodeWidth m fam c nodes = Some (w, c1)"
        "elk (elk_root nodes edges w) = Some layout"
      using assms(1) by (auto simp: computeLayout_def split: option.splits)
    show thesis
      using assms(1) by (intro that [of w layout]) (simp_all add: computeLayout_def run Let_def del: map_eq_conv)
  qed
  define store where "store = foldl (widen_node w) (applyElkPositions layout
        (foldl (\<lambda>m k. map_set m (rf_id (nodes ! k)) k) [] [0..<length nodes]) nodes) (all_node_refs nodes)"
  have kept: "map identity_of store = map identity_of nodes"
    unfolding store_def by (simp add: foldl_keeps [where g = "map identity_of"])
  note ns = ns [folded store_def] kept
  have len: "length store = length nodes" using kept by (metis length_map)
  have at_index: "identity_of (store ! k) = identity_of (nodes ! k)" if "k < length nodes" for k
    using that len kept by (metis nth_map)
  have refs: "k < length nodes" if "k \<in> set (all_node_refs nodes)" for k
    using that by (auto simp: all_node_refs_def Let_def)
  have "map identity_of ns = map (\<lambda>k. identity_of (nodes ! k)) (all_node_refs nodes)"
    unfolding ns(1) map_map by (rule map_cong [OF refl]) (simp add: refs at_index)
  then have "mset (map identity_of ns) = image_mset (\<lambda>k. identity_of (nodes ! k)) (mset [0..<length nodes])"
    by (simp only: mset_map mset_refs [OF assms(2)])
  also have "\<dots> = mset (map identity_of (map (nth nodes) [0..<length nodes]))"
    by (simp only: mset_map map_map comp_def)
  finally show "mset (map identity_of ns) = mset (map identity_of nodes)" by (simp only: map_nth)
  show "map re_id es = map re_id edges" "map re_source es = map re_source edges" "map re_target es = map re_target edges"
    using es by simp_all
qed

end
