(* ===== verification/GraphTransform.thy ===== *)
theory GraphTransform
  imports Elk
begin

text \<open>
  The network view (\<^verbatim>\<open>utils/graphTransform.ts\<close>): graph nodes become React Flow nodes, with
  containers and services inside the group of their network and volumes inside the group of
  their first consumer, and graph edges become coloured edges. The lemmas show that every
  workload and volume is drawn once and that the result meets what the layout relies on
  (\<open>layout_ready\<close>): a workload whose network is hidden or absent is never orphaned.
\<close>

definition UNMANAGED_GROUP_ID :: string where
  "UNMANAGED_GROUP_ID = ''group:unmanaged''"

definition isEndpointActive :: "DGNode option \<Rightarrow> bool" where
  "isEndpointActive o1 = (case o1 of
     None \<Rightarrow> False
   | Some n \<Rightarrow> if dg_type n = Service then isServiceLive n
               else if dg_type n \<noteq> Container then True
               else nullish (dg_status n) [] = ''running'')"

section \<open>Nodes\<close>

definition group_node :: "DGNode \<Rightarrow> RFNode" where
  "group_node d = (rf_node (dg_id d) ''networkGroup'' None (PlainData d))
     \<lparr>rf_width := Some 200, rf_height := Some 150\<rparr>"

definition unmanaged :: "DGNode \<Rightarrow> bool" where
  "unmanaged c \<longleftrightarrow> \<not> truthy (dg_source c) \<and> \<not> truthy (dg_networkId c)"

definition buildNetworkGroups :: "DGNode list \<Rightarrow> DGNode list \<Rightarrow> DGEdge list \<Rightarrow> RFNode list" where
  "buildNetworkGroups networks containers dgEdges =
     (let withChildren = map dg_networkId (filter (\<lambda>c. truthy (dg_networkId c)) containers);
          withEdges = map de_target (filter (\<lambda>e. de_type e = SecondaryNetwork) dgEdges)
      in map group_node (filter (\<lambda>n. Some (dg_id n) \<in> set withChildren \<or> dg_id n \<in> set withEdges) networks)
         @ (if list_ex unmanaged containers
            then [group_node (bare_node UNMANAGED_GROUP_ID Network ''unmanaged'')] else []))"

text \<open>\<open>c.networkId ?? (!c.source ? UNMANAGED_GROUP_ID : undefined)\<close>.\<close>

definition wanted_group :: "DGNode \<Rightarrow> string option" where
  "wanted_group c = (case dg_networkId c of
     Some k \<Rightarrow> Some k
   | None \<Rightarrow> if \<not> truthy (dg_source c) then Some UNMANAGED_GROUP_ID else None)"

definition within_group :: "string list \<Rightarrow> string option \<Rightarrow> string option" where
  "within_group groupIds g = (if truthy g \<and> the g \<in> set groupIds then g else None)"

definition buildContainerNodes :: "DGNode list \<Rightarrow> string list \<Rightarrow> RFNode list" where
  "buildContainerNodes containers groupIds =
     map (\<lambda>c. rf_node (dg_id c) (if dg_type c = Service then ''serviceNode'' else ''containerNode'')
       (within_group groupIds (wanted_group c)) (PlainData c)) containers"

definition container_group :: "(string, string) jsmap \<Rightarrow> DGNode \<Rightarrow> (string, string) jsmap" where
  "container_group m c =
     (if truthy (dg_networkId c) then map_set m (dg_id c) (the (dg_networkId c))
      else if \<not> truthy (dg_source c) then map_set m (dg_id c) UNMANAGED_GROUP_ID else m)"

definition volume_group :: "(string, string) jsmap \<Rightarrow> (string, string) jsmap \<Rightarrow> DGEdge \<Rightarrow> (string, string) jsmap" where
  "volume_group containerGroup m e =
     (let g = map_get containerGroup (de_target e) in
      if \<not> map_has m (de_source e) \<and> truthy g then map_set m (de_source e) (the g) else m)"

definition buildVolumeNodes :: "DGNode list \<Rightarrow> DGNode list \<Rightarrow> DGEdge list \<Rightarrow> string list \<Rightarrow> RFNode list" where
  "buildVolumeNodes volumes containers dgEdges groupIds =
     (let containerGroup = foldl container_group [] containers;
          volumeGroupMap = foldl (volume_group containerGroup) []
            (filter (\<lambda>e. de_type e = VolumeMount) dgEdges)
      in map (\<lambda>v. rf_node (dg_id v) ''volumeNode''
           (within_group groupIds (map_get volumeGroupMap (dg_id v))) (PlainData v)) volumes)"

definition flow_containers :: "DGNode list \<Rightarrow> DGNode list" where
  "flow_containers dgNodes = filter (\<lambda>n. dg_type n = Container \<or> dg_type n = Service) dgNodes"

definition toReactFlowNodes :: "DGNode list \<Rightarrow> DGEdge list \<Rightarrow> RFNode list" where
  "toReactFlowNodes dgNodes dgEdges =
     (let containers = flow_containers dgNodes;
          groups = buildNetworkGroups (filter (\<lambda>n. dg_type n = Network) dgNodes) containers dgEdges;
          groupIds = map rf_id groups
      in groups @ buildContainerNodes containers groupIds
         @ buildVolumeNodes (filter (\<lambda>n. dg_type n = Volume) dgNodes) containers dgEdges groupIds)"

section \<open>Edges\<close>

type_synonym color_map = "(string, string) jsmap"

definition edge_stroke :: "string \<Rightarrow> string \<Rightarrow> (string, DGNode) jsmap \<Rightarrow> color_map \<Rightarrow> DGEdge \<Rightarrow>
    string \<times> color_map" where
  "edge_stroke defaultStroke accentStroke nodeMap cache e =
     (case de_type e of
        VolumeMount \<Rightarrow> (VOLUME_COLOR, cache)
      | DependsOn \<Rightarrow> (accentStroke, cache)
      | SecondaryNetwork \<Rightarrow>
          (case map_get nodeMap (de_target e) of
             None \<Rightarrow> (defaultStroke, cache)
           | Some net \<Rightarrow> networkColor cache (dg_name net) (projectOf net)))"

definition flow_edge :: "string \<Rightarrow> string \<Rightarrow> (string, DGNode) jsmap \<Rightarrow> nat \<Rightarrow>
    RFEdge list \<times> color_map \<Rightarrow> DGEdge \<Rightarrow> RFEdge list \<times> color_map" where
  "flow_edge defaultStroke accentStroke nodeMap nodeCount st e =
     (let (es, cache) = st;
          (stroke, cache') = edge_stroke defaultStroke accentStroke nodeMap cache e;
          active = isEndpointActive (map_get nodeMap (de_source e)) \<and> isEndpointActive (map_get nodeMap (de_target e))
      in (es @ [\<lparr>re_id = de_id e, re_source = de_source e, re_target = de_target e, re_type = ''elk'',
            re_data = ElkData (de_type e) active (active \<and> nodeCount \<le> ANIMATION_NODE_LIMIT) nodeCount None,
            re_stroke = Some stroke, re_strokeWidth = Some DEFAULT_EDGE_STROKE_WIDTH, re_opacity = None\<rparr>],
          cache'))"

definition toReactFlowEdges :: "DGEdge list \<Rightarrow> DGNode list \<Rightarrow> string \<Rightarrow> string \<Rightarrow> color_map \<Rightarrow>
    RFEdge list \<times> color_map" where
  "toReactFlowEdges dgEdges dgNodes defaultStroke accentStroke cache =
     (let nodeMap = foldl (\<lambda>m n. map_set m (dg_id n) n) [] dgNodes
      in foldl (flow_edge defaultStroke accentStroke nodeMap (length dgNodes)) ([], cache)
           (filter (\<lambda>e. map_has nodeMap (de_source e) \<and> map_has nodeMap (de_target e)) dgEdges))"

section \<open>The nodes meet the layout's conditions\<close>

definition graph_ok :: "DGNode list \<Rightarrow> bool" where
  "graph_ok ns \<longleftrightarrow> distinct (map dg_id ns) \<and> [] \<notin> dg_id ` set ns \<and> UNMANAGED_GROUP_ID \<notin> dg_id ` set ns"

lemma group_node_sel [simp]:
  "rf_id (group_node d) = dg_id d" "rf_type (group_node d) = ''networkGroup''"
  "rf_parentId (group_node d) = None" "rf_data (group_node d) = PlainData d"
  by (simp_all add: group_node_def rf_node_def)

lemma groups_are_groups:
  "n \<in> set (buildNetworkGroups nets cs es) \<Longrightarrow> rf_type n = ''networkGroup'' \<and> rf_parentId n = None"
  by (auto simp: buildNetworkGroups_def Let_def split: if_splits)

lemma within_group_truthy: "truthy (within_group ids g) \<Longrightarrow> \<exists>p. within_group ids g = Some p \<and> p \<in> set ids"
  by (auto simp: within_group_def truthy_iff split: if_splits)

lemma container_nodes_sel:
  "n \<in> set (buildContainerNodes cs ids) \<Longrightarrow> \<not> isGroupType (rf_type n) \<and>
     (truthy (rf_parentId n) \<longrightarrow> (\<exists>p. rf_parentId n = Some p \<and> p \<in> set ids))"
  using within_group_truthy by (auto simp: buildContainerNodes_def isGroupType_def split: if_splits)

lemma volume_nodes_sel:
  "n \<in> set (buildVolumeNodes vs cs es ids) \<Longrightarrow> \<not> isGroupType (rf_type n) \<and>
     (truthy (rf_parentId n) \<longrightarrow> (\<exists>p. rf_parentId n = Some p \<and> p \<in> set ids))"
  using within_group_truthy by (auto simp: buildVolumeNodes_def Let_def isGroupType_def)

lemma node_ids:
  "map rf_id (buildContainerNodes cs ids) = map dg_id cs"
  "map rf_id (buildVolumeNodes vs cs es ids) = map dg_id vs"
  "map rf_data (buildContainerNodes cs ids) = map PlainData cs"
  "map rf_data (buildVolumeNodes vs cs es ids) = map PlainData vs"
  by (simp_all add: buildContainerNodes_def buildVolumeNodes_def Let_def)

lemma group_ids:
  "map rf_id (buildNetworkGroups nets cs es) =
     map dg_id (filter (\<lambda>n. Some (dg_id n) \<in> set (map dg_networkId (filter (\<lambda>c. truthy (dg_networkId c)) cs)) \<or>
       dg_id n \<in> set (map de_target (filter (\<lambda>e. de_type e = SecondaryNetwork) es))) nets)
     @ (if list_ex unmanaged cs then [UNMANAGED_GROUP_ID] else [])"
  by (simp add: buildNetworkGroups_def Let_def)

lemma disjoint_kinds:
  assumes "distinct (map dg_id ns)" "\<And>n. P n \<Longrightarrow> \<not> Q n"
  shows "set (map dg_id (filter P ns)) \<inter> set (map dg_id (filter Q ns)) = {}"
  using assms by (fastforce simp: distinct_map inj_on_def)

lemma flow_ids_distinct:
  assumes "graph_ok ns"
  shows "distinct (map rf_id (toReactFlowNodes ns es))"
proof -
  have d: "distinct (map dg_id ns)" using assms by (simp add: graph_ok_def)
  have sub: "set (map dg_id (filter P (filter Q ns))) \<subseteq> set (map dg_id (filter Q ns))" for P Q by auto
  note dk = disjoint_kinds [OF d]
  have 1: "set (map dg_id (filter (\<lambda>n. dg_type n = Network) ns)) \<inter> set (map dg_id (flow_containers ns)) = {}"
    "set (map dg_id (filter (\<lambda>n. dg_type n = Network) ns)) \<inter> set (map dg_id (filter (\<lambda>n. dg_type n = Volume) ns)) = {}"
    "set (map dg_id (flow_containers ns)) \<inter> set (map dg_id (filter (\<lambda>n. dg_type n = Volume) ns)) = {}"
    unfolding flow_containers_def by (rule dk; auto)+
  have 2: "UNMANAGED_GROUP_ID \<notin> set (map dg_id (filter P ns))" for P
    using assms by (auto simp: graph_ok_def)
  have 3: "distinct (map dg_id (filter P ns))" "distinct (map dg_id (filter Q (filter P ns)))" for P Q
    using distinct_map_filter [OF d] distinct_map_filter [OF distinct_map_filter [OF d]] by auto
  show ?thesis
    unfolding toReactFlowNodes_def Let_def map_append node_ids group_ids distinct_append set_append
    using 1 2 3 sub by (auto simp: flow_containers_def)
qed

text \<open>
  C31. The nodes of the network view are fit for the layout: distinct nonempty ids, groups
  without parents, and every parent a drawn group, so no workload or volume hangs under a
  hidden or missing network; and each container, service and volume of the graph is drawn
  exactly once, in order.
\<close>

theorem flow_nodes_ready:
  assumes "graph_ok ns"
  shows "layout_ready (toReactFlowNodes ns es) \<and>
    map rf_data (filter (\<lambda>n. \<not> isGroupType (rf_type n)) (toReactFlowNodes ns es)) =
      map PlainData (flow_containers ns @ filter (\<lambda>n. dg_type n = Volume) ns)"
proof -
  let ?cs = "flow_containers ns" and ?vs = "filter (\<lambda>n. dg_type n = Volume) ns"
  let ?groups = "buildNetworkGroups (filter (\<lambda>n. dg_type n = Network) ns) ?cs es"
  let ?ids = "map rf_id ?groups"
  have nodes: "toReactFlowNodes ns es =
      ?groups @ buildContainerNodes ?cs ?ids @ buildVolumeNodes ?vs ?cs es ?ids"
    by (simp add: toReactFlowNodes_def Let_def)
  have "\<exists>g\<in>set (toReactFlowNodes ns es). rf_parentId n = Some (rf_id g) \<and> isGroupType (rf_type g)"
    if n: "n \<in> set (toReactFlowNodes ns es)" and t: "truthy (rf_parentId n)" for n
  proof -
    have "n \<notin> set ?groups" using t groups_are_groups [of n] by auto
    then have "n \<in> set (buildContainerNodes ?cs ?ids) \<or> n \<in> set (buildVolumeNodes ?vs ?cs es ?ids)"
      using n nodes by auto
    then have "\<exists>p. rf_parentId n = Some p \<and> p \<in> set ?ids"
      using t container_nodes_sel [of n ?cs ?ids] volume_nodes_sel [of n ?vs ?cs es ?ids] by blast
    then obtain p where "rf_parentId n = Some p" "p \<in> set ?ids" by blast
    moreover from this obtain g where "g \<in> set ?groups" "rf_id g = p" by auto
    ultimately show ?thesis using nodes groups_are_groups [of g] by (auto simp: isGroupType_def)
  qed
  moreover have "\<not> isGroupType (rf_type n)" if "n \<in> set (toReactFlowNodes ns es)" "truthy (rf_parentId n)" for n
    using that nodes groups_are_groups [of n] container_nodes_sel [of n ?cs ?ids]
      volume_nodes_sel [of n ?vs ?cs es ?ids] by auto
  moreover have "[] \<notin> rf_id ` set (toReactFlowNodes ns es)"
  proof -
    have "set (map rf_id (toReactFlowNodes ns es)) \<subseteq> insert UNMANAGED_GROUP_ID (dg_id ` set ns)"
      unfolding nodes map_append node_ids group_ids set_append by (auto simp: flow_containers_def)
    then show ?thesis using assms by (auto simp: graph_ok_def UNMANAGED_GROUP_ID_def)
  qed
  ultimately have ready: "layout_ready (toReactFlowNodes ns es)"
    using flow_ids_distinct [OF assms] unfolding layout_ready_def by blast
  have "filter (\<lambda>n. \<not> isGroupType (rf_type n)) ?groups = []"
    using groups_are_groups by (auto simp: filter_empty_conv isGroupType_def)
  moreover have "filter (\<lambda>n. \<not> isGroupType (rf_type n)) (buildContainerNodes ?cs ?ids) = buildContainerNodes ?cs ?ids"
    "filter (\<lambda>n. \<not> isGroupType (rf_type n)) (buildVolumeNodes ?vs ?cs es ?ids) = buildVolumeNodes ?vs ?cs es ?ids"
    using container_nodes_sel volume_nodes_sel by (simp_all add: filter_id_conv)
  ultimately show ?thesis using ready by (simp add: nodes node_ids)
qed

definition small_graph :: "DGNode list" where
  "small_graph = [bare_node ''n1'' Network ''net'', (bare_node ''c1'' Container ''web'')\<lparr>dg_networkId := Some ''n1''\<rparr>,
     (bare_node ''c2'' Container ''lost'')\<lparr>dg_networkId := Some ''gone''\<rparr>, bare_node ''v1'' Volume ''data'']"

theorem flow_nodes_ready_witness: "layout_ready (toReactFlowNodes small_graph [])"
  using flow_nodes_ready [of small_graph "[]"]
  by (simp add: graph_ok_def small_graph_def UNMANAGED_GROUP_ID_def)

end
