(* ===== verification/GraphLayout.thy ===== *)
theory GraphLayout
  imports GraphTransform NodeLayout
begin

text \<open>
  The layout hook (\<^verbatim>\<open>hooks/useGraphLayout.ts\<close>) as a state machine over renders and layout
  answers. A change of the topology fingerprint cancels the layout under way and starts
  another (ELK for the network view, the grid for the per-node view); a change of the data
  only patches the nodes and edges on screen. ELK's answer is part of the event that brings
  it; a rejected promise is an answer \<open>None\<close>. A \<open>Render\<close> is a render whose inputs are new values, so
  that the effects' dependencies changed; the widths a layout measures are cached when its answer
  arrives, which no result can tell from caching them when it starts. \<open>Removed\<close> is the change
  React Flow reports when the reader deletes what is selected (its delete key is not turned off): the ids
  are its argument, and \<open>onNodesChange\<close> and \<open>onEdgesChange\<close> take them off the canvas. Its other
  changes (selection, measured sizes) touch no field that is modelled, and nodes cannot be dragged.
\<close>

datatype group_by = ByNetwork | ByNode

record LayoutInputs =
  li_nodes :: "DGNode list"
  li_edges :: "DGEdge list"
  li_stroke :: string
  li_accent :: string
  li_groupBy :: group_by
  li_local :: "string option"

definition topologyKey :: "collator \<Rightarrow> LayoutInputs \<Rightarrow> string" where
  "topologyKey lc i =
     (case li_groupBy i of
        ByNode \<Rightarrow> ''node|'' @ nodeGroupedTopologyKey lc (li_nodes i) (li_local i)
      | ByNetwork \<Rightarrow> ''network|''
          @ join '','' (sort_strings (map (\<lambda>n. dg_id n @ ''>''
              @ nullish (dg_networkId n) (if truthy (dg_source n) then [] else ''!'')) (li_nodes i)))
          @ ''|'' @ join '','' (sort_strings (map de_id (li_edges i))))"

definition buildFlow :: "collator \<Rightarrow> LayoutInputs \<Rightarrow> color_map \<Rightarrow> RFNode list \<times> RFEdge list \<times> color_map" where
  "buildFlow lc i colors =
     (case li_groupBy i of
        ByNode \<Rightarrow> (toNodeGroupedFlowNodes lc (li_nodes i) (li_local i), [], colors)
      | ByNetwork \<Rightarrow> (toReactFlowNodes (li_nodes i) (li_edges i),
          toReactFlowEdges (li_edges i) (li_nodes i) (li_stroke i) (li_accent i) colors))"

text \<open>A layout under way: its number, its fingerprint, whether the effect was cleaned up, its work.\<close>

datatype layout_task =
  EmptyTask
| GridTask "RFNode list" "RFEdge list"
| ElkTask "RFNode list" "RFEdge list"

record LayoutJob =
  lj_id :: nat
  lj_key :: string
  lj_cancelled :: bool
  lj_task :: layout_task

record GraphLayout =
  gl_inputs :: LayoutInputs
  gl_nodes :: "RFNode list"
  gl_edges :: "RFEdge list"
  gl_settled :: string
  gl_error :: "string option"
  gl_effectKey :: "string option"
  gl_jobs :: "LayoutJob list"
  gl_next :: nat
  gl_colors :: color_map
  gl_widths :: width_cache

definition layoutBusy :: "collator \<Rightarrow> GraphLayout \<Rightarrow> bool" where
  "layoutBusy lc st \<longleftrightarrow> li_nodes (gl_inputs st) \<noteq> [] \<and> topologyKey lc (gl_inputs st) \<noteq> gl_settled st
     \<and> gl_error st \<noteq> Some (topologyKey lc (gl_inputs st))"

definition layoutError :: "collator \<Rightarrow> GraphLayout \<Rightarrow> bool" where
  "layoutError lc st \<longleftrightarrow> gl_error st = Some (topologyKey lc (gl_inputs st))"

text \<open>The layout effect, with the clean-up of its previous run.\<close>

definition cancel_job :: "LayoutJob \<Rightarrow> LayoutJob" where
  "cancel_job j = j\<lparr>lj_cancelled := True\<rparr>"

definition layout_effect :: "collator \<Rightarrow> GraphLayout \<Rightarrow> GraphLayout" where
  "layout_effect lc st =
     (let key = topologyKey lc (gl_inputs st) in
      if gl_effectKey st = Some key then st
      else let (rfNodes, rfEdges, colors) = buildFlow lc (gl_inputs st) (gl_colors st);
               empty = (li_nodes (gl_inputs st) = []);
               task = (if empty then EmptyTask
                       else if li_groupBy (gl_inputs st) = ByNode then GridTask rfNodes rfEdges
                       else ElkTask rfNodes rfEdges)
           in st\<lparr>gl_effectKey := Some key,
                gl_jobs := map cancel_job (gl_jobs st)
                  @ [\<lparr>lj_id = gl_next st, lj_key = key, lj_cancelled = False, lj_task = task\<rparr>],
                gl_next := gl_next st + 1,
                gl_colors := (if empty then gl_colors st else colors)\<rparr>)"

text \<open>The lightweight update of what is on screen.\<close>

fun merge_edge_data :: "rf_edge_data \<Rightarrow> rf_edge_data \<Rightarrow> rf_edge_data" where
  "merge_edge_data (ElkData _ _ _ _ path) (ElkData t active animated nodeCount None) =
     ElkData t active animated nodeCount path"
| "merge_edge_data _ d = d"

definition patch_edge :: "(string, RFEdge) jsmap \<Rightarrow> RFEdge \<Rightarrow> RFEdge" where
  "patch_edge m e = (case map_get m (re_id e) of
     None \<Rightarrow> e
   | Some u \<Rightarrow> e\<lparr>re_data := merge_edge_data (re_data e) (re_data u), re_stroke := re_stroke u,
                 re_strokeWidth := re_strokeWidth u, re_opacity := re_opacity u\<rparr>)"

definition patch_node :: "(string, RFNode) jsmap \<Rightarrow> RFNode \<Rightarrow> RFNode" where
  "patch_node m n = (case map_get m (rf_id n) of None \<Rightarrow> n | Some u \<Rightarrow> n\<lparr>rf_data := rf_data u\<rparr>)"

definition lightweight_update :: "collator \<Rightarrow> GraphLayout \<Rightarrow> GraphLayout" where
  "lightweight_update lc st =
     (if li_nodes (gl_inputs st) = [] \<or> topologyKey lc (gl_inputs st) \<noteq> gl_settled st then st
      else let (rfNodes, rfEdges, colors) = buildFlow lc (gl_inputs st) (gl_colors st);
               rfEdgeMap = foldl (\<lambda>m e. map_set m (re_id e) e) [] rfEdges;
               rfNodeMap = foldl (\<lambda>m n. map_set m (rf_id n) n) [] rfNodes
           in st\<lparr>gl_edges := map (patch_edge rfEdgeMap) (gl_edges st),
                gl_nodes := map (patch_node rfNodeMap) (gl_nodes st), gl_colors := colors\<rparr>)"

datatype layout_event =
  Render LayoutInputs
| LayoutArrived nat "ElkNode option"
| Removed "string list" "string list"

definition initial_layout :: "LayoutInputs \<Rightarrow> GraphLayout" where
  "initial_layout i = \<lparr>gl_inputs = i, gl_nodes = [], gl_edges = [], gl_settled = [], gl_error = None,
     gl_effectKey = None, gl_jobs = [], gl_next = 0, gl_colors = [], gl_widths = []\<rparr>"

text \<open>\<open>onNodesChange\<close> and \<open>onEdgesChange\<close> with changes of type \<open>remove\<close>.\<close>

definition remove_elements :: "string list \<Rightarrow> string list \<Rightarrow> GraphLayout \<Rightarrow> GraphLayout" where
  "remove_elements nodes edges st =
     st\<lparr>gl_nodes := filter (\<lambda>n. rf_id n \<notin> set nodes) (gl_nodes st),
        gl_edges := filter (\<lambda>e. re_id e \<notin> set edges) (gl_edges st)\<rparr>"

text \<open>The result of a task: \<open>None\<close> when it throws or its promise is rejected.\<close>

definition task_result :: "text_measure \<Rightarrow> string \<Rightarrow> ElkNode option \<Rightarrow> width_cache \<Rightarrow> layout_task \<Rightarrow>
    (RFNode list \<times> RFEdge list \<times> width_cache) option" where
  "task_result msr family answer widths task =
     (case task of
        EmptyTask \<Rightarrow> Some ([], [], widths)
      | GridTask ns es \<Rightarrow> Some (layoutNodeGroups ns, es, widths)
      | ElkTask ns es \<Rightarrow> computeLayout (\<lambda>_. answer) msr family widths ns es)"

definition finish_job :: "collator \<Rightarrow> text_measure \<Rightarrow> string \<Rightarrow> ElkNode option \<Rightarrow> LayoutJob \<Rightarrow> GraphLayout \<Rightarrow> GraphLayout" where
  "finish_job lc msr family answer j st =
     (case task_result msr family answer (gl_widths st) (lj_task j) of
        None \<Rightarrow> if lj_cancelled j then st else st\<lparr>gl_error := Some (lj_key j)\<rparr>
      | Some (ns, es, widths) \<Rightarrow>
          let st0 = st\<lparr>gl_widths := widths\<rparr> in
          if lj_cancelled j then st0
          else let st1 = st0\<lparr>gl_nodes := ns, gl_edges := es, gl_error := None, gl_settled := lj_key j\<rparr>
               in if lj_key j = gl_settled st then st1 else lightweight_update lc st1)"

definition layout_step :: "collator \<Rightarrow> text_measure \<Rightarrow> string \<Rightarrow> GraphLayout \<Rightarrow> layout_event \<Rightarrow> GraphLayout" where
  "layout_step lc msr family st e =
     (case e of
        Render i \<Rightarrow> lightweight_update lc (layout_effect lc (st\<lparr>gl_inputs := i\<rparr>))
      | LayoutArrived k answer \<Rightarrow>
          (case find (\<lambda>j. lj_id j = k) (gl_jobs st) of
             None \<Rightarrow> st
           | Some j \<Rightarrow> finish_job lc msr family answer j
               (st\<lparr>gl_jobs := filter (\<lambda>j. lj_id j \<noteq> k) (gl_jobs st)\<rparr>))
      | Removed nodes edges \<Rightarrow> remove_elements nodes edges st)"

section \<open>What is on screen\<close>

text \<open>The layouts keep ids, so that what is drawn can be told from its ids.\<close>

definition keyed :: "placement \<Rightarrow> bool" where
  "keyed out \<longleftrightarrow> (\<forall>k v. map_get out k = Some v \<longrightarrow> rf_id v = k)"

lemma keyed_place [simp]: "keyed out \<Longrightarrow> keyed (place n x y d w out)"
  by (auto simp: keyed_def place_def Let_def js.get_put split: option.splits prod.splits if_splits)

lemma keyed_items [simp]: "keyed out \<Longrightarrow> keyed (place_items items y out)"
  by (induction items y out rule: place_items.induct) simp_all

lemma keyed_row [simp]: "keyed out \<Longrightarrow> keyed (place_row ch x y h j boxes out)"
  by (induction ch x y h j boxes out rule: place_row.induct) (simp_all add: placeBoxContent_def)

lemma keyed_grid_loop: "keyed (snd (snd st)) \<Longrightarrow> keyed (snd (snd (grid_loop ch k x boxes st)))"
proof (induction ch k x boxes st rule: grid_loop.induct)
  case (1 ch k x boxes y width out)
  then show ?case by (subst grid_loop.simps) (simp add: Let_def)
qed

lemma keyed_grid [simp]: "keyed out \<Longrightarrow> keyed (snd (placeGrid ch boxes k x y out))"
  using keyed_grid_loop [of "(y, 0, out)" ch k x boxes]
  by (auto simp: placeGrid_def split: prod.splits)

lemma keyed_foldl:
  "keyed (g s) \<Longrightarrow> (\<And>s x. keyed (g s) \<Longrightarrow> keyed (g (f s x))) \<Longrightarrow> keyed (g (foldl f s xs))"
  by (induction xs arbitrary: s) simp_all

lemma keyed_layout:
  "keyed (snd (foldl (place_free y) (0, lc_out (place_free_boxes ch ns (place_summary ns w
     (foldl (place_group w) \<lparr>lc_y = 0, lc_managerBottom = None,
        lc_out = snd (foldl (size_group ch) ([], []) gs)\<rparr> sized)))) ns))"
proof (rule keyed_foldl [where g = snd])
  have "keyed (snd (foldl (size_group ch) ([], []) gs))"
    by (rule keyed_foldl [where g = snd]) (simp_all add: size_group_def Let_def keyed_def [of "[]"])
  then have "keyed (lc_out (foldl (place_group w) \<lparr>lc_y = 0, lc_managerBottom = None,
      lc_out = snd (foldl (size_group ch) ([], []) gs)\<rparr> sized))"
    by (intro keyed_foldl [where g = lc_out]) (simp_all add: place_group_def)
  then have "keyed (lc_out (place_summary ns w (foldl (place_group w) \<lparr>lc_y = 0, lc_managerBottom = None,
      lc_out = snd (foldl (size_group ch) ([], []) gs)\<rparr> sized)))"
    by (simp add: place_summary_def split: option.split)
  then show "keyed (snd (0 :: real, lc_out (place_free_boxes ch ns (place_summary ns w
     (foldl (place_group w) \<lparr>lc_y = 0, lc_managerBottom = None,
        lc_out = snd (foldl (size_group ch) ([], []) gs)\<rparr> sized)))))"
    by (simp add: place_free_boxes_def Let_def)
qed (simp add: place_free_def)

lemma grid_layout_ids: "map rf_id (layoutNodeGroups ns) = map rf_id ns"
  using keyed_layout by (auto simp: layoutNodeGroups_def Let_def keyed_def nullish_def split: option.split)

text \<open>The ids a render would draw, whatever the colour cache holds.\<close>

definition drawn_nodes :: "collator \<Rightarrow> LayoutInputs \<Rightarrow> RFNode list" where
  "drawn_nodes lc i = fst (buildFlow lc i [])"

definition drawn_edges :: "collator \<Rightarrow> LayoutInputs \<Rightarrow> string list" where
  "drawn_edges lc i = map re_id (fst (snd (buildFlow lc i [])))"

lemma flow_edge_ids:
  "map re_id (fst (foldl (flow_edge ds acc nm k) (es, cache) xs)) = map re_id es @ map de_id xs"
proof (induction xs arbitrary: es cache)
  case (Cons e xs)
  obtain es' cache' where "flow_edge ds acc nm k (es, cache) e = (es', cache')" by force
  moreover from this have "map re_id es' = map re_id es @ [de_id e]"
    by (auto simp: flow_edge_def Let_def split: prod.splits)
  ultimately show ?case using Cons [of es' cache'] by simp
qed simp

lemma buildFlow_ids:
  "fst (buildFlow lc i colors) = drawn_nodes lc i"
  "map re_id (fst (snd (buildFlow lc i colors))) = drawn_edges lc i"
  by (simp_all add: buildFlow_def drawn_nodes_def drawn_edges_def toReactFlowEdges_def Let_def flow_edge_ids
      split: group_by.split)

definition draws :: "collator \<Rightarrow> LayoutInputs \<Rightarrow> RFNode list \<Rightarrow> RFEdge list \<Rightarrow> bool" where
  "draws lc i ns es \<longleftrightarrow> (if li_nodes i = [] then ns = [] \<and> es = []
     else mset (map rf_id ns) = mset (map rf_id (drawn_nodes lc i)) \<and> map re_id es = drawn_edges lc i)"

definition task_for :: "collator \<Rightarrow> LayoutInputs \<Rightarrow> layout_task \<Rightarrow> bool" where
  "task_for lc i task = (case task of
     EmptyTask \<Rightarrow> li_nodes i = []
   | GridTask ns es \<Rightarrow> li_nodes i \<noteq> [] \<and> ns = drawn_nodes lc i \<and> map re_id es = drawn_edges lc i
   | ElkTask ns es \<Rightarrow> li_nodes i \<noteq> [] \<and> li_groupBy i = ByNetwork \<and> ns = drawn_nodes lc i
       \<and> map re_id es = drawn_edges lc i)"

text \<open>The screen and the jobs belong to inputs of \<open>I\<close>: those that were rendered.\<close>

definition screen_ok :: "LayoutInputs set \<Rightarrow> collator \<Rightarrow> GraphLayout \<Rightarrow> bool" where
  "screen_ok I lc st \<longleftrightarrow>
     gl_settled st = [] \<or> (\<exists>i\<in>I. topologyKey lc i = gl_settled st \<and> draws lc i (gl_nodes st) (gl_edges st))"

definition jobs_ok :: "LayoutInputs set \<Rightarrow> collator \<Rightarrow> GraphLayout \<Rightarrow> bool" where
  "jobs_ok I lc st \<longleftrightarrow> (\<forall>j\<in>set (gl_jobs st). \<exists>i\<in>I. topologyKey lc i = lj_key j \<and> task_for lc i (lj_task j))"

lemma topologyKey_nonempty [simp]: "topologyKey lc i \<noteq> []"
  by (simp add: topologyKey_def split: group_by.split)

lemma patch_ids [simp]: "map re_id (map (patch_edge m) es) = map re_id es" "map rf_id (map (patch_node k) ns) = map rf_id ns"
  by (auto simp: patch_edge_def patch_node_def split: option.split)

lemma lightweight_cases:
  "lightweight_update lc st = st \<or>
   (\<exists>em nm c. lightweight_update lc st =
      st\<lparr>gl_edges := map (patch_edge em) (gl_edges st), gl_nodes := map (patch_node nm) (gl_nodes st), gl_colors := c\<rparr>
      \<and> li_nodes (gl_inputs st) \<noteq> [])"
proof -
  obtain ns es c where "buildFlow lc (gl_inputs st) (gl_colors st) = (ns, es, c)" by (metis prod_cases3)
  then show ?thesis unfolding lightweight_update_def Let_def by auto
qed

lemma draws_patched:
  "draws lc i ns es \<Longrightarrow> draws lc i (map (patch_node nm) ns) (map (patch_edge em) es)"
  unfolding draws_def by (auto simp only: patch_ids list.map split: if_splits)

lemma lightweight_keeps:
  assumes "screen_ok I lc st"
  shows "screen_ok I lc (lightweight_update lc st)"
proof -
  consider "lightweight_update lc st = st"
    | em nm c where "lightweight_update lc st =
        st\<lparr>gl_edges := map (patch_edge em) (gl_edges st), gl_nodes := map (patch_node nm) (gl_nodes st), gl_colors := c\<rparr>"
    using lightweight_cases by blast
  then show ?thesis
  proof cases
    case 1
    then show ?thesis using assms by simp
  next
    case 2
    then show ?thesis using assms draws_patched by (auto simp: screen_ok_def)
  qed
qed

lemma lightweight_sel [simp]:
  "gl_jobs (lightweight_update lc st) = gl_jobs st"
  "gl_settled (lightweight_update lc st) = gl_settled st"
  "gl_inputs (lightweight_update lc st) = gl_inputs st"
  "gl_error (lightweight_update lc st) = gl_error st"
  using lightweight_cases [of lc st] by auto

lemma layout_effect_keeps:
  "screen_ok I lc (layout_effect lc st) = screen_ok I lc st"
  "gl_inputs st \<in> I \<Longrightarrow> jobs_ok I lc st \<Longrightarrow> jobs_ok I lc (layout_effect lc st)"
proof -
  show "screen_ok I lc (layout_effect lc st) = screen_ok I lc st"
    by (simp add: layout_effect_def screen_ok_def Let_def split: prod.split)
  obtain ns es colors where flow: "buildFlow lc (gl_inputs st) (gl_colors st) = (ns, es, colors)"
    by (metis prod_cases3)
  then have ids: "ns = drawn_nodes lc (gl_inputs st)" "map re_id es = drawn_edges lc (gl_inputs st)"
    using buildFlow_ids [of lc "gl_inputs st" "gl_colors st"] by auto
  have "task_for lc (gl_inputs st) (if li_nodes (gl_inputs st) = [] then EmptyTask
      else if li_groupBy (gl_inputs st) = ByNode then GridTask ns es else ElkTask ns es)"
    using ids by (auto simp: task_for_def intro: group_by.exhaust)
  then show "gl_inputs st \<in> I \<Longrightarrow> jobs_ok I lc st \<Longrightarrow> jobs_ok I lc (layout_effect lc st)"
    using flow by (auto simp: layout_effect_def jobs_ok_def cancel_job_def Let_def)
qed

lemma network_parents:
  "n \<in> set (toReactFlowNodes ns es) \<Longrightarrow> truthy (rf_parentId n) \<Longrightarrow> \<not> isGroupType (rf_type n)"
  using groups_are_groups container_nodes_sel volume_nodes_sel
  by (fastforce simp: toReactFlowNodes_def Let_def)

lemma task_shows:
  assumes "task_for lc i task" "task_result msr family answer widths task = Some (ns, es, widths')"
  shows "draws lc i ns es"
proof (cases task)
  case EmptyTask
  then show ?thesis using assms by (simp add: task_for_def task_result_def draws_def)
next
  case (GridTask ns0 es0)
  moreover have "mset (map rf_id (layoutNodeGroups ns0)) = mset (map rf_id ns0)"
    by (simp only: grid_layout_ids)
  ultimately show ?thesis using assms by (auto simp: task_for_def task_result_def draws_def simp del: mset_map)
next
  case (ElkTask ns0 es0)
  have run: "computeLayout (\<lambda>_. answer) msr family widths ns0 es0 = Some (ns, es, widths')"
    using assms ElkTask by (simp add: task_result_def)
  have "ns0 = toReactFlowNodes (li_nodes i) (li_edges i)"
    using assms ElkTask by (simp add: task_for_def drawn_nodes_def buildFlow_def)
  note kept = compute_layout_keeps [OF run] network_parents
  then have "mset (map identity_of ns) = mset (map identity_of ns0)" "map re_id es = map re_id es0"
    using \<open>ns0 = _\<close> by blast+
  moreover from this(1) have "mset (map rf_id ns) = mset (map rf_id ns0)"
    using mset_map_cong [of "map identity_of ns" "map identity_of ns0" fst]
    by (simp add: identity_of_def comp_def del: mset_map)
  ultimately show ?thesis using assms ElkTask by (simp add: task_for_def draws_def del: mset_map)
qed

lemma finish_keeps:
  assumes "screen_ok I lc st" "jobs_ok I lc st" "i \<in> I" "topologyKey lc i = lj_key j" "task_for lc i (lj_task j)"
  shows "screen_ok I lc (finish_job lc msr family answer j st) \<and> jobs_ok I lc (finish_job lc msr family answer j st)"
proof (cases "task_result msr family answer (gl_widths st) (lj_task j)")
  case None
  then show ?thesis using assms(1,2) by (auto simp: finish_job_def screen_ok_def jobs_ok_def)
next
  case (Some r)
  obtain ns es widths where r: "r = (ns, es, widths)" by (metis prod_cases3)
  let ?st1 = "st\<lparr>gl_widths := widths, gl_nodes := ns, gl_edges := es, gl_error := None, gl_settled := lj_key j\<rparr>"
  have "draws lc i ns es" using task_shows [OF assms(5)] Some r by blast
  then have "screen_ok I lc ?st1" using assms(3,4) by (auto simp: screen_ok_def)
  moreover have "jobs_ok I lc ?st1" using assms(2) by (simp add: jobs_ok_def)
  ultimately show ?thesis
    using assms(1,2) Some r lightweight_keeps [of I lc ?st1]
    by (auto simp: finish_job_def Let_def screen_ok_def [of I lc "st\<lparr>gl_widths := widths\<rparr>"] jobs_ok_def)
       (auto simp: screen_ok_def)
qed

definition layout_inv :: "LayoutInputs set \<Rightarrow> collator \<Rightarrow> GraphLayout \<Rightarrow> bool" where
  "layout_inv I lc st \<longleftrightarrow> screen_ok I lc st \<and> jobs_ok I lc st"

text \<open>The inputs rendered are of \<open>I\<close>, and the reader deletes nothing.\<close>

definition rendered_in :: "LayoutInputs set \<Rightarrow> layout_event \<Rightarrow> bool" where
  "rendered_in I e \<longleftrightarrow>
     (case e of Render i \<Rightarrow> i \<in> I | LayoutArrived k answer \<Rightarrow> True | Removed ns es \<Rightarrow> False)"

lemma layout_step_inv:
  "layout_inv I lc st \<Longrightarrow> rendered_in I e \<Longrightarrow> layout_inv I lc (layout_step lc msr family st e)"
proof (cases e)
  case (Render i)
  let ?st = "st\<lparr>gl_inputs := i\<rparr>"
  assume "layout_inv I lc st" "rendered_in I e"
  moreover from this have "i \<in> I" using Render by (simp add: rendered_in_def)
  ultimately have "screen_ok I lc (layout_effect lc ?st)" "jobs_ok I lc (layout_effect lc ?st)"
    using layout_effect_keeps [where I = I and lc = lc and st = ?st] by (simp_all add: layout_inv_def screen_ok_def jobs_ok_def)
  then show ?thesis
    using Render lightweight_keeps [of I lc "layout_effect lc ?st"]
    by (simp add: layout_inv_def layout_step_def jobs_ok_def)
next
  case (LayoutArrived k answer)
  assume inv: "layout_inv I lc st"
  show ?thesis
  proof (cases "find (\<lambda>j. lj_id j = k) (gl_jobs st)")
    case None
    then show ?thesis using LayoutArrived inv by (simp add: layout_step_def)
  next
    case (Some j)
    then have "j \<in> set (gl_jobs st)" by (auto simp: find_Some_iff)
    then obtain i where i: "i \<in> I" "topologyKey lc i = lj_key j" "task_for lc i (lj_task j)"
      using inv by (auto simp: layout_inv_def jobs_ok_def)
    let ?st = "st\<lparr>gl_jobs := filter (\<lambda>j. lj_id j \<noteq> k) (gl_jobs st)\<rparr>"
    have "screen_ok I lc ?st" "jobs_ok I lc ?st"
      using inv by (auto simp: layout_inv_def screen_ok_def jobs_ok_def)
    then show ?thesis
      using finish_keeps [OF _ _ i, where st = ?st] Some LayoutArrived
      by (simp add: layout_inv_def layout_step_def)
  qed
next
  case (Removed ns es)
  assume "rendered_in I e"
  then show ?thesis using Removed by (simp add: rendered_in_def)
qed

interpretation canvas: machine "layout_step lc msr family" "\<lambda>_. rendered_in I" "layout_inv I lc"
  by unfold_locales (rule layout_step_inv)

definition open_canvas :: "collator \<Rightarrow> text_measure \<Rightarrow> string \<Rightarrow> LayoutInputs \<Rightarrow> layout_event list \<Rightarrow> GraphLayout" where
  "open_canvas lc msr family i es = run (layout_step lc msr family) (initial_layout i) (Render i # es)"

lemma rendered_events: "enabled_run step (\<lambda>_. rendered_in I) st es \<longleftrightarrow> list_all (rendered_in I) es"
  by (induction es arbitrary: st) simp_all

lemma layout_inv_initial: "layout_inv I lc (initial_layout i)"
  by (simp add: layout_inv_def screen_ok_def jobs_ok_def initial_layout_def)

text \<open>
  Outdated layouts never show: whenever the hook reports neither a layout under way nor an error,
  after any renders, answers and failures in any order and as long as nothing is deleted on the canvas,
  what is on screen has exactly the nodes
  and edges of a graph that was rendered and has the fingerprint of the current one.
\<close>

lemma settled_screen_current:
  assumes "st = open_canvas lc msr family i0 es" "list_all (rendered_in I) (Render i0 # es)"
    and "\<not> layoutBusy lc st" "\<not> layoutError lc st" "li_nodes (gl_inputs st) \<noteq> []"
  shows "\<exists>i\<in>I. topologyKey lc i = topologyKey lc (gl_inputs st) \<and> draws lc i (gl_nodes st) (gl_edges st)"
proof -
  have "layout_inv I lc st"
    unfolding assms(1) open_canvas_def
    by (rule canvas.run_inv) (use assms(2) in \<open>simp_all add: layout_inv_initial rendered_events\<close>)
  then show ?thesis
    using assms(3-5) by (auto simp: layout_inv_def screen_ok_def layoutBusy_def layoutError_def)
qed

section \<open>Data that arrives during a second layout of the same topology\<close>

lemma measure_total:
  "\<forall>n\<in>set ns. graph_node_of n \<noteq> None \<Longrightarrow> foldl (measure_step msr family) (Some st) ns \<noteq> None"
proof (induction ns arbitrary: st)
  case (Cons n ns)
  obtain maxW cache where st: "st = (maxW, cache)" by force
  have "\<exists>st'. measure_step msr family (Some st) n = Some st'"
    using Cons.prems by (auto simp: measure_step_def st split: prod.split)
  then show ?case using Cons by auto
qed simp

lemma compute_layout_total:
  assumes "\<forall>n\<in>set ns. graph_node_of n \<noteq> None"
  shows "\<exists>r. computeLayout (\<lambda>_. Some l) msr family cache ns es = Some r"
proof -
  obtain st where "foldl (measure_step msr family) (Some (0, cache)) ns = Some st"
    using measure_total [OF assms, of msr family "(0, cache)"] by blast
  then show ?thesis by (auto simp: computeLayout_def measureNodeWidth_def Let_def split: prod.split)
qed

lemma network_nodes_plain:
  assumes "n \<in> set (toReactFlowNodes ns es)"
  shows "graph_node_of n \<noteq> None"
proof -
  have "n \<in> set (buildContainerNodes cs ids) \<Longrightarrow> graph_node_of n \<noteq> None" for cs ids
    by (auto simp: buildContainerNodes_def graph_node_of_def)
  moreover have "n \<in> set (buildVolumeNodes vs cs es ids) \<Longrightarrow> graph_node_of n \<noteq> None" for vs cs es ids
    by (auto simp: buildVolumeNodes_def graph_node_of_def Let_def)
  moreover have "n \<in> set (buildNetworkGroups vs cs es) \<Longrightarrow> graph_node_of n \<noteq> None" for vs cs es
    by (auto simp: buildNetworkGroups_def graph_node_of_def Let_def split: if_splits)
  ultimately show ?thesis using assms by (auto simp: toReactFlowNodes_def Let_def)
qed

lemma lightweight_more [simp]:
  "gl_effectKey (lightweight_update lc st) = gl_effectKey st" "gl_next (lightweight_update lc st) = gl_next st"
  using lightweight_cases [of lc st] by auto

lemma render_sel [simp]:
  "gl_inputs (layout_step lc msr family st (Render i)) = i"
  "gl_settled (layout_step lc msr family st (Render i)) = gl_settled st"
  "gl_error (layout_step lc msr family st (Render i)) = gl_error st"
  "gl_effectKey (layout_step lc msr family st (Render i)) = Some (topologyKey lc i)"
  by (simp_all add: layout_step_def layout_effect_def Let_def split: prod.split)

lemma render_same:
  assumes "gl_effectKey st = Some (topologyKey lc i)"
  shows "gl_jobs (layout_step lc msr family st (Render i)) = gl_jobs st"
    "gl_next (layout_step lc msr family st (Render i)) = gl_next st"
  using assms by (simp_all add: layout_step_def layout_effect_def)

lemma render_new:
  assumes "gl_effectKey st \<noteq> Some (topologyKey lc i)"
  shows "\<exists>task. gl_jobs (layout_step lc msr family st (Render i)) = map cancel_job (gl_jobs st)
      @ [\<lparr>lj_id = gl_next st, lj_key = topologyKey lc i, lj_cancelled = False, lj_task = task\<rparr>] \<and>
      (li_nodes i \<noteq> [] \<and> li_groupBy i = ByNetwork \<longrightarrow> (\<exists>es. task = ElkTask (drawn_nodes lc i) es))"
    and "gl_next (layout_step lc msr family st (Render i)) = gl_next st + 1"
proof -
  obtain ns es c where flow: "buildFlow lc i (gl_colors st) = (ns, es, c)" by (metis prod_cases3)
  then have "ns = drawn_nodes lc i" using buildFlow_ids(1) [of lc i "gl_colors st"] by simp
  then show "\<exists>task. gl_jobs (layout_step lc msr family st (Render i)) = map cancel_job (gl_jobs st)
      @ [\<lparr>lj_id = gl_next st, lj_key = topologyKey lc i, lj_cancelled = False, lj_task = task\<rparr>] \<and>
      (li_nodes i \<noteq> [] \<and> li_groupBy i = ByNetwork \<longrightarrow> (\<exists>es. task = ElkTask (drawn_nodes lc i) es))"
    using assms flow by (auto simp: layout_step_def layout_effect_def Let_def)
  show "gl_next (layout_step lc msr family st (Render i)) = gl_next st + 1"
    using assms flow by (simp add: layout_step_def layout_effect_def Let_def)
qed

text \<open>What is deleted on the canvas stays away until the next layout.\<close>

lemma rerendered_ids:
  assumes "gl_effectKey st = Some (topologyKey lc j)"
  shows "map rf_id (gl_nodes (layout_step lc msr family st (Render j))) = map rf_id (gl_nodes st)"
proof -
  have "map rf_id (gl_nodes (lightweight_update lc st')) = map rf_id (gl_nodes st')" for st'
    using lightweight_cases [of lc st'] patch_ids(2) by force
  then show ?thesis using assms by (simp add: layout_step_def layout_effect_def)
qed

lemma rerenders_keep_ids:
  assumes "gl_effectKey st = Some key" "list_all (\<lambda>j. topologyKey lc j = key) js"
    and "st' = run (layout_step lc msr family) st (map Render js)"
  shows "map rf_id (gl_nodes st') = map rf_id (gl_nodes st) \<and> gl_settled st' = gl_settled st
    \<and> gl_inputs st' = last (gl_inputs st # js)"
  using assms
proof (induction js arbitrary: st)
  case (Cons j js)
  let ?st = "layout_step lc msr family st (Render j)"
  have key: "gl_effectKey st = Some (topologyKey lc j)" using Cons.prems by simp
  have "map rf_id (gl_nodes st') = map rf_id (gl_nodes ?st) \<and> gl_settled st' = gl_settled ?st
      \<and> gl_inputs st' = last (gl_inputs ?st # js)"
    using Cons.prems by (intro Cons.IH) simp_all
  then show ?case using rerendered_ids [OF key] by simp
qed simp

text \<open>
  A flaw: the reader deletes a selected node of a settled canvas (Backspace). However often new data of
  the same graph is rendered after it, the node stays away while the graph has it and the canvas is not busy.
\<close>

lemma removed_node_stays_away:
  assumes settled: "gl_settled st = topologyKey lc i" "gl_effectKey st = Some (topologyKey lc i)" "gl_inputs st = i"
    and same: "list_all (\<lambda>j. topologyKey lc j = topologyKey lc i) js" and gone: "x \<in> set ns"
    and st': "st' = run (layout_step lc msr family) st (Removed ns es # map Render js)"
  shows "x \<notin> set (map rf_id (gl_nodes st')) \<and> \<not> layoutBusy lc st' \<and> gl_inputs st' = last (i # js)"
proof -
  let ?st = "remove_elements ns es st"
  have kept: "map rf_id (gl_nodes st') = map rf_id (gl_nodes ?st) \<and> gl_settled st' = gl_settled ?st
      \<and> gl_inputs st' = last (gl_inputs ?st # js)"
    using settled(2) st' by (intro rerenders_keep_ids [OF _ same]) (simp_all add: layout_step_def remove_elements_def)
  then have inputs: "gl_inputs st' = last (i # js)" using settled(3) by (simp add: remove_elements_def)
  have "topologyKey lc (last (i # js)) = topologyKey lc i"
    using same by (induction js rule: rev_induct) simp_all
  then have "\<not> layoutBusy lc st'" using kept settled(1) inputs by (simp add: layoutBusy_def remove_elements_def)
  moreover have "x \<notin> set (map rf_id (gl_nodes st'))"
    using gone by (simp only: kept) (auto simp: remove_elements_def)
  ultimately show ?thesis using inputs by simp
qed

lemma find_fresh: "\<forall>x\<in>set xs. f x < (n::nat) \<Longrightarrow> f y = n \<Longrightarrow> find (\<lambda>x. f x = n) (xs @ [y]) = Some y"
  by (induction xs) auto

text \<open>
  C35. A flaw: on a canvas settled on a graph, let another node come and go, so that ELK lays
  out the first graph again, and let new data (a status, a port) of that same graph arrive
  meanwhile. The answer replaces the nodes by those of the older data, and because the
  settled fingerprint does not change the update that should catch up does not run: the canvas
  keeps showing the old data, without being busy, until the next change.
\<close>

theorem relayout_loses_update:
  assumes settled: "gl_settled st = topologyKey lc old" "gl_effectKey st = Some (topologyKey lc old)"
      "\<forall>j\<in>set (gl_jobs st). lj_id j < gl_next st"
    and other: "topologyKey lc other \<noteq> topologyKey lc old"
    and same: "topologyKey lc new = topologyKey lc old"
    and old: "li_nodes old \<noteq> []" "li_groupBy old = ByNetwork"
    and st': "st' = run (layout_step lc msr family) st
    [Render other, Render old, Render new, LayoutArrived (gl_next st + 1) (Some l)]"
  shows "mset (map identity_of (gl_nodes st')) = mset (map identity_of (drawn_nodes lc old)) \<and>
    gl_inputs st' = new \<and> \<not> layoutBusy lc st' \<and> \<not> layoutError lc st'"
proof -
  let ?step = "layout_step lc msr family"
  let ?s1 = "?step st (Render other)" and ?s2 = "?step (?step st (Render other)) (Render old)"
  let ?s3 = "?step ?s2 (Render new)"
  have k1: "gl_effectKey st \<noteq> Some (topologyKey lc other)" using settled other by simp
  have k2: "gl_effectKey ?s1 \<noteq> Some (topologyKey lc old)" using other by simp
  have k3: "gl_effectKey ?s2 = Some (topologyKey lc new)" using same by simp
  obtain es where jobs: "gl_jobs ?s2 = map cancel_job (gl_jobs ?s1)
      @ [\<lparr>lj_id = gl_next ?s1, lj_key = topologyKey lc old, lj_cancelled = False, lj_task = ElkTask (drawn_nodes lc old) es\<rparr>]"
    using render_new(1) [OF k2] old by blast
  let ?j = "\<lparr>lj_id = gl_next st + 1, lj_key = topologyKey lc old, lj_cancelled = False,
      lj_task = ElkTask (drawn_nodes lc old) es\<rparr>"
  have next1: "gl_next ?s1 = gl_next st + 1" using render_new(2) [OF k1] .
  obtain task where "gl_jobs ?s1 = map cancel_job (gl_jobs st)
      @ [\<lparr>lj_id = gl_next st, lj_key = topologyKey lc other, lj_cancelled = False, lj_task = task\<rparr>]"
    using render_new(1) [OF k1] by blast
  then have "\<forall>j\<in>set (map cancel_job (gl_jobs ?s1)). lj_id j < gl_next st + 1"
    using settled(3) by (auto simp: cancel_job_def less_Suc_eq)
  then have found: "find (\<lambda>j. lj_id j = gl_next st + 1) (gl_jobs ?s3) = Some ?j"
    using find_fresh [of "map cancel_job (gl_jobs ?s1)" lj_id "gl_next st + 1" ?j]
    by (simp add: render_same(1) [OF k3] jobs next1)
  have drawn: "drawn_nodes lc old = toReactFlowNodes (li_nodes old) (li_edges old)"
    using old by (simp add: drawn_nodes_def buildFlow_def)
  have "\<forall>n\<in>set (drawn_nodes lc old). graph_node_of n \<noteq> None"
    unfolding drawn using network_nodes_plain by blast
  from compute_layout_total [OF this] obtain ns' es' w' where run:
    "computeLayout (\<lambda>_. Some l) msr family (gl_widths ?s3) (drawn_nodes lc old) es = Some (ns', es', w')"
    by (metis prod_cases3)
  have kept: "mset (map identity_of ns') = mset (map identity_of (drawn_nodes lc old))"
    using compute_layout_keeps(1) [OF run] network_parents unfolding drawn by blast
  have fin: "st' = ?s3\<lparr>gl_jobs := filter (\<lambda>j. lj_id j \<noteq> gl_next st + 1) (gl_jobs ?s3), gl_widths := w',
      gl_nodes := ns', gl_edges := es', gl_error := None, gl_settled := topologyKey lc old\<rparr>"
    using found run settled(1)
    by (simp add: st' layout_step_def [of lc msr family ?s3] finish_job_def task_result_def Let_def)
  show ?thesis using kept same by (simp add: fin layoutBusy_def layoutError_def del: mset_map)
qed

lemma first_layout:
  assumes "li_nodes i \<noteq> []" "li_groupBy i = ByNetwork"
    and st_def: "st = open_canvas lc (\<lambda>_ _. 0) [] i [LayoutArrived 0 (Some l)]"
  shows "gl_settled st = topologyKey lc i" "gl_error st = None" "gl_inputs st = i"
    "gl_effectKey st = Some (topologyKey lc i)" "gl_jobs st = []" "gl_next st = 1"
proof -
  let ?s = "layout_step lc (\<lambda>_ _. 0) [] (initial_layout i) (Render i)"
  have "gl_effectKey (initial_layout i) \<noteq> Some (topologyKey lc i)" by (simp add: initial_layout_def)
  note first = render_new [OF this]
  have "gl_next (initial_layout i) = 0" by (simp add: initial_layout_def)
  then have next1: "gl_next ?s = 1" using first(2) by simp
  from first(1) obtain es where jobs: "gl_jobs ?s =
      [\<lparr>lj_id = 0, lj_key = topologyKey lc i, lj_cancelled = False, lj_task = ElkTask (drawn_nodes lc i) es\<rparr>]"
    using assms(1,2) by (fastforce simp: initial_layout_def)
  have "\<forall>n\<in>set (drawn_nodes lc i). graph_node_of n \<noteq> None"
    using network_nodes_plain assms(2) by (simp add: drawn_nodes_def buildFlow_def)
  from compute_layout_total [OF this] obtain r where
    "computeLayout (\<lambda>_. Some l) (\<lambda>_ _. 0) [] (gl_widths ?s) (drawn_nodes lc i) es = Some r" by blast
  moreover obtain ns' es' w' where "r = (ns', es', w')" by (metis prod_cases3)
  ultimately show "gl_settled st = topologyKey lc i" "gl_error st = None" "gl_inputs st = i"
      "gl_effectKey st = Some (topologyKey lc i)" "gl_jobs st = []" "gl_next st = 1"
    using jobs next1 by (simp_all add: st_def open_canvas_def layout_step_def [of lc _ _ ?s] finish_job_def
        task_result_def Let_def)
qed

definition canvas_of :: "DGNode list \<Rightarrow> LayoutInputs" where
  "canvas_of ns = \<lparr>li_nodes = ns, li_edges = [], li_stroke = ''#475569'', li_accent = ''#475569'',
     li_groupBy = ByNetwork, li_local = None\<rparr>"

definition status_node :: "string \<Rightarrow> string \<Rightarrow> DGNode" where
  "status_node i s = (bare_node i Container i)\<lparr>dg_status := Some s, dg_source := Some ''compose.yml''\<rparr>"

definition web_canvas :: GraphLayout where
  "web_canvas = open_canvas code_unit_compare (\<lambda>_ _. 0) [] (canvas_of [status_node ''web'' ''running''])
     [LayoutArrived 0 (Some (ElkNode ''root'' None None None None [] None None))]"

definition other_job :: LayoutInputs where
  "other_job = canvas_of [status_node ''job'' ''running'']"

lemma sample_keys:
  "topologyKey lc (canvas_of [status_node i s]) = ''network|'' @ i @ ''>|''"
  by (simp add: topologyKey_def canvas_of_def status_node_def)

lemma canvas_of_sel [simp]: "li_nodes (canvas_of ns) = ns" "li_groupBy (canvas_of ns) = ByNetwork"
  by (simp_all add: canvas_of_def)

lemma web_canvas_sel:
  "gl_settled web_canvas = topologyKey code_unit_compare (canvas_of [status_node ''web'' ''running''])"
  "gl_effectKey web_canvas = Some (topologyKey code_unit_compare (canvas_of [status_node ''web'' ''running'']))"
  "gl_jobs web_canvas = []" "gl_next web_canvas = 1"
  using first_layout [OF _ _ web_canvas_def] by simp_all

lemma other_key: "topologyKey lc other_job \<noteq> topologyKey lc (canvas_of [status_node ''web'' s])"
  by (simp add: other_job_def sample_keys)

lemma drawn_sample:
  "drawn_nodes lc (canvas_of [status_node ''web'' s]) =
     [rf_node ''web'' ''containerNode'' None (PlainData (status_node ''web'' s))]"
  by (simp add: drawn_nodes_def buildFlow_def canvas_of_def status_node_def toReactFlowNodes_def Let_def
      flow_containers_def buildNetworkGroups_def buildContainerNodes_def buildVolumeNodes_def
      unmanaged_def wanted_group_def within_group_def)

theorem relayout_loses_update_witness:
  "mset (map identity_of (gl_nodes (run (layout_step code_unit_compare (\<lambda>_ _. 0) ''mono'') web_canvas
      [Render other_job, Render (canvas_of [status_node ''web'' ''running'']),
       Render (canvas_of [status_node ''web'' ''exited'']),
       LayoutArrived (gl_next web_canvas + 1) (Some (ElkNode ''root'' None None None None [] None None))]))) =
    {#(''web'', ''containerNode'', None, PlainData (status_node ''web'' ''running''))#}"
proof -
  note lost = relayout_loses_update [where st = web_canvas and lc = code_unit_compare and other = other_job
      and old = "canvas_of [status_node ''web'' ''running'']"
      and new = "canvas_of [status_node ''web'' ''exited'']" and msr = "\<lambda>_ _. 0" and family = "''mono''"
      and l = "ElkNode ''root'' None None None None [] None None", OF web_canvas_sel(1,2) _ other_key _ _ _ refl]
  show ?thesis
    by (subst conjunct1 [OF lost]) (simp_all add: web_canvas_sel(3) sample_keys drawn_sample identity_of_def)
qed

end
