(* ===== verification/SelectionGraph.thy ===== *)
theory SelectionGraph
  imports ElkGraph
begin

text \<open>
  Click-to-highlight (\<^verbatim>\<open>utils/selectionGraph.ts\<close>, \<^verbatim>\<open>hooks/useSelectionHighlight.ts\<close>): the
  elements connected with a selected node, group, service card or edge, and the styling that
  fades the rest. \<open>Set\<close>s are distinct lists; the two walks over the nesting of groups (down
  from a group, up from a node) are the code's loops, with their termination proofs.
\<close>

datatype SelectionState = SelectedNode string | SelectedEdge string

definition serviceIdOf :: "RFNode option \<Rightarrow> string option" where
  "serviceIdOf n = (case n of
     None \<Rightarrow> None
   | Some m \<Rightarrow> if rf_type m \<noteq> ''nodeServiceCard'' then None
               else case rf_data m of CardData d \<Rightarrow> Some (nc_serviceId d) | _ \<Rightarrow> None)"

section \<open>Down: the descendants of a group\<close>

definition children_by_parent :: "RFNode list \<Rightarrow> (string, string list) jsmap" where
  "children_by_parent nodes =
     group_on (\<lambda>n. key_of (rf_parentId n)) rf_id (filter (\<lambda>n. truthy (rf_parentId n)) nodes)"

text \<open>The inner loop adds the unseen children to the result and to the stack.\<close>

fun collect_children :: "string list \<Rightarrow> string list \<times> string list \<Rightarrow> string list \<times> string list" where
  "collect_children [] st = st"
| "collect_children (i # is) (out, stack) =
     (if i \<in> set out then collect_children is (out, stack)
      else collect_children is (out @ [i], stack @ [i]))"

definition all_children :: "(string, string list) jsmap \<Rightarrow> string set" where
  "all_children byParent = \<Union> (set ` snd ` set byParent)"

lemma finite_all_children [simp]: "finite (all_children byParent)"
  by (simp add: all_children_def)

lemma members_all_children: "set (members byParent p) \<subseteq> all_children byParent"
  by (cases "map_get byParent p") (force simp: members_def all_children_def dest: map_get_SomeD)+

lemma collect_children_spec:
  "collect_children is (out, stack) = (out', stack') \<Longrightarrow>
     \<exists>new. out' = out @ new \<and> stack' = stack @ new \<and> set new = set is - set out \<and> distinct new"
proof (induction "is" "(out, stack)" arbitrary: out stack rule: collect_children.induct)
  case (2 i "is" out stack)
  show ?case
  proof (cases "i \<in> set out")
    case True
    then show ?thesis using "2.hyps"(1) "2.prems" by auto
  next
    case False
    then obtain new where "out' = (out @ [i]) @ new" "stack' = (stack @ [i]) @ new"
      "set new = set is - set (out @ [i])" "distinct new"
      using "2.hyps"(2) "2.prems" by auto
    then show ?thesis using False by (intro exI [of _ "i # new"]) auto
  qed
qed simp

function descend :: "(string, string list) jsmap \<Rightarrow> string list \<Rightarrow> string list \<Rightarrow> string list" where
  "descend byParent out stack =
     (if stack = [] then out
      else let (out', stack') = collect_children (members byParent (last stack)) (out, butlast stack)
           in descend byParent out' stack')"
  by pat_completeness auto
termination
proof (relation "measures [\<lambda>(byParent :: (string, string list) jsmap, out :: string list, stack :: string list).
    card (all_children byParent - set out), \<lambda>(byParent, out, stack). length stack]", goal_cases)
  case 1
  then show ?case by simp
next
  case (2 byParent out stack x out' stack')
  then obtain new where new: "out' = out @ new" "stack' = butlast stack @ new"
    "set new = set (members byParent (last stack)) - set out" "distinct new"
    using collect_children_spec by metis
  show ?case
  proof (cases "new = []")
    case True
    then show ?thesis using new 2(1) by simp
  next
    case False
    then obtain i where "i \<in> set new" by (cases new) auto
    then have "all_children byParent - set out' \<subset> all_children byParent - set out"
      using new members_all_children [of byParent "last stack"] by auto
    then show ?thesis by (simp add: psubset_card_mono)
  qed
qed

declare descend.simps [simp del]

definition descendantIds :: "string \<Rightarrow> RFNode list \<Rightarrow> string list" where
  "descendantIds groupId nodes = descend (children_by_parent nodes) [] [groupId]"

section \<open>Up: the groups above a node\<close>

definition node_by_id :: "RFNode list \<Rightarrow> (string, RFNode) jsmap" where
  "node_by_id nodes = foldl (\<lambda>m n. map_set m (rf_id n) n) [] nodes"

definition parent_of :: "(string, RFNode) jsmap \<Rightarrow> string \<Rightarrow> string option" where
  "parent_of nodeById i = (case map_get nodeById i of None \<Rightarrow> None | Some n \<Rightarrow> rf_parentId n)"

definition parent_ids :: "(string, RFNode) jsmap \<Rightarrow> string set" where
  "parent_ids nodeById = (\<lambda>n. key_of (rf_parentId n)) ` snd ` set nodeById"

lemma finite_parent_ids [simp]: "finite (parent_ids nodeById)"
  by (simp add: parent_ids_def)

lemma parent_of_ids: "parent_of nodeById i = Some p \<Longrightarrow> p \<in> parent_ids nodeById"
  by (force simp: parent_of_def parent_ids_def key_of_def dest: map_get_SomeD split: option.splits)

text \<open>\<open>while (parentId && !highlightedGroupIds.has(parentId))\<close>.\<close>

definition pending_ids :: "(string, RFNode) jsmap \<Rightarrow> string option \<Rightarrow> string set" where
  "pending_ids nodeById parentId = (case parentId of None \<Rightarrow> {} | Some p \<Rightarrow> insert p (parent_ids nodeById))"

function light_up :: "(string, RFNode) jsmap \<Rightarrow> string list \<Rightarrow> string option \<Rightarrow> string list" where
  "light_up nodeById lit parentId =
     (if truthy parentId \<and> the parentId \<notin> set lit
      then light_up nodeById (set_add (the parentId) lit) (parent_of nodeById (the parentId))
      else lit)"
  by pat_completeness auto
termination
proof (relation "measure (\<lambda>(nodeById, lit, parentId). card (pending_ids nodeById parentId - set lit))",
    goal_cases)
  case 1
  then show ?case by simp
next
  case (2 nodeById lit parentId)
  let ?q = "parent_of nodeById (the parentId)"
  have "pending_ids nodeById ?q - set (set_add (the parentId) lit) \<subset> pending_ids nodeById parentId - set lit"
    using 2 parent_of_ids [of nodeById "the parentId"]
    by (auto simp: pending_ids_def truthy_iff split: option.splits)
  then show ?case
    by (simp add: psubset_card_mono pending_ids_def split: option.splits)
qed

declare light_up.simps [simp del]

section \<open>Connected elements\<close>

record ConnectedElements =
  ce_edges :: "string list"
  ce_nodes :: "string list"
  ce_groups :: "string list"

definition isSelectionPresent :: "SelectionState \<Rightarrow> RFNode list \<Rightarrow> RFEdge list \<Rightarrow> bool" where
  "isSelectionPresent sel nodes edges =
     (case sel of SelectedNode i \<Rightarrow> list_ex (\<lambda>n. rf_id n = i) nodes
      | SelectedEdge i \<Rightarrow> list_ex (\<lambda>e. re_id e = i) edges)"

definition is_group_id :: "(string, RFNode) jsmap \<Rightarrow> string \<Rightarrow> bool" where
  "is_group_id nodeById i = (case map_get nodeById i of None \<Rightarrow> False | Some n \<Rightarrow> isGroupType (rf_type n))"

text \<open>\<open>connectedEdgeIds.add(e.id)\<close> and both its ends.\<close>

definition connect_edge :: "RFEdge \<Rightarrow> ConnectedElements \<Rightarrow> ConnectedElements" where
  "connect_edge e c = c\<lparr>ce_edges := set_add (re_id e) (ce_edges c),
     ce_nodes := set_add (re_target e) (set_add (re_source e) (ce_nodes c))\<rparr>"

definition group_child :: "(string, RFNode) jsmap \<Rightarrow> ConnectedElements \<Rightarrow> string \<Rightarrow> ConnectedElements" where
  "group_child nodeById c i =
     (let c1 = c\<lparr>ce_nodes := set_add i (ce_nodes c)\<rparr>
      in if is_group_id nodeById i then c1\<lparr>ce_groups := set_add i (ce_groups c1)\<rparr> else c1)"

definition group_edge :: "(string, RFNode) jsmap \<Rightarrow> (string \<Rightarrow> bool) \<Rightarrow> ConnectedElements \<Rightarrow> RFEdge \<Rightarrow> ConnectedElements" where
  "group_edge nodeById inside c e =
     (if inside (re_source e) \<or> inside (re_target e) then
        let c1 = connect_edge e c;
            remoteId = (if inside (re_source e) then re_target e else re_source e)
        in c1\<lparr>ce_groups := light_up nodeById (ce_groups c1) (parent_of nodeById remoteId)\<rparr>
      else c)"

definition connect_group :: "string \<Rightarrow> RFNode list \<Rightarrow> RFEdge list \<Rightarrow> ConnectedElements" where
  "connect_group i nodes edges =
     (let nodeById = node_by_id nodes; childIds = descendantIds i nodes;
          c1 = foldl (group_child nodeById) \<lparr>ce_edges = [], ce_nodes = [], ce_groups = [i]\<rparr> childIds
      in foldl (group_edge nodeById (\<lambda>x. x = i \<or> x \<in> set childIds)) c1 edges)"

text \<open>The cards of the selected service card's service, with the card itself.\<close>

definition card_origins :: "string \<Rightarrow> RFNode option \<Rightarrow> RFNode list \<Rightarrow> string list" where
  "card_origins i selectedNode nodes =
     (let serviceId = serviceIdOf selectedNode in
      if truthy serviceId
      then foldl (\<lambda>ids n. if serviceIdOf (Some n) = serviceId then set_add (rf_id n) ids else ids) [i] nodes
      else [i])"

definition connect_node :: "string \<Rightarrow> RFNode option \<Rightarrow> RFNode list \<Rightarrow> RFEdge list \<Rightarrow> ConnectedElements" where
  "connect_node i selectedNode nodes edges =
     (let origins = card_origins i selectedNode nodes in
      foldl (\<lambda>c e. if re_source e \<in> set origins \<or> re_target e \<in> set origins then connect_edge e c else c)
        \<lparr>ce_edges = [], ce_nodes = origins, ce_groups = []\<rparr> edges)"

definition endpoint_children :: "(string, RFNode) jsmap \<Rightarrow> RFNode list \<Rightarrow> string list \<Rightarrow> string \<Rightarrow> string list" where
  "endpoint_children nodeById nodes ids endpointId =
     (if is_group_id nodeById endpointId
      then foldl (\<lambda>ids n. if rf_parentId n = Some endpointId then set_add (rf_id n) ids else ids) ids nodes
      else ids)"

definition connect_selected_edge :: "string \<Rightarrow> RFNode list \<Rightarrow> RFEdge list \<Rightarrow> ConnectedElements" where
  "connect_selected_edge i nodes edges =
     (case find (\<lambda>e. re_id e = i) edges of
        None \<Rightarrow> \<lparr>ce_edges = [], ce_nodes = [], ce_groups = []\<rparr>
      | Some e \<Rightarrow>
          let c = connect_edge e \<lparr>ce_edges = [], ce_nodes = [], ce_groups = []\<rparr>
          in c\<lparr>ce_nodes := foldl (endpoint_children (node_by_id nodes) nodes) (ce_nodes c)
                 [re_source e, re_target e]\<rparr>)"

definition light_parents :: "RFNode list \<Rightarrow> ConnectedElements \<Rightarrow> ConnectedElements" where
  "light_parents nodes c = c\<lparr>ce_groups :=
     foldl (\<lambda>lit i. light_up (node_by_id nodes) lit (parent_of (node_by_id nodes) i)) (ce_groups c) (ce_nodes c)\<rparr>"

definition selected_node :: "SelectionState \<Rightarrow> RFNode list \<Rightarrow> RFNode option" where
  "selected_node sel nodes =
     (case sel of SelectedNode i \<Rightarrow> find (\<lambda>n. rf_id n = i) nodes | SelectedEdge i \<Rightarrow> None)"

definition is_group_selection :: "SelectionState \<Rightarrow> RFNode list \<Rightarrow> bool" where
  "is_group_selection sel nodes =
     (case selected_node sel nodes of None \<Rightarrow> False | Some n \<Rightarrow> isGroupType (rf_type n))"

definition resolveConnectedElements :: "SelectionState \<Rightarrow> RFNode list \<Rightarrow> RFEdge list \<Rightarrow> ConnectedElements" where
  "resolveConnectedElements sel nodes edges =
     (if is_group_selection sel nodes
      then (case sel of SelectedNode i \<Rightarrow> connect_group i nodes edges
            | SelectedEdge i \<Rightarrow> connect_selected_edge i nodes edges)
      else light_parents nodes
        (case sel of SelectedNode i \<Rightarrow> connect_node i (selected_node sel nodes) nodes edges
         | SelectedEdge i \<Rightarrow> connect_selected_edge i nodes edges))"

section \<open>Styling\<close>

definition node_highlighted :: "ConnectedElements \<Rightarrow> RFNode \<Rightarrow> bool" where
  "node_highlighted c n =
     (if isGroupType (rf_type n) then rf_id n \<in> set (ce_groups c) \<or> rf_id n \<in> set (ce_nodes c)
      else rf_id n \<in> set (ce_nodes c))"

definition styleNodesForSelection :: "RFNode list \<Rightarrow> ConnectedElements \<Rightarrow> RFNode list" where
  "styleNodesForSelection nodes c =
     map (\<lambda>n. n\<lparr>rf_opacity := Some (if node_highlighted c n then 1 else FADE_OPACITY)\<rparr>) nodes"

definition styleEdgesForSelection :: "RFEdge list \<Rightarrow> string list \<Rightarrow> bool \<Rightarrow> RFEdge list" where
  "styleEdgesForSelection edges connectedEdgeIds isLowZoom =
     map (\<lambda>e. let highlighted = re_id e \<in> set connectedEdgeIds in
        e\<lparr>re_opacity := Some (if highlighted then 1 else EDGE_FADE_OPACITY),
          re_strokeWidth := Some (if highlighted \<and> isLowZoom then HIGHLIGHT_EDGE_STROKE_WIDTH
            else DEFAULT_EDGE_STROKE_WIDTH)\<rparr>) edges"

section \<open>The hook\<close>

definition matchesSearch :: "RFNode \<Rightarrow> string list \<Rightarrow> bool" where
  "matchesSearch n matching =
     (isGroupType (rf_type n) \<or> rf_id n \<in> set matching \<or>
      (case serviceIdOf (Some n) of None \<Rightarrow> False | Some s \<Rightarrow> s \<in> set matching))"

record HighlightResult =
  hr_styledNodes :: "RFNode list"
  hr_styledEdges :: "RFEdge list"
  hr_canvasEdges :: "RFEdge list"
  hr_linkEdges :: "RFEdge list"

text \<open>
  The memo of \<open>useSelectionHighlight\<close>; \<open>linksFor\<close> gives the selection-dependent links (none when
  the caller passes no function). The SVG edges of its result are empty in every branch.
\<close>

definition present_selection :: "(SelectionState option \<Rightarrow> RFEdge list) \<Rightarrow> SelectionState option \<Rightarrow>
    RFNode list \<Rightarrow> RFEdge list \<Rightarrow> SelectionState option" where
  "present_selection linksFor selection nodes edges =
     (case selection of
        None \<Rightarrow> None
      | Some s \<Rightarrow> if isSelectionPresent s nodes (edges @ linksFor (Some s)) then Some s else None)"

definition highlight :: "(SelectionState option \<Rightarrow> RFEdge list) \<Rightarrow> SelectionState option \<Rightarrow> bool \<Rightarrow> bool \<Rightarrow>
    string list option \<Rightarrow> RFNode list \<Rightarrow> RFEdge list \<Rightarrow> HighlightResult" where
  "highlight linksFor selection useCanvas isLowZoom matching nodes edges =
     (let active = present_selection linksFor selection nodes edges; links = linksFor active in
      case active of
        None \<Rightarrow>
          \<lparr>hr_styledNodes = (case matching of
              None \<Rightarrow> nodes
            | Some m \<Rightarrow> map (\<lambda>n. n\<lparr>rf_opacity := Some (if matchesSearch n m then 1 else FADE_OPACITY)\<rparr>) nodes),
           hr_styledEdges = edges, hr_canvasEdges = (if useCanvas then edges else []), hr_linkEdges = links\<rparr>
      | Some s \<Rightarrow>
          let c = resolveConnectedElements s nodes (edges @ links);
              es = styleEdgesForSelection edges (ce_edges c) isLowZoom
          in \<lparr>hr_styledNodes = styleNodesForSelection nodes c, hr_styledEdges = es,
              hr_canvasEdges = (if useCanvas then es else []),
              hr_linkEdges = styleEdgesForSelection links (ce_edges c) isLowZoom\<rparr>)"

datatype selection_event =
  NodeClick string
| EdgeClick string
| PaneClick
| SelectNode string
| SelectEdge string
| EscapeKey

fun selection_step :: "SelectionState option \<Rightarrow> selection_event \<Rightarrow> SelectionState option" where
  "selection_step prev (NodeClick i) = (if prev = Some (SelectedNode i) then None else Some (SelectedNode i))"
| "selection_step prev (EdgeClick i) = (if prev = Some (SelectedEdge i) then None else Some (SelectedEdge i))"
| "selection_step prev PaneClick = None"
| "selection_step prev (SelectNode i) = Some (SelectedNode i)"
| "selection_step prev (SelectEdge i) = (if prev = Some (SelectedEdge i) then None else Some (SelectedEdge i))"
| "selection_step prev EscapeKey = None"

end
