(* ===== verification/SelectionGraphCorrect.thy ===== *)
theory SelectionGraphCorrect
  imports SelectionGraph
begin

text \<open>
  What a selection lights up: the walk down a group reaches exactly its descendants, at any
  depth; the walk up from the lit nodes reaches exactly their ancestor groups, although it
  stops at the first group it finds lit.
\<close>

section \<open>Descendants\<close>

definition below :: "RFNode list \<Rightarrow> (string \<times> string) set" where
  "below nodes = {(p, c). \<exists>n\<in>set nodes. rf_parentId n = Some p \<and> p \<noteq> [] \<and> rf_id n = c}"

lemma children_below: "set (members (children_by_parent nodes) p) = below nodes `` {p}"
  by (auto simp: children_by_parent_def members_group_on below_def key_of_def truthy_iff image_iff)

definition descend_inv :: "RFNode list \<Rightarrow> string \<Rightarrow> string list \<Rightarrow> string list \<Rightarrow> bool" where
  "descend_inv nodes g out stack \<longleftrightarrow> set stack \<subseteq> insert g (set out) \<and> set out \<subseteq> (below nodes)\<^sup>+ `` {g} \<and>
     (\<forall>x\<in>insert g (set out). x \<in> set stack \<or> below nodes `` {x} \<subseteq> set out)"

lemma descend_keeps:
  "descend_inv nodes g out stack \<Longrightarrow> descend_inv nodes g (descend (children_by_parent nodes) out stack) []"
proof (induction "children_by_parent nodes" out stack rule: descend.induct)
  case (1 out stack)
  show ?case
  proof (cases "stack = []")
    case True
    then show ?thesis using "1.prems" by (simp add: descend.simps)
  next
    case False
    let ?x = "last stack" and ?rest = "butlast stack"
    have stack: "set stack = insert ?x (set ?rest)"
      using False by (metis append_butlast_last_id list.set(2) rotate1.simps(2) set_rotate1)
    obtain out' stack' where run: "collect_children (members (children_by_parent nodes) ?x) (out, ?rest) = (out', stack')"
      by force
    then obtain new where new: "out' = out @ new" "stack' = ?rest @ new"
      "set new = below nodes `` {?x} - set out"
      using collect_children_spec children_below by metis
    have x: "?x \<in> insert g (set out)" using "1.prems" stack by (auto simp: descend_inv_def)
    have "set new \<subseteq> (below nodes)\<^sup>+ `` {g}"
      using x new(3) "1.prems" by (auto simp: descend_inv_def intro: trancl_into_trancl)
    moreover have "below nodes `` {?x} \<subseteq> set out'" using new by auto
    ultimately have "descend_inv nodes g out' stack'"
      using "1.prems" new stack unfolding descend_inv_def by auto
    then show ?thesis
      using "1.hyps" [OF False run [symmetric]] run False
      by (simp add: descend.simps [of _ out stack])
  qed
qed

lemma descendants_exact: "set (descendantIds g nodes) = (below nodes)\<^sup>+ `` {g}"
proof -
  have inv: "descend_inv nodes g (descendantIds g nodes) []"
    unfolding descendantIds_def by (rule descend_keeps) (simp add: descend_inv_def)
  have "x \<in> set (descendantIds g nodes)" if "(g, x) \<in> (below nodes)\<^sup>+" for x
    using that
  proof (induction rule: trancl_induct)
    case (base y)
    then show ?case using inv by (auto simp: descend_inv_def)
  next
    case (step y z)
    then show ?case using inv by (auto simp: descend_inv_def)
  qed
  then show ?thesis using inv by (auto simp: descend_inv_def)
qed

section \<open>Ancestors\<close>

definition above :: "RFNode list \<Rightarrow> (string \<times> string) set" where
  "above nodes = {(i, p). parent_of (node_by_id nodes) i = Some p \<and> p \<noteq> []}"

text \<open>Every lit group has its parent lit, except for the one the walk is about to light.\<close>

definition lit_upto :: "RFNode list \<Rightarrow> string list \<Rightarrow> string option \<Rightarrow> bool" where
  "lit_upto nodes lit pending \<longleftrightarrow> (\<forall>g q. g \<in> set lit \<and> (g, q) \<in> above nodes \<longrightarrow> q \<in> set lit \<or> pending = Some q)"

lemma lit_upto_mono: "lit_upto nodes lit None \<Longrightarrow> lit_upto nodes lit p"
  by (auto simp: lit_upto_def)

lemma light_up_stop: "\<not> (truthy p \<and> the p \<notin> set lit) \<Longrightarrow> light_up nm lit p = lit"
  by (subst light_up.simps) (rule if_not_P)

lemma light_up_go:
  "truthy p \<and> the p \<notin> set lit \<Longrightarrow> light_up nm lit p = light_up nm (set_add (the p) lit) (parent_of nm (the p))"
  by (subst light_up.simps) (rule if_P)

lemma light_up_spec:
  "lit_upto nodes lit pending \<Longrightarrow> lit' = light_up (node_by_id nodes) lit pending \<Longrightarrow>
     lit_upto nodes lit' None \<and> set lit \<subseteq> set lit' \<and>
     (\<forall>p. pending = Some p \<and> p \<noteq> [] \<longrightarrow> p \<in> set lit' \<and> set lit' \<subseteq> set lit \<union> (above nodes)\<^sup>* `` {p}) \<and>
     (\<not> truthy pending \<longrightarrow> lit' = lit)"
proof (induction "node_by_id nodes" lit pending arbitrary: lit' rule: light_up.induct)
  case (1 lit pending)
  show ?case
  proof (cases "truthy pending \<and> the pending \<notin> set lit")
    case False
    then have "lit' = lit" using "1.prems"(2) light_up_stop [OF False] by simp
    moreover have lit: "lit_upto nodes lit None"
      using False "1.prems"(1) unfolding lit_upto_def above_def truthy_iff by fastforce
    moreover have "p \<in> set lit" if "pending = Some p" "p \<noteq> []" for p
      using False that by simp
    ultimately show ?thesis by blast
  next
    case True
    then obtain p where p: "pending = Some p" "p \<noteq> []" "p \<notin> set lit" by (auto simp: truthy_iff)
    let ?q = "parent_of (node_by_id nodes) p"
    have pend: "the pending = p" using p(1) by simp
    have upto: "lit_upto nodes (set_add p lit) ?q"
      using "1.prems"(1) p(1) unfolding lit_upto_def above_def by auto
    have run: "lit' = light_up (node_by_id nodes) (set_add p lit) ?q"
      using "1.prems"(2) light_up_go [OF True, of "node_by_id nodes"] unfolding pend by simp
    note ih = "1.hyps" [OF True, unfolded pend, OF upto run]
    have sub: "set lit' \<subseteq> set lit \<union> (above nodes)\<^sup>* `` {p}"
    proof (cases "truthy ?q")
      case False
      then have "lit' = set_add p lit" using ih by blast
      then show ?thesis by auto
    next
      case True
      then obtain r where r: "?q = Some r" "r \<noteq> []" by (auto simp: truthy_iff)
      then have "(p, r) \<in> above nodes" by (simp add: above_def)
      then have "(above nodes)\<^sup>* `` {r} \<subseteq> (above nodes)\<^sup>* `` {p}"
        by (auto intro: converse_rtrancl_into_rtrancl)
      moreover have "set lit' \<subseteq> set (set_add p lit) \<union> (above nodes)\<^sup>* `` {r}" using ih r by blast
      ultimately show ?thesis by auto
    qed
    have "set (set_add p lit) \<subseteq> set lit'" using ih by blast
    then show ?thesis using ih sub p by simp
  qed
qed

text \<open>Closed under parents, a lit set holds every ancestor of its members.\<close>

lemma lit_closed: "lit_upto nodes lit None \<Longrightarrow> p \<in> set lit \<Longrightarrow> (above nodes)\<^sup>* `` {p} \<subseteq> set lit"
proof
  fix x assume lit: "lit_upto nodes lit None" "p \<in> set lit" and "x \<in> (above nodes)\<^sup>* `` {p}"
  then have "(p, x) \<in> (above nodes)\<^sup>*" by simp
  then show "x \<in> set lit"
    by (induction rule: rtrancl_induct) (use lit in \<open>auto simp: lit_upto_def\<close>)
qed

lemma trancl_above:
  "(above nodes)\<^sup>+ `` {i} = (case parent_of (node_by_id nodes) i of
     None \<Rightarrow> {} | Some p \<Rightarrow> if p = [] then {} else (above nodes)\<^sup>* `` {p})"
proof -
  have "(above nodes)\<^sup>+ = above nodes O (above nodes)\<^sup>*" by (simp add: trancl_unfold_left)
  then show ?thesis by (auto simp: above_def split: option.splits)
qed

lemma light_up_exact:
  assumes "lit_upto nodes lit None"
  shows "set (light_up (node_by_id nodes) lit (parent_of (node_by_id nodes) i)) = set lit \<union> (above nodes)\<^sup>+ `` {i}"
    "lit_upto nodes (light_up (node_by_id nodes) lit (parent_of (node_by_id nodes) i)) None"
proof -
  let ?r = "light_up (node_by_id nodes) lit (parent_of (node_by_id nodes) i)"
  note spec = light_up_spec [OF lit_upto_mono [OF assms] refl, of "parent_of (node_by_id nodes) i"]
  show closed: "lit_upto nodes ?r None" using spec by blast
  show "set ?r = set lit \<union> (above nodes)\<^sup>+ `` {i}"
  proof (cases "truthy (parent_of (node_by_id nodes) i)")
    case False
    then show ?thesis using spec by (auto simp: trancl_above split: option.split)
  next
    case True
    then obtain p where p: "parent_of (node_by_id nodes) i = Some p" "p \<noteq> []" by (auto simp: truthy_iff)
    then have "p \<in> set ?r" "set ?r \<subseteq> set lit \<union> (above nodes)\<^sup>* `` {p}" "set lit \<subseteq> set ?r"
      using spec by auto
    then show ?thesis using lit_closed [OF closed, of p] p by (auto simp: trancl_above)
  qed
qed

lemma light_all_exact:
  "lit_upto nodes lit None \<Longrightarrow>
     set (foldl (\<lambda>lit i. light_up (node_by_id nodes) lit (parent_of (node_by_id nodes) i)) lit ids) =
       set lit \<union> (above nodes)\<^sup>+ `` set ids"
proof (induction ids arbitrary: lit)
  case (Cons i ids)
  show ?case using Cons.IH [OF light_up_exact(2) [OF Cons.prems]] light_up_exact(1) [OF Cons.prems] by auto
qed simp

lemma nodes_only_groups:
  "ce_groups (connect_node i sel nodes edges) = []" "ce_groups (connect_selected_edge i nodes edges) = []"
proof -
  have "ce_groups (foldl (\<lambda>c e. if P e then connect_edge e c else c) c edges) = ce_groups c" for P c
    by (induction edges arbitrary: c) (simp_all add: connect_edge_def)
  then show "ce_groups (connect_node i sel nodes edges) = []" by (simp add: connect_node_def Let_def)
  show "ce_groups (connect_selected_edge i nodes edges) = []"
    by (simp add: connect_selected_edge_def connect_edge_def Let_def split: option.split)
qed

section \<open>Group selections\<close>

lemma group_children_lit:
  "set (ce_nodes (foldl (group_child nm) c ids)) = set (ce_nodes c) \<union> set ids"
  "set (ce_groups (foldl (group_child nm) c ids)) = set (ce_groups c) \<union> {i \<in> set ids. is_group_id nm i}"
  by (induction ids arbitrary: c) (auto simp: group_child_def Let_def)

lemma light_up_mono: "set lit \<subseteq> set (light_up nm lit p)"
proof (induction nm lit p rule: light_up.induct)
  case (1 nm lit p)
  show ?case
  proof (cases "truthy p \<and> the p \<notin> set lit")
    case True
    then show ?thesis using "1.IH" [OF True] light_up_go [OF True, of nm] by auto
  next
    case False
    then show ?thesis using light_up_stop by simp
  qed
qed

lemma group_edges_mono:
  "set (ce_nodes c) \<subseteq> set (ce_nodes (foldl (group_edge nm inside) c es)) \<and>
   set (ce_groups c) \<subseteq> set (ce_groups (foldl (group_edge nm inside) c es))"
proof (induction es arbitrary: c)
  case (Cons e es)
  have "set (ce_nodes c) \<subseteq> set (ce_nodes (group_edge nm inside c e))"
    "set (ce_groups c) \<subseteq> set (ce_groups (group_edge nm inside c e))"
    using light_up_mono by (auto simp: group_edge_def connect_edge_def Let_def)
  then show ?case using Cons [of "group_edge nm inside c e"] by (auto simp del: foldl_Cons simp: foldl_Cons)
qed simp

text \<open>
  C32. What a selection lights. Selecting a group lights it, everything nested in it at any
  depth and the groups among those. Selecting a node, a service card or an edge lights, as
  groups, exactly the ancestors of the lit nodes, at any depth of nesting: no node shows
  highlighted inside a faded group, and no other group is lit for it.
\<close>

theorem selection_lights:
  "if is_group_selection sel nodes
   then (case sel of
       SelectedNode i \<Rightarrow>
         i \<in> set (ce_groups (resolveConnectedElements sel nodes edges)) \<and>
         (below nodes)\<^sup>+ `` {i} \<subseteq> set (ce_nodes (resolveConnectedElements sel nodes edges)) \<and>
         {g \<in> (below nodes)\<^sup>+ `` {i}. is_group_id (node_by_id nodes) g}
           \<subseteq> set (ce_groups (resolveConnectedElements sel nodes edges))
     | SelectedEdge i \<Rightarrow> False)
   else set (ce_groups (resolveConnectedElements sel nodes edges)) =
     (above nodes)\<^sup>+ `` set (ce_nodes (resolveConnectedElements sel nodes edges))"
proof (cases "is_group_selection sel nodes")
  case True
  then obtain i where i: "sel = SelectedNode i"
    by (cases sel) (auto simp: is_group_selection_def selected_node_def)
  let ?c1 = "foldl (group_child (node_by_id nodes)) \<lparr>ce_edges = [], ce_nodes = [], ce_groups = [i]\<rparr> (descendantIds i nodes)"
  have "set (ce_nodes ?c1) = (below nodes)\<^sup>+ `` {i}"
    "set (ce_groups ?c1) = insert i {g \<in> (below nodes)\<^sup>+ `` {i}. is_group_id (node_by_id nodes) g}"
    by (simp_all add: group_children_lit descendants_exact [symmetric])
  then show ?thesis
    using True i group_edges_mono [of ?c1 "node_by_id nodes"
        "\<lambda>x. x = i \<or> x \<in> set (descendantIds i nodes)" edges]
    by (auto simp: resolveConnectedElements_def connect_group_def Let_def)
next
  case False
  then show ?thesis
    using light_all_exact [of nodes "[]"]
    by (auto simp: resolveConnectedElements_def light_parents_def nodes_only_groups lit_upto_def
        split: SelectionState.split)
qed

end
