(* ===== verification/SwarmLinks.thy ===== *)
theory SwarmLinks
  imports SelectionGraph NodeTransform
begin

text \<open>
  The links of the per-node view (\<^verbatim>\<open>utils/swarmLinks.ts\<close>): one control-plane spoke per worker, and
  the overlay links of a selected service, from each of its cards to the cards on other nodes
  that share a network with it.
\<close>

definition SWARM_LINK_EDGE_TYPE :: string where
  "SWARM_LINK_EDGE_TYPE = ''swarmLink''"

definition controlLinkId :: "string \<Rightarrow> string" where
  "controlLinkId workerId = ''swarmlink:control:'' @ workerId"

definition MAX_OVERLAY_LINKS :: nat where
  "MAX_OVERLAY_LINKS = 60"

definition swarm_link :: "string \<Rightarrow> string \<Rightarrow> string \<Rightarrow> rf_edge_data \<Rightarrow> RFEdge" where
  "swarm_link i source target d = \<lparr>re_id = i, re_source = source, re_target = target,
     re_type = SWARM_LINK_EDGE_TYPE, re_data = d, re_stroke = None, re_strokeWidth = None, re_opacity = None\<rparr>"

lemma swarm_link_sel [simp]:
  "re_id (swarm_link i s t d) = i" "re_source (swarm_link i s t d) = s"
  "re_target (swarm_link i s t d) = t" "re_data (swarm_link i s t d) = d"
  by (simp_all add: swarm_link_def)

section \<open>Control plane\<close>

definition controlLinkEdges :: "collator \<Rightarrow> DGNode list \<Rightarrow> RFEdge list" where
  "controlLinkEdges lc dgNodes =
     (let nodes = listSwarmNodes lc dgNodes;
          workers = filter (\<lambda>n. swarmRole n = Worker) nodes
      in if workers = [] \<or> \<not> list_ex (\<lambda>n. swarmRole n = Manager) nodes then []
         else map (\<lambda>w. swarm_link (controlLinkId (dg_id w)) (roleGroupId Manager) (dg_id w)
                (ControlLink (node_state w = Some ''ready''))) workers)"

text \<open>One spoke per worker as soon as there is a manager.\<close>

lemma control_links:
  assumes "m \<in> set dgNodes" "dg_type m = SwarmNode" "swarmRole m = Manager"
  shows "mset (map re_target (controlLinkEdges lc dgNodes)) =
    mset (map dg_id (filter (\<lambda>n. dg_type n = SwarmNode \<and> swarmRole n = Worker) dgNodes))"
proof -
  have ex: "list_ex (\<lambda>n. swarmRole n = Manager) (listSwarmNodes lc dgNodes)"
    using assms by (auto simp: listSwarmNodes_def list_ex_iff)
  have "map re_target (controlLinkEdges lc dgNodes) =
      map dg_id (filter (\<lambda>n. swarmRole n = Worker) (listSwarmNodes lc dgNodes))"
    using ex by (auto simp: controlLinkEdges_def Let_def)
  moreover have "mset (filter (\<lambda>n. swarmRole n = Worker) (listSwarmNodes lc dgNodes)) =
      mset (filter (\<lambda>n. dg_type n = SwarmNode \<and> swarmRole n = Worker) dgNodes)"
    by (simp add: listSwarmNodes_def conj_commute flip: filter_filter)
  ultimately show ?thesis by simp
qed

section \<open>Overlay links\<close>

definition add_network :: "(string, string) jsmap \<Rightarrow> (string, string list) jsmap \<Rightarrow> string \<times> string option \<Rightarrow>
    (string, string list) jsmap" where
  "add_network nameOf out sn =
     (case sn of (serviceId, networkId) \<Rightarrow>
        let name = (if truthy networkId then map_get nameOf (the networkId) else None) in
        if \<not> truthy name then out
        else map_set out serviceId (set_add (the name) (nullish (map_get out serviceId) [])))"

definition serviceNetworks :: "DGNode list \<Rightarrow> DGEdge list \<Rightarrow> (string, string list) jsmap" where
  "serviceNetworks dgNodes dgEdges =
     (let nameOf = foldl (\<lambda>m n. map_set m (dg_id n) (dg_name n)) [] (filter (\<lambda>n. dg_type n = Network) dgNodes);
          out = foldl (add_network nameOf) []
            (map (\<lambda>n. (dg_id n, dg_networkId n)) (filter (\<lambda>n. dg_type n = Service) dgNodes))
      in foldl (add_network nameOf) out
           (map (\<lambda>e. (de_source e, Some (de_target e))) (filter (\<lambda>e. de_type e = SecondaryNetwork) dgEdges)))"

text \<open>\<open>cardId.split(':')[1] ?? ''\<close>.\<close>

definition cardHost :: "string \<Rightarrow> string" where
  "cardHost cardId = (case dropWhile (\<lambda>c. c \<noteq> CHR '':'') cardId of
     [] \<Rightarrow> [] | _ # r \<Rightarrow> takeWhile (\<lambda>c. c \<noteq> CHR '':'') r)"

definition shared_networks :: "(string, string list) jsmap \<Rightarrow> string list \<Rightarrow> string \<Rightarrow> string \<Rightarrow> string list" where
  "shared_networks networks own serviceId sid =
     (if sid = serviceId then own
      else filter (\<lambda>net. net \<in> set own) (nullish (map_get networks sid) []))"

definition add_peer :: "(string, string list) jsmap \<Rightarrow> string list \<Rightarrow> string \<Rightarrow> (RFNode \<times> string list) list \<Rightarrow>
    RFNode \<Rightarrow> (RFNode \<times> string list) list" where
  "add_peer networks own serviceId peers c =
     (let shared = shared_networks networks own serviceId (the (serviceIdOf (Some c)))
      in if shared \<noteq> [] then peers @ [(c, sort_strings shared)] else peers)"

definition pair_key :: "RFNode \<Rightarrow> RFNode \<Rightarrow> string" where
  "pair_key from_card to_card = join ''|'' (sort_strings [rf_id from_card, rf_id to_card])"

definition overlay_id :: "string \<Rightarrow> string" where
  "overlay_id key = ''swarmlink:overlay:'' @ key"

text \<open>
  One pair of the two loops, on the edges and the keys seen. The loops return when the cap is
  reached, so a pair that comes after that changes nothing.
\<close>

definition overlay_pair :: "string option \<Rightarrow> RFNode \<Rightarrow> RFEdge list \<times> string list \<Rightarrow> RFNode \<times> string list \<Rightarrow>
    RFEdge list \<times> string list" where
  "overlay_pair stack from_card acc peer =
     (case (acc, peer) of ((edges, seen), (to_card, shared)) \<Rightarrow>
        if length edges \<ge> MAX_OVERLAY_LINKS then acc
        else if rf_id to_card = rf_id from_card \<or> cardHost (rf_id to_card) = cardHost (rf_id from_card) then acc
        else let key = pair_key from_card to_card in
          if key \<in> set seen then acc
          else (edges @ [swarm_link (overlay_id key) (rf_id from_card) (rf_id to_card) (OverlayLink shared stack)],
                set_add key seen))"

definition overlay_rows :: "string option \<Rightarrow> (RFNode \<times> string list) list \<Rightarrow> RFNode list \<Rightarrow>
    RFEdge list \<times> string list" where
  "overlay_rows stack peers selected =
     foldl (\<lambda>acc from_card. foldl (overlay_pair stack from_card) acc peers) ([], []) selected"

definition overlayLinkEdges :: "DGNode list \<Rightarrow> DGEdge list \<Rightarrow> RFNode list \<Rightarrow> string \<Rightarrow> RFEdge list" where
  "overlayLinkEdges dgNodes dgEdges rfNodes serviceId =
     (let networks = serviceNetworks dgNodes dgEdges in
      case map_get networks serviceId of
        None \<Rightarrow> []
      | Some own \<Rightarrow>
          if own = [] then []
          else let stack = (case find (\<lambda>n. dg_id n = serviceId) dgNodes of None \<Rightarrow> None | Some n \<Rightarrow> dg_stack n);
                   cards = filter (\<lambda>n. serviceIdOf (Some n) \<noteq> None) rfNodes;
                   selected = filter (\<lambda>n. serviceIdOf (Some n) = Some serviceId) cards;
                   peers = foldl (add_peer networks own serviceId) [] cards
               in fst (overlay_rows stack peers selected))"

subsection \<open>Which links there are\<close>

text \<open>The networks of a service: the named one it is on, and those of its secondary edges.\<close>

definition network_name :: "DGNode list \<Rightarrow> string \<Rightarrow> string option" where
  "network_name dgNodes k = (case filter (\<lambda>n. dg_type n = Network \<and> dg_id n = k) dgNodes of
     [] \<Rightarrow> None | ns \<Rightarrow> Some (dg_name (last ns)))"

definition attached :: "DGNode list \<Rightarrow> DGEdge list \<Rightarrow> string \<Rightarrow> string \<Rightarrow> bool" where
  "attached dgNodes dgEdges serviceId name \<longleftrightarrow> name \<noteq> [] \<and>
     (\<exists>k. k \<noteq> [] \<and> network_name dgNodes k = Some name \<and>
       ((\<exists>n\<in>set dgNodes. dg_type n = Service \<and> dg_id n = serviceId \<and> dg_networkId n = Some k) \<or>
        (\<exists>e\<in>set dgEdges. de_type e = SecondaryNetwork \<and> de_source e = serviceId \<and> de_target e = k)))"

lemma name_map:
  "map_get (foldl (\<lambda>m n. map_set m (dg_id n) (dg_name n)) [] (filter (\<lambda>n. dg_type n = Network) dgNodes)) k =
   network_name dgNodes k"
proof (induction dgNodes rule: rev_induct)
  case (snoc n ns)
  then show ?case by (auto simp: network_name_def js.get_put split: list.splits)
qed (simp add: network_name_def)

lemma add_network_get:
  "set (nullish (map_get (add_network nameOf out (s, k)) i) []) =
     set (nullish (map_get out i) []) \<union>
     (if i = s \<and> truthy k \<and> truthy (map_get nameOf (the k)) then {the (map_get nameOf (the k))} else {})"
  by (auto simp: add_network_def Let_def js.get_put)

lemma add_networks_get:
  "set (nullish (map_get (foldl (add_network nameOf) out xs) i) []) =
     set (nullish (map_get out i) []) \<union>
     {name. name \<noteq> [] \<and> (\<exists>k. k \<noteq> [] \<and> (i, Some k) \<in> set xs \<and> map_get nameOf k = Some name)}"
proof (induction xs arbitrary: out)
  case (Cons x xs)
  obtain s k where x: "x = (s, k)" by force
  show ?case
    using Cons [of "add_network nameOf out x"]
    unfolding x foldl_Cons add_network_get by (auto simp: truthy_iff)
qed simp

lemma service_networks:
  "set (nullish (map_get (serviceNetworks dgNodes dgEdges) i) []) = {name. attached dgNodes dgEdges i name}"
proof -
  have primary: "(i, Some k) \<in> set (map (\<lambda>n. (dg_id n, dg_networkId n)) (filter (\<lambda>n. dg_type n = Service) dgNodes)) \<longleftrightarrow>
      (\<exists>n\<in>set dgNodes. dg_type n = Service \<and> dg_id n = i \<and> dg_networkId n = Some k)" for k
    by force
  have secondary: "(i, Some k) \<in> set (map (\<lambda>e. (de_source e, Some (de_target e)))
        (filter (\<lambda>e. de_type e = SecondaryNetwork) dgEdges)) \<longleftrightarrow>
      (\<exists>e\<in>set dgEdges. de_type e = SecondaryNetwork \<and> de_source e = i \<and> de_target e = k)" for k
    by force
  show ?thesis
    unfolding serviceNetworks_def Let_def add_networks_get primary secondary name_map
    by (auto simp: attached_def)
qed

lemma cards_of_peers:
  "foldl (add_peer networks own serviceId) acc cards = acc @
     concat (map (\<lambda>c. let shared = shared_networks networks own serviceId (the (serviceIdOf (Some c)))
       in if shared \<noteq> [] then [(c, sort_strings shared)] else []) cards)"
  by (induction cards arbitrary: acc) (auto simp: add_peer_def Let_def)

text \<open>The two loops are one loop over the pairs of cards.\<close>

definition pair_step :: "string option \<Rightarrow> RFEdge list \<times> string list \<Rightarrow> RFNode \<times> RFNode \<times> string list \<Rightarrow>
    RFEdge list \<times> string list" where
  "pair_step stack acc fp = overlay_pair stack (fst fp) acc (snd fp)"

lemma foldl_product:
  "foldl (\<lambda>acc f. foldl (g f) acc ps) acc fs = foldl (\<lambda>acc fp. g (fst fp) acc (snd fp)) acc (List.product fs ps)"
proof (induction fs arbitrary: acc)
  case (Cons f fs)
  have "foldl (g f) acc ps = foldl (\<lambda>acc fp. g (fst fp) acc (snd fp)) acc (map (Pair f) ps)" for acc
    by (induction ps arbitrary: acc) simp_all
  then show ?case using Cons by simp
qed simp

lemma overlay_rows_pairs: "overlay_rows stack ps fs = foldl (pair_step stack) ([], []) (List.product fs ps)"
  unfolding overlay_rows_def foldl_product pair_step_def ..

definition links_ok :: "(RFNode \<times> RFNode \<times> string list) set \<Rightarrow> RFEdge list \<times> string list \<Rightarrow> bool" where
  "links_ok pairs acc \<longleftrightarrow>
     length (fst acc) \<le> MAX_OVERLAY_LINKS \<and> map re_id (fst acc) = map overlay_id (snd acc) \<and> distinct (snd acc) \<and>
     (\<forall>e\<in>set (fst acc). \<exists>(f, t, shared)\<in>pairs. \<exists>stack.
        cardHost (rf_id t) \<noteq> cardHost (rf_id f) \<and> re_source e = rf_id f \<and> re_target e = rf_id t \<and>
        re_id e = overlay_id (pair_key f t) \<and> re_data e = OverlayLink shared stack)"

lemma pair_step_cases:
  obtains "pair_step stack acc (f, t, shared) = acc" "MAX_OVERLAY_LINKS \<le> length (fst acc) \<or>
      cardHost (rf_id t) = cardHost (rf_id f) \<or> pair_key f t \<in> set (snd acc)"
  | "pair_step stack acc (f, t, shared) =
      (fst acc @ [swarm_link (overlay_id (pair_key f t)) (rf_id f) (rf_id t) (OverlayLink shared stack)],
       snd acc @ [pair_key f t])"
    "length (fst acc) < MAX_OVERLAY_LINKS" "cardHost (rf_id t) \<noteq> cardHost (rf_id f)" "pair_key f t \<notin> set (snd acc)"
  by (cases acc) (fastforce simp: pair_step_def overlay_pair_def Let_def set_add_def split: if_splits)

lemma pair_step_ok:
  assumes "links_ok pairs acc" "fp \<in> pairs"
  shows "links_ok pairs (pair_step stack acc fp)"
proof -
  obtain f t shared where fp: "fp = (f, t, shared)" by (metis prod_cases3)
  show ?thesis
  proof (cases rule: pair_step_cases [of stack acc f t shared])
    case 1
    then show ?thesis using assms fp by simp
  next
    case 2
    then show ?thesis using assms fp by (auto simp: links_ok_def intro!: bexI [of _ "(f, t, shared)"])
  qed
qed

lemma foldl_inv:
  "P s \<Longrightarrow> (\<And>s x. x \<in> set xs \<Longrightarrow> P s \<Longrightarrow> P (f s x)) \<Longrightarrow> P (foldl f s xs)"
  by (induction xs arbitrary: s) simp_all

text \<open>Below the cap, every pair met so far has its key among those seen.\<close>

lemma pair_step_grows:
  "set (snd acc) \<subseteq> set (snd (pair_step stack acc fp)) \<and> length (fst acc) \<le> length (fst (pair_step stack acc fp))"
  by (cases fp, rule pair_step_cases [of stack acc "fst fp" "fst (snd fp)" "snd (snd fp)"]) auto

lemma pairs_grow:
  "set (snd acc) \<subseteq> set (snd (foldl (pair_step stack) acc fps)) \<and>
   length (fst acc) \<le> length (fst (foldl (pair_step stack) acc fps))"
proof (induction fps arbitrary: acc)
  case (Cons fp fps)
  then show ?case using pair_step_grows [of acc stack fp] Cons [of "pair_step stack acc fp"]
    unfolding foldl_Cons by (meson order_trans)
qed simp

lemma overlay_rows_seen:
  assumes "length (fst (overlay_rows stack ps fs)) < MAX_OVERLAY_LINKS"
    and "f \<in> set fs" "(t, shared) \<in> set ps" "cardHost (rf_id t) \<noteq> cardHost (rf_id f)"
  shows "pair_key f t \<in> set (snd (overlay_rows stack ps fs))"
proof -
  have "(f, t, shared) \<in> set (List.product fs ps)" using assms(2,3) by auto
  then obtain xs ys where fps: "List.product fs ps = xs @ (f, t, shared) # ys" by (meson split_list)
  let ?before = "foldl (pair_step stack) ([], []) xs"
  let ?acc = "pair_step stack ?before (f, t, shared)"
  have run: "overlay_rows stack ps fs = foldl (pair_step stack) ?acc ys"
    by (simp add: overlay_rows_pairs fps)
  then have "length (fst ?acc) < MAX_OVERLAY_LINKS" "set (snd ?acc) \<subseteq> set (snd (overlay_rows stack ps fs))"
    using assms(1) pairs_grow [of ?acc stack ys] by auto
  moreover have "pair_key f t \<in> set (snd ?acc)"
  proof (cases rule: pair_step_cases [of stack ?before f t shared])
    case 1
    then show ?thesis using \<open>length (fst ?acc) < MAX_OVERLAY_LINKS\<close> assms(4) by auto
  next
    case 2
    then show ?thesis by simp
  qed
  ultimately show ?thesis by blast
qed

text \<open>Two cards of the canvas that a link of the selected service joins.\<close>

definition share_network :: "DGNode list \<Rightarrow> DGEdge list \<Rightarrow> string \<Rightarrow> RFNode \<Rightarrow> RFNode \<Rightarrow> string \<Rightarrow> bool" where
  "share_network dgNodes dgEdges serviceId f t net \<longleftrightarrow>
     serviceIdOf (Some f) = Some serviceId \<and> cardHost (rf_id t) \<noteq> cardHost (rf_id f) \<and>
     attached dgNodes dgEdges serviceId net \<and>
     (\<exists>sid. serviceIdOf (Some t) = Some sid \<and> attached dgNodes dgEdges sid net)"

lemma shared_iff:
  assumes "map_get (serviceNetworks dgNodes dgEdges) serviceId = Some own"
  shows "set (shared_networks (serviceNetworks dgNodes dgEdges) own serviceId sid) =
    {net. attached dgNodes dgEdges serviceId net \<and> attached dgNodes dgEdges sid net}"
proof -
  have "set own = {net. attached dgNodes dgEdges serviceId net}"
    using service_networks [of dgNodes dgEdges serviceId] assms by simp
  then show ?thesis
    using service_networks [of dgNodes dgEdges sid] by (auto simp: shared_networks_def)
qed

definition selected_cards :: "RFNode list \<Rightarrow> string \<Rightarrow> RFNode list" where
  "selected_cards rfNodes serviceId = filter (\<lambda>n. serviceIdOf (Some n) = Some serviceId) rfNodes"

definition peer_cards :: "DGNode list \<Rightarrow> DGEdge list \<Rightarrow> RFNode list \<Rightarrow> string list \<Rightarrow> string \<Rightarrow>
    (RFNode \<times> string list) list" where
  "peer_cards dgNodes dgEdges rfNodes own serviceId =
     foldl (add_peer (serviceNetworks dgNodes dgEdges) own serviceId) []
       (filter (\<lambda>n. serviceIdOf (Some n) \<noteq> None) rfNodes)"

lemma overlay_links_run:
  assumes "map_get (serviceNetworks dgNodes dgEdges) serviceId = Some own" "own \<noteq> []"
  obtains stack where "overlayLinkEdges dgNodes dgEdges rfNodes serviceId =
    fst (overlay_rows stack (peer_cards dgNodes dgEdges rfNodes own serviceId) (selected_cards rfNodes serviceId))"
proof -
  have "filter (\<lambda>n. serviceIdOf (Some n) = Some serviceId) (filter (\<lambda>n. serviceIdOf (Some n) \<noteq> None) rfNodes) =
      selected_cards rfNodes serviceId"
    by (auto simp: selected_cards_def intro: filter_cong)
  then show ?thesis
    using assms that by (simp add: overlayLinkEdges_def peer_cards_def Let_def)
qed

lemma peer_iff:
  "(t, nets) \<in> set (peer_cards dgNodes dgEdges rfNodes own serviceId) \<longleftrightarrow>
   t \<in> set rfNodes \<and> (\<exists>sid. serviceIdOf (Some t) = Some sid \<and>
     shared_networks (serviceNetworks dgNodes dgEdges) own serviceId sid \<noteq> [] \<and>
     nets = sort_strings (shared_networks (serviceNetworks dgNodes dgEdges) own serviceId sid))"
  by (auto simp: peer_cards_def cards_of_peers Let_def split: if_splits)

lemma peer_linked:
  assumes "map_get (serviceNetworks dgNodes dgEdges) serviceId = Some own"
    and "(t, nets) \<in> set (peer_cards dgNodes dgEdges rfNodes own serviceId)"
    and "f \<in> set (selected_cards rfNodes serviceId)" "cardHost (rf_id t) \<noteq> cardHost (rf_id f)"
  shows "{f, t} \<subseteq> set rfNodes \<and> nets \<noteq> [] \<and> set nets = {net. share_network dgNodes dgEdges serviceId f t net}"
proof -
  let ?shared = "shared_networks (serviceNetworks dgNodes dgEdges) own serviceId"
  obtain sid where sid: "serviceIdOf (Some t) = Some sid" "t \<in> set rfNodes" "?shared sid \<noteq> []"
      "nets = sort_strings (?shared sid)"
    using assms(2) unfolding peer_iff by blast
  have f: "f \<in> set rfNodes" "serviceIdOf (Some f) = Some serviceId" using assms(3) by (simp_all add: selected_cards_def)
  have set_nets: "set nets = set (?shared sid)" unfolding sid(4) by simp
  then have "nets \<noteq> []" using sid(3) by fastforce
  moreover have "set nets = {net. share_network dgNodes dgEdges serviceId f t net}"
    unfolding set_nets shared_iff [OF assms(1)] share_network_def using sid(1) f(2) assms(4) by simp
  ultimately show ?thesis using f(1) sid(2) by simp
qed

lemma linked_peer:
  assumes "map_get (serviceNetworks dgNodes dgEdges) serviceId = Some own"
    and "{f, t} \<subseteq> set rfNodes" "share_network dgNodes dgEdges serviceId f t net"
  shows "f \<in> set (selected_cards rfNodes serviceId) \<and> cardHost (rf_id t) \<noteq> cardHost (rf_id f) \<and>
    (\<exists>nets. (t, nets) \<in> set (peer_cards dgNodes dgEdges rfNodes own serviceId))"
proof -
  obtain sid where sid: "serviceIdOf (Some t) = Some sid" "attached dgNodes dgEdges sid net"
      "attached dgNodes dgEdges serviceId net"
    using assms(3) by (auto simp: share_network_def)
  then have "net \<in> set (shared_networks (serviceNetworks dgNodes dgEdges) own serviceId sid)"
    using shared_iff [OF assms(1), of sid] by simp
  then have "shared_networks (serviceNetworks dgNodes dgEdges) own serviceId sid \<noteq> []" by auto
  then show ?thesis using assms(2,3) sid by (auto simp: peer_iff share_network_def selected_cards_def)
qed

text \<open>What the loops keep, for the cards of a service: the links drawn are right, and below the cap none is missing.\<close>

lemma overlay_rows_right:
  assumes own: "map_get (serviceNetworks dgNodes dgEdges) serviceId = Some own"
    and acc_def: "acc = overlay_rows stack (peer_cards dgNodes dgEdges rfNodes own serviceId) (selected_cards rfNodes serviceId)"
  shows "length (fst acc) \<le> MAX_OVERLAY_LINKS" "distinct (map re_id (fst acc))"
    "re_id ` set (fst acc) = overlay_id ` set (snd acc)"
    "e \<in> set (fst acc) \<Longrightarrow> \<exists>f t nets stack. {f, t} \<subseteq> set rfNodes \<and> re_source e = rf_id f \<and> re_target e = rf_id t \<and>
       re_id e = overlay_id (pair_key f t) \<and> re_data e = OverlayLink nets stack \<and> nets \<noteq> [] \<and> set nets = {net. share_network dgNodes dgEdges serviceId f t net}"
proof -
  let ?peers = "peer_cards dgNodes dgEdges rfNodes own serviceId" and ?selected = "selected_cards rfNodes serviceId"
  have ok: "links_ok (set (List.product ?selected ?peers)) acc"
    unfolding acc_def overlay_rows_pairs by (rule foldl_inv) (simp add: links_ok_def, rule pair_step_ok)
  then show "length (fst acc) \<le> MAX_OVERLAY_LINKS" by (simp add: links_ok_def)
  from ok have ids: "map re_id (fst acc) = map overlay_id (snd acc)" "distinct (snd acc)" by (simp_all add: links_ok_def)
  then show "distinct (map re_id (fst acc))" by (simp add: distinct_map inj_on_def overlay_id_def)
  show "re_id ` set (fst acc) = overlay_id ` set (snd acc)" using ids(1) by (metis set_map)
  assume "e \<in> set (fst acc)"
  then obtain f t nets stk where e: "f \<in> set ?selected" "(t, nets) \<in> set ?peers"
      "cardHost (rf_id t) \<noteq> cardHost (rf_id f)" "re_source e = rf_id f" "re_target e = rf_id t"
      "re_id e = overlay_id (pair_key f t)" "re_data e = OverlayLink nets stk"
    using ok unfolding links_ok_def by fastforce
  show "\<exists>f t nets stack. {f, t} \<subseteq> set rfNodes \<and> re_source e = rf_id f \<and> re_target e = rf_id t \<and>
       re_id e = overlay_id (pair_key f t) \<and> re_data e = OverlayLink nets stack \<and> nets \<noteq> [] \<and> set nets = {net. share_network dgNodes dgEdges serviceId f t net}"
    using peer_linked [OF own e(2,1,3)] e(4-7) by blast
qed

lemma overlay_links_keyed:
  "let es = overlayLinkEdges dgNodes dgEdges rfNodes serviceId in
     length es \<le> MAX_OVERLAY_LINKS \<and> distinct (map re_id es) \<and>
     set es \<subseteq> {e. \<exists>f t nets stack. {f, t} \<subseteq> set rfNodes \<and> re_source e = rf_id f \<and> re_target e = rf_id t \<and>
       re_id e = overlay_id (pair_key f t) \<and> re_data e = OverlayLink nets stack \<and> nets \<noteq> [] \<and>
       set nets = {net. share_network dgNodes dgEdges serviceId f t net}} \<and>
     (length es = MAX_OVERLAY_LINKS \<or>
      {(f, t). {f, t} \<subseteq> set rfNodes \<and> (\<exists>net. share_network dgNodes dgEdges serviceId f t net)} \<subseteq>
      {(f, t). overlay_id (pair_key f t) \<in> re_id ` set es})"
proof (cases "nullish (map_get (serviceNetworks dgNodes dgEdges) serviceId) [] = []")
  case True
  then have "\<not> attached dgNodes dgEdges serviceId net" for net
    using service_networks [of dgNodes dgEdges serviceId] by auto
  then show ?thesis
    using True by (auto simp: overlayLinkEdges_def Let_def share_network_def nullish_def split: option.splits)
next
  case False
  then obtain own where own: "map_get (serviceNetworks dgNodes dgEdges) serviceId = Some own" "own \<noteq> []"
    by (cases "map_get (serviceNetworks dgNodes dgEdges) serviceId") auto
  let ?peers = "peer_cards dgNodes dgEdges rfNodes own serviceId" and ?selected = "selected_cards rfNodes serviceId"
  from own obtain stack where es: "overlayLinkEdges dgNodes dgEdges rfNodes serviceId =
      fst (overlay_rows stack ?peers ?selected)" by (rule overlay_links_run)
  note right = overlay_rows_right [OF own(1) refl, where stack = stack and rfNodes = rfNodes]
  have all: "overlay_id (pair_key f t) \<in> re_id ` set (fst (overlay_rows stack ?peers ?selected))"
    if "length (fst (overlay_rows stack ?peers ?selected)) < MAX_OVERLAY_LINKS"
      "{f, t} \<subseteq> set rfNodes" "share_network dgNodes dgEdges serviceId f t net" for f t net
    unfolding right(3) using linked_peer [OF own(1) that(2,3)] overlay_rows_seen [OF that(1)] by blast
  have missing: "length (fst (overlay_rows stack ?peers ?selected)) = MAX_OVERLAY_LINKS \<or>
      {(f, t). {f, t} \<subseteq> set rfNodes \<and> (\<exists>net. share_network dgNodes dgEdges serviceId f t net)} \<subseteq>
      {(f, t). overlay_id (pair_key f t) \<in> re_id ` set (fst (overlay_rows stack ?peers ?selected))}"
    using right(1) all by (cases "length (fst (overlay_rows stack ?peers ?selected)) = MAX_OVERLAY_LINKS")
      (simp, intro disjI2 subsetI, simp only: split_paired_all mem_Collect_eq prod.case, elim conjE exE, simp add: nat_less_le)
  show ?thesis unfolding es Let_def
    by (intro conjI subsetI CollectI) (rule right(1) right(2) right(4) missing | assumption)+
qed

subsection \<open>Links between unordered pairs\<close>

text \<open>
  The host of a card, by the form of its id; every card is on one, and no id holds the separator of
  the keys (\<open>|\<close> is in no host or service name).
\<close>

definition on_host :: "RFNode \<Rightarrow> string \<Rightarrow> bool" where
  "on_host n h \<longleftrightarrow> CHR '':'' \<notin> set h \<and> (\<exists>svc. rf_id n = ''nodesvc:'' @ h @ '':'' @ svc)"

definition cards_named :: "RFNode list \<Rightarrow> bool" where
  "cards_named rfNodes \<longleftrightarrow>
     (\<forall>n\<in>set rfNodes. serviceIdOf (Some n) \<noteq> None \<longrightarrow> (\<exists>h. on_host n h) \<and> CHR ''|'' \<notin> set (rf_id n))"

text \<open>A network over which a card of the service reaches a card on another host.\<close>

definition overlay_network :: "DGNode list \<Rightarrow> DGEdge list \<Rightarrow> string \<Rightarrow> RFNode \<Rightarrow> RFNode \<Rightarrow> string \<Rightarrow> bool" where
  "overlay_network dgNodes dgEdges serviceId f t net \<longleftrightarrow>
     serviceIdOf (Some f) = Some serviceId \<and> (\<exists>hf ht. on_host f hf \<and> on_host t ht \<and> hf \<noteq> ht) \<and>
     attached dgNodes dgEdges serviceId net \<and>
     (\<exists>sid. serviceIdOf (Some t) = Some sid \<and> attached dgNodes dgEdges sid net)"

lemma host_of_card: "on_host n h \<Longrightarrow> cardHost (rf_id n) = h"
proof -
  assume "on_host n h"
  then obtain svc where i: "rf_id n = ''nodesvc:'' @ h @ '':'' @ svc" "CHR '':'' \<notin> set h"
    by (auto simp: on_host_def)
  have "takeWhile (\<lambda>c. c \<noteq> CHR '':'') (h @ CHR '':'' # svc) = h" using i(2) by (induction h) auto
  then show ?thesis by (simp add: i(1) cardHost_def)
qed

lemma share_overlay:
  assumes "cards_named rfNodes" "{f, t} \<subseteq> set rfNodes"
  shows "share_network dgNodes dgEdges serviceId f t net \<longleftrightarrow> overlay_network dgNodes dgEdges serviceId f t net"
proof -
  have hosted: "\<exists>h. on_host n h" if "n \<in> set rfNodes" "serviceIdOf (Some n) = Some i" for n i
    using assms(1) that unfolding cards_named_def by fastforce
  show ?thesis
  proof (cases "serviceIdOf (Some f) = Some serviceId \<and> serviceIdOf (Some t) \<noteq> None")
    case True
    then obtain hf ht where h: "on_host f hf" "on_host t ht" using hosted assms(2) by fastforce
    have "(\<exists>hf ht. on_host f hf \<and> on_host t ht \<and> hf \<noteq> ht) \<longleftrightarrow> cardHost (rf_id t) \<noteq> cardHost (rf_id f)"
      using h host_of_card [of f] host_of_card [of t] by metis
    then show ?thesis by (simp only: share_network_def overlay_network_def)
  qed (auto simp: share_network_def overlay_network_def)
qed

lemma pair_key_sorted:
  "pair_key f t = (if rf_id f \<le> rf_id t then rf_id f @ ''|'' @ rf_id t else rf_id t @ ''|'' @ rf_id f)"
  by (simp add: pair_key_def)

lemma pair_key_sym: "pair_key f t = pair_key t f"
  by (auto simp: pair_key_sorted)

lemma pair_key_sets:
  assumes "{rf_id f, rf_id t} = {rf_id f', rf_id t'}"
  shows "pair_key f t = pair_key f' t'"
proof -
  have "rf_id f = rf_id f' \<and> rf_id t = rf_id t' \<or> rf_id f = rf_id t' \<and> rf_id t = rf_id f'"
    using assms by (simp add: doubleton_eq_iff)
  then show ?thesis using pair_key_sym [of f' t'] unfolding pair_key_sorted by metis
qed

lemma join_two_inj:
  "x @ ''|'' @ y = u @ ''|'' @ v \<Longrightarrow> CHR ''|'' \<notin> set x \<Longrightarrow> CHR ''|'' \<notin> set u \<Longrightarrow> x = u \<and> y = v"
  by (induction x arbitrary: u) (case_tac u; auto)+

lemma pair_key_inj:
  assumes "pair_key f t = pair_key f' t'" "CHR ''|'' \<notin> set (rf_id f)" "CHR ''|'' \<notin> set (rf_id t)"
    "CHR ''|'' \<notin> set (rf_id f')" "CHR ''|'' \<notin> set (rf_id t')"
  shows "{rf_id f, rf_id t} = {rf_id f', rf_id t'}"
proof -
  have two: "\<exists>x y. pair_key a b = x @ ''|'' @ y \<and> {x, y} = {rf_id a, rf_id b}" for a b
    unfolding pair_key_sorted by (metis insert_commute)
  obtain x y u v where k: "pair_key f t = x @ ''|'' @ y" "{x, y} = {rf_id f, rf_id t}"
    "pair_key f' t' = u @ ''|'' @ v" "{u, v} = {rf_id f', rf_id t'}"
    using two [of f t] two [of f' t'] by blast
  have "CHR ''|'' \<notin> set x" "CHR ''|'' \<notin> set u"
    using k(2,4) assms(2-5) by (auto simp: doubleton_eq_iff)
  then have "x = u \<and> y = v" using join_two_inj [of x y u v] assms(1) k(1,3) by simp
  then show ?thesis using k(2,4) by simp
qed

lemma distinct_by_id:
  assumes "distinct (map re_id es)"
    and "\<And>e e'. e \<in> set es \<Longrightarrow> e' \<in> set es \<Longrightarrow> f e = f e' \<Longrightarrow> re_id e = re_id e'"
  shows "distinct (map f es)"
  using assms unfolding distinct_map inj_on_def by metis

lemma overlay_links_facts:
  assumes "es = overlayLinkEdges dgNodes dgEdges rfNodes serviceId"
  shows "length es \<le> 60" "distinct (map re_id es)"
    "e \<in> set es \<Longrightarrow> \<exists>f t nets stack. {f, t} \<subseteq> set rfNodes \<and> re_source e = rf_id f \<and> re_target e = rf_id t
       \<and> re_id e = overlay_id (pair_key f t) \<and> re_data e = OverlayLink nets stack \<and> nets \<noteq> []
       \<and> set nets = {net. share_network dgNodes dgEdges serviceId f t net}"
    "length es < 60 \<Longrightarrow> {f, t} \<subseteq> set rfNodes \<Longrightarrow> share_network dgNodes dgEdges serviceId f t net \<Longrightarrow>
       overlay_id (pair_key f t) \<in> re_id ` set es"
proof -
  note K = overlay_links_keyed [of dgNodes dgEdges rfNodes serviceId, unfolded Let_def,
      folded assms, unfolded MAX_OVERLAY_LINKS_def]
  note K2 = K [THEN conjunct2] note K3 = K2 [THEN conjunct2]
  show "length es \<le> 60" using K by (rule conjunct1)
  show "distinct (map re_id es)" using K2 by (rule conjunct1)
  show "e \<in> set es \<Longrightarrow> \<exists>f t nets stack. {f, t} \<subseteq> set rfNodes \<and> re_source e = rf_id f \<and> re_target e = rf_id t
     \<and> re_id e = overlay_id (pair_key f t) \<and> re_data e = OverlayLink nets stack \<and> nets \<noteq> []
     \<and> set nets = {net. share_network dgNodes dgEdges serviceId f t net}"
    using subsetD [OF K3 [THEN conjunct1], of e] by (simp only: mem_Collect_eq)
  show "overlay_id (pair_key f t) \<in> re_id ` set es"
    if "length es < 60" "{f, t} \<subseteq> set rfNodes" "share_network dgNodes dgEdges serviceId f t net"
  proof -
    have "{(f, t). {f, t} \<subseteq> set rfNodes \<and> (\<exists>net. share_network dgNodes dgEdges serviceId f t net)} \<subseteq>
        {(f, t). overlay_id (pair_key f t) \<in> re_id ` set es}"
      using K3 [THEN conjunct2] that(1) by simp
    from subsetD [OF this, of "(f, t)"] that(2,3) show ?thesis by (simp only: mem_Collect_eq prod.case) blast
  qed
qed

lemma overlay_pairs_once:
  assumes "es = overlayLinkEdges dgNodes dgEdges rfNodes serviceId"
  shows "distinct (map (\<lambda>e. {re_source e, re_target e}) es)"
proof (rule distinct_by_id [OF overlay_links_facts(2) [OF assms]])
  fix e e' assume "e \<in> set es" "e' \<in> set es" "{re_source e, re_target e} = {re_source e', re_target e'}"
  then show "re_id e = re_id e'" using overlay_links_facts(3) [OF assms] pair_key_sets by metis
qed

lemma overlay_pair_joined:
  assumes named: "cards_named rfNodes" and es: "es = overlayLinkEdges dgNodes dgEdges rfNodes serviceId"
    and len: "length es < 60" and ft: "{f, t} \<subseteq> set rfNodes" and o: "overlay_network dgNodes dgEdges serviceId f t net"
  shows "\<exists>e\<in>set es. {re_source e, re_target e} = {rf_id f, rf_id t}"
proof -
  have sh: "share_network dgNodes dgEdges serviceId f t net" using o share_overlay [OF named ft] by blast
  obtain e where e: "e \<in> set es" "re_id e = overlay_id (pair_key f t)"
    using overlay_links_facts(4) [OF es len ft sh] by force
  from overlay_links_facts(3) [OF es e(1)] obtain f' t' nets where e': "{f', t'} \<subseteq> set rfNodes" "re_source e = rf_id f'"
    "re_target e = rf_id t'" "re_id e = overlay_id (pair_key f' t')" "nets \<noteq> []"
    "set nets = {net. share_network dgNodes dgEdges serviceId f' t' net}" by blast
  then obtain net' where sh': "share_network dgNodes dgEdges serviceId f' t' net'" by fastforce
  have bar: "CHR ''|'' \<notin> set (rf_id n)" if "n \<in> set rfNodes" "serviceIdOf (Some n) \<noteq> None" for n
    using named that by (auto simp: cards_named_def)
  have "pair_key f t = pair_key f' t'" using e(2) e'(4) by (simp add: overlay_id_def)
  then have "{rf_id f, rf_id t} = {rf_id f', rf_id t'}"
    using ft e'(1) sh sh' by (intro pair_key_inj bar) (auto simp: share_network_def)
  then show ?thesis using e(1) e'(2,3) by (intro bexI [of _ e]) simp_all
qed

text \<open>
  C40. Overlay links of a selected service: at most 60; no two of them join the same two cards, in
  either direction; each goes from a card of the service to a card on another host and lists exactly
  the networks both services are attached to; and below the cap every two cards on different hosts
  whose services share a network, one being the selected service's, are joined. Card ids are assumed
  to have the form they are given (nodesvc, host and service, no colon in the host, no bar).
\<close>

theorem overlay_links_exact:
  assumes "cards_named rfNodes"
  shows "let es = overlayLinkEdges dgNodes dgEdges rfNodes serviceId in
     length es \<le> 60 \<and> distinct (map (\<lambda>e. {re_source e, re_target e}) es) \<and>
     list_all (\<lambda>e. \<exists>f t nets stack. {f, t} \<subseteq> set rfNodes \<and> re_source e = rf_id f \<and> re_target e = rf_id t
       \<and> re_data e = OverlayLink nets stack \<and> nets \<noteq> []
       \<and> set nets = {net. overlay_network dgNodes dgEdges serviceId f t net}) es \<and>
     (length es < 60 \<longrightarrow> (\<forall>f\<in>set rfNodes. \<forall>t\<in>set rfNodes. \<forall>net.
        overlay_network dgNodes dgEdges serviceId f t net \<longrightarrow>
        (\<exists>e\<in>set es. {re_source e, re_target e} = {rf_id f, rf_id t})))"
proof -
  define es where "es = overlayLinkEdges dgNodes dgEdges rfNodes serviceId"
  note facts = overlay_links_facts [OF es_def]
  have "list_all (\<lambda>e. \<exists>f t nets stack. {f, t} \<subseteq> set rfNodes \<and> re_source e = rf_id f \<and> re_target e = rf_id t
       \<and> re_data e = OverlayLink nets stack \<and> nets \<noteq> []
       \<and> set nets = {net. overlay_network dgNodes dgEdges serviceId f t net}) es"
    unfolding list_all_iff
  proof
    fix e assume "e \<in> set es"
    from facts(3) [OF this] obtain f t nets stack where e: "{f, t} \<subseteq> set rfNodes" "re_source e = rf_id f"
      "re_target e = rf_id t" "re_data e = OverlayLink nets stack" "nets \<noteq> []"
      "set nets = {net. share_network dgNodes dgEdges serviceId f t net}" by blast
    show "\<exists>f t nets stack. {f, t} \<subseteq> set rfNodes \<and> re_source e = rf_id f \<and> re_target e = rf_id t
       \<and> re_data e = OverlayLink nets stack \<and> nets \<noteq> []
       \<and> set nets = {net. overlay_network dgNodes dgEdges serviceId f t net}"
      using e share_overlay [OF assms e(1)] by (intro exI [of _ f] exI [of _ t] exI [of _ nets] exI [of _ stack]) simp
  qed
  then show ?thesis
    using facts(1) overlay_pairs_once [OF es_def] overlay_pair_joined [OF assms es_def]
    unfolding Let_def es_def [symmetric] by (intro conjI impI ballI allI) simp_all
qed

definition web_service :: DGNode where
  "web_service = (bare_node ''s1'' Service ''web'')\<lparr>dg_networkId := Some ''n1''\<rparr>"

definition web_card :: "string \<Rightarrow> RFNode" where
  "web_card host = rf_node (nodeServiceCardId host ''web'') ''nodeServiceCard'' None (CardData
     \<lparr>nc_dgNode = web_service, nc_serviceId = ''s1'', nc_serviceName = ''web'', nc_stack = None, nc_mode = None,
      nc_tasks = [], nc_nodeInactive = False\<rparr>)"

theorem overlay_links_exact_witness:
  "\<exists>e\<in>set (overlayLinkEdges [bare_node ''n1'' Network ''net'', web_service] [] [web_card ''a'', web_card ''b''] ''s1'').
     {re_source e, re_target e} = {''nodesvc:a:web'', ''nodesvc:b:web''}"
proof -
  let ?cards = "[web_card ''a'', web_card ''b'']" and ?ns = "[bare_node ''n1'' Network ''net'', web_service]"
  have ids: "rf_id (web_card h) = ''nodesvc:'' @ h @ '':'' @ ''web''" for h
    by (simp add: web_card_def nodeServiceCardId_def)
  have sid: "serviceIdOf (Some (web_card h)) = Some ''s1''" for h
    by (simp add: web_card_def serviceIdOf_def)
  have host: "on_host (web_card ''a'') ''a''" "on_host (web_card ''b'') ''b''"
    by (auto simp: on_host_def ids)
  have named: "cards_named ?cards"
    using host by (auto simp: cards_named_def ids)
  have "attached ?ns [] ''s1'' ''net''"
    by (auto simp: attached_def network_name_def web_service_def)
  then have "overlay_network ?ns [] ''s1'' (web_card ''a'') (web_card ''b'') ''net''"
    using host sid by (fastforce simp: overlay_network_def)
  moreover have "length (overlayLinkEdges ?ns [] ?cards ''s1'') < 60" by code_simp
  ultimately show ?thesis
    using overlay_links_exact [OF named, of ?ns "[]" "''s1''"] by (simp add: Let_def ids) blast
qed

end
