(* ===== verification/RoleSummary.thy ===== *)
theory RoleSummary
  imports NodeTransform
begin

text \<open>
  The totals of a role group of the per-node view and the quorum arithmetic of its managers
  (\<^verbatim>\<open>utils/roleSummary.ts\<close>). The lemmas show that a tally counts every value once, that the
  group's totals add up, that a usage never leaves 0 to 100, and that the swarm can act exactly
  when a majority of its managers is reachable.
\<close>

section \<open>Tallies\<close>

record TallyEntry =
  te_value :: string
  te_count :: nat

definition count_value :: "(string, nat) jsmap \<Rightarrow> string \<Rightarrow> (string, nat) jsmap" where
  "count_value counts v = map_set counts v (nullish (map_get counts v) 0 + 1)"

definition compare_tally :: "collator \<Rightarrow> TallyEntry \<Rightarrow> TallyEntry \<Rightarrow> int" where
  "compare_tally lc a b =
     (let d = int (te_count b) - int (te_count a) in if d \<noteq> 0 then d else lc (te_value a) (te_value b))"

definition tally :: "collator \<Rightarrow> string list \<Rightarrow> TallyEntry list" where
  "tally lc vals =
     js_sort (compare_tally lc)
       (map (\<lambda>(value, n). \<lparr>te_value = value, te_count = n\<rparr>) (foldl count_value [] vals))"

lemma count_value_get:
  "nullish (map_get (foldl count_value m vals) v) 0 = nullish (map_get m v) 0 + count_list vals v"
  by (induction vals arbitrary: m) (auto simp: count_value_def js.get_put)

lemma count_value_keys:
  "distinct (map_keys m) \<Longrightarrow> distinct (map_keys (foldl count_value m vals))"
  "set (map_keys (foldl count_value m vals)) = set (map_keys m) \<union> set vals"
  by (induction vals arbitrary: m) (auto simp: count_value_def js.keys_put)

text \<open>Every distinct value has one entry, with the number of its occurrences.\<close>

lemma tally_entries:
  "set (tally lc vals) = (\<lambda>v. \<lparr>te_value = v, te_count = count_list vals v\<rparr>) ` set vals"
  "distinct (map te_value (tally lc vals))"
proof -
  let ?m = "foldl count_value [] vals"
  have keys: "distinct (map_keys ?m)" "set (map_keys ?m) = set vals"
    using count_value_keys [of "[]" vals] by simp_all
  have "(v, n) \<in> set ?m \<longleftrightarrow> v \<in> set vals \<and> n = count_list vals v" for v n
  proof -
    have "(v, n) \<in> set ?m \<longleftrightarrow> map_get ?m v = Some n" using keys(1) by (rule map_get_in)
    moreover have "map_get ?m v \<noteq> None \<longleftrightarrow> v \<in> set vals"
      using keys(2) by (force simp: map_get_def map_keys_def map_of_eq_None_iff)
    moreover have "nullish (map_get ?m v) 0 = count_list vals v" using count_value_get [of "[]" vals v] by simp
    ultimately show ?thesis by (cases "map_get ?m v") auto
  qed
  then have "set ?m = (\<lambda>v. (v, count_list vals v)) ` set vals" by auto
  then show "set (tally lc vals) = (\<lambda>v. \<lparr>te_value = v, te_count = count_list vals v\<rparr>) ` set vals"
    by (simp add: tally_def image_image)
  have "map te_value (map (\<lambda>(value, n). \<lparr>te_value = value, te_count = n\<rparr>) ?m) = map_keys ?m"
    by (simp add: map_keys_def comp_def split_beta)
  then show "distinct (map te_value (tally lc vals))"
    using keys(1) by (simp only: tally_def distinct_map_js_sort)
qed

sublocale collation \<subseteq> tallies: comparator "compare_tally lc"
proof
  fix a b c :: TallyEntry
  show "(compare_tally lc a b \<le> 0) = (0 \<le> compare_tally lc b a)"
    using lc_anti by (auto simp: compare_tally_def Let_def)
  assume "compare_tally lc a b \<le> 0" "compare_tally lc b c \<le> 0"
  then show "compare_tally lc a c \<le> 0"
    using lc_trans by (auto simp: compare_tally_def Let_def split: if_splits)
qed

context collation
begin

text \<open>Most common first, ties in the host's order.\<close>

lemma tally_sorted: "sorted_wrt (\<lambda>a b. te_count b < te_count a \<or>
    te_count a = te_count b \<and> lc (te_value a) (te_value b) \<le> 0) (tally lc vals)"
  using tallies.sorted_js_sort unfolding tally_def
  by (rule sorted_wrt_mono_rel [rotated]) (auto simp: compare_tally_def Let_def split: if_splits)

end

section \<open>Role groups\<close>

record RoleMember =
  rm_node :: DGNode
  rm_tasks :: nat
  rm_stats :: "ContainerStatsData option"
  rm_usage :: NodeUsage

record RoleUsage =
  ru_reporting :: nat
  ru_cores :: real
  ru_cpuPercent :: "real option"
  ru_memPercent :: "real option"
  ru_memUsed :: real
  ru_memCapacity :: real

record RoleSummary =
  rs_members :: "RoleMember list"
  rs_tasks :: nat
  rs_states :: "TallyEntry list"
  rs_availability :: "TallyEntry list"
  rs_engines :: "TallyEntry list"
  rs_cores :: real
  rs_memoryBytes :: real
  rs_usage :: "RoleUsage option"

definition role_member :: "stats_map \<Rightarrow> (string, nat) jsmap \<Rightarrow> DGNode \<Rightarrow> RoleMember" where
  "role_member statsMap taskCounts node =
     (let stats = map_get statsMap (nodeStatsKey (dg_name node))
      in \<lparr>rm_node = node, rm_tasks = nullish (map_get taskCounts (dg_id node)) 0, rm_stats = stats,
          rm_usage = nodeUsage (dg_swarmNode node) stats\<rparr>)"

record RoleTotals =
  rt_cores :: real
  rt_memoryBytes :: real
  rt_cpuPercentSum :: real
  rt_reportingCores :: real
  rt_memUsed :: real
  rt_memCapacity :: real
  rt_reporting :: nat

definition no_totals :: RoleTotals where
  "no_totals = \<lparr>rt_cores = 0, rt_memoryBytes = 0, rt_cpuPercentSum = 0, rt_reportingCores = 0,
     rt_memUsed = 0, rt_memCapacity = 0, rt_reporting = 0\<rparr>"

definition member_memory :: "RoleMember \<Rightarrow> nat" where
  "member_memory m = (case dg_swarmNode (rm_node m) of None \<Rightarrow> 0 | Some info \<Rightarrow> nullish (sn_memoryBytes info) 0)"

definition add_member_totals :: "RoleTotals \<Rightarrow> RoleMember \<Rightarrow> RoleTotals" where
  "add_member_totals t m =
     (let cores = nullish (nu_cores (rm_usage m)) 0;
          memory = real (member_memory m);
          t1 = t\<lparr>rt_cores := rt_cores t + cores, rt_memoryBytes := rt_memoryBytes t + memory\<rparr>
      in case rm_stats m of
           None \<Rightarrow> t1
         | Some stats \<Rightarrow>
             let t2 = t1\<lparr>rt_reporting := rt_reporting t1 + 1\<rparr>;
                 t3 = (if cores \<noteq> 0 then t2\<lparr>rt_cpuPercentSum := rt_cpuPercentSum t2 + cs_cpuPercent stats,
                         rt_reportingCores := rt_reportingCores t2 + cores\<rparr> else t2)
             in if memory \<noteq> 0 then t3\<lparr>rt_memUsed := rt_memUsed t3 + cs_memUsage stats,
                       rt_memCapacity := rt_memCapacity t3 + memory\<rparr> else t3)"

definition unknown :: string where
  "unknown = ''unknown''"

definition role_members :: "collator \<Rightarrow> DGNode list \<Rightarrow> swarm_role \<Rightarrow> stats_map \<Rightarrow> (string, nat) jsmap \<Rightarrow> RoleMember list" where
  "role_members lc dgNodes role statsMap taskCounts =
     map (role_member statsMap taskCounts) (filter (\<lambda>n. swarmRole n = role) (listSwarmNodes lc dgNodes))"

definition role_usage :: "RoleTotals \<Rightarrow> RoleUsage option" where
  "role_usage t =
     (if rt_reporting t = 0 then None
      else Some \<lparr>ru_reporting = rt_reporting t, ru_cores = rt_reportingCores t,
        ru_cpuPercent = (if rt_reportingCores t \<noteq> 0
           then Some (clampPercent (rt_cpuPercentSum t / rt_reportingCores t)) else None),
        ru_memPercent = (if rt_memCapacity t \<noteq> 0
           then Some (clampPercent (rt_memUsed t / rt_memCapacity t * 100)) else None),
        ru_memUsed = rt_memUsed t, ru_memCapacity = rt_memCapacity t\<rparr>)"

definition summarizeRole :: "collator \<Rightarrow> DGNode list \<Rightarrow> swarm_role \<Rightarrow> stats_map \<Rightarrow> (string, nat) jsmap \<Rightarrow> RoleSummary" where
  "summarizeRole lc dgNodes role statsMap taskCounts =
     (let ms = role_members lc dgNodes role statsMap taskCounts;
          t = foldl add_member_totals no_totals ms;
          field = (\<lambda>f d m. case dg_swarmNode (rm_node m) of None \<Rightarrow> d m | Some info \<Rightarrow> nullish (f info) unknown)
      in \<lparr>rs_members = ms,
          rs_tasks = foldl (\<lambda>n m. n + rm_tasks m) 0 ms,
          rs_states = tally lc (map (field (\<lambda>i. Some (sn_state i)) (\<lambda>m. nullish (dg_status (rm_node m)) unknown)) ms),
          rs_availability = tally lc (map (field (\<lambda>i. Some (sn_availability i)) (\<lambda>_. unknown)) ms),
          rs_engines = tally lc (map (field sn_engineVersion (\<lambda>_. unknown)) ms),
          rs_cores = rt_cores t, rs_memoryBytes = rt_memoryBytes t, rs_usage = role_usage t\<rparr>)"

subsection \<open>The totals\<close>

definition member_cores :: "RoleMember \<Rightarrow> real" where
  "member_cores m = nullish (nu_cores (rm_usage m)) 0"

lemma totals_fold:
  "rt_cores (foldl add_member_totals t ms) = rt_cores t + sum_list (map member_cores ms)"
  "rt_memoryBytes (foldl add_member_totals t ms) = rt_memoryBytes t + real (sum_list (map member_memory ms))"
  "rt_reporting (foldl add_member_totals t ms) = rt_reporting t + length (filter (\<lambda>m. rm_stats m \<noteq> None) ms)"
  "rt_reportingCores (foldl add_member_totals t ms) =
     rt_reportingCores t + sum_list (map member_cores (filter (\<lambda>m. rm_stats m \<noteq> None) ms))"
  "rt_memCapacity (foldl add_member_totals t ms) =
     rt_memCapacity t + real (sum_list (map member_memory (filter (\<lambda>m. rm_stats m \<noteq> None) ms)))"
  by (induction ms arbitrary: t)
    (auto simp: add_member_totals_def member_cores_def Let_def split: option.split)

lemma usage_fold:
  "rt_cpuPercentSum (foldl add_member_totals t ms) = rt_cpuPercentSum t +
     sum_list (map (\<lambda>m. cs_cpuPercent (the (rm_stats m))) (filter (\<lambda>m. rm_stats m \<noteq> None \<and> member_cores m \<noteq> 0) ms))"
  "rt_memUsed (foldl add_member_totals t ms) = rt_memUsed t +
     sum_list (map (\<lambda>m. cs_memUsage (the (rm_stats m))) (filter (\<lambda>m. rm_stats m \<noteq> None \<and> member_memory m \<noteq> 0) ms))"
  by (induction ms arbitrary: t)
    (auto simp: add_member_totals_def member_cores_def Let_def split: option.split)

lemma foldl_sum_tasks: "foldl (\<lambda>n m. n + rm_tasks m) k ms = k + sum_list (map rm_tasks ms)"
  by (induction ms arbitrary: k) simp_all

text \<open>The group's tasks are the counts of its boxes, its nodes are those of the role, once each.\<close>

lemma summary_members:
  "mset (map rm_node (rs_members (summarizeRole lc ns role st tc))) =
     mset (filter (\<lambda>n. dg_type n = SwarmNode \<and> swarmRole n = role) ns)"
  "rs_tasks (summarizeRole lc ns role st tc) =
     sum_list (map (\<lambda>n. nullish (map_get tc (dg_id n)) 0) (filter (\<lambda>n. swarmRole n = role) (listSwarmNodes lc ns)))"
proof -
  have "map rm_node (rs_members (summarizeRole lc ns role st tc)) = filter (\<lambda>n. swarmRole n = role) (listSwarmNodes lc ns)"
    by (simp add: summarizeRole_def role_members_def role_member_def Let_def comp_def)
  then show "mset (map rm_node (rs_members (summarizeRole lc ns role st tc))) =
     mset (filter (\<lambda>n. dg_type n = SwarmNode \<and> swarmRole n = role) ns)"
    by (simp add: listSwarmNodes_def conj_commute flip: filter_filter)
  show "rs_tasks (summarizeRole lc ns role st tc) =
     sum_list (map (\<lambda>n. nullish (map_get tc (dg_id n)) 0) (filter (\<lambda>n. swarmRole n = role) (listSwarmNodes lc ns)))"
    by (simp add: summarizeRole_def role_members_def role_member_def Let_def foldl_sum_tasks comp_def)
qed

text \<open>A usage exists when a node reports, and its percentages stay between 0 and 100.\<close>

lemma clamped: "0 \<le> clampPercent v" "clampPercent v \<le> 100"
  by (simp_all add: clampPercent_def)

lemma summary_usage:
  "rs_usage (summarizeRole lc ns role st tc) = None \<longleftrightarrow>
     list_all (\<lambda>m. rm_stats m = None) (rs_members (summarizeRole lc ns role st tc))"
  "rs_usage (summarizeRole lc ns role st tc) = Some u \<Longrightarrow>
     pred_option (\<lambda>p. 0 \<le> p \<and> p \<le> 100) (ru_cpuPercent u) \<and> pred_option (\<lambda>p. 0 \<le> p \<and> p \<le> 100) (ru_memPercent u)"
  by (auto simp: summarizeRole_def role_usage_def Let_def totals_fold no_totals_def clamped list_all_iff
      filter_empty_conv split: if_splits)

section \<open>Quorum\<close>

record QuorumHealth =
  qh_managers :: nat
  qh_reachable :: nat
  qh_quorum :: nat
  qh_spare :: int
  qh_leader :: "string option"
  qh_unreachable :: "SwarmManager list"

definition quorumHealth :: "SwarmManager list \<Rightarrow> QuorumHealth" where
  "quorumHealth managers =
     (let reachable = length (filter (\<lambda>m. sm_reachability m = ''reachable'') managers);
          quorum = length managers div 2 + 1
      in \<lparr>qh_managers = length managers, qh_reachable = reachable, qh_quorum = quorum,
          qh_spare = int reachable - int quorum,
          qh_leader = map_option sm_name (find sm_leader managers),
          qh_unreachable = filter (\<lambda>m. sm_reachability m \<noteq> ''reachable'') managers\<rparr>)"

text \<open>
  The swarm can act exactly when more than half of its managers are reachable, and \<open>spare\<close> is
  the number of managers it can still lose: with \<open>k\<close> more unreachable it still can exactly
  when \<open>k \<le> spare\<close>.
\<close>

lemma quorum_majority:
  "0 \<le> qh_spare (quorumHealth ms) \<longleftrightarrow>
     length ms < 2 * length (filter (\<lambda>m. sm_reachability m = ''reachable'') ms)"
  "int k \<le> qh_spare (quorumHealth ms) \<longleftrightarrow>
     length ms < 2 * (length (filter (\<lambda>m. sm_reachability m = ''reachable'') ms) - k) \<and>
     k \<le> length (filter (\<lambda>m. sm_reachability m = ''reachable'') ms)"
  "qh_reachable (quorumHealth ms) + length (qh_unreachable (quorumHealth ms)) = qh_managers (quorumHealth ms)"
  by (auto simp: quorumHealth_def Let_def sum_length_filter_compl)

end
