(* ===== verification/Tables.thy ===== *)
theory Tables
  imports Stack Deltas Numbers
begin

text \<open>
  The resource tables: sorting (\<^verbatim>\<open>hooks/useTableSort.ts\<close>), grouping with collapsed groups
  (\<^verbatim>\<open>hooks/useTableGrouping.ts\<close>), the columns of the three tables, the rows they show
  (\<^verbatim>\<open>components/table/GroupedTable.tsx\<close>) and the choice of the subtab
  (\<^verbatim>\<open>components/table/TableView.tsx\<close>). The lemmas show that a table shows every node of its
  uncollapsed groups once, each group sorted by the chosen column with absent values last.
\<close>

section \<open>Sorting\<close>

datatype direction = Asc | Desc

record TableSort =
  ts_column :: string
  ts_direction :: direction

definition table_sort :: "string \<Rightarrow> TableSort" where
  "table_sort defaultColumn = \<lparr>ts_column = defaultColumn, ts_direction = Asc\<rparr>"

definition toggleSort :: "string \<Rightarrow> TableSort \<Rightarrow> TableSort" where
  "toggleSort col s =
     (if ts_column s = col
      then s\<lparr>ts_direction := (if ts_direction s = Asc then Desc else Asc)\<rparr>
      else \<lparr>ts_column = col, ts_direction = Asc\<rparr>)"

datatype cell = NumCell real | StrCell string

fun cell_string :: "cell \<Rightarrow> string" where
  "cell_string (NumCell x) = js_number x"
| "cell_string (StrCell s) = s"

fun cell_compare :: "collator \<Rightarrow> cell \<Rightarrow> cell \<Rightarrow> real" where
  "cell_compare lc (NumCell x) (NumCell y) = x - y"
| "cell_compare lc a b = of_int (lc (cell_string a) (cell_string b))"

definition row_compare :: "collator \<Rightarrow> direction \<Rightarrow> ('a \<Rightarrow> cell option) \<Rightarrow> 'a \<Rightarrow> 'a \<Rightarrow> real" where
  "row_compare lc dir keyFn a b =
     (case (keyFn a, keyFn b) of
        (None, None) \<Rightarrow> 0
      | (None, Some _) \<Rightarrow> 1
      | (Some _, None) \<Rightarrow> -1
      | (Some x, Some y) \<Rightarrow> (case dir of Asc \<Rightarrow> cell_compare lc x y | Desc \<Rightarrow> - cell_compare lc x y))"

definition sortItems :: "collator \<Rightarrow> TableSort \<Rightarrow> 'a list \<Rightarrow> ('a \<Rightarrow> string \<Rightarrow> cell option) \<Rightarrow> 'a list" where
  "sortItems lc s items keyFn =
     js_sort (row_compare lc (ts_direction s) (\<lambda>a. keyFn a (ts_column s))) items"

lemma js_sort_same:
  "(\<And>x y. x \<in> set xs \<Longrightarrow> y \<in> set xs \<Longrightarrow> cmp x y = cmp' x y) \<Longrightarrow> js_sort cmp xs = js_sort cmp' xs"
proof (induction xs)
  case (Cons x xs)
  have "ins_by cmp x ys = ins_by cmp' x ys" if "set ys \<subseteq> set xs" for ys
    using that Cons.prems by (induction ys) auto
  then show ?case using Cons by (simp add: js_sort_Cons)
qed (simp add: js_sort_def)

text \<open>
  The order of a column whose values have one type: it is consistent whichever the direction,
  so that the rows come out sorted, ties in their previous order.
\<close>

fun of_type :: "bool \<Rightarrow> cell option \<Rightarrow> bool" where
  "of_type num None = True"
| "of_type num (Some (NumCell _)) = num"
| "of_type num (Some (StrCell _)) = (\<not> num)"

fun as_type :: "bool \<Rightarrow> cell option \<Rightarrow> cell option" where
  "as_type num None = None"
| "as_type num (Some c) = (if of_type num (Some c) then Some c else None)"

lemma as_type_same: "of_type num c \<Longrightarrow> as_type num c = c"
  by (cases c) simp_all

lemma as_type_cases:
  obtains "as_type num c = None" | x where "num" "as_type num c = Some (NumCell x)"
  | s where "\<not> num" "as_type num c = Some (StrCell s)"
proof (cases c)
  case (Some d)
  then show ?thesis using that by (cases d; cases num) auto
qed (use that in auto)

context collation
begin

lemma lc_trans_ge: "0 \<le> lc a b \<Longrightarrow> 0 \<le> lc b c \<Longrightarrow> 0 \<le> lc a c"
  using lc_anti lc_trans by metis

lemma row_comparator: "comparator (row_compare lc dir (\<lambda>a. as_type num (keyFn a)))"
proof
  fix a b c
  let ?cmp = "row_compare lc dir (\<lambda>a. as_type num (keyFn a))"
  show "(?cmp a b \<le> 0) = (0 \<le> ?cmp b a)"
    by (cases num "keyFn a" rule: as_type_cases; cases num "keyFn b" rule: as_type_cases; cases dir)
      (auto simp: row_compare_def lc_anti)
  assume "?cmp a b \<le> 0" "?cmp b c \<le> 0"
  then show "?cmp a c \<le> 0"
    by (cases num "keyFn a" rule: as_type_cases; cases num "keyFn b" rule: as_type_cases;
        cases num "keyFn c" rule: as_type_cases; cases dir)
      (auto simp: row_compare_def dest: lc_trans lc_trans_ge)
qed

text \<open>What a sorted column looks like: absent values last, the others in the chosen direction.\<close>

lemma sortItems_sorted:
  assumes "\<forall>x\<in>set items. of_type num (keyFn x (ts_column s))"
  shows "sorted_wrt (\<lambda>x y. row_compare lc (ts_direction s) (\<lambda>a. keyFn a (ts_column s)) x y \<le> 0)
    (sortItems lc s items keyFn)"
proof -
  let ?key = "\<lambda>a. keyFn a (ts_column s)"
  let ?cmp = "row_compare lc (ts_direction s) (\<lambda>a. as_type num (?key a))"
  have same: "?cmp x y = row_compare lc (ts_direction s) ?key x y" if "x \<in> set items" "y \<in> set items" for x y
    using assms that by (simp add: row_compare_def as_type_same)
  have "sortItems lc s items keyFn = js_sort ?cmp items"
    unfolding sortItems_def by (rule js_sort_same [symmetric]) (simp add: same)
  moreover have "sorted_wrt (\<lambda>x y. ?cmp x y \<le> 0) (js_sort ?cmp items)"
    by (rule comparator.sorted_js_sort [OF row_comparator])
  ultimately show ?thesis
    by (rule_tac sorted_wrt_mono_rel [of _ "\<lambda>x y. ?cmp x y \<le> 0"]) (auto simp: same)
qed

end

lemma mset_sortItems [simp]: "mset (sortItems lc s items keyFn) = mset items"
  by (simp add: sortItems_def)

section \<open>Grouping\<close>

datatype group_key = GroupNetwork | GroupCompose | GroupStatus | GroupDriver | GroupNone

record TableGroup =
  tg_key :: string
  tg_label :: string
  tg_items :: "DGNode list"

text \<open>\<open>key.charAt(0).toUpperCase() + key.slice(1)\<close>, for the letters whose capital is an 8-bit code unit.\<close>

definition upper_char :: "char \<Rightarrow> char" where
  "upper_char c = (let n = (of_char c :: nat) in
     if 97 \<le> n \<and> n \<le> 122 \<or> 224 \<le> n \<and> n \<le> 254 \<and> n \<noteq> 247 then char_of (n - 32) else c)"

fun capitalized :: "string \<Rightarrow> string" where
  "capitalized [] = []"
| "capitalized (c # cs) = upper_char c # cs"

text \<open>\<open>s.replace(/^network:/, '')\<close>.\<close>

definition strip_network :: "string \<Rightarrow> string" where
  "strip_network s = (if starts_with ''network:'' s then drop (length ''network:'') s else s)"

definition formatGroupLabel :: "string \<Rightarrow> group_key \<Rightarrow> string" where
  "formatGroupLabel key groupBy =
     (if key = ''_unassigned'' then ''Unassigned''
      else if key = ''_no_project'' then ''No stack / project''
      else if key = ''_no_driver'' then ''No driver''
      else if key = ''_all'' then ''All''
      else if groupBy = GroupNetwork then strip_network key
      else capitalized key)"

definition nodeGroupKey :: "DGNode \<Rightarrow> group_key \<Rightarrow> string" where
  "nodeGroupKey node groupBy =
     (case groupBy of
        GroupNetwork \<Rightarrow> nullish (dg_networkId node) ''_unassigned''
      | GroupCompose \<Rightarrow> nullish (projectOf node) ''_no_project''
      | GroupStatus \<Rightarrow> nullish (dg_status node) ''unknown''
      | GroupDriver \<Rightarrow> nullish (dg_driver node) ''_no_driver''
      | GroupNone \<Rightarrow> ''_all'')"

definition groupNodes :: "DGNode list \<Rightarrow> group_key \<Rightarrow> TableGroup list" where
  "groupNodes nodes groupBy =
     (if groupBy = GroupNone then [\<lparr>tg_key = ''_all'', tg_label = ''All'', tg_items = nodes\<rparr>]
      else map (\<lambda>(key, items). \<lparr>tg_key = key, tg_label = formatGroupLabel key groupBy, tg_items = items\<rparr>)
             (group_on (\<lambda>n. nodeGroupKey n groupBy) (\<lambda>n. n) nodes))"

record TableGrouping =
  tu_groupBy :: group_key
  tu_collapsed :: "string list"

definition table_grouping :: "group_key \<Rightarrow> TableGrouping" where
  "table_grouping defaultGroupBy = \<lparr>tu_groupBy = defaultGroupBy, tu_collapsed = []\<rparr>"

definition setGroupBy_table :: "group_key \<Rightarrow> TableGrouping \<Rightarrow> TableGrouping" where
  "setGroupBy_table key g = g\<lparr>tu_groupBy := key\<rparr>"

definition isCollapsed :: "TableGrouping \<Rightarrow> string \<Rightarrow> bool" where
  "isCollapsed g key \<longleftrightarrow> key \<in> set (tu_collapsed g)"

definition toggleCollapsed :: "string \<Rightarrow> TableGrouping \<Rightarrow> TableGrouping" where
  "toggleCollapsed key g = g\<lparr>tu_collapsed :=
     (if isCollapsed g key then filter (\<lambda>k. k \<noteq> key) (tu_collapsed g) else set_add key (tu_collapsed g))\<rparr>"

text \<open>The rows a grouped table shows, group after group.\<close>

definition group_rows :: "collator \<Rightarrow> TableSort \<Rightarrow> TableGrouping \<Rightarrow> (DGNode \<Rightarrow> string \<Rightarrow> cell option) \<Rightarrow>
    TableGroup \<Rightarrow> DGNode list" where
  "group_rows lc s g keyFn gr = (if isCollapsed g (tg_key gr) then [] else sortItems lc s (tg_items gr) keyFn)"

definition table_rows :: "collator \<Rightarrow> TableSort \<Rightarrow> TableGrouping \<Rightarrow> (DGNode \<Rightarrow> string \<Rightarrow> cell option) \<Rightarrow>
    DGNode list \<Rightarrow> DGNode list" where
  "table_rows lc s g keyFn nodes = concat (map (group_rows lc s g keyFn) (groupNodes nodes (tu_groupBy g)))"

text \<open>Every group holds the nodes of its key, in their order, and every node has a group.\<close>

lemma group_items:
  "gr \<in> set (groupNodes nodes groupBy) \<Longrightarrow> tg_items gr = filter (\<lambda>n. nodeGroupKey n groupBy = tg_key gr) nodes"
proof (cases "groupBy = GroupNone")
  case False
  then show "gr \<in> set (groupNodes nodes groupBy) \<Longrightarrow> ?thesis" by (auto simp: groupNodes_def dest!: group_on_entry)
qed (simp add: groupNodes_def nodeGroupKey_def)

lemma group_keys: "distinct (map tg_key (groupNodes nodes groupBy))"
proof -
  have "map (\<lambda>x. tg_key (case x of (key, items) \<Rightarrow> \<lparr>tg_key = key, tg_label = l key, tg_items = items\<rparr>)) m = map_keys m"
    for l and m :: "(string, DGNode list) jsmap" by (simp add: map_keys_def split_beta)
  then show ?thesis
    using distinct_keys_group_on by (simp add: groupNodes_def comp_def)
qed

lemma group_keys_set:
  "set (map tg_key (groupNodes nodes groupBy)) =
     (if groupBy = GroupNone then {''_all''} else (\<lambda>n. nodeGroupKey n groupBy) ` set nodes)"
  using set_keys_group_on [of "\<lambda>n. nodeGroupKey n groupBy" "\<lambda>n. n" nodes]
  by (force simp: groupNodes_def map_keys_def)

lemma mset_by_group:
  assumes "distinct ks" "\<forall>x\<in>set xs. p (f x) \<longrightarrow> f x \<in> set ks"
  shows "mset (concat (map (\<lambda>k. if p k then filter (\<lambda>x. f x = k) xs else []) ks)) = mset (filter (\<lambda>x. p (f x)) xs)"
  using assms
proof (induction ks arbitrary: xs)
  case Nil
  then show ?case by (auto simp: filter_empty_conv)
next
  case (Cons k ks)
  let ?rest = "filter (\<lambda>x. f x \<noteq> k) xs"
  have "mset (concat (map (\<lambda>k. if p k then filter (\<lambda>x. f x = k) ?rest else []) ks)) = mset (filter (\<lambda>x. p (f x)) ?rest)"
    using Cons.prems by (intro Cons.IH) auto
  moreover have "map (\<lambda>k'. if p k' then filter (\<lambda>x. f x = k') ?rest else []) ks =
      map (\<lambda>k'. if p k' then filter (\<lambda>x. f x = k') xs else []) ks"
    using Cons.prems(1) by (auto intro!: filter_cong)
  moreover have "filter (\<lambda>x. p (f x)) ?rest = filter (\<lambda>x. f x \<noteq> k \<and> p (f x)) xs" by simp
  moreover have "mset (filter (\<lambda>x. p (f x)) xs) =
      mset (if p k then filter (\<lambda>x. f x = k) xs else []) + mset (filter (\<lambda>x. f x \<noteq> k \<and> p (f x)) xs)"
    by (induction xs) auto
  ultimately show ?case by simp
qed

text \<open>A table shows exactly the nodes of its uncollapsed groups, each as often as it occurs.\<close>

lemma table_rows_shown:
  "mset (table_rows lc s g keyFn nodes) =
     mset (filter (\<lambda>n. \<not> isCollapsed g (nodeGroupKey n (tu_groupBy g))) nodes)"
proof -
  let ?gs = "groupNodes nodes (tu_groupBy g)"
  let ?part = "\<lambda>k. if \<not> isCollapsed g k then filter (\<lambda>n. nodeGroupKey n (tu_groupBy g) = k) nodes else []"
  have "mset (table_rows lc s g keyFn nodes) = mset (concat (map (\<lambda>gr. ?part (tg_key gr)) ?gs))"
    unfolding table_rows_def mset_concat map_map
    by (rule arg_cong [of _ _ sum_list], rule map_cong [OF refl]) (simp add: group_rows_def group_items)
  also have "map (\<lambda>gr. ?part (tg_key gr)) ?gs = map ?part (map tg_key ?gs)" by simp
  also have "mset (concat (map ?part (map tg_key ?gs))) =
      mset (filter (\<lambda>n. \<not> isCollapsed g (nodeGroupKey n (tu_groupBy g))) nodes)"
    using group_keys group_keys_set [of nodes "tu_groupBy g"]
    by (intro mset_by_group) (auto simp: nodeGroupKey_def split: if_splits)
  finally show ?thesis .
qed

section \<open>Columns\<close>

definition container_cells :: "DGNode \<Rightarrow> string \<Rightarrow> cell option" where
  "container_cells n col =
     map_of [(''name'', StrCell (dg_name n)), (''image'', StrCell (nullish (dg_image n) [])),
       (''status'', StrCell (nullish (dg_status n) [])),
       (''ports'', StrCell (case dg_ports n of None \<Rightarrow> [] | Some ps \<Rightarrow> join '','' (map portMapping ps))),
       (''network'', StrCell (case dg_networkId n of None \<Rightarrow> [] | Some k \<Rightarrow> strip_network k))] col"

definition count_up :: "(string, nat) jsmap \<Rightarrow> string \<Rightarrow> (string, nat) jsmap" where
  "count_up counts k = map_set counts k (nullish (map_get counts k) 0 + 1)"

definition network_counts :: "DGNode list \<Rightarrow> DGEdge list \<Rightarrow> (string, nat) jsmap" where
  "network_counts allNodes edges =
     foldl count_up
       (foldl count_up [] (map (\<lambda>n. the (dg_networkId n))
          (filter (\<lambda>n. dg_type n = Container \<and> truthy (dg_networkId n)) allNodes)))
       (map de_target (filter (\<lambda>e. de_type e = SecondaryNetwork) edges))"

definition network_cells :: "(string, nat) jsmap \<Rightarrow> DGNode \<Rightarrow> string \<Rightarrow> cell option" where
  "network_cells counts n col =
     map_of [(''name'', StrCell (dg_name n)), (''driver'', StrCell (nullish (dg_driver n) [])),
       (''subnet'', StrCell (nullish (dg_subnet n) [])), (''gateway'', StrCell (nullish (dg_gateway n) [])),
       (''containers'', NumCell (real (nullish (map_get counts (dg_id n)) 0)))] col"

definition add_mount :: "(string, nat) jsmap \<times> (string, string) jsmap \<Rightarrow> DGEdge \<Rightarrow>
    (string, nat) jsmap \<times> (string, string) jsmap" where
  "add_mount acc e =
     (case acc of (counts, paths) \<Rightarrow>
        if de_type e = VolumeMount
        then (count_up counts (de_source e),
              if \<not> map_has paths (de_source e) \<and> truthy (de_mountPath e)
              then map_set paths (de_source e) (the (de_mountPath e)) else paths)
        else acc)"

definition volume_counts :: "DGEdge list \<Rightarrow> (string, nat) jsmap \<times> (string, string) jsmap" where
  "volume_counts edges = foldl add_mount ([], []) edges"

definition volume_cells :: "(string, nat) jsmap \<times> (string, string) jsmap \<Rightarrow> DGNode \<Rightarrow> string \<Rightarrow> cell option" where
  "volume_cells counted n col =
     map_of [(''name'', StrCell (dg_name n)), (''driver'', StrCell (nullish (dg_driver n) [])),
       (''mountpoint'', StrCell (nullish (map_get (snd counted) (dg_id n)) [])),
       (''containers'', NumCell (real (nullish (map_get (fst counted) (dg_id n)) 0)))] col"

lemma count_up_get:
  "nullish (map_get (foldl count_up m ks) k) 0 = nullish (map_get m k) 0 + count_list ks k"
  by (induction ks arbitrary: m) (auto simp: count_up_def js.get_put)

text \<open>Every column has cells of one type, so its rows come out sorted.\<close>

lemma cells_typed:
  "of_type False (container_cells n col)"
  "of_type (col = ''containers'') (network_cells counts n col)"
  "of_type (col = ''containers'') (volume_cells counted n col)"
  by (simp_all add: container_cells_def network_cells_def volume_cells_def)

text \<open>
  The Containers column of a network: the containers attached primarily and every secondary
  attachment. A flaw: a swarm service on the network as its primary one is not counted, while
  the network's panel lists it.
\<close>

lemma network_count:
  "nullish (map_get (network_counts ns es) k) 0 =
     count_list (map (\<lambda>n. the (dg_networkId n)) (filter (\<lambda>n. dg_type n = Container \<and> truthy (dg_networkId n)) ns)) k
     + count_list (map de_target (filter (\<lambda>e. de_type e = SecondaryNetwork) es)) k"
  by (simp add: network_counts_def count_up_get)

lemma primary_services_not_counted:
  "list_all (\<lambda>n. dg_type n = Service) ns \<Longrightarrow> nullish (map_get (network_counts ns []) k) 0 = 0"
  by (auto simp: network_count list_all_iff filter_empty_conv)

section \<open>Subtabs\<close>

datatype resource_tab = TabContainers | TabServices | TabNetworks | TabVolumes

definition tabForSelection :: "string option \<Rightarrow> resource_tab option" where
  "tabForSelection i =
     (if \<not> truthy i then None
      else if starts_with ''network:'' (the i) then Some TabNetworks
      else if starts_with ''volume:'' (the i) then Some TabVolumes
      else if starts_with ''container:'' (the i) then Some TabContainers
      else if starts_with ''service:'' (the i) then Some TabServices
      else None)"

fun tab_type :: "resource_tab \<Rightarrow> node_type" where
  "tab_type TabContainers = Container"
| "tab_type TabServices = Service"
| "tab_type TabNetworks = Network"
| "tab_type TabVolumes = Volume"

definition tab_nodes :: "DGNode list \<Rightarrow> string list option \<Rightarrow> resource_tab \<Rightarrow> DGNode list" where
  "tab_nodes nodes matching tab =
     filter (\<lambda>n. dg_type n = tab_type tab)
       (case matching of None \<Rightarrow> nodes | Some ids \<Rightarrow> filter (\<lambda>n. dg_id n \<in> set ids) nodes)"

definition visibleTabs :: "DGNode list \<Rightarrow> resource_tab \<Rightarrow> resource_tab list" where
  "visibleTabs nodes activeTab =
     filter (\<lambda>t. t \<noteq> TabServices \<or> list_ex (\<lambda>n. dg_type n = Service) nodes \<or> activeTab = TabServices)
       [TabContainers, TabServices, TabNetworks, TabVolumes]"

text \<open>The subtab the selection opens is visible, and shows the selected node.\<close>

lemma selection_tab_visible: "activeTab \<in> set (visibleTabs nodes activeTab)"
  by (cases activeTab) (auto simp: visibleTabs_def)

definition id_of_type :: "DGNode \<Rightarrow> bool" where
  "id_of_type n \<longleftrightarrow> dg_id n = type_name (dg_type n) @ '':'' @ dg_name n"

lemma selected_in_tab:
  assumes "n \<in> set nodes" "id_of_type n" "dg_type n \<noteq> SwarmNode"
  shows "\<exists>tab. tabForSelection (Some (dg_id n)) = Some tab \<and> n \<in> set (tab_nodes nodes None tab)"
  using assms by (cases "dg_type n") (auto simp: id_of_type_def tabForSelection_def tab_nodes_def starts_with_def)

end
