(* ===== verification/Filters.thy ===== *)
theory Filters
  imports Colors
begin

text \<open>
  The two filters of the interface: the search over the graph with its debounced query
  (\<^verbatim>\<open>hooks/useSearchFilter.ts\<close>) and the filter over log lines with its chips
  (\<^verbatim>\<open>hooks/useLogFilters.ts\<close>). The engine of regular expressions is a parameter: \<open>compile q\<close> is
  the test of \<open>new RegExp(q, 'i')\<close>, \<open>None\<close> when the constructor throws.
\<close>

section \<open>Search over the graph\<close>

record SearchFilter =
  sf_query :: string
  sf_debounced :: string
  sf_statuses :: "string list"
  sf_types :: "string list"
  sf_timer :: "string option"

definition search_initial :: SearchFilter where
  "search_initial = \<lparr>sf_query = [], sf_debounced = [], sf_statuses = [], sf_types = [], sf_timer = None\<rparr>"

text \<open>A set whose element is deleted or added.\<close>

definition set_toggle :: "'a \<Rightarrow> 'a list \<Rightarrow> 'a list" where
  "set_toggle x xs = (if x \<in> set xs then filter (\<lambda>y. y \<noteq> x) xs else xs @ [x])"

datatype search_event =
  SetQuery string
| ToggleStatus string
| ToggleType string
| ClearAll
| DebounceFires
| SearchUnmount

definition search_step :: "SearchFilter \<Rightarrow> search_event \<Rightarrow> SearchFilter" where
  "search_step st e =
     (case e of
        SetQuery q \<Rightarrow> st\<lparr>sf_query := q, sf_timer := Some q\<rparr>
      | ToggleStatus s \<Rightarrow> st\<lparr>sf_statuses := set_toggle s (sf_statuses st)\<rparr>
      | ToggleType t \<Rightarrow> st\<lparr>sf_types := set_toggle t (sf_types st)\<rparr>
      | ClearAll \<Rightarrow> st\<lparr>sf_query := [], sf_debounced := [], sf_statuses := [], sf_types := []\<rparr>
      | DebounceFires \<Rightarrow>
          (case sf_timer st of None \<Rightarrow> st | Some q \<Rightarrow> st\<lparr>sf_debounced := q, sf_timer := None\<rparr>)
      | SearchUnmount \<Rightarrow> st\<lparr>sf_timer := None\<rparr>)"

definition hasActiveFilter :: "SearchFilter \<Rightarrow> bool" where
  "hasActiveFilter st \<longleftrightarrow> sf_debounced st \<noteq> [] \<or> sf_statuses st \<noteq> [] \<or> sf_types st \<noteq> []"

definition haystack :: "DGNode \<Rightarrow> string" where
  "haystack n = to_lower (dg_name n @ '' '' @ nullish (dg_image n) [] @ '' '' @ nullish (dg_stack n) []
     @ '' '' @ join '' '' (map snd (nullish (dg_labels n) [])))"

definition node_matches :: "SearchFilter \<Rightarrow> DGNode \<Rightarrow> bool" where
  "node_matches st n =
     (if sf_types st \<noteq> [] \<and> type_name (dg_type n) \<notin> set (sf_types st) then False
      else if sf_statuses st \<noteq> [] \<and> nullish (dg_status n) [] \<notin> set (sf_statuses st) then False
      else if sf_debounced st \<noteq> [] then str_includes (to_lower (sf_debounced st)) (haystack n)
      else True)"

text \<open>The matching ids (\<open>None\<close> without a filter) and their number.\<close>

definition matchingNodeIds :: "SearchFilter \<Rightarrow> DGNode list \<Rightarrow> string list option" where
  "matchingNodeIds st dgNodes =
     (if \<not> hasActiveFilter st then None
      else Some (foldl (\<lambda>ids n. if node_matches st n then set_add (dg_id n) ids else ids) [] dgNodes))"

definition matchCount :: "SearchFilter \<Rightarrow> DGNode list \<Rightarrow> nat" where
  "matchCount st dgNodes = (case matchingNodeIds st dgNodes of None \<Rightarrow> length dgNodes | Some ids \<Rightarrow> length ids)"

lemma matching_fold:
  "set (foldl (\<lambda>ids n. if p n then set_add (f n) ids else ids) acc ns) = set acc \<union> f ` {n \<in> set ns. p n}"
  "distinct acc \<Longrightarrow> distinct (foldl (\<lambda>ids n. if p n then set_add (f n) ids else ids) acc ns)"
  by (induction ns arbitrary: acc) auto

text \<open>The count is that of the distinct matching nodes, at most that of all nodes.\<close>

lemma matching_ids:
  "matchingNodeIds st ns = Some ids \<Longrightarrow> set ids = dg_id ` {n \<in> set ns. node_matches st n} \<and> distinct ids"
  by (auto simp: matchingNodeIds_def matching_fold split: if_splits)

lemma match_count_le: "matchCount st ns \<le> length ns"
proof (cases "matchingNodeIds st ns")
  case (Some ids)
  then have "length ids = card (dg_id ` {n \<in> set ns. node_matches st n})"
    using matching_ids by (metis distinct_card)
  also have "\<dots> \<le> card (set ns)"
    by (rule order_trans [OF card_image_le]) (auto intro: card_mono)
  also have "\<dots> \<le> length ns" by (rule card_length)
  finally show ?thesis using Some by (simp add: matchCount_def)
qed (simp add: matchCount_def)

subsection \<open>The debounce\<close>

text \<open>
  As long as the filter is not cleared while a query waits, the query in use is the one shown
  once the timer has fired.
\<close>

definition debounce_inv :: "SearchFilter \<Rightarrow> bool" where
  "debounce_inv st \<longleftrightarrow> (case sf_timer st of None \<Rightarrow> sf_debounced st = sf_query st | Some q \<Rightarrow> q = sf_query st)"

definition calm :: "SearchFilter \<Rightarrow> search_event \<Rightarrow> bool" where
  "calm st e \<longleftrightarrow> (case e of ClearAll \<Rightarrow> sf_timer st = None | SearchUnmount \<Rightarrow> sf_timer st = None | _ \<Rightarrow> True)"

interpretation search: machine search_step calm debounce_inv
  by unfold_locales (auto simp: search_step_def debounce_inv_def calm_def split: search_event.splits option.splits)

lemma search_settled:
  "enabled_run search_step calm search_initial es \<Longrightarrow> sf_timer (run search_step search_initial es) = None \<Longrightarrow>
   sf_debounced (run search_step search_initial es) = sf_query (run search_step search_initial es)"
  using search.run_inv [of search_initial es] by (simp add: debounce_inv_def search_initial_def)

text \<open>
  A flaw: clearing does not cancel the waiting timer. A query typed less than 150 ms before
  "clear all" comes back: the box is empty, and the graph is filtered by the cleared query.
\<close>

lemma cleared_query_returns:
  "let st' = run search_step st [SetQuery q, ClearAll, DebounceFires]
   in sf_query st' = [] \<and> sf_debounced st' = q \<and> sf_timer st' = None"
  by (simp add: search_step_def)

section \<open>Log lines\<close>

datatype chip = IncludeChip string | ExcludeChip string | StreamChip stream

record LogFilters =
  lf_text :: string
  lf_include :: "string option"
  lf_exclude :: "string list"
  lf_stream :: "stream option"
  lf_regex :: bool

definition emptyFilters :: LogFilters where
  "emptyFilters = \<lparr>lf_text = [], lf_include = None, lf_exclude = [], lf_stream = None, lf_regex = False\<rparr>"

type_synonym regex = "string \<Rightarrow> bool"
type_synonym regex_cache = "(string option) \<times> (regex option)"

text \<open>The test of a text, through the module's cache of the last compiled query.\<close>

definition plain_match :: "string \<Rightarrow> string \<Rightarrow> bool" where
  "plain_match txt query = str_includes (to_lower query) (to_lower txt)"

definition textMatches :: "(string \<Rightarrow> regex option) \<Rightarrow> regex_cache \<Rightarrow> string \<Rightarrow> string \<Rightarrow> bool \<Rightarrow> bool \<times> regex_cache" where
  "textMatches compile cache txt query regex =
     (if \<not> regex then (plain_match txt query, cache)
      else let cache1 = (if Some query \<noteq> fst cache then (Some query, compile query) else cache)
           in (case snd cache1 of Some re \<Rightarrow> re txt | None \<Rightarrow> plain_match txt query, cache1))"

definition matchesFilters :: "(string \<Rightarrow> regex option) \<Rightarrow> regex_cache \<Rightarrow> LogLine \<Rightarrow> LogFilters \<Rightarrow> bool \<times> regex_cache" where
  "matchesFilters compile cache line f =
     (if truthy (lf_include f) \<and> ll_container line \<noteq> lf_include f then (False, cache)
      else if truthy (ll_container line) \<and> the (ll_container line) \<in> set (lf_exclude f) then (False, cache)
      else if lf_stream f \<noteq> None \<and> Some (ll_stream line) \<noteq> lf_stream f then (False, cache)
      else if lf_text f \<noteq> [] then textMatches compile cache (ll_text line) (lf_text f) (lf_regex f)
      else (True, cache))"

definition withChip :: "LogFilters \<Rightarrow> chip \<Rightarrow> LogFilters" where
  "withChip f c =
     (case c of
        IncludeChip container \<Rightarrow> f\<lparr>lf_include := Some container\<rparr>
      | ExcludeChip container \<Rightarrow> (if container \<in> set (lf_exclude f) then f
                                  else f\<lparr>lf_exclude := lf_exclude f @ [container]\<rparr>)
      | StreamChip s \<Rightarrow> f\<lparr>lf_stream := Some s\<rparr>)"

definition withoutChip :: "LogFilters \<Rightarrow> chip \<Rightarrow> LogFilters" where
  "withoutChip f c =
     (case c of
        IncludeChip _ \<Rightarrow> f\<lparr>lf_include := None\<rparr>
      | ExcludeChip container \<Rightarrow> f\<lparr>lf_exclude := filter (\<lambda>k. k \<noteq> container) (lf_exclude f)\<rparr>
      | StreamChip _ \<Rightarrow> f\<lparr>lf_stream := None\<rparr>)"

datatype log_filter_event = SetText string | AddChip chip | RemoveChip chip | ToggleRegex | ClearFilters

definition log_filter_step :: "LogFilters \<Rightarrow> log_filter_event \<Rightarrow> LogFilters" where
  "log_filter_step f e =
     (case e of
        SetText t \<Rightarrow> f\<lparr>lf_text := t\<rparr>
      | AddChip c \<Rightarrow> withChip f c
      | RemoveChip c \<Rightarrow> withoutChip f c
      | ToggleRegex \<Rightarrow> f\<lparr>lf_regex := \<not> lf_regex f\<rparr>
      | ClearFilters \<Rightarrow> emptyFilters)"

text \<open>The cached compilation is invisible: an instance of the locale of memoised functions.\<close>

definition line_test :: "(string \<Rightarrow> regex option) \<Rightarrow> string \<Rightarrow> string \<Rightarrow> bool \<Rightarrow> bool" where
  "line_test compile txt query regex =
     (case (if regex then compile query else None) of Some re \<Rightarrow> re txt | None \<Rightarrow> plain_match txt query)"

definition passes :: "(string \<Rightarrow> regex option) \<Rightarrow> LogLine \<times> LogFilters \<Rightarrow> bool" where
  "passes compile lf = (case lf of (line, f) \<Rightarrow>
     (truthy (lf_include f) \<longrightarrow> ll_container line = lf_include f) \<and>
     \<not> (truthy (ll_container line) \<and> the (ll_container line) \<in> set (lf_exclude f)) \<and>
     (case lf_stream f of None \<Rightarrow> True | Some s \<Rightarrow> ll_stream line = s) \<and>
     (lf_text f = [] \<or> line_test compile (ll_text line) (lf_text f) (lf_regex f)))"

definition regex_valid :: "(string \<Rightarrow> regex option) \<Rightarrow> regex_cache \<Rightarrow> bool" where
  "regex_valid compile cache \<longleftrightarrow> (case fst cache of None \<Rightarrow> True | Some q \<Rightarrow> snd cache = compile q)"

lemma textMatches_memo:
  assumes "regex_valid compile cache"
  shows "fst (textMatches compile cache txt query regex) = line_test compile txt query regex"
    "regex_valid compile (snd (textMatches compile cache txt query regex))"
  using assms by (auto simp: textMatches_def line_test_def regex_valid_def Let_def split: option.splits)

lemma matchesFilters_memo:
  assumes "regex_valid compile cache"
  shows "fst (matchesFilters compile cache line f) = passes compile (line, f)"
    "regex_valid compile (snd (matchesFilters compile cache line f))"
  using assms
  by (simp_all add: matchesFilters_def passes_def textMatches_memo eq_commute split: option.split)

interpretation log_filter: memo "passes compile" "\<lambda>cache (line, f). matchesFilters compile cache line f"
    "regex_valid compile"
  by unfold_locales (simp_all add: matchesFilters_memo split: prod.split)

text \<open>A filter pass keeps exactly the lines that pass, whatever was compiled before it.\<close>

lemma filter_pass:
  "regex_valid compile cache \<Longrightarrow>
   log_filter.answers compile cache (map (\<lambda>line. (line, f)) ls) = map (\<lambda>line. passes compile (line, f)) ls"
  by (simp add: log_filter.answers_pure comp_def)

text \<open>Chips: adding one is idempotent, removing an added one gives back a filter without it.\<close>

lemma chip_idem: "withChip (withChip f c) c = withChip f c"
  by (cases c) (simp_all add: withChip_def)

lemma exclude_chip_undone:
  assumes "k \<notin> set (lf_exclude f)"
  shows "withoutChip (withChip f (ExcludeChip k)) (ExcludeChip k) = f"
proof -
  have "filter (\<lambda>c. c \<noteq> k) (lf_exclude f) = lf_exclude f" using assms by (intro filter_True) auto
  then show ?thesis using assms by (simp add: withChip_def withoutChip_def)
qed

lemma excludes_distinct:
  "distinct (lf_exclude f) \<Longrightarrow> distinct (lf_exclude (log_filter_step f e))"
  by (auto simp: log_filter_step_def withChip_def withoutChip_def emptyFilters_def split: log_filter_event.split chip.split)

end
