(* ===== verification/Fetching.thy ===== *)
theory Fetching
  imports DataModel
begin

text \<open>
  Fetching from the API: the polling hook (\<^verbatim>\<open>hooks/usePollingFetch.ts\<close>), the fetch of one
  resource's details (\<^verbatim>\<open>hooks/useResourceDetail.ts\<close>), the message of a failed response
  (\<^verbatim>\<open>utils/apiError.ts\<close>) and the hooks that give them their URLs. Both hooks are state machines
  over renders, effects, answers and timers in any order. The API is a parameter: \<open>server u t\<close>
  is how the request of \<open>u\<close> answered at time \<open>t\<close> settles.
\<close>

section \<open>Responses\<close>

datatype json =
  JNull | JBool bool | JNum real | JStr string | JArr "json list" | JObj "(string \<times> json) list"

datatype json_body = NotJson string | Json json

record Response =
  rs_ok :: bool
  rs_status :: nat
  rs_body :: json_body

datatype outcome = NetworkError string | Responded Response

type_synonym server = "string \<Rightarrow> nat \<Rightarrow> outcome"

definition apiErrorMessage :: "Response \<Rightarrow> string" where
  "apiErrorMessage res =
     (let fallback = ''HTTP '' @ string_of_nat (rs_status res) in
      case rs_body res of
        Json (JObj obj) \<Rightarrow>
          (case map_get obj ''error'' of
             Some (JStr e) \<Rightarrow> if e \<noteq> [] then e else fallback
           | _ \<Rightarrow> fallback)
      | _ \<Rightarrow> fallback)"

text \<open>A request: its message when it fails, its JSON when it succeeds.\<close>

fun fetch_result :: "outcome \<Rightarrow> string + json" where
  "fetch_result (NetworkError m) = Inl m"
| "fetch_result (Responded res) =
     (if \<not> rs_ok res then Inl (apiErrorMessage res)
      else case rs_body res of NotJson m \<Rightarrow> Inl m | Json j \<Rightarrow> Inr j)"

record FetchState =
  fs_data :: json
  fs_loading :: bool
  fs_error :: "string option"

section \<open>Polling\<close>

record KeyedState =
  ks_url :: "string option"
  ks_fetch :: FetchState

definition EMPTY :: FetchState where
  "EMPTY = \<lparr>fs_data = JNull, fs_loading = False, fs_error = None\<rparr>"

definition KEYED_EMPTY :: KeyedState where
  "KEYED_EMPTY = \<lparr>ks_url = None, ks_fetch = EMPTY\<rparr>"

text \<open>
  One run of the effect: its controller's aborted flag, whether a request is in flight, and
  whether its timer is set.
\<close>

record Poll =
  pl_id :: nat
  pl_url :: string
  pl_interval :: nat
  pl_aborted :: bool
  pl_fetching :: bool
  pl_timer :: bool

record Polling =
  po_url :: "string option"
  po_interval :: nat
  po_deps :: "(string option \<times> nat) option"
  po_state :: KeyedState
  po_polls :: "Poll list"
  po_next :: nat

definition polling_initial :: "string option \<Rightarrow> nat \<Rightarrow> Polling" where
  "polling_initial u iv = \<lparr>po_url = u, po_interval = iv, po_deps = None, po_state = KEYED_EMPTY,
     po_polls = [], po_next = 0\<rparr>"

text \<open>What the hook returns.\<close>

definition polled :: "Polling \<Rightarrow> FetchState" where
  "polled st = (if ks_url (po_state st) = po_url st then ks_fetch (po_state st)
     else \<lparr>fs_data = JNull, fs_loading = truthy (po_url st), fs_error = None\<rparr>)"

definition abort_poll :: "Poll \<Rightarrow> Poll" where
  "abort_poll p = p\<lparr>pl_aborted := True, pl_timer := False\<rparr>"

definition poll_effect :: "Polling \<Rightarrow> Polling" where
  "poll_effect st =
     (if po_deps st = Some (po_url st, po_interval st) then st
      else let st1 = st\<lparr>po_polls := map abort_poll (po_polls st),
                       po_deps := Some (po_url st, po_interval st)\<rparr> in
        if \<not> truthy (po_url st) then st1\<lparr>po_state := KEYED_EMPTY\<rparr>
        else let url = the (po_url st);
                 keep = (if ks_url (po_state st) = Some url then fs_data (ks_fetch (po_state st)) else JNull)
             in st1\<lparr>po_state := \<lparr>ks_url = Some url,
                      ks_fetch = \<lparr>fs_data = keep, fs_loading = True, fs_error = None\<rparr>\<rparr>,
                   po_polls := po_polls st1 @ [\<lparr>pl_id = po_next st, pl_url = url, pl_interval = po_interval st,
                      pl_aborted = False, pl_fetching = True, pl_timer = False\<rparr>],
                   po_next := po_next st + 1\<rparr>)"

definition update_poll :: "nat \<Rightarrow> (Poll \<Rightarrow> Poll) \<Rightarrow> Poll list \<Rightarrow> Poll list" where
  "update_poll k f ps = map (\<lambda>p. if pl_id p = k then f p else p) ps"

text \<open>The settled request of poll \<open>p\<close>: state, then the timer of the next request.\<close>

definition poll_answered :: "Poll \<Rightarrow> string + json \<Rightarrow> Polling \<Rightarrow> Polling" where
  "poll_answered p r st =
     (if pl_aborted p
      then st\<lparr>po_polls := update_poll (pl_id p) (\<lambda>p. p\<lparr>pl_fetching := False\<rparr>) (po_polls st)\<rparr>
      else st\<lparr>po_state := (case r of
                 Inr j \<Rightarrow> \<lparr>ks_url = Some (pl_url p),
                            ks_fetch = \<lparr>fs_data = j, fs_loading = False, fs_error = None\<rparr>\<rparr>
               | Inl m \<Rightarrow> (po_state st)\<lparr>ks_fetch := (ks_fetch (po_state st))
                            \<lparr>fs_loading := False, fs_error := Some m\<rparr>\<rparr>),
              po_polls := update_poll (pl_id p) (\<lambda>p. p\<lparr>pl_fetching := False, pl_timer := True\<rparr>) (po_polls st)\<rparr>)"

datatype poll_event =
  PollRender "string option" nat
| PollEffect
| PollAnswer nat nat
| PollTimer nat
| PollUnmount

definition polling_step :: "server \<Rightarrow> Polling \<Rightarrow> poll_event \<Rightarrow> Polling" where
  "polling_step server st e =
     (case e of
        PollRender u iv \<Rightarrow> st\<lparr>po_url := u, po_interval := iv\<rparr>
      | PollEffect \<Rightarrow> poll_effect st
      | PollAnswer k t \<Rightarrow>
          (case find (\<lambda>p. pl_id p = k \<and> pl_fetching p) (po_polls st) of
             None \<Rightarrow> st
           | Some p \<Rightarrow> poll_answered p (fetch_result (server (pl_url p) t)) st)
      | PollTimer k \<Rightarrow>
          (case find (\<lambda>p. pl_id p = k \<and> pl_timer p) (po_polls st) of
             None \<Rightarrow> st
           | Some p \<Rightarrow> st\<lparr>po_polls :=
               update_poll k (\<lambda>p. p\<lparr>pl_fetching := True, pl_timer := False\<rparr>) (po_polls st)\<rparr>)
      | PollUnmount \<Rightarrow> st\<lparr>po_polls := map abort_poll (po_polls st), po_deps := None\<rparr>)"

definition polling_run :: "server \<Rightarrow> string option \<Rightarrow> nat \<Rightarrow> poll_event list \<Rightarrow> Polling" where
  "polling_run server u iv es = run (polling_step server) (polling_initial u iv) es"

subsection \<open>Its invariant\<close>

definition live_polls :: "Polling \<Rightarrow> Poll list" where
  "live_polls st = filter (\<lambda>p. \<not> pl_aborted p) (po_polls st)"

definition answered :: "server \<Rightarrow> string \<Rightarrow> json \<Rightarrow> bool" where
  "answered server u j \<longleftrightarrow> (\<exists>t. fetch_result (server u t) = Inr j)"

definition keyed_ok :: "server \<Rightarrow> Polling \<Rightarrow> bool" where
  "keyed_ok server st \<longleftrightarrow> (let s = po_state st in
     fs_data (ks_fetch s) = JNull \<or> (\<exists>u. ks_url s = Some u \<and> answered server u (fs_data (ks_fetch s))))"

definition live_ok :: "Polling \<Rightarrow> bool" where
  "live_ok st \<longleftrightarrow> (case po_deps st of
     Some (Some u, iv) \<Rightarrow> if u = [] then live_polls st = []
       else ks_url (po_state st) = Some u \<and>
         (\<exists>p. live_polls st = [p] \<and> pl_url p = u \<and> pl_interval p = iv \<and> pl_fetching p = (\<not> pl_timer p))
   | _ \<Rightarrow> live_polls st = [])"

definition polls_ok :: "Polling \<Rightarrow> bool" where
  "polls_ok st \<longleftrightarrow> distinct (map pl_id (po_polls st)) \<and>
     (\<forall>p\<in>set (po_polls st). pl_id p < po_next st \<and> (pl_aborted p \<longrightarrow> \<not> pl_timer p))"

definition polling_inv :: "server \<Rightarrow> Polling \<Rightarrow> bool" where
  "polling_inv server st \<longleftrightarrow> keyed_ok server st \<and> live_ok st \<and> polls_ok st"

lemma no_live_abort [simp]: "filter (\<lambda>p. \<not> pl_aborted p) (map abort_poll ps) = []"
  by (induction ps) (simp_all add: abort_poll_def)

lemma abort_poll_sel [simp]: "pl_id (abort_poll p) = pl_id p" "pl_aborted (abort_poll p)" "\<not> pl_timer (abort_poll p)"
  by (simp_all add: abort_poll_def)

lemma map_id_abort [simp]: "map (pl_id \<circ> abort_poll) ps = map pl_id ps"
  by simp

lemma poll_effect_inv: "polling_inv server st \<Longrightarrow> polling_inv server (poll_effect st)"
proof -
  assume inv: "polling_inv server st"
  have "polls_ok (poll_effect st)"
    using inv by (auto simp: polling_inv_def polls_ok_def poll_effect_def Let_def)
  moreover have "live_ok (poll_effect st)"
    using inv by (auto simp: polling_inv_def live_ok_def live_polls_def poll_effect_def Let_def truthy_iff
        split: option.splits)
  moreover have "keyed_ok server (poll_effect st)"
    using inv by (auto simp: polling_inv_def keyed_ok_def poll_effect_def KEYED_EMPTY_def EMPTY_def Let_def)
  ultimately show ?thesis by (simp add: polling_inv_def)
qed

lemma update_poll_ids [simp]:
  "(\<And>p. pl_id (f p) = pl_id p) \<Longrightarrow> map pl_id (update_poll k f ps) = map pl_id ps"
  by (simp add: update_poll_def)

lemma set_update_poll: "p \<in> set (update_poll k f ps) \<Longrightarrow> \<exists>q\<in>set ps. p = q \<and> pl_id q \<noteq> k \<or> p = f q \<and> pl_id q = k"
  by (auto simp: update_poll_def)

text \<open>A poll keeps its place among the live ones when its flags change.\<close>

lemma live_update:
  assumes "\<And>p. pl_aborted (f p) = pl_aborted p"
  shows "filter (\<lambda>p. \<not> pl_aborted p) (update_poll k f ps) = update_poll k f (filter (\<lambda>p. \<not> pl_aborted p) ps)"
  by (induction ps) (simp_all add: update_poll_def assms)

lemma update_poll_Nil [simp]: "update_poll k f [] = []"
  by (simp add: update_poll_def)

lemma update_poll_single [simp]: "update_poll k f [p] = [if pl_id p = k then f p else p]"
  by (simp add: update_poll_def)

lemma update_foreign:
  "distinct (map pl_id ps) \<Longrightarrow> q \<in> set ps \<Longrightarrow> pl_aborted q \<Longrightarrow>
   update_poll (pl_id q) f (filter (\<lambda>p. \<not> pl_aborted p) ps) = filter (\<lambda>p. \<not> pl_aborted p) ps"
  unfolding update_poll_def by (rule map_idI) (auto dest: eq_key_imp_eq_value simp: distinct_map inj_on_def)

lemma find_poll:
  assumes "find P ps = Some p"
  shows "p \<in> set ps" "P p"
  using assms by (auto simp: find_Some_iff)

lemma live_single:
  assumes "live_ok st" "p \<in> set (po_polls st)" "\<not> pl_aborted p"
  shows "\<exists>u iv. po_deps st = Some (Some u, iv) \<and> u \<noteq> [] \<and> ks_url (po_state st) = Some u \<and>
    live_polls st = [p] \<and> pl_url p = u \<and> pl_interval p = iv \<and> pl_fetching p = (\<not> pl_timer p)"
proof -
  have "p \<in> set (live_polls st)" using assms(2,3) by (simp add: live_polls_def)
  then show ?thesis using assms(1)
    by (auto simp: live_ok_def split: option.splits prod.splits if_splits)
qed

lemma live_ok_cong:
  "po_deps st' = po_deps st \<Longrightarrow> po_state st' = po_state st \<Longrightarrow> live_polls st' = live_polls st \<Longrightarrow>
   live_ok st' = live_ok st"
  by (auto simp: live_ok_def split: option.split)

lemma poll_answered_inv:
  assumes inv: "polling_inv server st" and p: "p \<in> set (po_polls st)" "pl_fetching p"
    and r: "r = fetch_result (server (pl_url p) t)"
  shows "polling_inv server (poll_answered p r st)"
proof (cases "pl_aborted p")
  case True
  let ?f = "\<lambda>p :: Poll. p\<lparr>pl_fetching := False\<rparr>"
  have "live_polls (poll_answered p r st) = live_polls st"
    using inv p(1) True by (simp add: poll_answered_def live_polls_def live_update update_foreign polling_inv_def polls_ok_def)
  moreover have "polls_ok (poll_answered p r st)"
    using inv True by (auto simp: poll_answered_def polling_inv_def polls_ok_def dest!: set_update_poll)
  moreover have "po_deps (poll_answered p r st) = po_deps st" "po_state (poll_answered p r st) = po_state st"
    using True by (simp_all add: poll_answered_def)
  ultimately show ?thesis
    using inv live_ok_cong [of "poll_answered p r st" st] by (simp add: polling_inv_def keyed_ok_def)
next
  case False
  obtain u iv where live: "po_deps st = Some (Some u, iv)" "u \<noteq> []" "ks_url (po_state st) = Some u"
      "live_polls st = [p]" "pl_url p = u" "pl_interval p = iv"
    using live_single [OF _ p(1) False] inv by (auto simp: polling_inv_def)
  let ?f = "\<lambda>p :: Poll. p\<lparr>pl_fetching := False, pl_timer := True\<rparr>"
  have "live_polls (poll_answered p r st) = [?f p]"
    using live(4) False by (simp add: poll_answered_def live_polls_def live_update)
  then have "live_ok (poll_answered p r st)"
    using live False by (simp add: live_ok_def poll_answered_def split: sum.split)
  moreover have "polls_ok (poll_answered p r st)"
  proof -
    have "\<not> pl_aborted q" if "q \<in> set (po_polls st)" "pl_id q = pl_id p" for q
      using inv p(1) that False by (auto simp: polling_inv_def polls_ok_def distinct_map inj_on_def)
    then show ?thesis
      using inv False by (auto simp: poll_answered_def polling_inv_def polls_ok_def dest!: set_update_poll)
  qed
  moreover have "keyed_ok server (poll_answered p r st)"
    using inv False live r by (auto simp: polling_inv_def keyed_ok_def poll_answered_def answered_def Let_def
        split: sum.splits)
  ultimately show ?thesis by (simp add: polling_inv_def)
qed

lemma poll_timer_inv:
  assumes inv: "polling_inv server st" and p: "p \<in> set (po_polls st)" "pl_timer p"
  shows "polling_inv server (st\<lparr>po_polls :=
    update_poll (pl_id p) (\<lambda>p. p\<lparr>pl_fetching := True, pl_timer := False\<rparr>) (po_polls st)\<rparr>)" (is "polling_inv server ?st")
proof -
  have alive: "\<not> pl_aborted p" using inv p by (auto simp: polling_inv_def polls_ok_def)
  obtain u iv where live: "po_deps st = Some (Some u, iv)" "u \<noteq> []" "ks_url (po_state st) = Some u"
      "live_polls st = [p]" "pl_url p = u" "pl_interval p = iv"
    using live_single [OF _ p(1) alive] inv by (auto simp: polling_inv_def)
  have "live_polls ?st = [p\<lparr>pl_fetching := True, pl_timer := False\<rparr>]"
    using live(4) by (simp add: live_polls_def live_update)
  then have "live_ok ?st" using live by (simp add: live_ok_def)
  moreover have "polls_ok ?st"
    using inv by (auto simp: polling_inv_def polls_ok_def dest!: set_update_poll)
  moreover have "keyed_ok server ?st" using inv by (simp add: polling_inv_def keyed_ok_def)
  ultimately show ?thesis by (simp add: polling_inv_def)
qed

lemma polling_step_inv: "polling_inv server st \<Longrightarrow> polling_inv server (polling_step server st e)"
proof (cases e)
  case (PollRender u iv)
  then show "polling_inv server st \<Longrightarrow> ?thesis"
    using live_ok_cong [of "st\<lparr>po_url := u, po_interval := iv\<rparr>" st]
    by (simp add: polling_step_def polling_inv_def keyed_ok_def live_polls_def polls_ok_def)
next
  case PollEffect
  then show "polling_inv server st \<Longrightarrow> ?thesis" using poll_effect_inv by (simp add: polling_step_def)
next
  case (PollAnswer k t)
  moreover have "polling_inv server (poll_answered p (fetch_result (server (pl_url p) t)) st)"
    if "polling_inv server st" "find (\<lambda>p. pl_id p = k \<and> pl_fetching p) (po_polls st) = Some p" for p
    using find_poll [OF that(2)] poll_answered_inv [OF that(1) _ _ refl] by blast
  ultimately show "polling_inv server st \<Longrightarrow> ?thesis" by (auto simp: polling_step_def split: option.split)
next
  case (PollTimer k)
  moreover have "polling_inv server (st\<lparr>po_polls :=
      update_poll k (\<lambda>p. p\<lparr>pl_fetching := True, pl_timer := False\<rparr>) (po_polls st)\<rparr>)"
    if "polling_inv server st" "find (\<lambda>p. pl_id p = k \<and> pl_timer p) (po_polls st) = Some p" for p
    using find_poll [OF that(2)] poll_timer_inv [OF that(1), of p] by blast
  ultimately show "polling_inv server st \<Longrightarrow> ?thesis" by (auto simp: polling_step_def split: option.split)
next
  case PollUnmount
  then show "polling_inv server st \<Longrightarrow> ?thesis"
    by (auto simp: polling_step_def polling_inv_def keyed_ok_def live_ok_def live_polls_def polls_ok_def)
qed

interpretation polling: machine "polling_step server" "\<lambda>_ _. True" "polling_inv server"
  by unfold_locales (rule polling_step_inv)

lemma polling_run_inv: "polling_inv server (polling_run server u iv es)"
  unfolding polling_run_def
  by (rule polling.run_inv)
    (simp_all add: polling_inv_def keyed_ok_def live_ok_def live_polls_def polls_ok_def polling_initial_def
      KEYED_EMPTY_def EMPTY_def)

text \<open>
  C36. Polling never shows another URL's data and never stalls: after any renders, effects,
  answers, timers and unmounts in any order, the data the hook returns (when it is not
  \<open>null\<close>) was answered for the URL of the current render; and once the effect has run for
  a URL, exactly one poll is not aborted, it polls this URL at its interval, and it either
  waits for its request or for its timer, never both.
\<close>

theorem polling_current_and_alive:
  "let st = polling_run server u iv es in
     (fs_data (polled st) = JNull \<or>
      (\<exists>v t. po_url st = Some v \<and> fetch_result (server v t) = Inr (fs_data (polled st)))) \<and>
     (case po_deps st of
        Some (Some v, n) \<Rightarrow> v = [] \<or>
          (\<exists>p. live_polls st = [p] \<and> pl_url p = v \<and> pl_interval p = n \<and> pl_fetching p = (\<not> pl_timer p))
      | _ \<Rightarrow> live_polls st = [])"
proof -
  have inv: "polling_inv server (polling_run server u iv es)" by (rule polling_run_inv)
  then show ?thesis
    by (auto simp: polling_inv_def live_ok_def keyed_ok_def polled_def answered_def Let_def
        split: option.splits if_splits)
qed

section \<open>The details of one resource\<close>

record DetailFetch =
  df_id :: nat
  df_url :: string
  df_aborted :: bool

record Inspect =
  ih_url :: "string option"
  ih_deps :: "string option option"
  ih_state :: FetchState
  ih_fetches :: "DetailFetch list"
  ih_next :: nat

definition inspect_initial :: "string option \<Rightarrow> Inspect" where
  "inspect_initial u = \<lparr>ih_url = u, ih_deps = None, ih_state = EMPTY, ih_fetches = [], ih_next = 0\<rparr>"

definition abort_fetch :: "DetailFetch \<Rightarrow> DetailFetch" where
  "abort_fetch f = f\<lparr>df_aborted := True\<rparr>"

definition inspect_effect :: "Inspect \<Rightarrow> Inspect" where
  "inspect_effect st =
     (if ih_deps st = Some (ih_url st) then st
      else let st1 = st\<lparr>ih_deps := Some (ih_url st), ih_fetches := map abort_fetch (ih_fetches st)\<rparr> in
        if \<not> truthy (ih_url st) then st1\<lparr>ih_state := EMPTY\<rparr>
        else st1\<lparr>ih_state := (ih_state st)\<lparr>fs_loading := True, fs_error := None\<rparr>,
                 ih_fetches := ih_fetches st1 @
                   [\<lparr>df_id = ih_next st, df_url = the (ih_url st), df_aborted = False\<rparr>],
                 ih_next := ih_next st + 1\<rparr>)"

definition inspect_answered :: "string + json \<Rightarrow> FetchState" where
  "inspect_answered r = (case r of
     Inr j \<Rightarrow> \<lparr>fs_data = j, fs_loading = False, fs_error = None\<rparr>
   | Inl m \<Rightarrow> \<lparr>fs_data = JNull, fs_loading = False, fs_error = Some m\<rparr>)"

datatype inspect_event =
  InspectRender "string option"
| InspectEffect
| InspectAnswer nat nat
| InspectUnmount

definition inspect_step :: "server \<Rightarrow> Inspect \<Rightarrow> inspect_event \<Rightarrow> Inspect" where
  "inspect_step server st e =
     (case e of
        InspectRender u \<Rightarrow> st\<lparr>ih_url := u\<rparr>
      | InspectEffect \<Rightarrow> inspect_effect st
      | InspectAnswer k t \<Rightarrow>
          (case find (\<lambda>f. df_id f = k) (ih_fetches st) of
             None \<Rightarrow> st
           | Some f \<Rightarrow>
               let st1 = st\<lparr>ih_fetches := filter (\<lambda>f. df_id f \<noteq> k) (ih_fetches st)\<rparr> in
               if df_aborted f then st1
               else st1\<lparr>ih_state := inspect_answered (fetch_result (server (df_url f) t))\<rparr>)
      | InspectUnmount \<Rightarrow> st\<lparr>ih_fetches := map abort_fetch (ih_fetches st), ih_deps := None\<rparr>)"

definition inspect_run :: "server \<Rightarrow> string option \<Rightarrow> inspect_event list \<Rightarrow> Inspect" where
  "inspect_run server u es = run (inspect_step server) (inspect_initial u) es"

text \<open>A live request belongs to the URL of the last effect, and so does what it settled to.\<close>

definition inspect_inv :: "server \<Rightarrow> Inspect \<Rightarrow> bool" where
  "inspect_inv server st \<longleftrightarrow>
     (case ih_deps st of
        Some u \<Rightarrow> (\<forall>f\<in>set (ih_fetches st). df_aborted f \<or> u = Some (df_url f)) \<and>
          (fs_loading (ih_state st) \<or> fs_data (ih_state st) = JNull \<or>
           (\<exists>v. u = Some v \<and> answered server v (fs_data (ih_state st))))
      | None \<Rightarrow> \<forall>f\<in>set (ih_fetches st). df_aborted f)"

lemma abort_fetch_sel [simp]: "df_aborted (abort_fetch f)"
  by (simp add: abort_fetch_def)

lemma inspect_effect_inv: "inspect_inv server st \<Longrightarrow> inspect_inv server (inspect_effect st)"
  by (auto simp: inspect_inv_def inspect_effect_def EMPTY_def Let_def truthy_iff split: option.splits)

lemma inspect_step_inv: "inspect_inv server st \<Longrightarrow> inspect_inv server (inspect_step server st e)"
proof (cases e)
  case (InspectAnswer k t)
  assume inv: "inspect_inv server st"
  show ?thesis
  proof (cases "find (\<lambda>f. df_id f = k) (ih_fetches st)")
    case None
    then show ?thesis using InspectAnswer inv by (simp add: inspect_step_def)
  next
    case (Some f)
    then have f: "f \<in> set (ih_fetches st)" by (auto simp: find_Some_iff)
    then show ?thesis
      using InspectAnswer inv Some
      by (auto simp: inspect_step_def inspect_inv_def inspect_answered_def answered_def Let_def
          split: option.splits sum.splits)
  qed
next
  case InspectEffect
  then show "inspect_inv server st \<Longrightarrow> ?thesis" using inspect_effect_inv by (simp add: inspect_step_def)
qed (auto simp: inspect_step_def inspect_inv_def split: option.splits)

interpretation inspect: machine "inspect_step server" "\<lambda>_ _. True" "inspect_inv server"
  by unfold_locales (rule inspect_step_inv)

text \<open>
  C37. A settled detail panel shows its own resource: after any renders, effects, answers and
  unmounts, once the effect of the current URL has run and no request is loading, the data
  returned (when it is not \<open>null\<close>) was answered for this URL.
\<close>

theorem settled_detail_current:
  assumes "st = inspect_run server u es" and "ih_deps st = Some (ih_url st)"
    and "\<not> fs_loading (ih_state st)"
  shows "fs_data (ih_state st) = JNull \<or>
    (\<exists>v t. ih_url st = Some v \<and> fetch_result (server v t) = Inr (fs_data (ih_state st)))"
proof -
  have "inspect_inv server st"
    unfolding assms(1) inspect_run_def
    by (rule inspect.run_inv) (simp_all add: inspect_inv_def inspect_initial_def)
  then show ?thesis using assms(2,3) by (auto simp: inspect_inv_def answered_def)
qed

theorem settled_detail_current_witness:
  "let st = inspect_run (\<lambda>u _. Responded \<lparr>rs_ok = True, rs_status = 200, rs_body = Json (JStr u)\<rparr>) (Some ''/api/a'')
       [InspectEffect, InspectRender (Some ''/api/b''), InspectEffect, InspectAnswer 0 0, InspectAnswer 1 0]
   in fs_data (ih_state st) = JStr ''/api/b'' \<and>
      (fs_data (ih_state st) = JNull \<or> (\<exists>v t. ih_url st = Some v \<and>
        fetch_result (Responded \<lparr>rs_ok = True, rs_status = 200, rs_body = Json (JStr v)\<rparr>) =
          Inr (fs_data (ih_state st))))"
proof -
  let ?server = "\<lambda>u (_ :: nat). Responded \<lparr>rs_ok = True, rs_status = 200, rs_body = Json (JStr u)\<rparr>"
  let ?st = "inspect_run ?server (Some ''/api/a'')
       [InspectEffect, InspectRender (Some ''/api/b''), InspectEffect, InspectAnswer 0 0, InspectAnswer 1 0]"
  have st: "ih_deps ?st = Some (ih_url ?st) \<and> \<not> fs_loading (ih_state ?st) \<and> fs_data (ih_state ?st) = JStr ''/api/b''"
    by code_simp
  then show ?thesis
    using settled_detail_current [of ?st ?server "Some ''/api/a''" _, OF refl] unfolding Let_def by blast
qed

text \<open>
  A flaw: the hook's data is not keyed by the URL. When the URL changes from a settled resource
  to another one, the render before the effect returns the previous resource's data as if it
  were settled, and until the answer the previous data is returned beside \<open>loading\<close> (the panel's
  header shows it).
\<close>

lemma detail_shows_previous:
  assumes "\<not> fs_loading (ih_state st)" "ih_deps st = Some (Some u)" "v \<noteq> u" "v \<noteq> []"
  shows "ih_state (run (inspect_step server) st [InspectRender (Some v)]) = ih_state st"
    and "ih_state (run (inspect_step server) st [InspectRender (Some v), InspectEffect]) =
      (ih_state st)\<lparr>fs_loading := True, fs_error := None\<rparr>"
  using assms by (simp_all add: inspect_step_def inspect_effect_def Let_def)

section \<open>The hooks over them\<close>

definition containerDetailUrl :: "string option \<Rightarrow> string option" where
  "containerDetailUrl containerId = (if truthy containerId
     then Some (''/api/containers/'' @ encodeURIComponent (the containerId)) else None)"

definition volumeDetailUrl :: "string option \<Rightarrow> string option" where
  "volumeDetailUrl volumeName = (if truthy volumeName
     then Some (''/api/volumes/'' @ encodeURIComponent (the volumeName)) else None)"

definition networkDetailUrl :: "string option \<Rightarrow> string option" where
  "networkDetailUrl networkName = (if truthy networkName
     then Some (''/api/networks/'' @ encodeURIComponent (the networkName)) else None)"

definition serviceDetailUrl :: "string option \<Rightarrow> string option" where
  "serviceDetailUrl serviceName = (if truthy serviceName
     then Some (''/api/services/'' @ encodeURIComponent (the serviceName)) else None)"

text \<open>The polled endpoints, each with its interval in milliseconds.\<close>

datatype time_range = Range5m | Range1h | Range6h | Range24h

fun range_name :: "time_range \<Rightarrow> string" where
  "range_name Range5m = ''5m''"
| "range_name Range1h = ''1h''"
| "range_name Range6h = ''6h''"
| "range_name Range24h = ''24h''"

datatype history_scope = Workloads | Nodes

definition useStatsHistory :: "time_range \<Rightarrow> string option \<Rightarrow> history_scope \<Rightarrow> string option \<times> nat" where
  "useStatsHistory rng stack scope =
     (Some (if scope = Nodes then ''/api/stats/history?range='' @ range_name rng @ ''&scope=nodes''
            else ''/api/stats/history?range='' @ range_name rng
              @ (if truthy stack then ''&stack='' @ encodeURIComponent (the stack) else [])), 10000)"

definition useSwarmManagers :: "bool \<Rightarrow> string option \<times> nat" where
  "useSwarmManagers active = ((if active then Some ''/api/swarm/managers'' else None), 5000)"

definition useDiskUsage :: "string option \<times> nat" where
  "useDiskUsage = (Some ''/api/system/disk-usage'', 60000)"

definition useImages :: "string option \<times> nat" where
  "useImages = (Some ''/api/images'', 60000)"

definition useSystemInfo :: "string option \<times> nat" where
  "useSystemInfo = (Some ''/api/system/info'', 300000)"

definition useRecentEvents :: "nat \<Rightarrow> string option \<times> nat" where
  "useRecentEvents limit = (Some (''/api/events/recent?limit='' @ string_of_nat limit), 10000)"

text \<open>The stats map of a websocket message (\<^verbatim>\<open>hooks/useContainerStats.ts\<close>).\<close>

definition handleStatsMessage :: "(string \<times> ContainerStatsData) list \<Rightarrow> stats_map" where
  "handleStatsMessage stats = foldl (\<lambda>m (name, s). map_set m name s) [] stats"

lemma handleStatsMessage_lookup:
  "distinct (map fst stats) \<Longrightarrow> map_get (handleStatsMessage stats) k = map_of stats k"
proof (induction stats rule: rev_induct)
  case (snoc e stats)
  then show ?case
    by (cases e) (force simp: handleStatsMessage_def js.get_put map_add_def split: option.split dest: map_of_SomeD)
qed (simp add: handleStatsMessage_def)

end
