(* ===== verification/Dashboard.thy ===== *)
theory Dashboard
  imports Fetching NodeTransform Colors
begin

text \<open>
  The dashboard's logic: numbers as text (\<^verbatim>\<open>utils/format.ts\<close>, \<^verbatim>\<open>utils/formatBytes.ts\<close>), the alerts
  (\<^verbatim>\<open>utils/alerts.ts\<close>) and what the cards of \<^verbatim>\<open>components/dashboard\<close> compute before they draw.
  The lemmas give the unit a byte count is shown in, show that the alerts are those of every
  workload by severity, and that the top consumers are the largest.
\<close>

section \<open>Numbers as text\<close>

text \<open>\<open>v.toFixed(d)\<close> of a non-negative number: the nearest decimal, ties upwards.\<close>

fun pad_left :: "nat \<Rightarrow> string \<Rightarrow> string" where
  "pad_left n s = replicate (n - length s) (CHR ''0'') @ s"

definition to_fixed :: "nat \<Rightarrow> real \<Rightarrow> string" where
  "to_fixed d v =
     (let n = nat \<lfloor>v * 10 ^ d + 1 / 2\<rfloor>
      in if d = 0 then string_of_nat n
         else string_of_nat (n div 10 ^ d) @ ''.'' @ pad_left d (string_of_nat (n mod 10 ^ d)))"

text \<open>
  \<open>Math.floor(Math.log(b) / Math.log(1024))\<close> for a positive number, by the divisions (or
  multiplications) by 1024 that bring it to at least 1 and below 1024. A double is below
  \<open>1024\<^sup>1\<^sup>0\<^sup>3\<close> and at least \<open>1024\<^sup>-\<^sup>1\<^sup>0\<^sup>8\<close>, so 110 of them are enough.
\<close>

fun units_down :: "nat \<Rightarrow> real \<Rightarrow> nat" where
  "units_down 0 b = 0"
| "units_down (Suc k) b = (if b < 1024 then 0 else Suc (units_down k (b / 1024)))"

fun units_up :: "nat \<Rightarrow> real \<Rightarrow> nat" where
  "units_up 0 b = 0"
| "units_up (Suc k) b = (if 1 \<le> b then 0 else Suc (units_up k (1024 * b)))"

definition unit_index :: "real \<Rightarrow> int" where
  "unit_index b = (if 1 \<le> b then int (units_down 110 b) else - int (units_up 110 b))"

definition scale :: "real \<Rightarrow> int \<Rightarrow> real" where
  "scale b i = (if 0 \<le> i then b / 1024 ^ nat i else b * 1024 ^ nat (- i))"

definition UNITS :: "string list" where
  "UNITS = [''B'', ''KB'', ''MB'', ''GB'', ''TB'']"

definition SHORT_UNITS :: "string list" where
  "SHORT_UNITS = [''B'', ''K'', ''M'', ''G'', ''T'']"

text \<open>The dashboard's \<open>formatBytes\<close>; an index outside the units prints \<open>undefined\<close>.\<close>

definition formatBytes :: "real \<Rightarrow> string" where
  "formatBytes bytes =
     (if bytes \<le> 0 then ''0 B''
      else let i = unit_index bytes
           in to_fixed (if i = 0 then 0 else 1) (scale bytes i) @ '' '' @ nullish (js_index UNITS i) ''undefined'')"

text \<open>The panels' and nodes' \<open>formatBytes\<close>, whose index is clamped above.\<close>

definition scaleBytes :: "real \<Rightarrow> nat \<Rightarrow> real \<times> int" where
  "scaleBytes bytes unitCount =
     (if bytes = 0 then (0, 0)
      else let index = min (unit_index bytes) (int unitCount - 1) in (scale bytes index, index))"

definition formatBytes_panel :: "real \<Rightarrow> nat \<Rightarrow> string" where
  "formatBytes_panel bytes decimals =
     (if bytes = 0 then ''0 B''
      else let (v, index) = scaleBytes bytes (length UNITS)
           in to_fixed decimals v @ '' '' @ nullish (js_index UNITS index) ''undefined'')"

definition formatBytesShort :: "real \<Rightarrow> string" where
  "formatBytesShort bytes =
     (if bytes = 0 then ''0B''
      else let (v, index) = scaleBytes bytes (length SHORT_UNITS)
           in (if v < 10 then to_fixed 1 v else string_of_int \<lfloor>math_round v\<rfloor>)
              @ nullish (js_index SHORT_UNITS index) ''undefined'')"

definition formatPercent :: "real \<Rightarrow> string" where
  "formatPercent v = to_fixed 1 v @ ''%''"

definition formatCount :: "nat \<Rightarrow> string \<Rightarrow> string" where
  "formatCount n noun = string_of_nat n @ '' '' @ noun @ (if n = 1 then [] else ''s'')"

text \<open>The uptime, from the milliseconds of the start (\<open>None\<close> for an invalid date) and of now.\<close>

definition formatUptime :: "int option \<Rightarrow> int \<Rightarrow> string" where
  "formatUptime start now =
     (case start of None \<Rightarrow> ''NaNm''
      | Some s \<Rightarrow>
          let diff = max 0 (now - s);
              days = diff div 86400000;
              hours = diff mod 86400000 div 3600000;
              minutes = diff mod 3600000 div 60000
          in if days > 0 then string_of_int days @ ''d '' @ string_of_int hours @ ''h''
             else if hours > 0 then string_of_int hours @ ''h '' @ string_of_int minutes @ ''m''
             else string_of_int minutes @ ''m'')"

subsection \<open>The unit of a byte count\<close>

lemma units_down_spec:
  "1024 ^ i \<le> b \<Longrightarrow> b < 1024 ^ Suc i \<Longrightarrow> i \<le> k \<Longrightarrow> units_down k b = i"
proof (induction k arbitrary: b i)
  case (Suc k)
  show ?case
  proof (cases i)
    case (Suc j)
    have "(1024 :: real) ^ 1 \<le> 1024 ^ i" by (rule power_increasing) (simp_all add: Suc)
    then have "units_down k (b / 1024) = j"
      using Suc Suc.prems by (intro Suc.IH) (simp_all add: field_simps)
    moreover have "\<not> b < 1024" using \<open>(1024 :: real) ^ 1 \<le> _\<close> Suc.prems(1) by simp
    ultimately show ?thesis using Suc by simp
  qed (use Suc.prems in simp)
qed simp

lemma units_up_positive: "0 < b \<Longrightarrow> b < 1 \<Longrightarrow> 0 < units_up (Suc k) b"
  by simp

lemma unit_index_spec:
  assumes "1024 ^ i \<le> b" "b < 1024 ^ Suc i" "i \<le> 110"
  shows "unit_index b = int i"
proof -
  have "(1 :: real) \<le> 1024 ^ i" by simp
  then have "1 \<le> b" using assms(1) by linarith
  then show ?thesis using units_down_spec [OF assms] by (simp add: unit_index_def)
qed

text \<open>From 1 byte to below 1024 TB, the value shown is at least 1 and below 1024 of its unit.\<close>

lemma formatBytes_unit:
  assumes "1024 ^ i \<le> b" "b < 1024 ^ Suc i" "i < length UNITS"
  shows "formatBytes b = to_fixed (if i = 0 then 0 else 1) (b / 1024 ^ i) @ '' '' @ UNITS ! i"
    and "formatBytes_panel b d = to_fixed d (b / 1024 ^ i) @ '' '' @ UNITS ! i"
proof -
  have i: "unit_index b = int i" using assms by (intro unit_index_spec) (simp_all add: UNITS_def)
  have "(1 :: real) \<le> 1024 ^ i" by simp
  then have b: "0 < b" using assms(1) by linarith
  show "formatBytes b = to_fixed (if i = 0 then 0 else 1) (b / 1024 ^ i) @ '' '' @ UNITS ! i"
    using i b assms(3) by (simp add: formatBytes_def js_index_def scale_def)
  have "min (int i) (int (length UNITS) - 1) = int i" using assms(3) by simp
  then show "formatBytes_panel b d = to_fixed d (b / 1024 ^ i) @ '' '' @ UNITS ! i"
    using i b assms(3) by (simp add: formatBytes_panel_def scaleBytes_def js_index_def scale_def)
qed

text \<open>
  A flaw of the dashboard's version: outside that range the unit is \<open>undefined\<close>, both for a
  petabyte and for a fraction of a byte (a tick of a chart's axis); the panels' version clamps
  the former to TB.
\<close>

lemma formatBytes_undefined:
  "1024 ^ i \<le> b \<Longrightarrow> b < 1024 ^ Suc i \<Longrightarrow> length UNITS \<le> i \<Longrightarrow> i \<le> 110 \<Longrightarrow>
   formatBytes b = to_fixed 1 (b / 1024 ^ i) @ '' undefined''"
  "0 < b \<Longrightarrow> b < 1 \<Longrightarrow> \<exists>s. formatBytes b = s @ '' undefined''"
proof -
  assume b: "1024 ^ i \<le> b" "b < 1024 ^ Suc i" "length UNITS \<le> i" "i \<le> 110"
  have "(1 :: real) \<le> 1024 ^ i" by simp
  then have "0 < b" using b(1) by linarith
  then show "formatBytes b = to_fixed 1 (b / 1024 ^ i) @ '' undefined''"
    using unit_index_spec [OF b(1,2,4)] b(3) by (simp add: formatBytes_def js_index_def scale_def UNITS_def)
next
  assume b: "0 < b" "b < 1"
  then have "unit_index b < 0" using units_up_positive [of b 109] by (simp add: unit_index_def)
  then show "\<exists>s. formatBytes b = s @ '' undefined''"
    using b(1) by (auto simp: formatBytes_def js_index_def Let_def)
qed

lemma panel_clamps:
  "1024 ^ i \<le> b \<Longrightarrow> b < 1024 ^ Suc i \<Longrightarrow> length UNITS \<le> i \<Longrightarrow> i \<le> 110 \<Longrightarrow>
   formatBytes_panel b d = to_fixed d (b / 1024 ^ 4) @ '' TB''"
proof -
  assume b: "1024 ^ i \<le> b" "b < 1024 ^ Suc i" "length UNITS \<le> i" "i \<le> 110"
  have "(1 :: real) \<le> 1024 ^ i" by simp
  then have "b \<noteq> 0" using b(1) by linarith
  then show ?thesis
    using unit_index_spec [OF b(1,2,4)] b(3)
    by (simp add: formatBytes_panel_def scaleBytes_def js_index_def scale_def UNITS_def)
qed

section \<open>Alerts\<close>

datatype severity = ErrorAlert | WarningAlert | InfoAlert

record Alert =
  al_severity :: severity
  al_nodeId :: string
  al_container :: string
  al_message :: string

fun severity_order :: "severity \<Rightarrow> int" where
  "severity_order ErrorAlert = 0"
| "severity_order WarningAlert = 1"
| "severity_order InfoAlert = 2"

definition alert :: "DGNode \<Rightarrow> severity \<Rightarrow> string \<Rightarrow> Alert" where
  "alert n sev msg = \<lparr>al_severity = sev, al_nodeId = dg_id n, al_container = dg_name n, al_message = msg\<rparr>"

definition service_replicas :: "DGNode \<Rightarrow> ReplicaCount option" where
  "service_replicas n = map_option si_replicas (dg_service n)"

text \<open>What the status of a workload alone says.\<close>

definition status_alerts :: "DGNode \<Rightarrow> Alert list" where
  "status_alerts n =
     (if dg_type n = Container then
        (if dg_status n = Some ''exited'' then [alert n ErrorAlert ''Container exited''] else [])
        @ (if dg_status n = Some ''restarting'' then [alert n WarningAlert ''Container restarting''] else [])
      else if dg_status n = Some ''degraded'' then
        [alert n WarningAlert (case service_replicas n of
           Some r \<Rightarrow> ''Service degraded: '' @ string_of_nat (rc_running r) @ ''/'' @ string_of_nat (rc_desired r) @ '' running''
         | None \<Rightarrow> ''Service degraded'')]
      else [])"

text \<open>The number of replicas a stats entry stands for.\<close>

definition alert_replicas :: "DGNode \<Rightarrow> nat" where
  "alert_replicas n = (if dg_type n = Container then 1
     else max 1 (case service_replicas n of None \<Rightarrow> 1 | Some r \<Rightarrow> rc_running r))"

definition stats_alerts :: "DGNode \<Rightarrow> ContainerStatsData \<Rightarrow> Alert list" where
  "stats_alerts n s =
     (let replicas = alert_replicas n; cpu = cs_cpuPercent s / real replicas;
          errors = cs_netRxErrors s + cs_netTxErrors s
      in (if cpu > 80 then [alert n WarningAlert (''High CPU: '' @ to_fixed 1 cpu @ ''%''
             @ (if replicas > 1 then '' per replica'' else []))] else [])
         @ (if cs_memLimit s > 0 \<and> cs_memUsage s / cs_memLimit s > 9 / 10
            then [alert n WarningAlert ''Memory usage > 90% of limit''] else [])
         @ (if errors > 0 then [alert n InfoAlert (''Network errors: '' @ string_of_nat errors)] else []))"

definition node_alerts :: "stats_map \<Rightarrow> DGNode \<Rightarrow> Alert list" where
  "node_alerts stats n =
     (if dg_type n \<noteq> Container \<and> dg_type n \<noteq> Service then []
      else status_alerts n @ (case map_get stats (dg_name n) of None \<Rightarrow> [] | Some s \<Rightarrow> stats_alerts n s))"

definition evaluateAlerts :: "DGNode list \<Rightarrow> stats_map \<Rightarrow> Alert list" where
  "evaluateAlerts nodes stats =
     js_sort (\<lambda>a b. severity_order (al_severity a) - severity_order (al_severity b))
       (foldl (\<lambda>alerts n. alerts @ node_alerts stats n) [] nodes)"

interpretation by_severity: comparator "\<lambda>a b. severity_order (al_severity a) - severity_order (al_severity b)"
  by unfold_locales auto

lemma foldl_append: "foldl (\<lambda>acc n. acc @ f n) acc ns = acc @ concat (map f ns)"
  by (induction ns arbitrary: acc) simp_all

text \<open>The alerts are those of the nodes, by severity; ties keep the order of the nodes.\<close>

lemma alerts_by_severity:
  "mset (evaluateAlerts nodes stats) = mset (concat (map (node_alerts stats) nodes))"
  "sorted (map (severity_order \<circ> al_severity) (evaluateAlerts nodes stats))"
  using by_severity.sorted_js_sort
  by (simp_all add: evaluateAlerts_def foldl_append sorted_map)

lemma alert_node: "a \<in> set (node_alerts stats n) \<Longrightarrow> al_nodeId a = dg_id n \<and> al_container a = dg_name n"
  by (auto simp: node_alerts_def status_alerts_def stats_alerts_def alert_def Let_def split: if_splits option.splits)

lemma alerts_of_workloads:
  "a \<in> set (evaluateAlerts nodes stats) \<Longrightarrow>
   \<exists>n\<in>set nodes. (dg_type n = Container \<or> dg_type n = Service) \<and> al_nodeId a = dg_id n \<and> a \<in> set (node_alerts stats n)"
  using alert_node by (fastforce simp: evaluateAlerts_def foldl_append node_alerts_def split: if_splits)

section \<open>Cards\<close>

subsection \<open>Status summary\<close>

definition CONTAINER_STATUSES :: "string list" where
  "CONTAINER_STATUSES = [''running'', ''paused'', ''exited'', ''not_running'']"

definition SERVICE_STATUSES :: "string list" where
  "SERVICE_STATUSES = [''running'', ''updating'', ''degraded'', ''stopped'', ''completed'', ''not_running'']"

definition count_status :: "(string, nat) jsmap \<Rightarrow> DGNode \<Rightarrow> (string, nat) jsmap" where
  "count_status c n = (let status = nullish (dg_status n) ''not_running''
     in map_set c status (nullish (map_get c status) 0 + 1))"

record StatusSummary =
  sy_counts :: "(string, nat) jsmap"
  sy_total :: nat
  sy_containers :: nat
  sy_networks :: nat
  sy_volumes :: nat

definition status_summary :: "DGNode list \<Rightarrow> bool \<Rightarrow> StatusSummary" where
  "status_summary nodes swarm =
     (let workloads = filter (\<lambda>n. dg_type n = (if swarm then Service else Container)) nodes
      in \<lparr>sy_counts = foldl count_status [] workloads, sy_total = length workloads,
          sy_containers = length (filter (\<lambda>n. dg_type n = Container) nodes),
          sy_networks = length (filter (\<lambda>n. dg_type n = Network) nodes),
          sy_volumes = length (filter (\<lambda>n. dg_type n = Volume) nodes)\<rparr>)"

lemma count_status_get:
  "nullish (map_get (foldl count_status c ns) k) 0 = nullish (map_get c k) 0
     + length (filter (\<lambda>n. nullish (dg_status n) ''not_running'' = k) ns)"
  by (induction ns arbitrary: c) (auto simp: count_status_def js.get_put Let_def)

text \<open>
  The bars of the card add up to its total when every status is one of those listed; the
  containers of another status (restarting, created, dead, unhealthy) are in the total only.
\<close>

lemma status_bars:
  assumes "set (map (\<lambda>n. nullish (dg_status n) ''not_running'')
      (filter (\<lambda>n. dg_type n = (if swarm then Service else Container)) nodes)) \<subseteq> set statuses"
    and "distinct statuses"
  shows "sum_list (map (\<lambda>k. nullish (map_get (sy_counts (status_summary nodes swarm)) k) 0) statuses) =
    sy_total (status_summary nodes swarm)"
proof -
  let ?ws = "filter (\<lambda>n. dg_type n = (if swarm then Service else Container)) nodes"
  let ?st = "\<lambda>n. nullish (dg_status n) ''not_running''"
  have "sum_list (map (\<lambda>k. nullish (map_get (sy_counts (status_summary nodes swarm)) k) 0) statuses) =
      (\<Sum>k\<in>set statuses. length (filter (\<lambda>n. ?st n = k) ?ws))"
    by (simp add: status_summary_def Let_def count_status_get sum_list_distinct_conv_sum_set [OF assms(2)])
  also have "\<dots> = length ?ws" using assms(1) by (intro length_by_key) auto
  finally show ?thesis by (simp add: status_summary_def Let_def)
qed

subsection \<open>Top consumers\<close>

datatype sort_key = SortCpu | SortMem | SortNet | SortDisk

record ConsumerRow =
  cr_name :: string
  cr_cpu :: real
  cr_mem :: real
  cr_net :: real
  cr_disk :: real

fun metric :: "sort_key \<Rightarrow> ConsumerRow \<Rightarrow> real" where
  "metric SortCpu r = cr_cpu r"
| "metric SortMem r = cr_mem r"
| "metric SortNet r = cr_net r"
| "metric SortDisk r = cr_disk r"

definition consumer_row :: "string \<times> ContainerStatsData \<Rightarrow> ConsumerRow" where
  "consumer_row e = (case e of (name, s) \<Rightarrow>
     \<lparr>cr_name = name, cr_cpu = cs_cpuPercent s, cr_mem = cs_memUsage s,
      cr_net = cs_netRx s + cs_netTx s, cr_disk = cs_blockRead s + cs_blockWrite s\<rparr>)"

definition top_consumers :: "stats_map \<Rightarrow> sort_key \<Rightarrow> ConsumerRow list" where
  "top_consumers statsMap sortBy =
     take 5 (js_sort (\<lambda>a b. metric sortBy b - metric sortBy a) (map consumer_row (consumerStats statsMap)))"

text \<open>The width of a row's bar, in percent.\<close>

definition consumer_bar :: "ConsumerRow list \<Rightarrow> sort_key \<Rightarrow> ConsumerRow \<Rightarrow> real" where
  "consumer_bar rows sortBy r =
     (let maxVal = (if rows = [] then 1 else foldl (\<lambda>m r. max m (metric sortBy r)) 1 rows)
      in metric sortBy r / maxVal * 100)"

interpretation by_metric: comparator "\<lambda>a b. metric k b - metric k a"
  by unfold_locales auto

lemma foldl_max:
  "(m :: real) \<le> foldl (\<lambda>m r. max m (f r)) m rs" "r \<in> set rs \<Longrightarrow> f r \<le> foldl (\<lambda>m r. max m (f r)) m rs"
proof (induction rs arbitrary: m)
  case (Cons x xs)
  {
    case 1
    then show ?case using Cons.IH(1) [of "max m (f x)"] by simp
  next
    case 2
    then show ?case using Cons.IH(1) [of "max m (f x)"] Cons.IH(2) [of "max m (f x)"] by auto
  }
qed simp_all

text \<open>No workload left out has more than one shown, and no bar is wider than its track.\<close>

lemma top_consumers_largest:
  assumes "r \<in> set (top_consumers m k)" "r' \<in># mset (map consumer_row (consumerStats m)) - mset (top_consumers m k)"
  shows "metric k r' \<le> metric k r"
proof -
  let ?all = "js_sort (\<lambda>a b. metric k b - metric k a) (map consumer_row (consumerStats m))"
  have "mset (map consumer_row (consumerStats m)) = mset (take 5 ?all @ drop 5 ?all)"
    by (simp only: append_take_drop_id mset_js_sort)
  then have "mset (map consumer_row (consumerStats m)) - mset (take 5 ?all) = mset (drop 5 ?all)"
    by (simp only: mset_append add_diff_cancel_left')
  then have rest: "r' \<in> set (drop 5 ?all)" using assms(2) unfolding top_consumers_def by simp
  have "sorted_wrt (\<lambda>a b. metric k b - metric k a \<le> 0) (take 5 ?all @ drop 5 ?all)"
    by (simp only: append_take_drop_id by_metric.sorted_js_sort)
  then have "\<forall>x\<in>set (take 5 ?all). \<forall>y\<in>set (drop 5 ?all). metric k y - metric k x \<le> 0"
    unfolding sorted_wrt_append by blast
  then have "metric k r' - metric k r \<le> 0" using rest assms(1) unfolding top_consumers_def by blast
  then show ?thesis by simp
qed

lemma consumer_bar_fits:
  "r \<in> set rows \<Longrightarrow> consumer_bar rows k r \<le> 100"
  using foldl_max [where m = 1 and f = "metric k" and rs = rows] by (auto simp: consumer_bar_def field_simps)

subsection \<open>Projects\<close>

definition projects_by_size :: "collator \<Rightarrow> DGNode list \<Rightarrow> StackSummary list" where
  "projects_by_size lc nodes = js_sort (\<lambda>a b. int (ss_total b) - int (ss_total a)) (listStacks lc nodes)"

definition project_color :: "StackSummary \<Rightarrow> string" where
  "project_color p =
     (if ss_running p = ss_total p then ''#22c55e'' else if ss_running p = 0 then ''#ef4444'' else ''#f59e0b'')"

definition project_percent :: "StackSummary \<Rightarrow> real" where
  "project_percent p = (if ss_total p > 0 then real (ss_running p) / real (ss_total p) * 100 else 0)"

subsection \<open>Events\<close>

text \<open>The live node an event of a container, network or volume refers to.\<close>

definition resolveNodeId :: "DGNode list \<Rightarrow> string \<Rightarrow> string \<Rightarrow> string option" where
  "resolveNodeId nodes typ name =
     (if typ \<notin> {''container'', ''network'', ''volume''} then None
      else let exactId = typ @ '':'' @ name in
        if list_ex (\<lambda>n. dg_id n = exactId) nodes then Some exactId
        else map_option dg_id (find (\<lambda>n. type_name (dg_type n) = typ \<and>
               (dg_name n = name \<or> ends_with (''-'' @ name) (dg_name n) \<or> ends_with (''_'' @ name) (dg_name n))) nodes))"

lemma resolved_live: "resolveNodeId nodes typ name = Some i \<Longrightarrow> i \<in> dg_id ` set nodes"
  by (force simp: resolveNodeId_def Let_def list_ex_iff find_Some_iff split: if_splits)

lemma resolved_exact:
  "n \<in> set nodes \<Longrightarrow> typ \<in> {''container'', ''network'', ''volume''} \<Longrightarrow> dg_id n = typ @ '':'' @ name \<Longrightarrow>
   resolveNodeId nodes typ name = Some (dg_id n)"
  by (force simp: resolveNodeId_def Let_def list_ex_iff)

subsection \<open>Charts\<close>

record TimeSeries =
  tm_cpu :: "real list"
  tm_mem :: "real list"
  tm_netRx :: "real list"
  tm_netTx :: "real list"
  tm_blockRead :: "real list"
  tm_blockWrite :: "real list"

record StatsHistory =
  sh_timestamps :: "real list"
  sh_containers :: "(string, TimeSeries) jsmap"

definition scopeHistory :: "StatsHistory \<Rightarrow> DGNode list \<Rightarrow> string option \<Rightarrow> StatsHistory" where
  "scopeHistory data nodes stack =
     (let names = map dg_name (filter isWorkload nodes);
          containers = (if stack = Some STANDALONE_STACK
            then filter (\<lambda>(name, _). name \<in> set names) (sh_containers data) else sh_containers data)
      in data\<lparr>sh_containers := withoutCoveredTasks containers\<rparr>)"

datatype chart_metric = ChartCpu | ChartMem | ChartNet | ChartDisk

text \<open>\<open>xs.map((x, j) => x + Number(ys[j]))\<close>: a sample without its partner is NaN, here \<open>None\<close>.\<close>

definition add_samples :: "real list \<Rightarrow> real list \<Rightarrow> real option list" where
  "add_samples xs ys = map (\<lambda>(j, x). map_option ((+) x) (js_index ys (int j))) (enumerate 0 xs)"

definition metric_samples :: "chart_metric \<Rightarrow> TimeSeries \<Rightarrow> real option list" where
  "metric_samples m cs =
     (case m of
        ChartCpu \<Rightarrow> map Some (tm_cpu cs)
      | ChartMem \<Rightarrow> map Some (tm_mem cs)
      | ChartNet \<Rightarrow> add_samples (tm_netRx cs) (tm_netTx cs)
      | ChartDisk \<Rightarrow> add_samples (tm_blockRead cs) (tm_blockWrite cs))"

definition CHART_COLORS :: "string list" where
  "CHART_COLORS = [''#64b5f6'', ''#4ade80'', ''#fbbf24'', ''#f87171'', ''#c084fc'',
     ''#f472b6'', ''#22d3ee'', ''#fb923c'', ''#a3e635'', ''#818cf8'']"

definition hashCode :: "string \<Rightarrow> nat" where
  "hashCode str = nat \<bar>sint (foldl hash_char 0 str)\<bar>"

definition colorForName :: "string \<Rightarrow> string" where
  "colorForName name = CHART_COLORS ! (hashCode name mod length CHART_COLORS)"

record ChartSeries =
  cx_label :: string
  cx_stroke :: string
  cx_fill :: "string option"
  cx_values :: "real option list"

definition buildSeries :: "chart_metric \<Rightarrow> StatsHistory \<Rightarrow> ChartSeries list" where
  "buildSeries m data =
     map (\<lambda>(name, cs). let color = colorForName name in
       \<lparr>cx_label = seriesLabel name, cx_stroke = color,
        cx_fill = (if m = ChartNet \<or> m = ChartDisk then Some (color @ ''18'') else None),
        cx_values = metric_samples m cs\<rparr>) (sh_containers data)"

lemma chart_color: "colorForName name \<in> set CHART_COLORS"
  unfolding colorForName_def by (rule nth_mem) (simp add: CHART_COLORS_def)

text \<open>With series of equal length no sample is missing, and each plots one value per timestamp.\<close>

lemma add_samples_total:
  "length xs = length ys \<Longrightarrow> add_samples xs ys = map (\<lambda>(x, y). Some (x + y)) (zip xs ys)"
  by (rule nth_equalityI) (simp_all add: add_samples_def js_index_def nth_enumerate_eq)

text \<open>
  The history of a selected stack plots each of its workloads once: the standalone scope keeps
  the workloads of the scoped graph, and no task series stays next to its service's.
\<close>

lemma scoped_series:
  "(name, cs) \<in> set (sh_containers (scopeHistory data nodes (Some STANDALONE_STACK))) \<Longrightarrow>
   (name, cs) \<in> set (sh_containers data) \<and> (\<exists>n\<in>set nodes. isWorkload n \<and> dg_name n = name)"
  by (auto simp: scopeHistory_def withoutCoveredTasks_def)

text \<open>What the dashboard asks of the history, from the scope and the mode.\<close>

definition history_request :: "bool \<Rightarrow> string option \<Rightarrow> history_scope \<Rightarrow> time_range \<Rightarrow> string option \<times> nat" where
  "history_request swarm stack scope rng =
     (let effectiveScope = (if swarm \<and> \<not> truthy stack then scope else Workloads);
          serverStack = (if truthy stack \<and> stack \<noteq> Some STANDALONE_STACK then stack else None)
      in useStatsHistory rng serverStack effectiveScope)"

text \<open>The backend rejects a node history of a stack; the dashboard never asks for one.\<close>

lemma no_stack_node_history:
  "truthy stack \<Longrightarrow> history_request swarm stack scope rng = history_request swarm stack Workloads rng"
  by (simp add: history_request_def)

end
