(* ===== verification/LogStream.thy ===== *)
theory LogStream
  imports DataModel
begin

text \<open>
  The log view (\<^verbatim>\<open>components/logwindow/LogStream.tsx\<close>): the highlighted matches of its search,
  and the scroll box that follows the tail or keeps the row being read in its place. The box is
  its children (rows and banners, with their offsets), its scroll offset and its heights; the
  browser clamps an assigned offset. Pixels are exact reals.
\<close>

section \<open>Highlighted matches\<close>

record Segment =
  sg_text :: string
  sg_matchIndex :: int

definition plain_segment :: "string \<Rightarrow> Segment" where
  "plain_segment t = \<lparr>sg_text = t, sg_matchIndex = -1\<rparr>"

text \<open>\<open>s.indexOf(q, i)\<close>, with \<open>None\<close> for -1, for \<open>i\<close> within the string.\<close>

fun index_from :: "string \<Rightarrow> string \<Rightarrow> nat option" where
  "index_from q [] = (if q = [] then Some 0 else None)"
| "index_from q (c # s) = (if starts_with q (c # s) then Some 0 else map_option Suc (index_from q s))"

definition index_of :: "string \<Rightarrow> string \<Rightarrow> nat \<Rightarrow> nat option" where
  "index_of q s i = map_option ((+) i) (index_from q (drop i s))"

definition slice :: "string \<Rightarrow> nat \<Rightarrow> nat \<Rightarrow> string" where
  "slice s i j = take (j - i) (drop i s)"

lemma index_from_Some: "index_from q s = Some k \<Longrightarrow> starts_with q (drop k s) \<and> k \<le> length s"
  by (induction s arbitrary: k) (auto simp: starts_with_def split: if_splits)

lemma index_of_Some: "index_of q s i = Some k \<Longrightarrow> i \<le> k \<and> starts_with q (drop k s) \<and> k \<le> max i (length s)"
  by (auto simp: index_of_def add.commute dest!: index_from_Some)

text \<open>
  The loop over one line, from position \<open>i\<close> and match number \<open>counter\<close>. It is only run for a
  non-empty query, the empty one being handled before.
\<close>

function segment_loop :: "string \<Rightarrow> string \<Rightarrow> nat \<Rightarrow> nat \<Rightarrow> Segment list \<times> nat" where
  "segment_loop q txt i counter =
     (if length txt \<le> i \<or> q = [] then ([], counter)
      else case index_of q (to_lower txt) i of
             None \<Rightarrow> ([plain_segment (drop i txt)], counter)
           | Some idx \<Rightarrow>
               let (segs, counter') = segment_loop q txt (idx + length q) (counter + 1)
               in ((if i < idx then [plain_segment (slice txt i idx)] else [])
                   @ \<lparr>sg_text = slice txt idx (idx + length q), sg_matchIndex = int counter\<rparr> # segs, counter'))"
  by pat_completeness auto

termination
proof (relation "measure (\<lambda>(q, txt, i, counter). length txt - i)")
  fix q t :: string and i counter idx :: nat
  assume "\<not> (length t \<le> i \<or> q = [])" "index_of q (to_lower t) i = Some idx"
  moreover from this(2) have "i \<le> idx" using index_of_Some by blast
  ultimately show "((q, t, idx + length q, counter + 1), (q, t, i, counter))
      \<in> measure (\<lambda>(q, txt, i, counter). length txt - i)"
    by (cases q) auto
qed simp

declare segment_loop.simps [simp del]

definition line_segments :: "string \<Rightarrow> string \<Rightarrow> nat \<Rightarrow> Segment list \<times> nat" where
  "line_segments q txt counter =
     (let (segs, counter') = segment_loop q txt 0 counter
      in (if segs = [] then [plain_segment txt] else segs, counter'))"

definition segment_step :: "string \<Rightarrow> Segment list list \<times> nat \<Rightarrow> LogLine \<Rightarrow> Segment list list \<times> nat" where
  "segment_step q acc line =
     (let (segs, counter) = line_segments q (ll_text line) (snd acc) in (fst acc @ [segs], counter))"

definition buildSegments :: "LogLine list \<Rightarrow> string \<Rightarrow> Segment list list \<times> nat" where
  "buildSegments ls query =
     (if query = [] then (map (\<lambda>l. [plain_segment (ll_text l)]) ls, 0)
      else foldl (segment_step (to_lower query)) ([], 0) ls)"

text \<open>The hits of a list of segments, and what it means to split a line at the matches.\<close>

definition hits :: "Segment list \<Rightarrow> Segment list" where
  "hits segs = filter (\<lambda>s. 0 \<le> sg_matchIndex s) segs"

definition splits_line :: "string \<Rightarrow> string \<Rightarrow> nat \<Rightarrow> Segment list \<Rightarrow> nat \<Rightarrow> bool" where
  "splits_line q txt counter segs counter' \<longleftrightarrow>
     concat (map sg_text segs) = txt \<and> counter \<le> counter' \<and>
     map sg_matchIndex (hits segs) = map int [counter..<counter'] \<and>
     list_all (\<lambda>s. to_lower (sg_text s) = q) (hits segs) \<and>
     list_all (\<lambda>s. \<not> str_includes q (to_lower (sg_text s))) (filter (\<lambda>s. sg_matchIndex s < 0) segs)"

lemma hits_simps [simp]:
  "hits [] = []" "hits (xs @ ys) = hits xs @ hits ys" "hits (plain_segment t # xs) = hits xs"
  "hits (\<lparr>sg_text = t, sg_matchIndex = int n\<rparr> # xs) = \<lparr>sg_text = t, sg_matchIndex = int n\<rparr> # hits xs"
  by (simp_all add: hits_def plain_segment_def)

lemma index_from_None: "index_from q s = None \<longleftrightarrow> \<not> str_includes q s"
  by (induction s) auto

lemma index_from_least: "index_from q s = Some k \<Longrightarrow> j < k \<Longrightarrow> \<not> starts_with q (drop j s)"
proof (induction s arbitrary: k j)
  case (Cons c s)
  then show ?case by (cases j) (auto split: if_splits)
qed (auto split: if_splits)

lemma before_match:
  assumes "index_from q s = Some k" "q \<noteq> []"
  shows "\<not> str_includes q (take k s)"
proof
  assume "str_includes q (take k s)"
  then obtain a b where ab: "take k s = a @ q @ b" by (auto simp: str_includes_iff)
  then have "length (a @ q @ b) \<le> k" by (metis length_take min.cobounded2)
  then have "length a < k" using assms(2) by (cases q) auto
  moreover have "s = a @ q @ b @ drop k s" by (metis ab append_assoc append_take_drop_id)
  then have "drop (length a) s = q @ b @ drop k s" by (metis append_eq_conv_conj)
  then have "starts_with q (drop (length a) s)" by simp
  ultimately show False using index_from_least [OF assms(1)] by blast
qed

lemma to_lower_slice: "to_lower (slice s i j) = slice (to_lower s) i j"
  by (simp add: slice_def to_lower_def take_map drop_map)

lemma slice_join: "i \<le> j \<Longrightarrow> slice s i j @ drop j s = drop i s"
  unfolding slice_def by (metis append_take_drop_id drop_drop le_add_diff_inverse2)

lemma index_of_slice:
  assumes "index_of q s i = Some k" "q \<noteq> []"
  shows "i \<le> k" "slice s k (k + length q) = q" "\<not> str_includes q (slice s i k)" "k + length q \<le> length s"
proof -
  obtain m where m: "index_from q (drop i s) = Some m" "k = i + m" using assms(1) by (auto simp: index_of_def)
  show "i \<le> k" using m by simp
  have sw: "starts_with q (drop k s)" using index_from_Some [OF m(1)] m(2) by (simp add: add.commute)
  then show "slice s k (k + length q) = q" by (simp add: starts_with_def slice_def)
  show "\<not> str_includes q (slice s i k)" using before_match [OF m(1) assms(2)] m(2) by (simp add: slice_def)
  have "length q \<le> length (drop k s)" using sw by (metis starts_with_def length_take min.absorb_iff2)
  then show "k + length q \<le> length s" using assms(2) by (cases q) auto
qed

text \<open>What the loop does from position \<open>i\<close> on.\<close>

lemma segment_loop_splits:
  "q \<noteq> [] \<Longrightarrow> i \<le> length s \<Longrightarrow>
   splits_line q (drop i s) counter (fst (segment_loop q s i counter)) (snd (segment_loop q s i counter))"
proof (induction q s i counter rule: segment_loop.induct)
  case (1 q t i counter)
  show ?case
  proof (cases "length t \<le> i")
    case True
    then show ?thesis by (simp add: segment_loop.simps [of q t i] splits_line_def)
  next
    case False
    then have go: "\<not> (length t \<le> i \<or> q = [])" using 1 by simp
    show ?thesis
    proof (cases "index_of q (to_lower t) i")
      case None
      then have "\<not> str_includes q (to_lower (drop i t))"
        by (simp add: index_of_def index_from_None to_lower_def drop_map)
      then show ?thesis using None go
        by (simp add: segment_loop.simps [of q t i] splits_line_def plain_segment_def hits_def)
    next
      case (Some idx)
      note at = index_of_slice [OF Some 1(2)]
      have le: "idx + length q \<le> length t" using at(4) by simp
      obtain segs counter' where loop: "segment_loop q t (idx + length q) (counter + 1) = (segs, counter')" by force
      have "splits_line q (drop (idx + length q) t) (counter + 1) segs counter'"
        using "1.IH" [OF go Some 1(2) le] loop by simp
      then have ih: "concat (map sg_text segs) = drop (idx + length q) t" "counter + 1 \<le> counter'"
          "map sg_matchIndex (hits segs) = map int [counter + 1..<counter']"
          "list_all (\<lambda>s. to_lower (sg_text s) = q) (hits segs)"
          "list_all (\<lambda>s. \<not> str_includes q (to_lower (sg_text s))) (filter (\<lambda>s. sg_matchIndex s < 0) segs)"
        by (simp_all add: splits_line_def)
      have hit: "to_lower (slice t idx (idx + length q)) = q" using at(2) by (simp add: to_lower_slice)
      have plain: "\<not> str_includes q (to_lower (slice t i idx))" using at(3) by (simp add: to_lower_slice)
      have all: "slice t i idx @ slice t idx (idx + length q) @ drop (idx + length q) t = drop i t"
        using slice_join [of idx "idx + length q" t] slice_join [OF at(1), of t] by simp
      have count: "[counter..<counter'] = counter # [counter + 1..<counter']"
        using ih(2) by (simp add: upt_conv_Cons)
      show ?thesis
        using go Some loop at(1) ih hit plain all count
        by (auto simp: segment_loop.simps [of q t i] splits_line_def plain_segment_def hits_def slice_def)
    qed
  qed
qed

lemma line_segments_split:
  assumes "q \<noteq> []"
  shows "splits_line q s counter (fst (line_segments q s counter)) (snd (line_segments q s counter))"
proof -
  obtain segs counter' where loop: "segment_loop q s 0 counter = (segs, counter')" by force
  have sp: "splits_line q s counter segs counter'"
    using segment_loop_splits [OF assms, of 0 s counter] loop by simp
  show ?thesis
  proof (cases "segs = []")
    case True
    then have "s = []" using sp by (simp add: splits_line_def)
    then show ?thesis using sp loop True assms
      by (simp add: line_segments_def splits_line_def plain_segment_def hits_def to_lower_def)
  qed (use sp loop in \<open>simp add: line_segments_def\<close>)
qed

definition split_so_far :: "string \<Rightarrow> string list \<Rightarrow> Segment list list \<times> nat \<Rightarrow> bool" where
  "split_so_far q texts acc \<longleftrightarrow>
     map (\<lambda>segs. concat (map sg_text segs)) (fst acc) = texts \<and>
     map sg_matchIndex (hits (concat (fst acc))) = map int [0..<snd acc] \<and>
     list_all (\<lambda>s. to_lower (sg_text s) = q) (hits (concat (fst acc))) \<and>
     list_all (\<lambda>s. \<not> str_includes q (to_lower (sg_text s))) (filter (\<lambda>s. sg_matchIndex s < 0) (concat (fst acc)))"

lemma rendered_split:
  assumes q: "q \<noteq> []"
  shows "split_so_far q texts acc \<Longrightarrow> split_so_far q (texts @ map ll_text ls) (foldl (segment_step q) acc ls)"
proof (induction ls arbitrary: acc texts)
  case (Cons l ls)
  obtain segs n where line: "line_segments q (ll_text l) (snd acc) = (segs, n)" by force
  then have sp: "concat (map sg_text segs) = ll_text l" "snd acc \<le> n"
      "map sg_matchIndex (hits segs) = map int [snd acc..<n]"
      "list_all (\<lambda>s. to_lower (sg_text s) = q) (hits segs)"
      "list_all (\<lambda>s. \<not> str_includes q (to_lower (sg_text s))) (filter (\<lambda>s. sg_matchIndex s < 0) segs)"
    using line_segments_split [OF q, of "ll_text l" "snd acc"] by (simp_all add: splits_line_def)
  have upto: "[0..<snd acc] @ [snd acc..<n] = [0..<n]" using sp(2) by (metis le_add_diff_inverse upt_add_eq_append zero_le)
  let ?acc = "segment_step q acc l"
  have acc: "?acc = (fst acc @ [segs], n)" by (simp add: segment_step_def line)
  have "split_so_far q (texts @ [ll_text l]) ?acc"
    using Cons.prems sp by (simp add: acc split_so_far_def upto [symmetric])
  then show ?case using Cons.IH [of "texts @ [ll_text l]" ?acc] by simp
qed simp

text \<open>
  Highlighting loses nothing and misses nothing: each line is shown as its text, cut into
  segments; the highlighted ones match the query whatever the case and are numbered 0, 1, ... up
  to the total across all lines, in the order they are read; and no other segment contains the
  query.
\<close>

lemma segments_split_lines:
  "let (rendered, num) = buildSegments ls query in
     map (\<lambda>segs. concat (map sg_text segs)) rendered = map ll_text ls \<and>
     map sg_matchIndex (hits (concat rendered)) = map int [0..<num] \<and>
     list_all (\<lambda>s. to_lower (sg_text s) = to_lower query) (hits (concat rendered)) \<and>
     (query = [] \<or> list_all (\<lambda>s. \<not> str_includes (to_lower query) (to_lower (sg_text s)))
       (filter (\<lambda>s. sg_matchIndex s < 0) (concat rendered)))"
proof (cases "query = []")
  case True
  have "concat (map (\<lambda>l. [plain_segment (ll_text l)]) ls) = map (\<lambda>l. plain_segment (ll_text l)) ls"
    by (induction ls) simp_all
  then show ?thesis
    using True by (simp add: buildSegments_def comp_def hits_def filter_empty_conv plain_segment_def)
next
  case False
  then have q: "to_lower query \<noteq> []" by (cases query) (simp_all add: to_lower_def)
  show ?thesis
    using rendered_split [OF q, of "[]" "([], 0)" ls] False by (simp add: buildSegments_def split_so_far_def split_beta)
qed

text \<open>Stepping through the matches.\<close>

definition effectiveActive :: "nat \<Rightarrow> nat \<Rightarrow> nat" where
  "effectiveActive activeMatch num = (if num = 0 then 0 else min activeMatch (num - 1))"

definition match_step :: "int \<Rightarrow> nat \<Rightarrow> nat \<Rightarrow> nat" where
  "match_step delta num activeMatch =
     (if num = 0 then activeMatch else nat ((int activeMatch + delta + int num) mod int num))"

lemma match_step_cycles:
  "activeMatch < num \<Longrightarrow>
   match_step 1 num activeMatch = (if activeMatch = num - 1 then 0 else activeMatch + 1) \<and>
   match_step (-1) num activeMatch = (if activeMatch = 0 then num - 1 else activeMatch - 1)"
proof -
  assume lt: "activeMatch < num"
  have "(int activeMatch + 1 + int num) mod int num = (if activeMatch = num - 1 then 0 else int activeMatch + 1)"
    using lt by (auto simp: mod_pos_pos_trivial of_nat_diff)
  moreover have "(int activeMatch - 1 + int num) mod int num =
      (if activeMatch = 0 then int num - 1 else int activeMatch - 1)"
    using lt by (auto simp: mod_pos_pos_trivial zmod_minus1)
  ultimately show ?thesis using lt by (auto simp: match_step_def)
qed

text \<open>
  A flaw: the number is only clamped to the total when it is drawn. After the matches have
  shrunk from at least 11 to 3, with the third one active, "next" stays on the third one.
\<close>

lemma stale_step: "effectiveActive 10 3 = 2" "effectiveActive (match_step 1 3 10) 3 = 2"
  by (simp_all add: effectiveActive_def match_step_def)

section \<open>The scroll box\<close>

record BoxChild =
  bc_lineId :: "string option"
  bc_top :: real
  bc_height :: real

record ScrollBox =
  bx_children :: "BoxChild list"
  bx_scrollTop :: real
  bx_scrollHeight :: real
  bx_clientHeight :: real

definition bottom_of :: "BoxChild \<Rightarrow> real" where
  "bottom_of c = bc_top c + bc_height c"

text \<open>The binary search for the first child below \<open>top\<close>, then the first row from there.\<close>

function first_below :: "BoxChild list \<Rightarrow> real \<Rightarrow> nat \<Rightarrow> nat \<Rightarrow> nat" where
  "first_below cs t lo hi =
     (if lo < hi
      then let mid = (lo + hi) div 2
           in if bottom_of (cs ! mid) \<le> t then first_below cs t (mid + 1) hi else first_below cs t lo mid
      else lo)"
  by pat_completeness auto

termination
  by (relation "measure (\<lambda>(cs, t, lo, hi). hi - lo)") auto

declare first_below.simps [simp del]

definition firstVisibleRow :: "ScrollBox \<Rightarrow> BoxChild option" where
  "firstVisibleRow box =
     find (\<lambda>c. truthy (bc_lineId c))
       (drop (first_below (bx_children box) (bx_scrollTop box) 0 (length (bx_children box))) (bx_children box))"

text \<open>Children in order: each ends no earlier than the one before it.\<close>

definition stacked :: "BoxChild list \<Rightarrow> bool" where
  "stacked cs \<longleftrightarrow> sorted (map bottom_of cs)"

lemma first_below_stop: "\<not> lo < hi \<Longrightarrow> first_below cs t lo hi = lo"
  by (simp add: first_below.simps [of cs t lo hi])

lemma first_below_right:
  "lo < hi \<Longrightarrow> bottom_of (cs ! ((lo + hi) div 2)) \<le> t \<Longrightarrow>
   first_below cs t lo hi = first_below cs t ((lo + hi) div 2 + 1) hi"
  by (subst first_below.simps) (simp add: Let_def)

lemma first_below_left:
  "lo < hi \<Longrightarrow> \<not> bottom_of (cs ! ((lo + hi) div 2)) \<le> t \<Longrightarrow>
   first_below cs t lo hi = first_below cs t lo ((lo + hi) div 2)"
  by (subst first_below.simps) (simp add: Let_def)

definition parts_at :: "BoxChild list \<Rightarrow> real \<Rightarrow> nat \<Rightarrow> nat \<Rightarrow> bool" where
  "parts_at cs t lo hi \<longleftrightarrow> (\<forall>i<lo. bottom_of (cs ! i) \<le> t) \<and> (\<forall>i<length cs. hi \<le> i \<longrightarrow> t < bottom_of (cs ! i))"

lemma first_below_spec:
  assumes "stacked cs"
  shows "lo \<le> hi \<Longrightarrow> hi \<le> length cs \<Longrightarrow> parts_at cs t lo hi \<Longrightarrow>
    first_below cs t lo hi \<le> length cs \<and> parts_at cs t (first_below cs t lo hi) (first_below cs t lo hi)"
proof (induction "hi - lo" arbitrary: lo hi rule: less_induct)
  case less
  let ?mid = "(lo + hi) div 2"
  have mono: "bottom_of (cs ! i) \<le> bottom_of (cs ! j)" if "i \<le> j" "j < length cs" for i j
    using assms that by (auto simp: stacked_def sorted_iff_nth_mono)
  consider "\<not> lo < hi" | "lo < hi" "bottom_of (cs ! ?mid) \<le> t" | "lo < hi" "\<not> bottom_of (cs ! ?mid) \<le> t" by blast
  then show ?case
  proof cases
    case 1
    then show ?thesis using less.prems by (simp add: first_below_stop)
  next
    case 2
    have "bottom_of (cs ! i) \<le> t" if "i < ?mid + 1" for i
      using mono [of i ?mid] that 2 less.prems(2) by fastforce
    then have "parts_at cs t (?mid + 1) hi" using less.prems(3) by (simp add: parts_at_def)
    moreover have "hi - (?mid + 1) < hi - lo" "?mid + 1 \<le> hi" using 2(1) by linarith+
    ultimately show ?thesis
      unfolding first_below_right [OF 2] by (intro less.hyps less.prems(2))
  next
    case 3
    have "t < bottom_of (cs ! i)" if "i < length cs" "?mid \<le> i" for i
      using mono [of ?mid i] that 3(2) by linarith
    then have "parts_at cs t lo ?mid" using less.prems(3) by (simp add: parts_at_def)
    moreover have "?mid - lo < hi - lo" "lo \<le> ?mid" "?mid \<le> length cs" using 3(1) less.prems(2) by linarith+
    ultimately show ?thesis
      unfolding first_below_left [OF 3] by (intro less.hyps)
  qed
qed

lemma drop_first_below:
  assumes "stacked cs"
  shows "drop (first_below cs t 0 (length cs)) cs = dropWhile (\<lambda>c. bottom_of c \<le> t) cs"
proof -
  let ?k = "first_below cs t 0 (length cs)"
  have k: "?k \<le> length cs" "\<forall>i<?k. bottom_of (cs ! i) \<le> t" "\<forall>i<length cs. ?k \<le> i \<longrightarrow> t < bottom_of (cs ! i)"
    using first_below_spec [OF assms, of 0 "length cs" t] by (auto simp: parts_at_def)
  have "takeWhile (\<lambda>c. bottom_of c \<le> t) cs = take ?k cs"
    using k by (intro takeWhile_eq_take_P_nth) (auto simp: not_le)
  then have "length (takeWhile (\<lambda>c. bottom_of c \<le> t) cs) = ?k" using k(1) by simp
  then show ?thesis by (metis dropWhile_eq_drop)
qed

text \<open>The binary search finds what reading the children one by one finds.\<close>

lemma first_visible_row_linear:
  "stacked (bx_children box) \<Longrightarrow>
   firstVisibleRow box = find (\<lambda>c. truthy (bc_lineId c) \<and> bx_scrollTop box < bottom_of c) (bx_children box)"
proof -
  assume st: "stacked (bx_children box)"
  have "find p (dropWhile (\<lambda>c. bottom_of c \<le> t) cs) = find (\<lambda>c. p c \<and> t < bottom_of c) cs" if "stacked cs" for p t cs
    using that
  proof (induction cs)
    case (Cons c cs)
    then have "stacked cs" "\<forall>d\<in>set cs. bottom_of c \<le> bottom_of d" by (auto simp: stacked_def)
    then have "find p cs = find (\<lambda>c. p c \<and> t < bottom_of c) cs" if "t < bottom_of c"
      using that by (intro find_cong) fastforce+
    then show ?case using Cons.IH [OF \<open>stacked cs\<close>] by auto
  qed simp
  then show ?thesis using st by (simp add: firstVisibleRow_def drop_first_below)
qed

section \<open>Following the tail, keeping the place\<close>

definition BOTTOM_SLACK_PX :: real where
  "BOTTOM_SLACK_PX = 20"

definition WHEEL_LINE_PX :: real where
  "WHEEL_LINE_PX = 16"

text \<open>\<open>el.scrollTop = v\<close>: the browser keeps the offset within the box.\<close>

definition set_scrollTop :: "real \<Rightarrow> ScrollBox \<Rightarrow> ScrollBox" where
  "set_scrollTop v box = box\<lparr>bx_scrollTop := max 0 (min v (bx_scrollHeight box - bx_clientHeight box))\<rparr>"

record LogStreamState =
  ls_box :: ScrollBox
  ls_autoScroll :: bool
  ls_anchor :: "(string \<times> real) option"
  ls_lastTop :: real

record LogStreamProps =
  lp_hasMore :: bool
  lp_loadingMore :: bool
  lp_hasNewer :: bool
  lp_loadingNewer :: bool

datatype stream_call = OnFollowChange bool | LoadNewer | LoadMore

definition captureAnchor :: "LogStreamState \<Rightarrow> LogStreamState" where
  "captureAnchor st = st\<lparr>ls_anchor :=
     map_option (\<lambda>row. (key_of (bc_lineId row), bc_top row - bx_scrollTop (ls_box st))) (firstVisibleRow (ls_box st))\<rparr>"

definition row_of :: "ScrollBox \<Rightarrow> string \<Rightarrow> BoxChild option" where
  "row_of box i = find (\<lambda>c. bc_lineId c = Some i) (bx_children box)"

text \<open>The layout effect, run before paint when the lines or the following change.\<close>

definition stream_layout :: "LogStreamState \<Rightarrow> LogStreamState" where
  "stream_layout st =
     (let st1 = (if ls_autoScroll st
            then st\<lparr>ls_box := set_scrollTop (bx_scrollHeight (ls_box st)) (ls_box st)\<rparr>
            else captureAnchor
              (case ls_anchor st of
                 None \<Rightarrow> st
               | Some (i, offset) \<Rightarrow>
                   (case row_of (ls_box st) i of
                      None \<Rightarrow> st
                    | Some row \<Rightarrow> st\<lparr>ls_box := set_scrollTop (bc_top row - offset) (ls_box st)\<rparr>)))
      in st1\<lparr>ls_lastTop := bx_scrollTop (ls_box st1)\<rparr>)"

definition follow :: "LogStreamProps \<Rightarrow> bool \<Rightarrow> LogStreamState \<Rightarrow> LogStreamState \<times> stream_call list" where
  "follow p on st =
     (st\<lparr>ls_autoScroll := on\<rparr>,
      OnFollowChange on # (if on \<and> lp_hasNewer p \<and> \<not> lp_loadingNewer p then [LoadNewer] else []))"

definition at_bottom :: "ScrollBox \<Rightarrow> bool" where
  "at_bottom box \<longleftrightarrow> bx_scrollHeight box - bx_scrollTop box - bx_clientHeight box < BOTTOM_SLACK_PX"

definition handleScroll :: "LogStreamProps \<Rightarrow> LogStreamState \<Rightarrow> LogStreamState \<times> stream_call list" where
  "handleScroll p st =
     (let box = ls_box st;
          movedUp = bx_scrollTop box < ls_lastTop st;
          st1 = st\<lparr>ls_lastTop := bx_scrollTop box\<rparr>;
          (st2, calls) = (if at_bottom box then follow p True st1 else if movedUp then follow p False st1 else (st1, []));
          st3 = (if \<not> at_bottom box then captureAnchor st2 else st2)
      in (st3, calls @ (if bx_scrollTop box < 40 \<and> bx_scrollHeight box > bx_clientHeight box
                          \<and> lp_hasMore p \<and> \<not> lp_loadingMore p then [LoadMore] else [])))"

datatype delta_mode = DeltaPixel | DeltaLine | DeltaPage

definition handleWheel :: "LogStreamProps \<Rightarrow> real \<Rightarrow> delta_mode \<Rightarrow> LogStreamState \<Rightarrow> LogStreamState \<times> stream_call list" where
  "handleWheel p deltaY mode st =
     (if deltaY \<le> 0 then (st, [])
      else let box = ls_box st;
               px = (case mode of DeltaPixel \<Rightarrow> deltaY | DeltaLine \<Rightarrow> deltaY * WHEEL_LINE_PX
                       | DeltaPage \<Rightarrow> deltaY * bx_clientHeight box)
           in if bx_scrollTop box + bx_clientHeight box + px \<ge> bx_scrollHeight box - BOTTOM_SLACK_PX
              then follow p True st else (st, []))"

text \<open>
  The events: the box is drawn again with other lines; the user or the browser scrolled it; a
  wheel turned. After a handler React draws again, and the layout effect runs when the following
  changed.
\<close>

datatype stream_event =
  LinesDrawn "BoxChild list" real
| Scrolled real LogStreamProps
| Wheeled real delta_mode LogStreamProps

definition redraw :: "LogStreamState \<Rightarrow> LogStreamState \<Rightarrow> LogStreamState" where
  "redraw before st = (if ls_autoScroll st = ls_autoScroll before then st else stream_layout st)"

definition stream_step :: "LogStreamState \<Rightarrow> stream_event \<Rightarrow> LogStreamState" where
  "stream_step st e =
     (case e of
        LinesDrawn cs h \<Rightarrow>
          stream_layout (st\<lparr>ls_box := set_scrollTop (bx_scrollTop (ls_box st))
            ((ls_box st)\<lparr>bx_children := cs, bx_scrollHeight := max h (bx_clientHeight (ls_box st))\<rparr>)\<rparr>)
      | Scrolled v p \<Rightarrow> redraw st (fst (handleScroll p (st\<lparr>ls_box := set_scrollTop v (ls_box st)\<rparr>)))
      | Wheeled d mode p \<Rightarrow> redraw st (fst (handleWheel p d mode st)))"

lemma captureAnchor_sel [simp]:
  "ls_box (captureAnchor st) = ls_box st" "ls_autoScroll (captureAnchor st) = ls_autoScroll st"
  "ls_lastTop (captureAnchor st) = ls_lastTop st"
  by (simp_all add: captureAnchor_def)

lemma set_scrollTop_sel [simp]:
  "bx_children (set_scrollTop v box) = bx_children box" "bx_scrollHeight (set_scrollTop v box) = bx_scrollHeight box"
  "bx_clientHeight (set_scrollTop v box) = bx_clientHeight box"
  by (simp_all add: set_scrollTop_def)

lemma row_of_scrolled [simp]: "row_of (set_scrollTop v box) i = row_of box i"
  by (simp add: row_of_def)

text \<open>Following, a redraw ends at the bottom.\<close>

lemma following_stays_at_bottom:
  assumes "ls_autoScroll st" "0 < bx_clientHeight (ls_box st)"
  shows "at_bottom (ls_box (stream_step st (LinesDrawn cs h)))" "ls_autoScroll (stream_step st (LinesDrawn cs h))"
  using assms by (auto simp: stream_step_def stream_layout_def at_bottom_def set_scrollTop_def BOTTOM_SLACK_PX_def Let_def)

text \<open>
  Reading older lines, the row at the top of the view stays where it is on the screen while lines
  are appended, prepended or dropped, as long as it is still there and the box is long enough.
\<close>

lemma reading_keeps_place:
  assumes "\<not> ls_autoScroll st" "ls_anchor st = Some (i, offset)"
    and "row_of (ls_box (stream_step st (LinesDrawn cs h))) i = Some row"
    and "0 \<le> bc_top row - offset" "bc_top row - offset \<le> h - bx_clientHeight (ls_box st)"
  shows "bc_top row - bx_scrollTop (ls_box (stream_step st (LinesDrawn cs h))) = offset"
    "\<not> ls_autoScroll (stream_step st (LinesDrawn cs h))"
proof -
  let ?box = "set_scrollTop (bx_scrollTop (ls_box st))
      ((ls_box st)\<lparr>bx_children := cs, bx_scrollHeight := max h (bx_clientHeight (ls_box st))\<rparr>)"
  have children: "bx_children (ls_box (stream_step st (LinesDrawn cs h))) = cs"
    using assms(1,2) by (auto simp: stream_step_def stream_layout_def Let_def split: option.split)
  then have row: "row_of ?box i = Some row" using assms(3) by (simp add: row_of_def)
  have "ls_box (stream_step st (LinesDrawn cs h)) = set_scrollTop (bc_top row - offset) ?box"
    using assms(1,2) row by (simp add: stream_step_def stream_layout_def Let_def)
  then show "bc_top row - bx_scrollTop (ls_box (stream_step st (LinesDrawn cs h))) = offset"
    using assms(4,5) by (simp add: set_scrollTop_def)
  show "\<not> ls_autoScroll (stream_step st (LinesDrawn cs h))"
    using assms(1,2) row by (simp add: stream_step_def stream_layout_def Let_def)
qed

text \<open>Following stops only when a scroll moves up, and not within reach of the bottom.\<close>

lemma follow_stops_moving_up:
  assumes "ls_autoScroll st" "\<not> ls_autoScroll (stream_step st e)"
  shows "\<exists>v p. e = Scrolled v p \<and> bx_scrollTop (set_scrollTop v (ls_box st)) < ls_lastTop st \<and>
    \<not> at_bottom (set_scrollTop v (ls_box st))"
  using assms
  by (cases e) (auto simp: stream_step_def stream_layout_def redraw_def handleScroll_def handleWheel_def follow_def
      Let_def split: if_splits option.splits)

end
