(* ===== verification/DetailPanel.thy ===== *)
theory DetailPanel
  imports Fetching NodeTransform
begin

text \<open>
  The detail panel: which resource is open and how it is shown (\<^verbatim>\<open>hooks/useDetailPanel.ts\<close>), and the
  header and body \<^verbatim>\<open>components/FlowCanvas.tsx\<close> puts into it (\<^verbatim>\<open>components/panels/DetailPanel.tsx\<close>).
  The panel's state machine is the choice of the node; the fetched details are the machine
  \<open>inspect_step\<close>, one instance for each of the four kinds of resource.
\<close>

section \<open>The variants\<close>

datatype detail_variant =
  VNone
| VContainer string
| VService string
| VVolume string
| VNetwork string
| VGroup
| VSwarmNode DGNode
| VRoleGroup swarm_role
| VGhostContainer DGNode
| VGhostService DGNode
| VGhostVolume DGNode
| VGhostNetwork DGNode

text \<open>\<open>s.replace(p, '')\<close>: the first occurrence is removed, wherever it is.\<close>

fun remove_first :: "string \<Rightarrow> string \<Rightarrow> string" where
  "remove_first p [] = []"
| "remove_first p (c # cs) = (if starts_with p (c # cs) then drop (length p) (c # cs) else c # remove_first p cs)"

definition prefixed :: "string \<Rightarrow> string option \<Rightarrow> bool" where
  "prefixed p i = (case i of None \<Rightarrow> False | Some s \<Rightarrow> starts_with p s)"

definition detail_node :: "DGNode list \<Rightarrow> string option \<Rightarrow> DGNode option" where
  "detail_node dgNodes detailNodeId =
     (if truthy detailNodeId then find (\<lambda>n. Some (dg_id n) = detailNodeId) dgNodes else None)"

definition detail_variant_of :: "DGNode list \<Rightarrow> string option \<Rightarrow> detail_variant" where
  "detail_variant_of dgNodes detailNodeId =
     (let node = detail_node dgNodes detailNodeId; i = key_of detailNodeId;
          ghost = (case node of None \<Rightarrow> False | Some n \<Rightarrow> dg_status n = Some ''not_running'')
      in if \<not> truthy detailNodeId then VNone
         else if prefixed ''group:'' detailNodeId then VGroup
         else if prefixed ''swarmnode:'' detailNodeId
           then (case node of Some n \<Rightarrow> VSwarmNode n | None \<Rightarrow> VNone)
         else if isRoleGroupId i
           then (case roleOfGroupId i of Some role \<Rightarrow> VRoleGroup role | None \<Rightarrow> VNone)
         else if ghost
           then (if prefixed ''volume:'' detailNodeId then VGhostVolume (the node)
                 else if prefixed ''network:'' detailNodeId then VGhostNetwork (the node)
                 else if prefixed ''service:'' detailNodeId then VGhostService (the node)
                 else VGhostContainer (the node))
         else if prefixed ''network:'' detailNodeId then VNetwork (remove_first ''network:'' i)
         else if prefixed ''volume:'' detailNodeId then VVolume (remove_first ''volume:'' i)
         else if prefixed ''service:'' detailNodeId then VService (remove_first ''service:'' i)
         else VContainer (remove_first ''container:'' i))"

section \<open>The panel's state\<close>

record DetailState =
  dp_detailNodeId :: "string option"
  dp_focusNodeId :: "string option"

definition detail_closed :: DetailState where
  "detail_closed = \<lparr>dp_detailNodeId = None, dp_focusNodeId = None\<rparr>"

text \<open>Opening a node, with the canvas node it centres on, which the canvas is told.\<close>

definition handleInfoClick :: "string \<Rightarrow> string option \<Rightarrow> DetailState \<Rightarrow> DetailState \<times> string list" where
  "handleInfoClick nodeId focusId st =
     (let f = nullish focusId nodeId
      in (\<lparr>dp_detailNodeId = Some nodeId, dp_focusNodeId = Some f\<rparr>, [f]))"

definition closeDetail :: "DetailState \<Rightarrow> DetailState" where
  "closeDetail st = detail_closed"

text \<open>The canvas nodes the view is fitted to; none leaves the view alone.\<close>

definition fit_targets :: "RFNode list \<Rightarrow> DetailState \<Rightarrow> string list" where
  "fit_targets rfNodes st =
     (if truthy (dp_focusNodeId st) then canvasNodesShowing rfNodes (the (dp_focusNodeId st)) None else [])"

definition handleNavigate :: "DGNode list \<Rightarrow> RFNode list \<Rightarrow> string \<Rightarrow> DetailState \<Rightarrow> DetailState \<times> string list" where
  "handleNavigate dgNodes rfNodes targetId st =
     (if CHR '':'' \<notin> set targetId \<and> \<not> list_ex (\<lambda>n. dg_id n = targetId) dgNodes then (st, [])
      else let from_node = detail_node dgNodes (dp_detailNodeId st);
               target = resolveNodeRef dgNodes targetId
                 (case from_node of None \<Rightarrow> None | Some n \<Rightarrow> projectOf n);
               near = (if truthy (dp_detailNodeId st)
                       then canvasNodesShowing rfNodes target (dp_detailNodeId st) else [])
           in handleInfoClick target (Some (case near of [k] \<Rightarrow> k | _ \<Rightarrow> target)) st)"

section \<open>What the panel lists\<close>

definition groupContainers :: "DGNode list \<Rightarrow> DGEdge list \<Rightarrow> string option \<Rightarrow> DGNode list" where
  "groupContainers dgNodes dgEdges detailNodeId =
     (if prefixed ''group:'' detailNodeId
      then filter (\<lambda>n. dg_type n = Container \<and> \<not> truthy (dg_source n) \<and> \<not> truthy (dg_networkId n)) dgNodes
      else if prefixed ''network:'' detailNodeId \<and> truthy detailNodeId
      then let ids = map dg_id (filter (\<lambda>n. (dg_type n = Container \<or> dg_type n = Service)
                 \<and> dg_networkId n = detailNodeId) dgNodes)
               @ map de_source (filter (\<lambda>e. de_type e = SecondaryNetwork \<and> Some (de_target e) = detailNodeId) dgEdges)
           in filter (\<lambda>n. dg_id n \<in> set ids) dgNodes
      else [])"

definition volumeMounts :: "DGNode list \<Rightarrow> DGEdge list \<Rightarrow> string option \<Rightarrow> (DGNode \<times> string) list" where
  "volumeMounts dgNodes dgEdges detailNodeId =
     (if \<not> (prefixed ''volume:'' detailNodeId \<and> truthy detailNodeId) then []
      else foldl (\<lambda>mounts e. case find (\<lambda>n. dg_id n = de_target e) dgNodes of
               None \<Rightarrow> mounts | Some n \<Rightarrow> mounts @ [(n, nullish (de_mountPath e) [])]) []
             (filter (\<lambda>e. de_type e = VolumeMount \<and> Some (de_source e) = detailNodeId) dgEdges))"

section \<open>The fetches\<close>

text \<open>The URLs of the four fetches: only the one of the variant's kind is not \<open>null\<close>.\<close>

definition container_request :: "detail_variant \<Rightarrow> string option" where
  "container_request v = containerDetailUrl (case v of VContainer n \<Rightarrow> Some n | _ \<Rightarrow> None)"

definition volume_request :: "detail_variant \<Rightarrow> string option" where
  "volume_request v = volumeDetailUrl (case v of VVolume n \<Rightarrow> Some n | _ \<Rightarrow> None)"

definition network_request :: "detail_variant \<Rightarrow> string option" where
  "network_request v = networkDetailUrl (case v of VNetwork n \<Rightarrow> Some n | _ \<Rightarrow> None)"

definition service_request :: "detail_variant \<Rightarrow> string option" where
  "service_request v = serviceDetailUrl (case v of VService n \<Rightarrow> Some n | _ \<Rightarrow> None)"

record Details =
  dt_container :: FetchState
  dt_volume :: FetchState
  dt_network :: FetchState
  dt_service :: FetchState

definition active_fetch :: "detail_variant \<Rightarrow> Details \<Rightarrow> FetchState option" where
  "active_fetch v d = (case v of
     VContainer _ \<Rightarrow> Some (dt_container d)
   | VVolume _ \<Rightarrow> Some (dt_volume d)
   | VNetwork _ \<Rightarrow> Some (dt_network d)
   | VService _ \<Rightarrow> Some (dt_service d)
   | _ \<Rightarrow> None)"

definition detail_loading :: "detail_variant \<Rightarrow> Details \<Rightarrow> bool" where
  "detail_loading v d = (case active_fetch v d of None \<Rightarrow> False | Some f \<Rightarrow> fs_loading f)"

definition detail_error :: "detail_variant \<Rightarrow> Details \<Rightarrow> string option" where
  "detail_error v d = (case active_fetch v d of None \<Rightarrow> None | Some f \<Rightarrow> fs_error f)"

section \<open>Header and body\<close>

fun json_truthy :: "json \<Rightarrow> bool" where
  "json_truthy JNull = False"
| "json_truthy (JBool b) = b"
| "json_truthy (JNum x) = (x \<noteq> 0)"
| "json_truthy (JStr s) = (s \<noteq> [])"
| "json_truthy (JArr _) = True"
| "json_truthy (JObj _) = True"

datatype panel_header =
  NoHeader | UnmanagedHeader | GhostHeader DGNode | ResourceHeader string "string option"
| SwarmNodeHeader DGNode | RoleHeader swarm_role | ServiceHeader json | ContainerHeader json

definition is_ghost :: "detail_variant \<Rightarrow> DGNode option" where
  "is_ghost v = (case v of
     VGhostContainer n \<Rightarrow> Some n | VGhostService n \<Rightarrow> Some n | VGhostVolume n \<Rightarrow> Some n | VGhostNetwork n \<Rightarrow> Some n
   | _ \<Rightarrow> None)"

definition resource_variant :: "detail_variant \<Rightarrow> bool" where
  "resource_variant v = (case v of VNetwork _ \<Rightarrow> True | VVolume _ \<Rightarrow> True | _ \<Rightarrow> False)"

definition header_of :: "detail_variant \<Rightarrow> DGNode option \<Rightarrow> bool \<Rightarrow> Details \<Rightarrow> panel_header" where
  "header_of v node roleSummary d =
     (let container = (if json_truthy (fs_data (dt_container d)) then ContainerHeader (fs_data (dt_container d)) else NoHeader)
      in if v = VGroup then UnmanagedHeader
         else case is_ghost v of Some n \<Rightarrow> GhostHeader n
         | None \<Rightarrow>
           if resource_variant v \<and> node \<noteq> None then ResourceHeader (dg_name (the node)) (dg_driver (the node))
           else case v of
             VSwarmNode n \<Rightarrow> SwarmNodeHeader n
           | VRoleGroup role \<Rightarrow> (if roleSummary then RoleHeader role else container)
           | VService _ \<Rightarrow> (if json_truthy (fs_data (dt_service d)) then ServiceHeader (fs_data (dt_service d)) else container)
           | _ \<Rightarrow> container)"

datatype panel_body =
  NoBody | GroupBody | GhostVolumeBody DGNode | GhostNetworkBody DGNode | GhostBody DGNode
| SwarmNodeBody DGNode | RoleBody swarm_role | ServiceBody json | NetworkBody json | VolumeBody json
| ContainerBody json

definition body_of :: "detail_variant \<Rightarrow> bool \<Rightarrow> Details \<Rightarrow> panel_body" where
  "body_of v roleSummary d =
     (let container = (if json_truthy (fs_data (dt_container d)) then ContainerBody (fs_data (dt_container d)) else NoBody)
      in case v of
           VGroup \<Rightarrow> GroupBody
         | VGhostVolume n \<Rightarrow> GhostVolumeBody n
         | VGhostNetwork n \<Rightarrow> GhostNetworkBody n
         | VGhostContainer n \<Rightarrow> GhostBody n
         | VGhostService n \<Rightarrow> GhostBody n
         | VSwarmNode n \<Rightarrow> SwarmNodeBody n
         | VRoleGroup role \<Rightarrow> (if roleSummary then RoleBody role else container)
         | VService _ \<Rightarrow> (if json_truthy (fs_data (dt_service d)) then ServiceBody (fs_data (dt_service d)) else NoBody)
         | VNetwork _ \<Rightarrow> (if json_truthy (fs_data (dt_network d)) then NetworkBody (fs_data (dt_network d)) else container)
         | VVolume _ \<Rightarrow> (if json_truthy (fs_data (dt_volume d)) then VolumeBody (fs_data (dt_volume d)) else container)
         | _ \<Rightarrow> container)"

text \<open>The panel shows its body only when it neither loads nor reports an error.\<close>

definition shown_body :: "detail_variant \<Rightarrow> bool \<Rightarrow> Details \<Rightarrow> panel_body option" where
  "shown_body v roleSummary d =
     (if \<not> detail_loading v d \<and> \<not> truthy (detail_error v d) then Some (body_of v roleSummary d) else None)"

section \<open>What opens\<close>

lemma remove_own_prefix: "p \<noteq> [] \<Longrightarrow> remove_first p (p @ s) = s"
  by (cases p) (simp_all add: starts_with_def)

text \<open>
  A deployed node of the graph opens as what it is, under its own name: its id is its type and
  its name.
\<close>

definition proper_id :: "DGNode \<Rightarrow> bool" where
  "proper_id n \<longleftrightarrow> dg_id n = type_name (dg_type n) @ '':'' @ dg_name n"

fun variant_of_node :: "DGNode \<Rightarrow> node_type \<Rightarrow> detail_variant" where
  "variant_of_node n Container = VContainer (dg_name n)"
| "variant_of_node n Service = VService (dg_name n)"
| "variant_of_node n Network = VNetwork (dg_name n)"
| "variant_of_node n Volume = VVolume (dg_name n)"
| "variant_of_node n SwarmNode = VSwarmNode n"

fun ghost_of_node :: "DGNode \<Rightarrow> node_type \<Rightarrow> detail_variant" where
  "ghost_of_node n Container = VGhostContainer n"
| "ghost_of_node n Service = VGhostService n"
| "ghost_of_node n Network = VGhostNetwork n"
| "ghost_of_node n Volume = VGhostVolume n"
| "ghost_of_node n SwarmNode = VSwarmNode n"

lemma opened_variant:
  assumes "find (\<lambda>m. dg_id m = dg_id n) dgNodes = Some n" "proper_id n"
  shows "detail_variant_of dgNodes (Some (dg_id n)) =
    (if dg_status n = Some ''not_running'' then ghost_of_node n (dg_type n) else variant_of_node n (dg_type n))"
proof -
  have node: "detail_node dgNodes (Some (type_name (dg_type n) @ '':'' @ dg_name n)) = Some n"
    using assms by (cases "dg_type n") (simp_all add: detail_node_def proper_id_def)
  show ?thesis
    using assms(2) node remove_own_prefix [of "''container:''" "dg_name n"] remove_own_prefix [of "''service:''" "dg_name n"]
      remove_own_prefix [of "''network:''" "dg_name n"] remove_own_prefix [of "''volume:''" "dg_name n"]
    by (cases "dg_type n")
      (simp_all add: detail_variant_of_def Let_def prefixed_def proper_id_def starts_with_def
        isRoleGroupId_def ROLE_GROUP_PREFIX_def key_of_def del: remove_first.simps)
qed

text \<open>At most one of the four hooks fetches, and it fetches what the variant shows.\<close>

lemma one_request:
  "length (filter (\<lambda>u. u \<noteq> None) [container_request v, volume_request v, network_request v, service_request v]) \<le> 1"
  by (cases v) (simp_all add: container_request_def volume_request_def network_request_def service_request_def
      containerDetailUrl_def volumeDetailUrl_def networkDetailUrl_def serviceDetailUrl_def)

text \<open>The containers listed for a network: those on it, primarily or through a secondary edge.\<close>

lemma network_members:
  assumes "starts_with ''network:'' i"
  shows "set (groupContainers ns es (Some i)) = {n \<in> set ns.
    (\<exists>m\<in>set ns. dg_id m = dg_id n \<and> (dg_type m = Container \<or> dg_type m = Service) \<and> dg_networkId m = Some i) \<or>
    (\<exists>e\<in>set es. de_type e = SecondaryNetwork \<and> de_source e = dg_id n \<and> de_target e = i)}"
proof -
  have i: "i \<noteq> []" "\<not> starts_with ''group:'' i" using assms by (auto simp: starts_with_iff)
  let ?primary = "filter (\<lambda>n. (dg_type n = Container \<or> dg_type n = Service) \<and> dg_networkId n = Some i) ns"
  let ?secondary = "filter (\<lambda>e. de_type e = SecondaryNetwork \<and> Some (de_target e) = Some i) es"
  have "k \<in> set (map dg_id ?primary @ map de_source ?secondary) \<longleftrightarrow>
      (\<exists>m\<in>set ns. dg_id m = k \<and> (dg_type m = Container \<or> dg_type m = Service) \<and> dg_networkId m = Some i) \<or>
      (\<exists>e\<in>set es. de_type e = SecondaryNetwork \<and> de_source e = k \<and> de_target e = i)" for k
    unfolding set_append set_map set_filter Un_iff image_iff by blast
  then show ?thesis
    using assms i unfolding groupContainers_def prefixed_def Let_def by simp
qed

lemma mounts_fold:
  "foldl (\<lambda>mounts e. case f e of None \<Rightarrow> mounts | Some n \<Rightarrow> mounts @ [(n, g e)]) acc es =
     acc @ map (\<lambda>e. (the (f e), g e)) (filter (\<lambda>e. f e \<noteq> None) es)"
  by (induction es arbitrary: acc) (auto split: option.split)

lemma volume_users:
  assumes "starts_with ''volume:'' i"
  shows "map (dg_id \<circ> fst) (volumeMounts ns es (Some i)) =
    filter (\<lambda>k. k \<in> dg_id ` set ns) (map de_target (filter (\<lambda>e. de_type e = VolumeMount \<and> de_source e = i) es))"
proof -
  have i: "i \<noteq> []" using assms by (auto simp: starts_with_iff)
  let ?es = "filter (\<lambda>e. de_type e = VolumeMount \<and> de_source e = i) es"
  have some: "find (\<lambda>n. dg_id n = k) ns \<noteq> None \<longleftrightarrow> k \<in> dg_id ` set ns" for k
    by (auto simp: find_None_iff)
  have the: "dg_id (the (find (\<lambda>n. dg_id n = k) ns)) = k" if k: "k \<in> dg_id ` set ns" for k
  proof -
    obtain m where m: "find (\<lambda>n. dg_id n = k) ns = Some m" using k some [of k] by auto
    then have "dg_id m = k" by (auto simp: find_Some_iff)
    then show ?thesis by (simp add: m)
  qed
  have "map (dg_id \<circ> fst) (volumeMounts ns es (Some i)) =
      map (\<lambda>e. dg_id (the (find (\<lambda>n. dg_id n = de_target e) ns)))
        (filter (\<lambda>e. find (\<lambda>n. dg_id n = de_target e) ns \<noteq> None) ?es)"
    using assms i by (simp add: volumeMounts_def prefixed_def mounts_fold comp_def)
  also have "\<dots> = map de_target (filter (\<lambda>e. de_target e \<in> dg_id ` set ns) ?es)"
    unfolding some by (rule map_cong [OF refl]) (simp add: the)
  finally show ?thesis by (simp add: filter_map comp_def)
qed

text \<open>A link to a plain name that is no node of the graph does nothing.\<close>

lemma navigate_unknown:
  "CHR '':'' \<notin> set t \<Longrightarrow> t \<notin> dg_id ` set ns \<Longrightarrow> handleNavigate ns rf t st = (st, [])"
  by (auto simp: handleNavigate_def list_ex_iff)

section \<open>The previous resource's header\<close>

text \<open>
  A flaw, by the fetch that is not keyed by its URL: after the panel of container \<open>a\<close> has settled,
  opening container \<open>b\<close> draws \<open>b\<close>'s panel with \<open>a\<close>'s header and body until the effect runs, and
  with \<open>a\<close>'s header beside the spinner until the answer for \<open>b\<close> arrives.
\<close>

definition container_details :: "FetchState \<Rightarrow> Details" where
  "container_details f = \<lparr>dt_container = f, dt_volume = EMPTY, dt_network = EMPTY, dt_service = EMPTY\<rparr>"

lemma previous_container_shown:
  assumes "fetch_result (server ''/api/containers/a'' 0) = Inr (JObj fs)"
  defines "settle \<equiv> [InspectEffect, InspectAnswer 0 0, InspectRender (container_request (VContainer ''b''))]"
  defines "opened \<equiv> inspect_run server (container_request (VContainer ''a'')) settle"
  defines "fetching \<equiv> inspect_run server (container_request (VContainer ''a'')) (settle @ [InspectEffect])"
  shows "ih_url opened = Some ''/api/containers/b''"
    "header_of (VContainer ''b'') node r (container_details (ih_state opened)) = ContainerHeader (JObj fs)"
    "shown_body (VContainer ''b'') r (container_details (ih_state opened)) = Some (ContainerBody (JObj fs))"
    "header_of (VContainer ''b'') node r (container_details (ih_state fetching)) = ContainerHeader (JObj fs)"
    "shown_body (VContainer ''b'') r (container_details (ih_state fetching)) = None"
proof -
  have urls: "container_request (VContainer ''a'') = Some ''/api/containers/a''"
    "container_request (VContainer ''b'') = Some ''/api/containers/b''" by code_simp+
  have st: "ih_state opened = \<lparr>fs_data = JObj fs, fs_loading = False, fs_error = None\<rparr>"
      "ih_state fetching = \<lparr>fs_data = JObj fs, fs_loading = True, fs_error = None\<rparr>"
      "ih_url opened = Some ''/api/containers/b''"
    using assms(1)
    by (simp_all add: opened_def fetching_def settle_def inspect_run_def inspect_initial_def inspect_step_def
        inspect_effect_def inspect_answered_def urls EMPTY_def Let_def)
  show "ih_url opened = Some ''/api/containers/b''" by (fact st(3))
  show "header_of (VContainer ''b'') node r (container_details (ih_state opened)) = ContainerHeader (JObj fs)"
    "shown_body (VContainer ''b'') r (container_details (ih_state opened)) = Some (ContainerBody (JObj fs))"
    "header_of (VContainer ''b'') node r (container_details (ih_state fetching)) = ContainerHeader (JObj fs)"
    "shown_body (VContainer ''b'') r (container_details (ih_state fetching)) = None"
    by (simp_all add: st container_details_def header_of_def shown_body_def body_of_def detail_loading_def
        detail_error_def active_fetch_def is_ghost_def resource_variant_def Let_def)
qed

end
