(* ===== verification/Windowing.thy ===== *)
theory Windowing
  imports LogWindowsCorrect
begin

text \<open>
  The gestures over the log windows: the geometry of a resize and the pointer listeners of
  \<^verbatim>\<open>hooks/useDragResize.ts\<close>, the tab drags of \<^verbatim>\<open>components/logwindow/LogWindow.tsx\<close> and the merge
  at the end of a drag of \<^verbatim>\<open>components/logwindow/LogWindowLayer.tsx\<close>, over the controller of
  \<open>LogWindows\<close>. Every pointer-down adds a listener that all the following moves reach, until a
  pointer-up removes them all.
\<close>

section \<open>Resizing\<close>

datatype resize_edge = EdgeN | EdgeS | EdgeE | EdgeW | EdgeNE | EdgeNW | EdgeSE | EdgeSW

definition edge_includes :: "resize_edge \<Rightarrow> char \<Rightarrow> bool" where
  "edge_includes e c = (c \<in> set (case e of EdgeN \<Rightarrow> ''n'' | EdgeS \<Rightarrow> ''s'' | EdgeE \<Rightarrow> ''e'' | EdgeW \<Rightarrow> ''w''
     | EdgeNE \<Rightarrow> ''ne'' | EdgeNW \<Rightarrow> ''nw'' | EdgeSE \<Rightarrow> ''se'' | EdgeSW \<Rightarrow> ''sw''))"

record Rect =
  rc_x :: real
  rc_y :: real
  rc_w :: real
  rc_h :: real

definition applyResize :: "Rect \<Rightarrow> resize_edge \<Rightarrow> real \<Rightarrow> real \<Rightarrow> real \<Rightarrow> real \<Rightarrow> Rect" where
  "applyResize start edge dx dy minW minH =
     (let w1 = (if edge_includes edge (CHR ''e'') then max minW (rc_w start + dx) else rc_w start);
          h1 = (if edge_includes edge (CHR ''s'') then max minH (rc_h start + dy) else rc_h start);
          (x, w) = (if edge_includes edge (CHR ''w'')
                    then let newW = max minW (rc_w start - dx) in (rc_x start + (rc_w start - newW), newW)
                    else (rc_x start, w1));
          (y, h) = (if edge_includes edge (CHR ''n'')
                    then let newH = max minH (rc_h start - dy) in (rc_y start + (rc_h start - newH), newH)
                    else (rc_y start, h1))
      in \<lparr>rc_x = math_round x, rc_y = math_round y, rc_w = math_round w, rc_h = math_round h\<rparr>)"

lemma applyResize_sel:
  "rc_x (applyResize s e dx dy mw mh) =
     math_round (if edge_includes e (CHR ''w'') then rc_x s + (rc_w s - max mw (rc_w s - dx)) else rc_x s)"
  "rc_w (applyResize s e dx dy mw mh) =
     math_round (if edge_includes e (CHR ''w'') then max mw (rc_w s - dx)
       else if edge_includes e (CHR ''e'') then max mw (rc_w s + dx) else rc_w s)"
  "rc_y (applyResize s e dx dy mw mh) =
     math_round (if edge_includes e (CHR ''n'') then rc_y s + (rc_h s - max mh (rc_h s - dy)) else rc_y s)"
  "rc_h (applyResize s e dx dy mw mh) =
     math_round (if edge_includes e (CHR ''n'') then max mh (rc_h s - dy)
       else if edge_includes e (CHR ''s'') then max mh (rc_h s + dy) else rc_h s)"
  by (simp_all add: applyResize_def Let_def)

text \<open>A resize never goes below the minimum, and the edge opposite to the dragged one stays.\<close>

lemma math_round_ge: "of_int k \<le> v \<Longrightarrow> of_int k \<le> math_round v"
  using math_round_mono [of "of_int k" v] by simp

lemma math_round_neg_numeral [simp]: "math_round (- numeral n) = - numeral n"
  using math_round_of_int [of "- numeral n"] by simp

lemma resize_minimum:
  assumes "of_int mw \<le> rc_w start" "of_int mh \<le> rc_h start"
  shows "of_int mw \<le> rc_w (applyResize start edge dx dy (of_int mw) (of_int mh))"
    "of_int mh \<le> rc_h (applyResize start edge dx dy (of_int mw) (of_int mh))"
  using assms unfolding applyResize_sel by (simp_all add: math_round_ge)

lemma round_sum: "\<bar>(math_round (a - b) + math_round b) - a\<bar> \<le> 1"
  using math_round_close [of "a - b"] math_round_close [of b] by linarith

lemma opposite_edge_stays:
  "edge_includes e (CHR ''w'') \<Longrightarrow>
     \<bar>(rc_x (applyResize s e dx dy mw mh) + rc_w (applyResize s e dx dy mw mh)) - (rc_x s + rc_w s)\<bar> \<le> 1"
  "edge_includes e (CHR ''n'') \<Longrightarrow>
     \<bar>(rc_y (applyResize s e dx dy mw mh) + rc_h (applyResize s e dx dy mw mh)) - (rc_y s + rc_h s)\<bar> \<le> 1"
  using round_sum [of "rc_x s + rc_w s" "max mw (rc_w s - dx)"] round_sum [of "rc_y s + rc_h s" "max mh (rc_h s - dy)"]
  unfolding applyResize_sel by (simp_all add: add_diff_eq)

lemma origin_stays:
  "\<not> edge_includes e (CHR ''w'') \<Longrightarrow> rc_x (applyResize s e dx dy mw mh) = math_round (rc_x s)"
  "\<not> edge_includes e (CHR ''n'') \<Longrightarrow> rc_y (applyResize s e dx dy mw mh) = math_round (rc_y s)"
  unfolding applyResize_sel by simp_all

section \<open>Gestures\<close>

definition DETACH_THRESHOLD :: real where
  "DETACH_THRESHOLD = 28"

definition MERGE_ZONE_H :: real where
  "MERGE_ZONE_H = 40"

text \<open>A listener with what its closure holds, and the text selection it restores.\<close>

datatype gesture_kind =
  MoveGesture real real
| ResizeGesture Rect resize_edge real real
| TabGesture int nat real real bool

record Gesture =
  gs_window :: string
  gs_kind :: gesture_kind
  gs_saved :: string

record Desk =
  dk_hook :: LogWindowsHook
  dk_dragPointer :: "(real \<times> real) option"
  dk_gestures :: "Gesture list"
  dk_userSelect :: string

datatype desk_event =
  TitleDown string real real
| EdgeDown string resize_edge real real
| TabDown string int real real
| PointerMove real real
| PointerUp
| Act win_action

definition act :: "win_action \<Rightarrow> Desk \<Rightarrow> Desk" where
  "act a st = st\<lparr>dk_hook := hook_step (dk_hook st) a\<rparr>"

definition rect_of :: "LogWindowState \<Rightarrow> Rect" where
  "rect_of w = \<lparr>rc_x = lw_x w, rc_y = lw_y w, rc_w = lw_w w, rc_h = lw_h w\<rparr>"

definition start_gesture :: "string \<Rightarrow> gesture_kind \<Rightarrow> Desk \<Rightarrow> Desk" where
  "start_gesture i k st = st\<lparr>dk_gestures := dk_gestures st @ [\<lparr>gs_window = i, gs_kind = k, gs_saved = dk_userSelect st\<rparr>],
     dk_userSelect := ''none''\<rparr>"

definition desk_window :: "Desk \<Rightarrow> string \<Rightarrow> LogWindowState option" where
  "desk_window st i = find_window (hk_state (dk_hook st)) i"

definition in_merge_zone :: "real \<Rightarrow> real \<Rightarrow> LogWindowState \<Rightarrow> bool" where
  "in_merge_zone px py w \<longleftrightarrow>
     lw_x w \<le> px \<and> px \<le> lw_x w + lw_w w \<and> lw_y w \<le> py \<and> py \<le> lw_y w + MERGE_ZONE_H"

definition handleDragEnd :: "string \<Rightarrow> Desk \<Rightarrow> Desk" where
  "handleDragEnd sourceId st =
     (case dk_dragPointer st of
        None \<Rightarrow> st
      | Some (px, py) \<Rightarrow>
          let st1 = st\<lparr>dk_dragPointer := None\<rparr> in
          case find (\<lambda>w. lw_id w \<noteq> sourceId \<and> \<not> lw_minimized w \<and> in_merge_zone px py w)
                 (ws_windows (hk_state (dk_hook st))) of
            None \<Rightarrow> st1
          | Some target \<Rightarrow> act (Merge sourceId (lw_id target)) st1)"

text \<open>One listener on a pointer-move: the state and the listener after it.\<close>

definition gesture_move :: "real \<Rightarrow> real \<Rightarrow> Gesture \<Rightarrow> Desk \<Rightarrow> Gesture \<times> Desk" where
  "gesture_move cx cy g st =
     (case gs_kind g of
        MoveGesture ox oy \<Rightarrow>
          (g, (act (Move (gs_window g) (cx - ox) (cy - oy)) st)\<lparr>dk_dragPointer := Some (cx, cy)\<rparr>)
      | ResizeGesture start edge sx sy \<Rightarrow>
          let r = applyResize start edge (cx - sx) (cy - sy) WINDOW_MIN_W WINDOW_MIN_H
          in (g, act (Resize (gs_window g) (rc_w r) (rc_h r)) (act (Move (gs_window g) (rc_x r) (rc_y r)) st))
      | TabGesture idx tabs sx sy detached \<Rightarrow>
          if \<not> detached \<and> (cx - sx)\<^sup>2 + (cy - sy)\<^sup>2 > DETACH_THRESHOLD\<^sup>2 \<and> tabs > 1
          then (g\<lparr>gs_kind := TabGesture idx tabs sx sy True\<rparr>, act (DetachTab (gs_window g) idx (cx - 40) (cy - 10)) st)
          else (g, st))"

definition gesture_end :: "Gesture \<Rightarrow> Desk \<Rightarrow> Desk" where
  "gesture_end g st =
     (let st1 = st\<lparr>dk_userSelect := gs_saved g\<rparr> in
      case gs_kind g of
        TabGesture idx _ _ _ detached \<Rightarrow> if detached then st1 else act (SetActiveTab (gs_window g) idx) st1
      | _ \<Rightarrow> handleDragEnd (gs_window g) st1)"

definition move_all :: "real \<Rightarrow> real \<Rightarrow> Gesture list \<times> Desk \<Rightarrow> Gesture \<Rightarrow> Gesture list \<times> Desk" where
  "move_all cx cy acc g = (let (g', st) = gesture_move cx cy g (snd acc) in (fst acc @ [g'], st))"

definition desk_step :: "Desk \<Rightarrow> desk_event \<Rightarrow> Desk" where
  "desk_step st e =
     (case e of
        TitleDown i cx cy \<Rightarrow>
          (case desk_window st i of None \<Rightarrow> st
           | Some w \<Rightarrow> act (Focus i) (start_gesture i (MoveGesture (cx - lw_x w) (cy - lw_y w)) st))
      | EdgeDown i edge cx cy \<Rightarrow>
          (case desk_window st i of None \<Rightarrow> st
           | Some w \<Rightarrow> start_gesture i (ResizeGesture (rect_of w) edge cx cy) st)
      | TabDown i idx cx cy \<Rightarrow>
          (case desk_window st i of None \<Rightarrow> st
           | Some w \<Rightarrow> start_gesture i (TabGesture idx (length (lw_tabs w)) cx cy False) st)
      | PointerMove cx cy \<Rightarrow>
          (let (gs, st') = foldl (move_all cx cy) ([], st) (dk_gestures st) in st'\<lparr>dk_gestures := gs\<rparr>)
      | PointerUp \<Rightarrow> foldl (\<lambda>st g. gesture_end g st) (st\<lparr>dk_gestures := []\<rparr>) (dk_gestures st)
      | Act a \<Rightarrow> act a st)"

definition desk_init :: "Viewport \<Rightarrow> Desk" where
  "desk_init vp = \<lparr>dk_hook = hook_init vp, dk_dragPointer = None, dk_gestures = [], dk_userSelect = []\<rparr>"

subsection \<open>The windows stay well formed under any gestures\<close>

definition desk_ok :: "Desk \<Rightarrow> bool" where
  "desk_ok st \<longleftrightarrow> wf_windows (hk_state (dk_hook st))"

lemma desk_ok_more [simp]:
  "desk_ok (st\<lparr>dk_gestures := gs\<rparr>) = desk_ok st" "desk_ok (st\<lparr>dk_dragPointer := p\<rparr>) = desk_ok st"
  "desk_ok (st\<lparr>dk_userSelect := u\<rparr>) = desk_ok st"
  by (simp_all add: desk_ok_def)

lemma act_ok [simp]: "desk_ok st \<Longrightarrow> desk_ok (act a st)"
  by (simp add: desk_ok_def act_def log_windows.step_inv)

lemma start_gesture_ok [simp]: "desk_ok (start_gesture i k st) = desk_ok st"
  by (simp add: start_gesture_def desk_ok_def)

lemma gesture_move_ok: "desk_ok st \<Longrightarrow> desk_ok (snd (gesture_move cx cy g st))"
  by (simp add: gesture_move_def Let_def split: gesture_kind.split)

lemma gesture_end_ok: "desk_ok st \<Longrightarrow> desk_ok (gesture_end g st)"
  by (simp add: gesture_end_def handleDragEnd_def Let_def split: gesture_kind.split option.split prod.split)

lemma move_all_ok: "desk_ok (snd acc) \<Longrightarrow> desk_ok (snd (foldl (move_all cx cy) acc gs))"
  by (induction gs arbitrary: acc) (simp_all add: move_all_def gesture_move_ok split_beta)

lemma end_all_ok: "desk_ok st \<Longrightarrow> desk_ok (foldl (\<lambda>st g. gesture_end g st) st gs)"
  by (induction gs arbitrary: st) (simp_all add: gesture_end_ok)

interpretation desk: machine desk_step "\<lambda>_ _. True" desk_ok
proof
  fix st e
  assume "desk_ok st"
  then show "desk_ok (desk_step st e)"
    using move_all_ok [of "([], st)"] end_all_ok [of "st\<lparr>dk_gestures := []\<rparr>"]
    by (cases e) (auto simp: desk_step_def split_beta split: option.split)
qed

text \<open>Whatever the pointers do, no log is streamed twice and no window is below its minimum.\<close>

lemma gestures_keep_windows: "wf_windows (hk_state (dk_hook (run desk_step (desk_init vp) es)))"
proof -
  have "desk_ok (run desk_step (desk_init vp) es)"
    by (rule desk.run_inv) (simp_all add: desk_init_def desk_ok_def hook_init_def wf_initial)
  then show ?thesis by (simp add: desk_ok_def)
qed

text \<open>A drag merges only into another window that is visible and under the pointer.\<close>

lemma drag_end_target:
  assumes "dk_dragPointer st = Some (px, py)" "dk_hook (handleDragEnd i st) \<noteq> dk_hook st"
  shows "\<exists>w\<in>set (ws_windows (hk_state (dk_hook st))). lw_id w \<noteq> i \<and> \<not> lw_minimized w \<and>
    in_merge_zone px py w \<and> dk_hook (handleDragEnd i st) = hook_step (dk_hook st) (Merge i (lw_id w))"
proof -
  let ?hit = "find (\<lambda>w. lw_id w \<noteq> i \<and> \<not> lw_minimized w \<and> in_merge_zone px py w) (ws_windows (hk_state (dk_hook st)))"
  obtain w where w: "?hit = Some w"
    using assms by (cases ?hit) (simp_all add: handleDragEnd_def)
  then have "w \<in> set (ws_windows (hk_state (dk_hook st)))" "lw_id w \<noteq> i" "\<not> lw_minimized w" "in_merge_zone px py w"
    by (auto simp: find_Some_iff)
  moreover have "dk_hook (handleDragEnd i st) = hook_step (dk_hook st) (Merge i (lw_id w))"
    using assms(1) w by (simp add: handleDragEnd_def act_def)
  ultimately show ?thesis by blast
qed

subsection \<open>Two flaws\<close>

text \<open>
  Dragging the west edge past the left border of the viewport: the window keeps growing while its
  position is clamped to 0, so that its east edge, which should stay, moves right. A window at 100
  of width 560 dragged to -50 becomes 710 wide at 0.
\<close>

lemma west_resize_pushes_east:
  assumes "lw_x w = 100" "lw_w w = 560" "lw_y w = 100" "lw_h w = 320" "560 \<le> vp_width vp"
    "vp_headerHeight vp \<le> 100" "140 + vp_dockHeight vp \<le> vp_height vp"
  defines "r \<equiv> applyResize (rect_of w) EdgeW (- 150) 0 WINDOW_MIN_W WINDOW_MIN_H"
  shows "rc_x r + rc_w r = 660"
    "fst (clampPosition (rc_x r) (rc_y r) (lw_w w) vp) + max WINDOW_MIN_W (math_round (rc_w r)) = 710"
  using assms 
  by (simp_all add: r_def rect_of_def edge_includes_def applyResize_def Let_def clampPosition_def js_const)

text \<open>
  Two gestures at once (two fingers): the second one saves the suppressed selection as the one to
  restore, and ends last; the page's text can no longer be selected.
\<close>

lemma second_gesture_keeps_selection_off:
  assumes "dk_gestures st = []" "desk_window st i = Some w" "desk_window st j = Some w'"
  shows "dk_userSelect (run desk_step st [EdgeDown i e1 x1 y1, EdgeDown j e2 x2 y2, PointerUp]) = ''none''"
    "dk_userSelect (run desk_step st [EdgeDown i e1 x1 y1, PointerUp]) = dk_userSelect st"
proof -
  have sel: "dk_userSelect (handleDragEnd k s) = dk_userSelect s" for k s
    by (simp add: handleDragEnd_def act_def Let_def split: option.split prod.split)
  show "dk_userSelect (run desk_step st [EdgeDown i e1 x1 y1, EdgeDown j e2 x2 y2, PointerUp]) = ''none''"
    "dk_userSelect (run desk_step st [EdgeDown i e1 x1 y1, PointerUp]) = dk_userSelect st"
    using assms by (simp_all add: desk_step_def start_gesture_def desk_window_def gesture_end_def sel)
qed

end
