(* ===== verification/CanvasEdges.thy ===== *)
theory CanvasEdges
  imports PathUtils DataModel Colors
begin

text \<open>
  The canvas of a large graph: its edge descriptors and its redraw strategy
  (\<^verbatim>\<open>components/CanvasEdgeLayer.tsx\<close>), the cached paths (\<^verbatim>\<open>canvas/canvasEdgeUtils.ts\<close>) and what a
  frame draws (\<^verbatim>\<open>canvas/canvasRenderer.ts\<close>). The browser's \<open>Path2D\<close> constructor and its hit test
  are parameters; a frame is the list of drawing operations it makes under its transform. The
  lemmas show what is drawn and where, and that a visible canvas is never stale.
\<close>

section \<open>Constants\<close>

definition CANVAS_EDGE_HIT_WIDTH :: real where "CANVAS_EDGE_HIT_WIDTH = 12"
definition DOT_OPACITY :: real where "DOT_OPACITY = 6 / 10"
definition ARROW_LENGTH :: real where "ARROW_LENGTH = 7"
definition ARROW_WIDTH :: real where "ARROW_WIDTH = 3"

section \<open>Edge descriptors\<close>

record 'p CanvasEdge =
  cg_id :: string
  cg_path :: 'p
  cg_style :: EdgeStyle
  cg_dashed :: bool
  cg_start :: Point
  cg_end :: Point
  cg_bbox :: BBox

record AnimatedEdge =
  an_stroke :: string
  an_opacity :: real
  an_points :: "Point list"
  an_totalLength :: real
  an_duration :: real
  an_dotCount :: nat
  an_bbox :: BBox

text \<open>\<open>new Path2D(svgPath)\<close> is \<open>mk svgPath\<close>; the cache keeps one per text.\<close>

definition getPath2D :: "(string \<Rightarrow> 'p) \<Rightarrow> (string, 'p) jsmap \<Rightarrow> string \<Rightarrow> 'p \<times> (string, 'p) jsmap" where
  "getPath2D mk cache svgPath =
     (case map_get cache svgPath of
        Some p \<Rightarrow> (p, cache)
      | None \<Rightarrow> (mk svgPath, map_set cache svgPath (mk svgPath)))"

fun edge_path :: "rf_edge_data \<Rightarrow> string option" where
  "edge_path (ElkData _ _ _ _ p) = p"
| "edge_path _ = None"

fun edge_active :: "rf_edge_data \<Rightarrow> bool" where
  "edge_active (ElkData _ active _ _ _) = active"
| "edge_active _ = True"

fun edge_animated :: "rf_edge_data \<Rightarrow> bool" where
  "edge_animated (ElkData t _ animated _ _) = (animated \<and> (t = DependsOn \<or> t = VolumeMount))"
| "edge_animated _ = False"

definition edge_style :: "RFEdge \<Rightarrow> EdgeStyle" where
  "edge_style e = resolveEdgeStyle (re_stroke e) (re_strokeWidth e) (re_opacity e)"

text \<open>The points of an edge's path; an edge without a path, or with text that is no number, has none.\<close>

definition edge_points :: "RFEdge \<Rightarrow> Point list" where
  "edge_points e = (if truthy (edge_path (re_data e))
     then nullish (parsePolyline (the (edge_path (re_data e)))) [] else [])"

definition add_canvas_edge :: "(string \<Rightarrow> 'p) \<Rightarrow> 'p CanvasEdge list \<times> (string, 'p) jsmap \<Rightarrow> RFEdge \<Rightarrow>
    'p CanvasEdge list \<times> (string, 'p) jsmap" where
  "add_canvas_edge mk acc e =
     (let ps = edge_points e in
      case (polylineEndpoints ps, polylineBBox ps) of
        (Some (a, b), Some bbox) \<Rightarrow>
          let (path, cache) = getPath2D mk (snd acc) (the (edge_path (re_data e)))
          in (fst acc @ [\<lparr>cg_id = re_id e, cg_path = path, cg_style = edge_style e,
                cg_dashed = (\<not> edge_active (re_data e)), cg_start = a, cg_end = b, cg_bbox = bbox\<rparr>], cache)
      | _ \<Rightarrow> acc)"

definition canvasEdges :: "(string \<Rightarrow> 'p) \<Rightarrow> RFEdge list \<Rightarrow> 'p CanvasEdge list" where
  "canvasEdges mk edges = fst (foldl (add_canvas_edge mk) ([], []) edges)"

definition dot_count :: "real \<Rightarrow> nat" where
  "dot_count totalLength = nat \<lfloor>min MAX_DOTS (max MIN_DOTS (math_round (totalLength / DOT_SPACING)))\<rfloor>"

definition animated_edge :: "RFEdge \<Rightarrow> AnimatedEdge option" where
  "animated_edge e =
     (let ps = edge_points e; len = polylineLength ps in
      if \<not> edge_animated (re_data e) \<or> length ps < 2 then None
      else Some \<lparr>an_stroke = es_stroke (edge_style e), an_opacity = es_opacity (edge_style e), an_points = ps,
        an_totalLength = len, an_duration = max MIN_ANIMATION_DURATION (len / DOT_SPEED),
        an_dotCount = dot_count len, an_bbox = the (polylineBBox ps)\<rparr>)"

definition animatedEdges :: "RFEdge list \<Rightarrow> AnimatedEdge list" where
  "animatedEdges edges = List.map_filter animated_edge edges"

section \<open>A frame\<close>

datatype 'p draw_op =
  StrokePath 'p EdgeStyle bool
| EndCircle Point string real
| Arrow "Point list" string real

definition drawEdges :: "'p CanvasEdge list \<Rightarrow> ViewBounds \<Rightarrow> 'p draw_op list" where
  "drawEdges edges vb = concat (map (\<lambda>e.
     if \<not> isVisible (cg_bbox e) vb then []
     else [StrokePath (cg_path e) (cg_style e) (cg_dashed e),
           EndCircle (cg_start e) (es_stroke (cg_style e)) (es_opacity (cg_style e)),
           EndCircle (cg_end e) (es_stroke (cg_style e)) (es_opacity (cg_style e))]) edges)"

definition drawArrowhead :: "Point \<Rightarrow> Point \<Rightarrow> Point list" where
  "drawArrowhead pt dir =
     (let nx = - py dir; ny = px dir;
          tip = \<lparr>px = px pt + px dir * ARROW_LENGTH / 2, py = py pt + py dir * ARROW_LENGTH / 2\<rparr>;
          baseX = px pt - px dir * ARROW_LENGTH / 2;
          baseY = py pt - py dir * ARROW_LENGTH / 2
      in [tip, \<lparr>px = baseX + nx * ARROW_WIDTH, py = baseY + ny * ARROW_WIDTH\<rparr>,
          \<lparr>px = baseX - nx * ARROW_WIDTH, py = baseY - ny * ARROW_WIDTH\<rparr>])"

definition dot_fraction :: "AnimatedEdge \<Rightarrow> real \<Rightarrow> nat \<Rightarrow> real" where
  "dot_fraction anim timeSec i = frac (timeSec / an_duration anim + real i / real (an_dotCount anim))"

definition draw_dot :: "AnimatedEdge \<Rightarrow> real \<Rightarrow> nat \<Rightarrow> 'p draw_op list" where
  "draw_dot anim timeSec i =
     (let t = dot_fraction anim timeSec i in
      case polylinePointAt (an_points anim) t (an_totalLength anim) of
        None \<Rightarrow> []
      | Some pt \<Rightarrow> [Arrow (drawArrowhead pt (polylineDirectionAt (an_points anim) t (an_totalLength anim)))
                      (an_stroke anim) (an_opacity anim * DOT_OPACITY)])"

definition drawAnimatedDots :: "AnimatedEdge list \<Rightarrow> ViewBounds \<Rightarrow> real \<Rightarrow> 'p draw_op list" where
  "drawAnimatedDots animated vb timestamp = concat (map (\<lambda>anim.
     if \<not> isVisible (an_bbox anim) vb then []
     else concat (map (draw_dot anim (timestamp / 1000)) [0..<an_dotCount anim])) animated)"

text \<open>A frame: the canvas's size, its transform and what is drawn under it.\<close>

record 'p frame =
  fr_size :: "real \<times> real"
  fr_viewport :: CanvasViewport
  fr_edges :: "'p draw_op list"
  fr_dots :: "'p draw_op list"

definition renderFrame :: "real \<times> real \<Rightarrow> CanvasViewport \<Rightarrow> 'p CanvasEdge list \<Rightarrow> AnimatedEdge list \<Rightarrow> real \<Rightarrow>
    'p frame" where
  "renderFrame sz vp edges animated timestamp =
     (let vb = viewBounds vp (fst sz) (snd sz)
      in \<lparr>fr_size = sz, fr_viewport = vp, fr_edges = drawEdges edges vb,
          fr_dots = drawAnimatedDots animated vb timestamp\<rparr>)"

section \<open>The layer\<close>

text \<open>
  The canvas's visibility, what it shows, the transform of the last full redraw (none yet: NaN),
  whether an animation frame (\<open>rafRef\<close>) and the settle timer are pending.
\<close>

record 'p Layer =
  ly_mounted :: bool
  ly_edges :: "'p CanvasEdge list"
  ly_animated :: "AnimatedEdge list"
  ly_size :: "real \<times> real"
  ly_transform :: CanvasViewport
  ly_visible :: bool
  ly_shown :: "'p frame"
  ly_drawn :: "CanvasViewport option"
  ly_frame :: bool
  ly_timer :: bool

definition paint :: "real \<Rightarrow> 'p Layer \<Rightarrow> 'p Layer" where
  "paint timestamp st =
     st\<lparr>ly_shown := renderFrame (ly_size st) (ly_transform st) (ly_edges st) (ly_animated st) timestamp\<rparr>"

definition fullRedraw :: "real \<Rightarrow> 'p Layer \<Rightarrow> 'p Layer" where
  "fullRedraw timestamp st = (paint timestamp st)\<lparr>ly_visible := True, ly_drawn := Some (ly_transform st)\<rparr>"

definition startAnimLoop :: "'p Layer \<Rightarrow> 'p Layer" where
  "startAnimLoop st = (if ly_frame st then st else if ly_animated st \<noteq> [] then st\<lparr>ly_frame := True\<rparr> else st)"

definition animTick :: "real \<Rightarrow> 'p Layer \<Rightarrow> 'p Layer" where
  "animTick timestamp st =
     (if ly_animated st = [] then st\<lparr>ly_frame := False\<rparr>
      else if \<not> ly_visible st then st\<lparr>ly_frame := False\<rparr>
      else (paint timestamp st)\<lparr>ly_frame := True\<rparr>)"

text \<open>
  The effects of new edges: the cleanup of the animation effect, the redraw of the data effect,
  then the animation effect again.
\<close>

definition new_edges :: "'p CanvasEdge list \<Rightarrow> AnimatedEdge list \<Rightarrow> real \<Rightarrow> 'p Layer \<Rightarrow> 'p Layer" where
  "new_edges edges animated now st =
     (let st1 = st\<lparr>ly_timer := False, ly_frame := False\<rparr>;
          st2 = (paint now (st1\<lparr>ly_edges := edges, ly_animated := animated\<rparr>))\<lparr>ly_visible := True\<rparr>
      in startAnimLoop (fullRedraw now (st2\<lparr>ly_drawn := None\<rparr>)))"

datatype layer_event =
  NewEdges "RFEdge list" real
| ViewportChange CanvasViewport
| FrameTick real
| SettleTimer real
| ContainerResize "real \<times> real" real
| LayerUnmount

definition layer_step :: "(string \<Rightarrow> 'p) \<Rightarrow> 'p Layer \<Rightarrow> layer_event \<Rightarrow> 'p Layer" where
  "layer_step mk st e =
     (if \<not> ly_mounted st then st
      else case e of
        NewEdges edges now \<Rightarrow> new_edges (canvasEdges mk edges) (animatedEdges edges) now st
      | ViewportChange vp \<Rightarrow>
          (let st1 = st\<lparr>ly_transform := vp\<rparr> in
           if ly_drawn st = Some vp then st1 else st1\<lparr>ly_visible := False, ly_timer := True\<rparr>)
      | FrameTick now \<Rightarrow> if ly_frame st then animTick now st else st
      | SettleTimer now \<Rightarrow> if ly_timer st then startAnimLoop (fullRedraw now (st\<lparr>ly_timer := False\<rparr>)) else st
      | ContainerResize sz now \<Rightarrow> paint now (st\<lparr>ly_size := sz\<rparr>)
      | LayerUnmount \<Rightarrow> st\<lparr>ly_mounted := False, ly_timer := False, ly_frame := False\<rparr>)"

definition layer_mount :: "(string \<Rightarrow> 'p) \<Rightarrow> RFEdge list \<Rightarrow> real \<times> real \<Rightarrow> CanvasViewport \<Rightarrow> real \<Rightarrow> 'p Layer" where
  "layer_mount mk edges sz vp now =
     new_edges (canvasEdges mk edges) (animatedEdges edges) now
       \<lparr>ly_mounted = True, ly_edges = [], ly_animated = [], ly_size = sz, ly_transform = vp, ly_visible = True,
        ly_shown = renderFrame sz vp [] [] now, ly_drawn = None, ly_frame = False, ly_timer = False\<rparr>"

text \<open>The edge under a screen point: the first whose path the browser says is hit.\<close>

definition hitTest :: "('p \<Rightarrow> real \<Rightarrow> real \<times> real \<Rightarrow> bool) \<Rightarrow> real \<times> real \<Rightarrow> 'p Layer \<Rightarrow> real \<Rightarrow> real \<Rightarrow> string option" where
  "hitTest isPointInStroke origin st screenX screenY =
     (let vp = ly_transform st;
          flowX = (screenX - fst origin - vp_tx vp) / vp_zoom vp;
          flowY = (screenY - snd origin - vp_ty vp) / vp_zoom vp
      in map_option cg_id (find (\<lambda>e. isPointInStroke (cg_path e) (CANVAS_EDGE_HIT_WIDTH / vp_zoom vp) (flowX, flowY))
           (ly_edges st)))"

section \<open>What is drawn\<close>

definition path_cache_ok :: "(string \<Rightarrow> 'p) \<Rightarrow> (string, 'p) jsmap \<Rightarrow> bool" where
  "path_cache_ok mk cache \<longleftrightarrow> (\<forall>k v. map_get cache k = Some v \<longrightarrow> v = mk k)"

interpretation path_cache: memo mk "getPath2D mk" "path_cache_ok mk" for mk
  by unfold_locales (auto simp: getPath2D_def path_cache_ok_def js.get_put split: option.splits if_splits)

text \<open>The descriptor of one edge, whatever the cache holds.\<close>

definition canvas_edge :: "(string \<Rightarrow> 'p) \<Rightarrow> RFEdge \<Rightarrow> 'p CanvasEdge option" where
  "canvas_edge mk e =
     (if length (edge_points e) < 2 then None
      else Some \<lparr>cg_id = re_id e, cg_path = mk (the (edge_path (re_data e))), cg_style = edge_style e,
        cg_dashed = (\<not> edge_active (re_data e)), cg_start = hd (edge_points e), cg_end = last (edge_points e),
        cg_bbox = the (polylineBBox (edge_points e))\<rparr>)"

lemma bbox_some: "ps \<noteq> [] \<Longrightarrow> polylineBBox ps = Some (the (polylineBBox ps))"
  by (cases ps) (simp_all add: polylineBBox_def)

lemma add_canvas_edge_pure:
  assumes "path_cache_ok mk (snd acc)"
  shows "fst (add_canvas_edge mk acc e) = fst acc @ (case canvas_edge mk e of None \<Rightarrow> [] | Some c \<Rightarrow> [c])"
    "path_cache_ok mk (snd (add_canvas_edge mk acc e))"
proof -
  note look = path_cache.look_pure [OF assms, of "the (edge_path (re_data e))"]
    path_cache.look_valid [OF assms, of "the (edge_path (re_data e))"]
  have "fst (add_canvas_edge mk acc e) = fst acc @ (case canvas_edge mk e of None \<Rightarrow> [] | Some c \<Rightarrow> [c]) \<and>
    path_cache_ok mk (snd (add_canvas_edge mk acc e))"
  proof (cases "length (edge_points e) < 2")
    case False
    then have "edge_points e \<noteq> []" by auto
    then obtain box where "polylineBBox (edge_points e) = Some box" using bbox_some by blast
    then show ?thesis using False look
      by (auto simp: add_canvas_edge_def polylineEndpoints_def canvas_edge_def Let_def split: prod.split)
  qed (simp add: add_canvas_edge_def polylineEndpoints_def canvas_edge_def assms)
  then show "fst (add_canvas_edge mk acc e) = fst acc @ (case canvas_edge mk e of None \<Rightarrow> [] | Some c \<Rightarrow> [c])"
    "path_cache_ok mk (snd (add_canvas_edge mk acc e))" by simp_all
qed

lemma canvas_edges_pure: "canvasEdges mk edges = List.map_filter (canvas_edge mk) edges"
proof -
  have "fst (foldl (add_canvas_edge mk) acc edges) = fst acc @ List.map_filter (canvas_edge mk) edges"
    if "path_cache_ok mk (snd acc)" for acc
    using that by (induction edges arbitrary: acc)
      (simp_all add: map_filter_simps add_canvas_edge_pure split: option.split)
  then show ?thesis by (simp add: canvasEdges_def path_cache_ok_def)
qed

lemma animated_edge_bounds:
  assumes "animated_edge e = Some a"
  shows "3 \<le> an_dotCount a" "an_dotCount a \<le> 8" "0 < an_duration a" "length (an_points a) \<ge> 2"
    "an_totalLength a = polylineLength (an_points a)"
proof -
  have "dot_count len \<le> 8" "3 \<le> dot_count len" for len
    by (simp_all add: dot_count_def MAX_DOTS_def MIN_DOTS_def nat_le_iff floor_le_iff le_nat_iff le_floor_iff)
  then show "3 \<le> an_dotCount a" "an_dotCount a \<le> 8" "0 < an_duration a" "length (an_points a) \<ge> 2"
    "an_totalLength a = polylineLength (an_points a)"
    using assms by (auto simp: animated_edge_def Let_def MIN_ANIMATION_DURATION_def split: if_splits)
qed

text \<open>Every dot of an animated edge is drawn, and lies on the edge at its fraction of the length.\<close>

lemma dots_on_edge:
  assumes "animated_edge e = Some a"
  obtains r where "at_distance (dot_fraction a timeSec i * an_totalLength a) (an_points a) r"
    "draw_dot a timeSec i = [Arrow (drawArrowhead r (polylineDirectionAt (an_points a)
       (dot_fraction a timeSec i) (an_totalLength a))) (an_stroke a) (an_opacity a * DOT_OPACITY)]"
proof -
  note bounds = animated_edge_bounds [OF assms]
  have "0 \<le> dot_fraction a timeSec i" "dot_fraction a timeSec i < 1"
    by (simp_all add: dot_fraction_def frac_lt_1)
  then show thesis
    using point_at_fraction [OF bounds(4), of "dot_fraction a timeSec i"] that bounds(5)
    by (auto simp: draw_dot_def Let_def)
qed

text \<open>An edge any point of which is on screen is stroked with its two end circles.\<close>

lemma on_screen_drawn:
  assumes "canvas_edge mk e = Some c" "c \<in> set cs" "vp_zoom vp > 0"
    and "at_distance d (edge_points e) r" "on_screen vp w h r"
  shows "{StrokePath (cg_path c) (cg_style c) (cg_dashed c),
      EndCircle (hd (edge_points e)) (es_stroke (edge_style e)) (es_opacity (edge_style e)),
      EndCircle (last (edge_points e)) (es_stroke (edge_style e)) (es_opacity (edge_style e))}
    \<subseteq> set (drawEdges cs (viewBounds vp w h))"
proof -
  have "polylineBBox (edge_points e) = Some (cg_bbox c)"
    using assms(1) by (auto simp: canvas_edge_def split: if_splits intro!: bbox_some)
  then have "isVisible (cg_bbox c) (viewBounds vp w h)"
    using visible_edge_not_culled assms(3-5) by blast
  then show ?thesis using assms(1,2) by (force simp: drawEdges_def canvas_edge_def split: if_splits)
qed

section \<open>A visible canvas is never stale\<close>

definition shows_current :: "'p Layer \<Rightarrow> bool" where
  "shows_current st \<longleftrightarrow> fr_size (ly_shown st) = ly_size st \<and> fr_viewport (ly_shown st) = ly_transform st \<and>
     (let vb = viewBounds (ly_transform st) (fst (ly_size st)) (snd (ly_size st)) in
        fr_edges (ly_shown st) = drawEdges (ly_edges st) vb
        \<and> (\<exists>t. fr_dots (ly_shown st) = drawAnimatedDots (ly_animated st) vb t))"

definition layer_inv :: "'p Layer \<Rightarrow> bool" where
  "layer_inv st \<longleftrightarrow> (ly_mounted st \<longrightarrow>
     (if ly_visible st
      then shows_current st \<and> ly_drawn st = Some (ly_transform st) \<and> (ly_animated st = [] \<or> ly_frame st)
      else ly_timer st))"

lemma paint_current: "shows_current (paint now st)"
  by (auto simp: shows_current_def paint_def renderFrame_def Let_def)

lemma paint_sel [simp]:
  "ly_mounted (paint now st) = ly_mounted st" "ly_visible (paint now st) = ly_visible st"
  "ly_drawn (paint now st) = ly_drawn st" "ly_transform (paint now st) = ly_transform st"
  "ly_animated (paint now st) = ly_animated st" "ly_frame (paint now st) = ly_frame st"
  "ly_timer (paint now st) = ly_timer st" "ly_edges (paint now st) = ly_edges st"
  by (simp_all add: paint_def)

lemma redrawn_inv: "layer_inv (startAnimLoop (fullRedraw now st))"
  using paint_current [of now st]
  by (auto simp: layer_inv_def fullRedraw_def startAnimLoop_def shows_current_def paint_def)

lemma layer_step_inv: "layer_inv st \<Longrightarrow> layer_inv (layer_step mk st e)"
proof (cases e)
  case (NewEdges edges now)
  then show "layer_inv st \<Longrightarrow> ?thesis"
    by (simp add: layer_step_def new_edges_def Let_def redrawn_inv)
next
  case (SettleTimer now)
  then show "layer_inv st \<Longrightarrow> ?thesis" by (simp add: layer_step_def redrawn_inv)
next
  case (FrameTick now)
  then show "layer_inv st \<Longrightarrow> ?thesis" using paint_current [of now st]
    by (auto simp: layer_step_def layer_inv_def animTick_def shows_current_def paint_def)
next
  case (ContainerResize sz now)
  then show "layer_inv st \<Longrightarrow> ?thesis" using paint_current [of now "st\<lparr>ly_size := sz\<rparr>"]
    by (auto simp: layer_step_def layer_inv_def)
qed (auto simp: layer_step_def layer_inv_def Let_def shows_current_def)

interpretation layer: machine "layer_step mk" "\<lambda>_ _. True" layer_inv for mk
  by unfold_locales (rule layer_step_inv)

text \<open>What the layer was last given, read off the events alone.\<close>

fun last_edges :: "RFEdge list \<Rightarrow> layer_event list \<Rightarrow> RFEdge list" where
  "last_edges edges [] = edges"
| "last_edges edges (e # es) = last_edges (case e of NewEdges edges' now \<Rightarrow> edges' | _ \<Rightarrow> edges) es"

fun last_viewport :: "CanvasViewport \<Rightarrow> layer_event list \<Rightarrow> CanvasViewport" where
  "last_viewport vp [] = vp"
| "last_viewport vp (e # es) = last_viewport (case e of ViewportChange vp' \<Rightarrow> vp' | _ \<Rightarrow> vp) es"

fun last_size :: "real \<times> real \<Rightarrow> layer_event list \<Rightarrow> real \<times> real" where
  "last_size sz [] = sz"
| "last_size sz (e # es) = last_size (case e of ContainerResize sz' now \<Rightarrow> sz' | _ \<Rightarrow> sz) es"

definition layer_given :: "(string \<Rightarrow> 'p) \<Rightarrow> RFEdge list \<Rightarrow> CanvasViewport \<Rightarrow> real \<times> real \<Rightarrow> 'p Layer \<Rightarrow> bool" where
  "layer_given mk edges vp sz st \<longleftrightarrow> (ly_mounted st \<longrightarrow> ly_edges st = canvasEdges mk edges
     \<and> ly_animated st = animatedEdges edges \<and> ly_transform st = vp \<and> ly_size st = sz)"

lemma paint_size [simp]: "ly_size (paint now st) = ly_size st"
  by (simp add: paint_def)

lemma redraw_given [simp]:
  "layer_given mk edges vp sz (startAnimLoop (fullRedraw now st)) = layer_given mk edges vp sz st"
  by (simp add: layer_given_def startAnimLoop_def fullRedraw_def)

lemma layer_given_step:
  "layer_given mk edges vp sz st \<Longrightarrow>
    layer_given mk (last_edges edges [e]) (last_viewport vp [e]) (last_size sz [e]) (layer_step mk st e)"
  by (cases e) (auto simp: layer_step_def new_edges_def Let_def, auto simp: layer_given_def animTick_def)

lemma layer_given_run:
  "layer_given mk edges vp sz st \<Longrightarrow>
    layer_given mk (last_edges edges es) (last_viewport vp es) (last_size sz es) (run (layer_step mk) st es)"
proof (induction es arbitrary: edges vp sz st)
  case (Cons e es)
  from Cons.IH [OF layer_given_step [OF Cons.prems]] show ?case by (simp only: last_edges.simps
        last_viewport.simps last_size.simps run_simps)
qed simp

text \<open>
  C30. The canvas of a large graph, over any sequence of new edges, viewport changes, animation
  frames, timers and resizes: while it is mounted and visible it shows exactly the edges of the last
  new edges (or of the mount) and the moving dots of their animated ones, under the last viewport
  and at the last size, and its animation has a frame pending whenever one of them is animated;
  while it is hidden (panning or zooming) the timer that shows it again is pending. So no
  interleaving leaves it stale, frozen or hidden for good.
\<close>

theorem canvas_never_stale:
  assumes "st = run (layer_step mk) (layer_mount mk edges sz vp now) es" "ly_mounted st"
  shows "let cur = last_edges edges es; (w, h) = last_size sz es;
      vb = viewBounds (last_viewport vp es) w h in
    if ly_visible st
    then fr_viewport (ly_shown st) = last_viewport vp es \<and> fr_size (ly_shown st) = last_size sz es
      \<and> fr_edges (ly_shown st) = drawEdges (canvasEdges mk cur) vb
      \<and> (\<exists>t. fr_dots (ly_shown st) = drawAnimatedDots (animatedEdges cur) vb t)
      \<and> (animatedEdges cur = [] \<or> ly_frame st)
    else ly_timer st"
proof -
  have "layer_inv (layer_mount mk edges sz vp now)" "layer_given mk edges vp sz (layer_mount mk edges sz vp now)"
    by (simp_all add: layer_mount_def new_edges_def Let_def redrawn_inv) (simp add: layer_given_def)
  then have "layer_inv st" "layer_given mk (last_edges edges es) (last_viewport vp es) (last_size sz es) st"
    unfolding assms(1) by (auto intro: layer.run_inv layer_given_run)
  then show ?thesis using assms(2)
    by (simp add: layer_inv_def shows_current_def layer_given_def Let_def case_prod_unfold split: if_splits)
qed

definition sample_view :: "real \<Rightarrow> CanvasViewport" where
  "sample_view x = \<lparr>vp_tx = x, vp_ty = 0, vp_zoom = 1\<rparr>"

definition sample_pan :: "layer_event list" where
  "sample_pan = [ViewportChange (sample_view 10), NewEdges [] 5, ViewportChange (sample_view 20), SettleTimer 9]"

theorem canvas_never_stale_witness:
  "fr_viewport (ly_shown (run (layer_step id) (layer_mount id [] (800, 600) (sample_view 0) 0) sample_pan))
    = sample_view 20"
proof -
  let ?st = "run (layer_step id) (layer_mount id [] (800, 600) (sample_view 0) 0) sample_pan"
  have "ly_mounted ?st \<and> ly_visible ?st"
    by (simp add: sample_pan_def layer_mount_def new_edges_def Let_def layer_step_def startAnimLoop_def
        fullRedraw_def animatedEdges_def map_filter_simps sample_view_def)
  then show ?thesis
    using canvas_never_stale [OF refl, of id "[]" "(800, 600)" "sample_view 0" 0 sample_pan]
    by (simp add: sample_pan_def Let_def)
qed

end
