(* ===== verification/FlowCanvas.thy ===== *)
theory FlowCanvas
  imports Tables Filters Dashboard DetailPanel SwarmLinks RoleSummary GraphLayout
begin

text \<open>
  The shell that composes the components (\<^verbatim>\<open>components/FlowCanvas.tsx\<close>, with the scope
  \<^verbatim>\<open>App.tsx\<close> gives it and the grouping of \<^verbatim>\<open>hooks/useGroupBy.ts\<close>): the state its handlers share
  (scope, grouping, view, table tab, search, detail panel, selection, hovered service), one step
  per handler, and what it hands to the canvas. The lemmas show how the components fit together:
  the address bar reproduces the scope, a dashboard figure is the number of rows its drill-down
  opens, the table follows the panel, and every edge is drawn once.
\<close>

section \<open>The grouping in the URL\<close>

definition GROUP_PARAM :: string where
  "GROUP_PARAM = ''group''"

definition readGroupParam :: "(string \<times> string) list \<Rightarrow> group_by" where
  "readGroupParam ps = (if param_get ps GROUP_PARAM = Some ''node'' then ByNode else ByNetwork)"

definition setGroupBy :: "group_by \<Rightarrow> (string \<times> string) list \<Rightarrow> group_by \<times> (string \<times> string) list" where
  "setGroupBy mode ps =
     (mode, case mode of ByNode \<Rightarrow> param_set ps GROUP_PARAM ''node'' | ByNetwork \<Rightarrow> param_delete ps GROUP_PARAM)"

section \<open>State\<close>

datatype view_key = GraphView | TableTabs | DashboardView | LogsView

text \<open>
  The graph the server sent and the URL; the scope and grouping; the handlers' state; and the
  laid out nodes and edges on the canvas, with the grouping the viewport was last fitted to.
\<close>

record Shell =
  sl_graph :: GraphSnapshot
  sl_params :: "(string \<times> string) list"
  sl_stack :: "string option"
  sl_groupBy :: group_by
  sl_view :: view_key
  sl_tab :: resource_tab
  sl_search :: SearchFilter
  sl_detail :: DetailState
  sl_selection :: "SelectionState option"
  sl_hovered :: "string option"
  sl_nodes :: "RFNode list"
  sl_edges :: "RFEdge list"
  sl_fitted :: group_by

definition shell_open :: "(string \<times> string) list \<Rightarrow> Shell" where
  "shell_open params = \<lparr>sl_graph = \<lparr>gs_nodes = [], gs_edges = []\<rparr>, sl_params = params,
     sl_stack = readStackParam params, sl_groupBy = readGroupParam params, sl_view = GraphView,
     sl_tab = TabContainers, sl_search = search_initial, sl_detail = detail_closed, sl_selection = None,
     sl_hovered = None, sl_nodes = [], sl_edges = [], sl_fitted = ByNetwork\<rparr>"

text \<open>The scoped graph (\<open>dgNodes\<close> and \<open>dgEdges\<close>).\<close>

definition scope :: "Shell \<Rightarrow> GraphSnapshot" where
  "scope st = filterGraphByStack (sl_graph st) (sl_stack st)"

definition hasSwarmNodes :: "Shell \<Rightarrow> bool" where
  "hasSwarmNodes st = list_ex (\<lambda>n. dg_type n = SwarmNode) (gs_nodes (scope st))"

definition effectiveGroupBy :: "Shell \<Rightarrow> group_by" where
  "effectiveGroupBy st = (if hasSwarmNodes st then sl_groupBy st else ByNetwork)"

definition largeGraph :: "Shell \<Rightarrow> bool" where
  "largeGraph st \<longleftrightarrow> length (gs_nodes (scope st)) > ANIMATION_NODE_LIMIT"

definition hasVisibleNodes :: "Shell \<Rightarrow> bool" where
  "hasVisibleNodes st \<longleftrightarrow> effectiveGroupBy st = ByNode \<or>
     list_ex (\<lambda>n. dg_type n = Container \<or> dg_type n = Service \<or> dg_type n = Volume) (gs_nodes (scope st))"

text \<open>The message over the canvas.\<close>

datatype overlay = NoOverlay | Connecting | EmptyStack | NoContainers | ComputingLayout nat | LayoutFailed

definition showEmptyState :: "bool \<Rightarrow> Shell \<Rightarrow> bool" where
  "showEmptyState ready st \<longleftrightarrow> \<not> ready \<or> \<not> hasVisibleNodes st"

definition overlays :: "bool \<Rightarrow> bool \<Rightarrow> bool \<Rightarrow> Shell \<Rightarrow> overlay list" where
  "overlays ready busy failed st =
     (if showEmptyState ready st
      then [if \<not> ready then Connecting else if truthy (sl_stack st) then EmptyStack else NoContainers]
      else (if busy then [ComputingLayout (length (gs_nodes (scope st)))] else [])
           @ (if failed then [LayoutFailed] else []))"

section \<open>Handlers\<close>

text \<open>A panel opened on a node the canvas draws selects it there.\<close>

definition highlightOnCanvas :: "string \<Rightarrow> Shell \<Rightarrow> Shell" where
  "highlightOnCanvas canvasId st =
     (if list_ex (\<lambda>n. rf_id n = canvasId) (sl_nodes st)
      then st\<lparr>sl_selection := selection_step (sl_selection st) (SelectNode canvasId)\<rparr> else st)"

definition open_panel :: "string \<Rightarrow> string option \<Rightarrow> Shell \<Rightarrow> Shell" where
  "open_panel nodeId focusId st =
     (let (d, opened) = handleInfoClick nodeId focusId (sl_detail st)
      in foldl (\<lambda>st i. highlightOnCanvas i st) (st\<lparr>sl_detail := d\<rparr>) opened)"

definition navigate :: "string \<Rightarrow> Shell \<Rightarrow> Shell" where
  "navigate targetId st =
     (let (d, opened) = handleNavigate (gs_nodes (scope st)) (sl_nodes st) targetId (sl_detail st)
      in foldl (\<lambda>st i. highlightOnCanvas i st) (st\<lparr>sl_detail := d\<rparr>) opened)"

definition handleInspectRef :: "string \<Rightarrow> Shell \<Rightarrow> Shell" where
  "handleInspectRef r st = open_panel (resolveNodeRef (gs_nodes (scope st)) r None) None st"

definition openContainerInfo :: "string \<Rightarrow> Shell \<Rightarrow> Shell" where
  "openContainerInfo containerId st =
     open_panel (resolveNodeRef (gs_nodes (scope st)) (''container:'' @ containerId) None) None st"

definition close_panel :: "Shell \<Rightarrow> Shell" where
  "close_panel st = st\<lparr>sl_detail := closeDetail (sl_detail st)\<rparr>"

definition changeStack :: "string option \<Rightarrow> Shell \<Rightarrow> Shell" where
  "changeStack stack st =
     (if stack = sl_stack st then st
      else let (s, ps) = setSelectedStack stack (sl_params st)
           in (close_panel st)\<lparr>sl_stack := s, sl_params := ps\<rparr>)"

definition handleSelectStack :: "string \<Rightarrow> Shell \<Rightarrow> Shell" where
  "handleSelectStack stack st = (changeStack (Some stack) st)\<lparr>sl_view := GraphView\<rparr>"

definition handleResourceTab :: "resource_tab \<Rightarrow> Shell \<Rightarrow> Shell" where
  "handleResourceTab tab st =
     (let st1 = close_panel st
      in st1\<lparr>sl_search := search_step (sl_search st1) ClearAll, sl_tab := tab, sl_view := TableTabs\<rparr>)"

definition handleStatusFilter :: "string \<Rightarrow> resource_tab \<Rightarrow> Shell \<Rightarrow> Shell" where
  "handleStatusFilter status tab st =
     (let st1 = close_panel st;
          search = search_step (search_step (sl_search st1) ClearAll) (ToggleStatus status)
      in st1\<lparr>sl_search := search, sl_tab := tab, sl_view := TableTabs\<rparr>)"

text \<open>A click on a large graph may hit an edge of the canvas, which \<open>hit\<close> tells.\<close>

definition canvasEdgeHit :: "string option \<Rightarrow> Shell \<Rightarrow> RFEdge option" where
  "canvasEdgeHit hit st = (if \<not> largeGraph st \<or> \<not> truthy hit then None
     else find (\<lambda>e. Some (re_id e) = hit) (sl_edges st))"

definition handleNodeClick :: "string option \<Rightarrow> string \<Rightarrow> Shell \<Rightarrow> Shell" where
  "handleNodeClick hit nodeId st = st\<lparr>sl_selection := selection_step (sl_selection st)
     (case canvasEdgeHit hit st of Some e \<Rightarrow> EdgeClick (re_id e) | None \<Rightarrow> NodeClick nodeId)\<rparr>"

definition handlePaneClick :: "string option \<Rightarrow> Shell \<Rightarrow> Shell" where
  "handlePaneClick hit st = st\<lparr>sl_selection := selection_step (sl_selection st)
     (case canvasEdgeHit hit st of Some e \<Rightarrow> EdgeClick (re_id e) | None \<Rightarrow> PaneClick)\<rparr>"

definition handleNodeMouseEnter :: "RFNode \<Rightarrow> Shell \<Rightarrow> Shell" where
  "handleNodeMouseEnter n st =
     (if rf_type n = ''nodeServiceCard'' then st\<lparr>sl_hovered := card_service n\<rparr> else st)"

definition handleNodeMouseLeave :: "RFNode \<Rightarrow> Shell \<Rightarrow> Shell" where
  "handleNodeMouseLeave n st = (if rf_type n = ''nodeServiceCard'' then st\<lparr>sl_hovered := None\<rparr> else st)"

text \<open>The viewport is fitted once the layout of a newly chosen grouping has settled.\<close>

definition fit_effect :: "bool \<Rightarrow> Shell \<Rightarrow> Shell \<times> bool" where
  "fit_effect busy st =
     (if busy \<or> sl_fitted st = effectiveGroupBy st then (st, False)
      else (st\<lparr>sl_fitted := effectiveGroupBy st\<rparr>, True))"

text \<open>The table's effect: while it is shown, a selected resource opens its tab.\<close>

definition follow_selection :: "Shell \<Rightarrow> Shell \<Rightarrow> Shell" where
  "follow_selection before st =
     (if sl_view st = TableTabs \<and>
         (sl_view before \<noteq> TableTabs \<or> dp_detailNodeId (sl_detail st) \<noteq> dp_detailNodeId (sl_detail before))
      then st\<lparr>sl_tab := nullish (tabForSelection (dp_detailNodeId (sl_detail st))) (sl_tab st)\<rparr> else st)"

datatype shell_event =
  GraphArrived GraphSnapshot
| LayoutSettled "RFNode list" "RFEdge list"
| LayoutIdle bool
| GroupToggle group_by
| StackSelected "string option"
| StackDrill string
| StatusDrill string resource_tab
| TabDrill resource_tab
| ViewTab view_key
| TableTab resource_tab
| SearchInput search_event
| OpenInfo string "string option"
| InspectRef string
| LogTitle string
| PanelLink string
| PanelClose
| EscapePressed
| NodeClicked "string option" string
| EdgeClicked string
| PaneClicked "string option"
| NodeEnter RFNode
| NodeLeave RFNode

definition shell_handler :: "Shell \<Rightarrow> shell_event \<Rightarrow> Shell" where
  "shell_handler st e =
     (case e of
        GraphArrived g \<Rightarrow> st\<lparr>sl_graph := g\<rparr>
      | LayoutSettled ns es \<Rightarrow> st\<lparr>sl_nodes := ns, sl_edges := es\<rparr>
      | LayoutIdle busy \<Rightarrow> fst (fit_effect busy st)
      | GroupToggle m \<Rightarrow> (let (g, ps) = setGroupBy m (sl_params st) in st\<lparr>sl_groupBy := g, sl_params := ps\<rparr>)
      | StackSelected s \<Rightarrow> changeStack s st
      | StackDrill s \<Rightarrow> handleSelectStack s st
      | StatusDrill s tab \<Rightarrow> handleStatusFilter s tab st
      | TabDrill tab \<Rightarrow> handleResourceTab tab st
      | ViewTab v \<Rightarrow> st\<lparr>sl_view := v\<rparr>
      | TableTab tab \<Rightarrow> st\<lparr>sl_tab := tab\<rparr>
      | SearchInput s \<Rightarrow> st\<lparr>sl_search := search_step (sl_search st) s\<rparr>
      | OpenInfo i f \<Rightarrow> open_panel i f st
      | InspectRef r \<Rightarrow> handleInspectRef r st
      | LogTitle c \<Rightarrow> openContainerInfo c st
      | PanelLink t \<Rightarrow> navigate t st
      | PanelClose \<Rightarrow> close_panel st
      | EscapePressed \<Rightarrow>
          (if dp_detailNodeId (sl_detail st) \<noteq> None then close_panel st else st)
            \<lparr>sl_selection := selection_step (sl_selection st) EscapeKey\<rparr>
      | NodeClicked hit i \<Rightarrow> handleNodeClick hit i st
      | EdgeClicked i \<Rightarrow> st\<lparr>sl_selection := selection_step (sl_selection st) (SelectEdge i)\<rparr>
      | PaneClicked hit \<Rightarrow> handlePaneClick hit st
      | NodeEnter n \<Rightarrow> handleNodeMouseEnter n st
      | NodeLeave n \<Rightarrow> handleNodeMouseLeave n st)"

definition shell_step :: "Shell \<Rightarrow> shell_event \<Rightarrow> Shell" where
  "shell_step st e = follow_selection st (shell_handler st e)"

section \<open>What the canvas gets\<close>

text \<open>
  A node with live data: its stats, a card's stats per task and whether its service is hovered
  elsewhere, and what its info button opens (the panel's node and the node to centre on).
\<close>

record EnrichedNode =
  en_node :: RFNode
  en_stats :: "ContainerStatsData option"
  en_taskStats :: "(string, ContainerStatsData) jsmap"
  en_peerHover :: bool

definition live_node :: "RFNode \<Rightarrow> EnrichedNode" where
  "live_node n = \<lparr>en_node = n, en_stats = None, en_taskStats = [], en_peerHover = False\<rparr>"

definition task_stats :: "stats_map \<Rightarrow> NodeServiceCardData \<Rightarrow> (string, ContainerStatsData) jsmap" where
  "task_stats statsMap d =
     foldl (\<lambda>m t. case map_get statsMap (taskContainerName (nc_serviceName d) t) of
        None \<Rightarrow> m | Some s \<Rightarrow> map_set m (ti_id t) s) [] (nc_tasks d)"

definition enriched :: "stats_map \<Rightarrow> string option \<Rightarrow> RFNode \<Rightarrow> EnrichedNode" where
  "enriched statsMap hovered n =
     (case rf_data n of
        PlainData d \<Rightarrow>
          if rf_type n = ''containerNode'' \<or> rf_type n = ''serviceNode''
          then (live_node n)\<lparr>en_stats := map_get statsMap (dg_name d)\<rparr> else live_node n
      | BoxData d \<Rightarrow>
          (live_node n)\<lparr>en_stats :=
             (if ng_unassigned d then None else map_get statsMap (nodeStatsKey (dg_name (ng_dgNode d))))\<rparr>
      | CardData d \<Rightarrow>
          (live_node n)\<lparr>en_taskStats := task_stats statsMap d, en_peerHover := (hovered = Some (nc_serviceId d))\<rparr>
      | _ \<Rightarrow> live_node n)"

definition enrichedNodes :: "stats_map \<Rightarrow> Shell \<Rightarrow> EnrichedNode list" where
  "enrichedNodes statsMap st = map (enriched statsMap (sl_hovered st)) (sl_nodes st)"

text \<open>A service card's info button: the panel of its service, centred on the card.\<close>

definition card_info :: "Shell \<Rightarrow> RFNode \<Rightarrow> shell_event option" where
  "card_info st n = (case rf_data n of
     CardData d \<Rightarrow> Some (OpenInfo (resolveNodeRef (gs_nodes (scope st)) (nc_serviceId d) None) (Some (rf_id n)))
   | _ \<Rightarrow> None)"

definition controlLinks :: "collator \<Rightarrow> Shell \<Rightarrow> RFEdge list" where
  "controlLinks lc st =
     (if effectiveGroupBy st = ByNode then controlLinkEdges lc (gs_nodes (scope st)) else [])"

definition linkEdgesFor :: "collator \<Rightarrow> Shell \<Rightarrow> SelectionState option \<Rightarrow> RFEdge list" where
  "linkEdgesFor lc st sel =
     (if effectiveGroupBy st \<noteq> ByNode then []
      else let selected = (case sel of Some (SelectedNode i) \<Rightarrow> find (\<lambda>n. rf_id n = i) (sl_nodes st) | _ \<Rightarrow> None);
               serviceId = serviceIdOf selected
           in controlLinks lc st @ (if truthy serviceId
                then overlayLinkEdges (gs_nodes (scope st)) (gs_edges (scope st)) (sl_nodes st) (the serviceId)
                else []))"

definition highlighted :: "collator \<Rightarrow> bool \<Rightarrow> Shell \<Rightarrow> HighlightResult" where
  "highlighted lc isLowZoom st =
     highlight (linkEdgesFor lc st) (sl_selection st) (largeGraph st) isLowZoom
       (matchingNodeIds (sl_search st) (gs_nodes (scope st))) (sl_nodes st) (sl_edges st)"

text \<open>React Flow draws the styled edges of a small graph and the swarm links; the canvas the rest.\<close>

definition displayedEdges :: "bool \<Rightarrow> HighlightResult \<Rightarrow> RFEdge list" where
  "displayedEdges large h = (let base = (if large then [] else hr_styledEdges h) in
     if hr_linkEdges h \<noteq> [] then base @ hr_linkEdges h else base)"

text \<open>The figures of an open role group's panel.\<close>

definition roleSummary :: "collator \<Rightarrow> string option \<Rightarrow> stats_map \<Rightarrow> Shell \<Rightarrow> RoleSummary option" where
  "roleSummary lc localNodeId statsMap st =
     (case detail_variant_of (gs_nodes (scope st)) (dp_detailNodeId (sl_detail st)) of
        VRoleGroup role \<Rightarrow> Some (summarizeRole lc (gs_nodes (scope st)) role statsMap
          (boxTaskCounts lc (gs_nodes (scope st)) localNodeId))
      | _ \<Rightarrow> None)"

definition scopeNames :: "Shell \<Rightarrow> string list" where
  "scopeNames st = map dg_name (filter (\<lambda>n. dg_type n = Container \<or> dg_type n = Service) (gs_nodes (scope st)))"

text \<open>The rows of the table's tab, before sorting and grouping.\<close>

definition tab_rows :: "Shell \<Rightarrow> DGNode list" where
  "tab_rows st = tab_nodes (gs_nodes (scope st)) (matchingNodeIds (sl_search st) (gs_nodes (scope st))) (sl_tab st)"

section \<open>The address bar\<close>

lemma param_get_set: "param_get (param_set ps k v) k' = (if k' = k then Some v else param_get ps k')"
proof (induction ps)
  case (Cons p ps)
  have "k' \<noteq> k \<Longrightarrow> find (\<lambda>q. fst q = k') (param_delete ps k) = find (\<lambda>q. fst q = k') ps"
    unfolding param_delete_def by (induction ps) auto
  then show ?case using Cons by (auto simp: param_get_def)
qed (simp add: param_get_def)

lemma param_get_delete: "param_get (param_delete ps k) k' = (if k' = k then None else param_get ps k')"
  by (induction ps) (auto simp: param_get_def param_delete_def)

lemmas param_laws = param_get_set param_get_delete

definition url_ok :: "Shell \<Rightarrow> bool" where
  "url_ok st \<longleftrightarrow> readStackParam (sl_params st) = sl_stack st \<and> readGroupParam (sl_params st) = sl_groupBy st"

lemma read_set_stack:
  "setSelectedStack s ps = (x, qs) \<Longrightarrow> readStackParam qs = x \<and> readGroupParam qs = readGroupParam ps"
  by (auto simp: readStackParam_def readGroupParam_def setSelectedStack_def Let_def param_laws truthy_iff
      STACK_PARAM_def GROUP_PARAM_def split: option.splits if_splits)

lemma read_set_group:
  "setGroupBy m ps = (x, qs) \<Longrightarrow> readGroupParam qs = x \<and> readStackParam qs = readStackParam ps"
  by (auto simp: readStackParam_def readGroupParam_def setGroupBy_def param_laws
      STACK_PARAM_def GROUP_PARAM_def split: group_by.splits)

lemma open_panel_keeps [simp]:
  "sl_params (open_panel i f st) = sl_params st" "sl_stack (open_panel i f st) = sl_stack st"
  "sl_groupBy (open_panel i f st) = sl_groupBy st" "sl_graph (open_panel i f st) = sl_graph st"
  "sl_view (open_panel i f st) = sl_view st"
  by (simp_all add: open_panel_def handleInfoClick_def highlightOnCanvas_def Let_def)

lemma navigate_keeps [simp]:
  "sl_params (navigate t st) = sl_params st" "sl_stack (navigate t st) = sl_stack st"
  "sl_groupBy (navigate t st) = sl_groupBy st"
  by (simp_all add: navigate_def handleNavigate_def handleInfoClick_def highlightOnCanvas_def Let_def)

lemma url_step: "url_ok st \<Longrightarrow> url_ok (shell_step st e)"
proof -
  assume ok: "url_ok st"
  have same: "url_ok (shell_handler st e)" for e
    using ok by (cases e) (auto simp: shell_handler_def url_ok_def Let_def changeStack_def close_panel_def
      handleSelectStack_def handleStatusFilter_def handleResourceTab_def handleInspectRef_def openContainerInfo_def
      handleNodeClick_def handlePaneClick_def handleNodeMouseEnter_def handleNodeMouseLeave_def fit_effect_def
      dest!: read_set_stack read_set_group split: prod.split)
  show "url_ok (shell_step st e)"
    using same [of e] by (simp add: shell_step_def follow_selection_def url_ok_def)
qed

interpretation shell: machine shell_step "\<lambda>_ _. True" url_ok
  by unfold_locales (rule url_step)

text \<open>
  The address bar reproduces the view: whatever was clicked, selected, drilled into or
  received since the page was opened, opening the current URL in another tab gives the stack
  scope and the grouping the page has now; setting either parameter leaves the other alone.
\<close>

lemma reload_restores_scope:
  "let st = run shell_step (shell_open params) es; reopened = shell_open (sl_params st)
   in sl_stack reopened = sl_stack st \<and> sl_groupBy reopened = sl_groupBy st"
proof -
  have "url_ok (run shell_step (shell_open params) es)"
    by (rule shell.run_inv) (simp_all add: url_ok_def shell_open_def)
  then show ?thesis by (simp add: Let_def url_ok_def shell_open_def)
qed

section \<open>Drill-downs\<close>

lemma status_rows:
  assumes "distinct (map dg_id ns)"
    and "sf_debounced s = []" "sf_types s = []" "sf_statuses s = [status]"
  shows "tab_nodes ns (matchingNodeIds s ns) tab =
    filter (\<lambda>n. dg_type n = tab_type tab \<and> nullish (dg_status n) [] = status) ns"
proof -
  obtain ids where ids: "matchingNodeIds s ns = Some ids"
    using assms(4) by (simp add: matchingNodeIds_def hasActiveFilter_def)
  have "dg_id n \<in> set ids \<longleftrightarrow> nullish (dg_status n) [] = status" if "n \<in> set ns" for n
    using matching_ids [OF ids] that assms
    by (auto simp: node_matches_def image_iff distinct_map inj_on_def)
  then show ?thesis
    by (auto simp: tab_nodes_def ids filter_filter conj_commute intro!: filter_cong)
qed

lemma status_drill:
  "shell_step st (StatusDrill status tab) =
     (close_panel st)\<lparr>sl_search := (search_step (sl_search st) ClearAll)\<lparr>sf_statuses := [status]\<rparr>, sl_tab := tab,
       sl_view := TableTabs\<rparr>"
  by (simp add: shell_step_def shell_handler_def follow_selection_def handleStatusFilter_def Let_def
      close_panel_def closeDetail_def detail_closed_def tabForSelection_def search_step_def set_toggle_def)

lemma scope_drill [simp]: "scope (shell_step st (StatusDrill status tab)) = scope st"
  by (simp add: status_drill scope_def close_panel_def)

text \<open>
  C33. The dashboard and the table agree: clicking a status on the dashboard's summary closes the
  panel and opens the table on the workloads' tab with exactly the workloads of that status, as
  many as the clicked bar counts, in any order of columns and any grouping. It holds whatever was
  searched, selected or filtered before, on a graph with distinct ids whose workloads have a
  status.
\<close>

theorem drill_down_shows_counted:
  fixes st :: Shell and swarm :: bool
  defines "ns \<equiv> gs_nodes (scope st)"
    and "workload \<equiv> (if swarm then Service else Container)"
    and "tab \<equiv> (if swarm then TabServices else TabContainers)"
  assumes "distinct (map dg_id ns)" "\<forall>n\<in>set ns. dg_type n = workload \<longrightarrow> dg_status n \<noteq> None"
  shows "let st' = shell_step st (StatusDrill status tab);
             rows = table_rows lc (table_sort column) (table_grouping by_key) container_cells (tab_rows st')
         in sl_view st' = TableTabs \<and> sl_tab st' = tab \<and> dp_detailNodeId (sl_detail st') = None \<and>
            mset rows = mset (filter (\<lambda>n. dg_type n = workload \<and> dg_status n = Some status) ns) \<and>
            length rows = nullish (map_get (sy_counts (status_summary ns swarm)) status) 0"
proof -
  let ?st = "shell_step st (StatusDrill status tab)"
  let ?rows = "table_rows lc (table_sort column) (table_grouping by_key) container_cells (tab_rows ?st)"
  have "tab_rows ?st = filter (\<lambda>n. dg_type n = tab_type tab \<and> nullish (dg_status n) [] = status) ns"
    unfolding tab_rows_def scope_drill ns_def [symmetric]
    by (subst status_rows) (use assms(4) in \<open>simp_all add: status_drill search_step_def\<close>)
  also have "\<dots> = filter (\<lambda>n. dg_type n = workload \<and> dg_status n = Some status) ns"
    by (rule filter_cong) (use assms(5) in \<open>auto simp: tab_def workload_def nullish_def split: option.splits\<close>)
  finally have rows: "tab_rows ?st = filter (\<lambda>n. dg_type n = workload \<and> dg_status n = Some status) ns" .
  then have shown: "mset ?rows = mset (filter (\<lambda>n. dg_type n = workload \<and> dg_status n = Some status) ns)"
    by (simp add: table_rows_shown isCollapsed_def table_grouping_def)
  have "filter (\<lambda>n. nullish (dg_status n) ''not_running'' = status) (filter (\<lambda>n. dg_type n = workload) ns) =
      filter (\<lambda>n. dg_type n = workload \<and> dg_status n = Some status) ns"
    unfolding filter_filter
    by (rule filter_cong) (use assms(5) in \<open>auto simp: nullish_def split: option.splits\<close>)
  then have "length ?rows = nullish (map_get (sy_counts (status_summary ns swarm)) status) 0"
    using mset_eq_length [OF shown] by (simp add: status_summary_def Let_def count_status_get workload_def)
  then show ?thesis using shown
    by (simp add: Let_def status_drill close_panel_def closeDetail_def detail_closed_def)
qed

definition sample_shell :: Shell where
  "sample_shell = (shell_open [])\<lparr>sl_graph := \<lparr>gs_nodes = [status_node ''web'' ''running'',
     status_node ''job'' ''exited''], gs_edges = []\<rparr>\<rparr>"

lemma sample_scope: "gs_nodes (scope sample_shell) = [status_node ''web'' ''running'', status_node ''job'' ''exited'']"
  by (simp add: scope_def sample_shell_def shell_open_def readStackParam_def param_get_def filterGraphByStack_def)

theorem drill_down_shows_counted_witness:
  "mset (table_rows code_unit_compare (table_sort ''name'') (table_grouping GroupCompose) container_cells
     (tab_rows (shell_step sample_shell (StatusDrill ''running'' TabContainers)))) = {# status_node ''web'' ''running'' #}"
  using drill_down_shows_counted [of sample_shell False "''running''" code_unit_compare "''name''" GroupCompose]
  unfolding sample_scope by (simp add: Let_def status_node_def)

text \<open>A closed panel asks the API for nothing, and changing the stack closes it.\<close>

lemma stack_change_closes:
  assumes "s \<noteq> sl_stack st"
  shows "detail_variant_of ns (dp_detailNodeId (sl_detail (shell_step st (StackSelected s)))) = VNone"
proof -
  have "sl_detail (changeStack s st) = detail_closed"
    using assms by (simp add: changeStack_def close_panel_def closeDetail_def split: prod.split)
  then have "dp_detailNodeId (sl_detail (shell_step st (StackSelected s))) = None"
    by (simp add: shell_step_def shell_handler_def follow_selection_def detail_closed_def)
  then show ?thesis by (simp add: detail_variant_of_def)
qed

text \<open>Opening a panel selects what it shows exactly when the canvas draws it.\<close>

lemma opened_selected:
  "sl_selection (open_panel i f st) =
     (if nullish f i \<in> rf_id ` set (sl_nodes st) then Some (SelectedNode (nullish f i)) else sl_selection st)"
  by (auto simp: open_panel_def handleInfoClick_def highlightOnCanvas_def Let_def list_ex_iff image_iff)

text \<open>While the table is shown, the tab follows the resource whose panel opens.\<close>

lemma table_follows_panel:
  assumes "sl_view st = TableTabs" "n \<in> set ns" "id_of_type n" "dg_type n \<noteq> SwarmNode"
    and "dp_detailNodeId (sl_detail st) \<noteq> Some (dg_id n)"
  shows "n \<in> set (tab_nodes ns None (sl_tab (shell_step st (OpenInfo (dg_id n) f))))"
proof -
  obtain tab where "tabForSelection (Some (dg_id n)) = Some tab" "n \<in> set (tab_nodes ns None tab)"
    using selected_in_tab [OF assms(2-4)] by blast
  then show ?thesis using assms(1,5)
    by (simp add: shell_step_def shell_handler_def follow_selection_def open_panel_def handleInfoClick_def
        highlightOnCanvas_def Let_def)
qed

text \<open>Every edge is drawn once: by the canvas on a large graph, by React Flow otherwise.\<close>

lemma edges_drawn_once:
  "map re_id (hr_canvasEdges (highlighted lc low st) @ displayedEdges (largeGraph st) (highlighted lc low st)) =
     map re_id (sl_edges st @ hr_linkEdges (highlighted lc low st))"
  by (auto simp: highlighted_def highlight_def displayedEdges_def styleEdgesForSelection_def Let_def comp_def
      split: option.split)

text \<open>A click on the canvas toggles the edge under it on a large graph, and only there.\<close>

lemma canvas_click:
  assumes "largeGraph st" "e \<in> set (sl_edges st)" "re_id e \<noteq> []" "sl_selection st \<noteq> Some (SelectedEdge (re_id e))"
  shows "sl_selection (handleNodeClick (Some (re_id e)) i st) = Some (SelectedEdge (re_id e))"
proof -
  have "find (\<lambda>x. Some (re_id x) = Some (re_id e)) (sl_edges st) \<noteq> None"
    using assms(2) by (auto simp: find_None_iff)
  then obtain x where x: "find (\<lambda>x. Some (re_id x) = Some (re_id e)) (sl_edges st) = Some x" by blast
  then have "re_id x = re_id e" by (auto simp: find_Some_iff)
  then show ?thesis using assms(1,3,4) x by (simp add: handleNodeClick_def canvasEdgeHit_def)
qed

end
