(* ===== verification/StackSelector.thy ===== *)
theory StackSelector
  imports Stack
begin

text \<open>
  The header's stack dropdown (\<^verbatim>\<open>components/StackSelector.tsx\<close>): its options and its keyboard and
  mouse behaviour as a state machine over the list it is given at each event, with where the
  focus is. The lemmas show that every stack can be chosen by keyboard alone, that whatever is
  chosen is an option of the list, and what happens when the list shrinks under the highlight.
\<close>

section \<open>Options\<close>

record StackOption =
  so_key :: "string option"
  so_label :: string
  so_running :: nat
  so_total :: nat

definition stackLabel :: "string \<Rightarrow> string" where
  "stackLabel name = (if name = STANDALONE_STACK then ''Standalone'' else name)"

definition hasNamedStack :: "StackSummary list \<Rightarrow> bool" where
  "hasNamedStack stacks = list_ex (\<lambda>s. ss_name s \<noteq> STANDALONE_STACK) stacks"

definition selector_hidden :: "StackSummary list \<Rightarrow> string option \<Rightarrow> bool" where
  "selector_hidden stacks selected \<longleftrightarrow> \<not> hasNamedStack stacks \<and> \<not> truthy selected"

definition all_option :: "StackSummary list \<Rightarrow> StackOption" where
  "all_option stacks = \<lparr>so_key = None, so_label = ''All stacks'',
     so_running = foldl (\<lambda>n s. n + ss_running s) 0 stacks, so_total = foldl (\<lambda>n s. n + ss_total s) 0 stacks\<rparr>"

definition stack_options :: "StackSummary list \<Rightarrow> string option \<Rightarrow> StackOption list" where
  "stack_options stacks selected =
     all_option stacks
     # map (\<lambda>s. \<lparr>so_key = Some (ss_name s), so_label = stackLabel (ss_name s), so_running = ss_running s,
                  so_total = ss_total s\<rparr>) stacks
     @ (if truthy selected \<and> \<not> list_ex (\<lambda>s. Some (ss_name s) = selected) stacks
        then [\<lparr>so_key = selected, so_label = stackLabel (the selected), so_running = 0, so_total = 0\<rparr>] else [])"

definition active_option :: "StackSummary list \<Rightarrow> string option \<Rightarrow> StackOption" where
  "active_option stacks selected =
     nullish (find (\<lambda>o1. so_key o1 = selected) (stack_options stacks selected)) (all_option stacks)"

definition selectedIndex :: "StackSummary list \<Rightarrow> string option \<Rightarrow> nat" where
  "selectedIndex stacks selected = nullish (find_index (\<lambda>o1. so_key o1 = selected) (stack_options stacks selected)) 0"

section \<open>Behaviour\<close>

datatype selector_focus = FocusTrigger | FocusList | FocusElsewhere

record Selector =
  sx_open :: bool
  sx_active :: nat
  sx_focus :: selector_focus

definition selector_initial :: Selector where
  "selector_initial = \<lparr>sx_open = False, sx_active = 0, sx_focus = FocusElsewhere\<rparr>"

datatype list_key = KeyDown | KeyUp | KeyHome | KeyEnd | KeyEnter | KeySpace | KeyEscape | KeyTab | KeyOther

datatype selector_event =
  TriggerClick
| TriggerKey list_key
| ListKey list_key
| OptionHover nat
| OptionClick nat
| OutsideMouseDown

text \<open>Opening moves the focus into the list (an effect).\<close>

definition openList :: "nat \<Rightarrow> Selector \<Rightarrow> Selector" where
  "openList idx st = st\<lparr>sx_active := idx, sx_open := True, sx_focus := FocusList\<rparr>"

definition close_list :: "bool \<Rightarrow> selector_focus \<Rightarrow> Selector \<Rightarrow> Selector" where
  "close_list refocus otherwise st = st\<lparr>sx_open := False, sx_focus := (if refocus then FocusTrigger else otherwise)\<rparr>"

text \<open>The option chosen, with the call of \<open>onSelect\<close>.\<close>

definition choose_option :: "StackOption list \<Rightarrow> nat \<Rightarrow> Selector \<Rightarrow> Selector \<times> string option list" where
  "choose_option options index st = (close_list True FocusTrigger st, [so_key (options ! index)])"

definition handleListKey :: "StackOption list \<Rightarrow> list_key \<Rightarrow> Selector \<Rightarrow> Selector \<times> string option list" where
  "handleListKey options k st =
     (let end_index = length options - 1 in
      case k of
        KeyDown \<Rightarrow> (st\<lparr>sx_active := min end_index (sx_active st + 1)\<rparr>, [])
      | KeyUp \<Rightarrow> (st\<lparr>sx_active := sx_active st - 1\<rparr>, [])
      | KeyHome \<Rightarrow> (st\<lparr>sx_active := 0\<rparr>, [])
      | KeyEnd \<Rightarrow> (st\<lparr>sx_active := end_index\<rparr>, [])
      | KeyEnter \<Rightarrow> choose_option options (min (sx_active st) end_index) st
      | KeySpace \<Rightarrow> choose_option options (min (sx_active st) end_index) st
      | KeyEscape \<Rightarrow> (close_list True FocusTrigger st, [])
      | KeyTab \<Rightarrow> (close_list False FocusElsewhere st, [])
      | KeyOther \<Rightarrow> (st, []))"

text \<open>
  A step on the stacks and the selection at that moment: the new state and the calls of
  \<open>onSelect\<close>. Enter and Space on the trigger are the button's own clicks.
\<close>

definition selector_step :: "StackSummary list \<Rightarrow> string option \<Rightarrow> Selector \<Rightarrow> selector_event \<Rightarrow>
    Selector \<times> string option list" where
  "selector_step stacks selected st e =
     (let options = stack_options stacks selected;
          click = (if sx_open st then close_list False FocusTrigger st else openList (selectedIndex stacks selected) st)
      in if selector_hidden stacks selected then (st, [])
         else case e of
           TriggerClick \<Rightarrow> (click, [])
         | TriggerKey k \<Rightarrow>
             (if k = KeyDown \<or> k = KeyUp then openList (selectedIndex stacks selected) st
              else if k = KeyEnter \<or> k = KeySpace then click else st, [])
         | ListKey k \<Rightarrow> if sx_open st then handleListKey options k st else (st, [])
         | OptionHover i \<Rightarrow> (if sx_open st \<and> i < length options then st\<lparr>sx_active := i\<rparr> else st, [])
         | OptionClick i \<Rightarrow> if sx_open st \<and> i < length options then choose_option options i st else (st, [])
         | OutsideMouseDown \<Rightarrow> (if sx_open st then close_list False FocusElsewhere st else st, []))"

fun selector_run :: "StackSummary list \<Rightarrow> string option \<Rightarrow> Selector \<Rightarrow> selector_event list \<Rightarrow>
    Selector \<times> string option list" where
  "selector_run stacks selected st [] = (st, [])"
| "selector_run stacks selected st (e # es) =
     (let (st1, calls) = selector_step stacks selected st e; (st2, more) = selector_run stacks selected st1 es
      in (st2, calls @ more))"

section \<open>What can be chosen\<close>

lemma options_nonempty [simp]: "stack_options stacks selected \<noteq> []"
  by (simp add: stack_options_def)

lemma options_length [simp]: "0 < length (stack_options stacks selected)"
  by simp

lemma option_keys:
  "set (map so_key (stack_options stacks selected)) = {None} \<union> Some ` ss_name ` set stacks \<union>
     (if truthy selected then {selected} else {})"
  by (auto simp: stack_options_def all_option_def list_ex_iff)

text \<open>The selection itself is always listed, so the trigger names it and opens on it.\<close>

lemma selected_listed:
  assumes "selected \<noteq> Some []"
  shows "so_key (stack_options stacks selected ! selectedIndex stacks selected) = selected"
    "selectedIndex stacks selected < length (stack_options stacks selected)"
proof -
  have "selected \<in> set (map so_key (stack_options stacks selected))"
    using assms unfolding option_keys by (cases selected) auto
  then obtain i where "find_index (\<lambda>o1. so_key o1 = selected) (stack_options stacks selected) = Some i"
    by (cases "find_index (\<lambda>o1. so_key o1 = selected) (stack_options stacks selected)")
      (auto simp: find_index_None)
  then show "so_key (stack_options stacks selected ! selectedIndex stacks selected) = selected"
    "selectedIndex stacks selected < length (stack_options stacks selected)"
    by (auto simp: selectedIndex_def dest: find_index_Some)
qed

lemma chosen_listed:
  "set (snd (selector_step stacks selected st e)) \<subseteq> set (map so_key (stack_options stacks selected))"
proof -
  have "min i (length (stack_options stacks selected) - 1) < length (stack_options stacks selected)" for i
    using options_length [of stacks selected] by linarith
  then show ?thesis
    by (auto simp: selector_step_def choose_option_def handleListKey_def Let_def split: selector_event.splits list_key.splits)
qed

text \<open>While the list is open it has the focus, and closing it by a key but Tab gives it back.\<close>

definition selector_inv :: "Selector \<Rightarrow> bool" where
  "selector_inv st \<longleftrightarrow> (sx_open st \<longleftrightarrow> sx_focus st = FocusList)"

lemma selector_step_inv: "selector_inv st \<Longrightarrow> selector_inv (fst (selector_step stacks selected st e))"
  by (cases e) (auto simp: selector_inv_def selector_step_def openList_def close_list_def choose_option_def
      handleListKey_def Let_def split: list_key.split)

interpretation selector: machine "\<lambda>st (stacks, selected, e). fst (selector_step stacks selected st e)" "\<lambda>_ _. True" selector_inv
  by unfold_locales (auto intro: selector_step_inv)

lemma arrow_downs:
  "sx_open st \<Longrightarrow> \<not> selector_hidden stacks selected \<Longrightarrow> sx_active st + n < length (stack_options stacks selected) \<Longrightarrow>
   selector_run stacks selected st (replicate n (ListKey KeyDown) @ es) =
     selector_run stacks selected (st\<lparr>sx_active := sx_active st + n\<rparr>) es"
proof (induction n arbitrary: st)
  case (Suc n)
  then show ?case
    using Suc.IH [of "st\<lparr>sx_active := sx_active st + 1\<rparr>"]
    by (simp add: selector_step_def handleListKey_def Let_def)
qed simp

text \<open>
  Every option can be chosen by keyboard alone: from the closed list, an arrow on the trigger,
  Home, as many arrows as its position and Enter call \<open>onSelect\<close> with that option, once, close
  the list and return the focus to the trigger.
\<close>

lemma keyboard_reaches_all:
  assumes "\<not> selector_hidden stacks selected" "i < length (stack_options stacks selected)"
  shows "let r = selector_run stacks selected st
           ([TriggerKey KeyDown, ListKey KeyHome] @ replicate i (ListKey KeyDown) @ [ListKey KeyEnter])
         in snd r = [so_key (stack_options stacks selected ! i)] \<and> \<not> sx_open (fst r) \<and> sx_focus (fst r) = FocusTrigger"
proof -
  let ?opened = "openList 0 st" and ?n = "length (stack_options stacks selected)"
  have "min i (?n - 1) = i" using assms(2) by linarith
  then have entered: "selector_step stacks selected (?opened\<lparr>sx_active := i\<rparr>) (ListKey KeyEnter) =
      (close_list True FocusTrigger (?opened\<lparr>sx_active := i\<rparr>), [so_key (stack_options stacks selected ! i)])"
    using assms(1) by (simp add: selector_step_def handleListKey_def openList_def choose_option_def)
  have "selector_run stacks selected ?opened (replicate i (ListKey KeyDown) @ [ListKey KeyEnter]) =
      (close_list True FocusTrigger (?opened\<lparr>sx_active := i\<rparr>), [so_key (stack_options stacks selected ! i)])"
    using arrow_downs [of ?opened stacks selected i "[ListKey KeyEnter]"] assms entered by (simp add: openList_def)
  moreover have "selector_step stacks selected st (TriggerKey KeyDown) = (openList (selectedIndex stacks selected) st, [])"
    "selector_step stacks selected (openList (selectedIndex stacks selected) st) (ListKey KeyHome) = (?opened, [])"
    using assms(1) by (simp_all add: selector_step_def handleListKey_def openList_def)
  ultimately show ?thesis by (simp add: Let_def close_list_def)
qed

text \<open>
  When stacks go away under an open list, the highlight can point past its end: nothing is
  highlighted, and Enter still chooses the last option.
\<close>

lemma stale_highlight:
  assumes "sx_open st" "\<not> selector_hidden stacks selected" "length (stack_options stacks selected) \<le> sx_active st"
  shows "snd (selector_step stacks selected st (ListKey KeyEnter)) = [so_key (last (stack_options stacks selected))]"
proof -
  have "min (sx_active st) (length (stack_options stacks selected) - 1) = length (stack_options stacks selected) - 1"
    using assms(3) by linarith
  then show ?thesis using assms(1,2)
    by (simp add: selector_step_def handleListKey_def choose_option_def Let_def last_conv_nth)
qed

end
