(* ===== verification/LinkEdges.thy ===== *)
theory LinkEdges
  imports CanvasEdges SwarmLinks
begin

text \<open>
  The edges React Flow draws itself: the swarm links of the per-node view
  (\<^verbatim>\<open>components/SwarmLinkEdge.tsx\<close>), whose ends are computed from the live node rectangles, and
  the SVG edges of a small graph (\<^verbatim>\<open>components/ElkEdge.tsx\<close>). The library's bezier path is not
  modelled, only the points and sides it is given. The lemmas show that a link leaves each
  rectangle on its border, on the line between the centres, and that the SVG edge and the canvas
  draw an edge alike.
\<close>

section \<open>Floating ends\<close>

record NodeRect =
  nr_x :: real
  nr_y :: real
  nr_w :: real
  nr_h :: real

definition rectOf :: "Point \<Rightarrow> real option \<times> real option \<Rightarrow> real option \<times> real option \<Rightarrow> NodeRect" where
  "rectOf positionAbsolute measured given =
     \<lparr>nr_x = px positionAbsolute, nr_y = py positionAbsolute,
      nr_w = nullish (fst measured) (nullish (fst given) 0), nr_h = nullish (snd measured) (nullish (snd given) 0)\<rparr>"

definition center_of :: "NodeRect \<Rightarrow> Point" where
  "center_of r = \<lparr>px = nr_x r + nr_w r / 2, py = nr_y r + nr_h r / 2\<rparr>"

definition intersection :: "NodeRect \<Rightarrow> NodeRect \<Rightarrow> Point" where
  "intersection a b =
     (let w = nr_w a / 2; h = nr_h a / 2; cx = nr_x a + w; cy = nr_y a + h
      in if w = 0 \<or> h = 0 then \<lparr>px = cx, py = cy\<rparr>
         else let dx = nr_x b + nr_w b / 2 - cx; dy = nr_y b + nr_h b / 2 - cy;
                  xx1 = dx / (2 * w) - dy / (2 * h); yy1 = dx / (2 * w) + dy / (2 * h);
                  s = \<bar>xx1\<bar> + \<bar>yy1\<bar>; k = 1 / (if s = 0 then 1 else s);
                  xx3 = k * xx1; yy3 = k * yy1
              in \<lparr>px = w * (xx3 + yy3) + cx, py = h * (- xx3 + yy3) + cy\<rparr>)"

datatype side = LeftSide | RightSide | TopSide | BottomSide

definition sideOf :: "NodeRect \<Rightarrow> Point \<Rightarrow> side" where
  "sideOf r p =
     (let x = math_round (px p); y = math_round (py p)
      in if x \<le> math_round (nr_x r) + 1 then LeftSide
         else if x \<ge> math_round (nr_x r + nr_w r) - 1 then RightSide
         else if y \<le> math_round (nr_y r) + 1 then TopSide
         else BottomSide)"

text \<open>The point lies on the border: within the rectangle, at one of its four sides.\<close>

definition on_border :: "NodeRect \<Rightarrow> Point \<Rightarrow> bool" where
  "on_border r p \<longleftrightarrow> nr_x r \<le> px p \<and> px p \<le> nr_x r + nr_w r \<and> nr_y r \<le> py p \<and> py p \<le> nr_y r + nr_h r \<and>
     (px p = nr_x r \<or> px p = nr_x r + nr_w r \<or> py p = nr_y r \<or> py p = nr_y r + nr_h r)"

lemma abs_sum_max: "\<bar>u - v\<bar> + \<bar>u + v\<bar> = 2 * max \<bar>u\<bar> \<bar>v\<bar>" for u v :: real
  by (auto simp: abs_if max_def)

text \<open>The formula is the ray from the centre, scaled to the border.\<close>

lemma intersection_ray:
  assumes "nr_w a > 0" "nr_h a > 0" "center_of a \<noteq> center_of b"
  defines "dx \<equiv> px (center_of b) - px (center_of a)" and "dy \<equiv> py (center_of b) - py (center_of a)"
  defines "m \<equiv> max (\<bar>dx\<bar> / (nr_w a / 2)) (\<bar>dy\<bar> / (nr_h a / 2))"
  shows "m > 0" "intersection a b = \<lparr>px = px (center_of a) + dx / m, py = py (center_of a) + dy / m\<rparr>"
proof -
  let ?u = "dx / nr_w a" and ?v = "dy / nr_h a"
  have nz: "dx \<noteq> 0 \<or> dy \<noteq> 0" using assms(3) by (auto simp: dx_def dy_def center_of_def)
  have m: "\<bar>?u - ?v\<bar> + \<bar>?u + ?v\<bar> = m"
    unfolding abs_sum_max using assms(1,2) by (simp add: m_def abs_divide max_def field_simps)
  show pos: "m > 0" using nz assms(1,2) by (auto simp: m_def less_max_iff_disj)
  have d: "dx = nr_x b + nr_w b / 2 - (nr_x a + nr_w a / 2)" "dy = nr_y b + nr_h b / 2 - (nr_y a + nr_h a / 2)"
    by (simp_all add: dx_def dy_def center_of_def)
  have "intersection a b = \<lparr>px = nr_w a / 2 * (1 / m * (?u - ?v) + 1 / m * (?u + ?v)) + (nr_x a + nr_w a / 2),
      py = nr_h a / 2 * (- (1 / m * (?u - ?v)) + 1 / m * (?u + ?v)) + (nr_y a + nr_h a / 2)\<rparr>"
    using assms(1,2) pos m by (simp add: intersection_def Let_def d [symmetric])
  also have "\<dots> = \<lparr>px = px (center_of a) + dx / m, py = py (center_of a) + dy / m\<rparr>"
    using assms(1,2) pos by (simp add: center_of_def field_simps)
  finally show "intersection a b = \<lparr>px = px (center_of a) + dx / m, py = py (center_of a) + dy / m\<rparr>" .
qed

text \<open>
  A link leaves the rectangle on its border, where the line between the centres crosses it; when
  the other centre is outside, that point lies between the two centres.
\<close>

lemma link_leaves_border:
  assumes "nr_w a > 0" "nr_h a > 0" "center_of a \<noteq> center_of b"
  shows "on_border a (intersection a b)"
    and "\<exists>t>0. intersection a b = interpolate (center_of a) (center_of b) t"
proof -
  define dx where "dx = px (center_of b) - px (center_of a)"
  define dy where "dy = py (center_of b) - py (center_of a)"
  define m where "m = max (\<bar>dx\<bar> / (nr_w a / 2)) (\<bar>dy\<bar> / (nr_h a / 2))"
  note ray = intersection_ray [OF assms, folded dx_def dy_def, folded m_def]
  have "\<bar>dx\<bar> / (nr_w a / 2) \<le> m" "\<bar>dy\<bar> / (nr_h a / 2) \<le> m"
    and eq: "\<bar>dx\<bar> / (nr_w a / 2) = m \<or> \<bar>dy\<bar> / (nr_h a / 2) = m"
    by (auto simp: m_def)
  then have in_x: "\<bar>dx / m\<bar> \<le> nr_w a / 2" and in_y: "\<bar>dy / m\<bar> \<le> nr_h a / 2"
    using assms(1,2) ray(1) by (simp_all add: abs_divide field_simps)
  have "\<bar>dx / m\<bar> = nr_w a / 2 \<or> \<bar>dy / m\<bar> = nr_h a / 2"
    using eq assms(1,2) ray(1) by (auto simp: abs_divide field_simps)
  then have sides: "dx / m = nr_w a / 2 \<or> dx / m = - (nr_w a / 2) \<or> dy / m = nr_h a / 2 \<or> dy / m = - (nr_h a / 2)"
    by linarith
  have within: "- (nr_w a / 2) \<le> dx / m" "dx / m \<le> nr_w a / 2" "- (nr_h a / 2) \<le> dy / m" "dy / m \<le> nr_h a / 2"
    using in_x in_y by linarith+
  define p where "p = dx / m"
  define q where "q = dy / m"
  show "on_border a (intersection a b)"
    unfolding ray(2) on_border_def center_of_def Point.simps p_def [symmetric] q_def [symmetric]
    using sides [folded p_def q_def] within [folded p_def q_def] by (intro conjI) linarith+
  have "intersection a b = interpolate (center_of a) (center_of b) (1 / m)"
    by (simp add: ray(2) interpolate_def dx_def dy_def)
  then show "\<exists>t>0. intersection a b = interpolate (center_of a) (center_of b) t" using ray(1) by (intro exI [of _ "1 / m"]) simp
qed

lemma link_between_centers:
  assumes "nr_w a > 0" "nr_h a > 0"
    and "\<bar>px (center_of b) - px (center_of a)\<bar> \<ge> nr_w a / 2 \<or> \<bar>py (center_of b) - py (center_of a)\<bar> \<ge> nr_h a / 2"
  shows "\<exists>t. 0 < t \<and> t \<le> 1 \<and> intersection a b = interpolate (center_of a) (center_of b) t"
proof -
  define m where "m = max (\<bar>px (center_of b) - px (center_of a)\<bar> / (nr_w a / 2))
    (\<bar>py (center_of b) - py (center_of a)\<bar> / (nr_h a / 2))"
  have ne: "center_of a \<noteq> center_of b" using assms by auto
  have "1 \<le> m" using assms by (auto simp: m_def le_max_iff_disj field_simps)
  moreover have "intersection a b = interpolate (center_of a) (center_of b) (1 / m)"
    by (simp add: intersection_ray(2) [OF assms(1,2) ne] m_def interpolate_def)
  ultimately show ?thesis by (intro exI [of _ "1 / m"]) (simp add: field_simps)
qed

text \<open>The tangent's side is the one the point lies on, two pixels away from the corners.\<close>

lemma side_of_border:
  "px p = nr_x r \<Longrightarrow> sideOf r p = LeftSide"
  "px p = nr_x r + nr_w r \<Longrightarrow> nr_w r \<ge> 3 \<Longrightarrow> sideOf r p = RightSide"
  "nr_x r + 3 \<le> px p \<Longrightarrow> px p \<le> nr_x r + nr_w r - 3 \<Longrightarrow> py p = nr_y r \<Longrightarrow> sideOf r p = TopSide"
  "nr_x r + 3 \<le> px p \<Longrightarrow> px p \<le> nr_x r + nr_w r - 3 \<Longrightarrow> py p = nr_y r + nr_h r \<Longrightarrow> nr_h r \<ge> 3 \<Longrightarrow>
     sideOf r p = BottomSide"
proof -
  have apart: "math_round x + 1 < math_round y" if "x + 3 \<le> y" for x y
    using math_round_close [of x] math_round_close [of y] that by linarith
  show "px p = nr_x r \<Longrightarrow> sideOf r p = LeftSide" by (simp add: sideOf_def Let_def)
  show "px p = nr_x r + nr_w r \<Longrightarrow> nr_w r \<ge> 3 \<Longrightarrow> sideOf r p = RightSide"
    using apart [of "nr_x r" "nr_x r + nr_w r"] by (simp add: sideOf_def Let_def)
  assume x: "nr_x r + 3 \<le> px p" "px p \<le> nr_x r + nr_w r - 3"
  note inside = apart [OF x(1)] apart [of "px p" "nr_x r + nr_w r"]
  show "py p = nr_y r \<Longrightarrow> sideOf r p = TopSide" using inside x(2) by (simp add: sideOf_def Let_def)
  show "py p = nr_y r + nr_h r \<Longrightarrow> nr_h r \<ge> 3 \<Longrightarrow> sideOf r p = BottomSide"
    using inside x(2) apart [of "nr_y r" "nr_y r + nr_h r"] by (simp add: sideOf_def Let_def)
qed

section \<open>A swarm link\<close>

text \<open>What a link draws besides its path: colour, dashes, the moving arrow's duration, its title or label.\<close>

record LinkView =
  lv_from :: "Point \<times> side"
  lv_to :: "Point \<times> side"
  lv_stroke :: string
  lv_opacity :: real
  lv_dashed :: bool
  lv_arrow :: "real option"
  lv_text :: "string option"

definition SWARM_CONTROL_PORT :: nat where
  "SWARM_CONTROL_PORT = 2377"

definition swarm_link_view :: "string \<Rightarrow> (string, string) jsmap \<Rightarrow> RFEdge \<Rightarrow> NodeRect option \<Rightarrow> NodeRect option \<Rightarrow>
    LinkView option" where
  "swarm_link_view signal cache e source target =
     (case (source, target) of
        (Some s, Some t) \<Rightarrow>
          let sp = intersection s t; tp = intersection t s;
              view = \<lparr>lv_from = (sp, sideOf s sp), lv_to = (tp, sideOf t tp), lv_stroke = [],
                lv_opacity = nullish (re_opacity e) 1, lv_dashed = False, lv_arrow = None, lv_text = None\<rparr>
          in (case re_data e of
                OverlayLink networks stack \<Rightarrow>
                  Some (view\<lparr>lv_stroke := fst (networkColor cache (nullish (js_index networks 0) []) stack),
                    lv_text := Some (''overlay: '' @ join '', '' networks)\<rparr>)
              | ControlLink healthy \<Rightarrow>
                  Some (view\<lparr>lv_stroke := (if healthy then signal else nullish (map_get STATUS_COLORS ''exited'') []), lv_dashed := (\<not> healthy),
                    lv_arrow := (if healthy then Some (max MIN_ANIMATION_DURATION (segment_length sp tp / DOT_SPEED)) else None),
                    lv_text := (if healthy then None
                      else Some (''control '' @ [CHR 0xB7] @ '' '' @ string_of_nat SWARM_CONTROL_PORT @ '' '' @ [CHR 0xB7] @ '' down''))\<rparr>)
              | _ \<Rightarrow> None)
      | _ \<Rightarrow> None)"

section \<open>An SVG edge\<close>

record SvgEdge =
  sv_path :: string
  sv_style :: EdgeStyle
  sv_dashed :: bool
  sv_full :: bool
  sv_ends :: "(Point \<times> Point) option"
  sv_dots :: nat
  sv_duration :: real

text \<open>At low zoom a large graph's edges are skipped; a large graph's are drawn without ends and dots.\<close>

fun elk_edge_view :: "bool \<Rightarrow> RFEdge \<Rightarrow> SvgEdge option" where
  "elk_edge_view isLowZoom e =
     (case re_data e of
        ElkData t active animated nodeCount path \<Rightarrow>
          let isSimplified = (nodeCount > ANIMATION_NODE_LIMIT);
              live = ((t = DependsOn \<or> t = VolumeMount) \<and> animated);
              ps = edge_points e; len = polylineLength ps
          in if \<not> truthy path then None
             else if isLowZoom \<and> isSimplified then None
             else Some \<lparr>sv_path = the path, sv_style = edge_style e, sv_dashed = (\<not> active), sv_full = (\<not> isSimplified),
               sv_ends = (if isSimplified then None else polylineEndpoints ps),
               sv_dots = (if isSimplified \<or> \<not> live then 0 else dot_count len),
               sv_duration = (if isSimplified \<or> \<not> live then 0 else max MIN_ANIMATION_DURATION (len / DOT_SPEED))\<rparr>
      | _ \<Rightarrow> None)"

text \<open>The canvas and the SVG edge agree on the path, the style, the dashes, the ends and the dots.\<close>

lemma svg_canvas_agree:
  assumes "elk_edge_view low e = Some v" "sv_full v" "canvas_edge mk e = Some c"
  shows "cg_path c = mk (sv_path v) \<and> cg_style c = sv_style v \<and> cg_dashed c = sv_dashed v \<and>
    sv_ends v = Some (cg_start c, cg_end c) \<and>
    (case animated_edge e of None \<Rightarrow> sv_dots v = 0 | Some a \<Rightarrow> sv_dots v = an_dotCount a \<and> sv_duration v = an_duration a)"
  using assms by (auto simp: canvas_edge_def animated_edge_def polylineEndpoints_def Let_def
      split: rf_edge_data.splits if_splits)

end
