(* ===== verification/LogsView.thy ===== *)
theory LogsView
  imports UseLogs LogStream Filters Stack
begin

text \<open>
  The Logs view: the aggregated log with its filters, its pause and its find bar
  (\<^verbatim>\<open>components/logs/CommonLogs.tsx\<close>), the chips of its toolbar (\<^verbatim>\<open>LogsToolbar.tsx\<close>) and the menu
  of a row (\<^verbatim>\<open>LogRowMenu.tsx\<close>). The lines are those the log hook holds at each event; the two
  window listeners of a key press run together. The lemmas show what pausing freezes, that what is
  picked in a row's menu takes effect on the lines shown, and that the toolbar can undo it.
\<close>

section \<open>Toolbar and row menu\<close>

definition activeChips :: "LogFilters \<Rightarrow> (chip \<times> string) list" where
  "activeChips f =
     (if truthy (lf_include f) then [(IncludeChip (the (lf_include f)), ''only: '' @ the (lf_include f))] else [])
     @ map (\<lambda>c. (ExcludeChip c, ''exclude: '' @ c)) (lf_exclude f)
     @ (case lf_stream f of None \<Rightarrow> [] | Some s \<Rightarrow> [(StreamChip s, ''stream: '' @ stream_name s)])"

datatype menu_action = PickChip chip | CopyLine

definition menu_items :: "LogLine \<Rightarrow> (string \<times> menu_action) list" where
  "menu_items line =
     (if truthy (ll_container line)
      then [(''Filter to '' @ the (ll_container line), PickChip (IncludeChip (the (ll_container line)))),
            (''Exclude '' @ the (ll_container line), PickChip (ExcludeChip (the (ll_container line))))]
      else [])
     @ [(''Only '' @ stream_name (ll_stream line), PickChip (StreamChip (ll_stream line))), (''Copy line'', CopyLine)]"

text \<open>\<open>s.trim()\<close> on Latin-1 code units.\<close>

definition is_space :: "char \<Rightarrow> bool" where
  "is_space c \<longleftrightarrow> c \<in> {CHR 0x09, CHR 0x0A, CHR 0x0B, CHR 0x0C, CHR 0x0D, CHR '' '', CHR 0xA0}"

definition js_trim :: "string \<Rightarrow> string" where
  "js_trim s = rev (dropWhile is_space (rev (dropWhile is_space s)))"

definition copied_text :: "LogLine \<Rightarrow> string" where
  "copied_text line = js_trim (nullish (ll_container line) [] @ '' '' @ nullish (ll_timestamp line) [] @ '' '' @ ll_text line)"

section \<open>The view\<close>

record CommonLogs =
  cl_filters :: LogFilters
  cl_paused :: bool
  cl_frozen :: "LogLine list option"
  cl_menu :: "LogLine option"
  cl_findOpen :: bool
  cl_findText :: string
  cl_clipboard :: "string option"

definition logs_view_initial :: CommonLogs where
  "logs_view_initial = \<lparr>cl_filters = emptyFilters, cl_paused = False, cl_frozen = None, cl_menu = None,
     cl_findOpen = False, cl_findText = [], cl_clipboard = None\<rparr>"

definition standalone_scope :: "string option \<Rightarrow> bool" where
  "standalone_scope stack \<longleftrightarrow> stack = Some STANDALONE_STACK"

definition server_stack :: "string option \<Rightarrow> string option" where
  "server_stack stack = (if standalone_scope stack then None else stack)"

definition sourceLines :: "CommonLogs \<Rightarrow> LogLine list \<Rightarrow> LogLine list" where
  "sourceLines st logs = (case cl_frozen st of Some ls \<Rightarrow> if cl_paused st then ls else logs | None \<Rightarrow> logs)"

definition scopedLines :: "string option \<Rightarrow> string list option \<Rightarrow> CommonLogs \<Rightarrow> LogLine list \<Rightarrow> LogLine list" where
  "scopedLines stack scopeNames st logs =
     (case scopeNames of
        Some names \<Rightarrow>
          if standalone_scope stack
          then filter (\<lambda>l. \<not> truthy (ll_container l) \<or> the (ll_container l) \<in> set names) (sourceLines st logs)
          else sourceLines st logs
      | None \<Rightarrow> sourceLines st logs)"

text \<open>The filter pass of a render, through the module's compiled query.\<close>

definition shown_lines :: "(string \<Rightarrow> regex option) \<Rightarrow> regex_cache \<Rightarrow> LogFilters \<Rightarrow> LogLine list \<Rightarrow> LogLine list \<times> regex_cache" where
  "shown_lines compile cache f =
     foldl (\<lambda>(out, cache) l. let (keep, cache') = matchesFilters compile cache l f
                             in (if keep then out @ [l] else out, cache')) ([], cache)"

definition togglePause :: "LogLine list \<Rightarrow> CommonLogs \<Rightarrow> CommonLogs" where
  "togglePause logs st =
     st\<lparr>cl_paused := \<not> cl_paused st, cl_frozen := (if \<not> cl_paused st then Some logs else None)\<rparr>"

datatype logs_view_event =
  FilterEvent log_filter_event
| TogglePause
| LogsKey bool string
| SetFindText string
| OpenRowMenu LogLine
| PickRowItem nat
| PointerOutsideMenu

text \<open>A key press: Ctrl+F (or Cmd+F) and Escape for the find bar, Escape for an open menu.\<close>

definition logs_key :: "bool \<Rightarrow> string \<Rightarrow> CommonLogs \<Rightarrow> CommonLogs" where
  "logs_key ctrl key st =
     (let st1 = (if ctrl \<and> to_lower key = ''f'' then st\<lparr>cl_findOpen := \<not> cl_findOpen st\<rparr>
                 else if key = ''Escape'' then st\<lparr>cl_findOpen := False\<rparr> else st)
      in if key = ''Escape'' then st1\<lparr>cl_menu := None\<rparr> else st1)"

definition pick_item :: "nat \<Rightarrow> CommonLogs \<Rightarrow> CommonLogs" where
  "pick_item i st =
     (case cl_menu st of
        None \<Rightarrow> st
      | Some line \<Rightarrow>
          (case js_index (menu_items line) i of
             None \<Rightarrow> st
           | Some (_, PickChip c) \<Rightarrow> st\<lparr>cl_filters := withChip (cl_filters st) c, cl_menu := None\<rparr>
           | Some (_, CopyLine) \<Rightarrow> st\<lparr>cl_clipboard := Some (copied_text line), cl_menu := None\<rparr>))"

definition logs_view_step :: "CommonLogs \<Rightarrow> LogLine list \<times> logs_view_event \<Rightarrow> CommonLogs" where
  "logs_view_step st le = (case le of (logs, e) \<Rightarrow>
     (case e of
        FilterEvent fe \<Rightarrow> st\<lparr>cl_filters := log_filter_step (cl_filters st) fe\<rparr>
      | TogglePause \<Rightarrow> togglePause logs st
      | LogsKey ctrl key \<Rightarrow> logs_key ctrl key st
      | SetFindText t \<Rightarrow> st\<lparr>cl_findText := t\<rparr>
      | OpenRowMenu line \<Rightarrow> st\<lparr>cl_menu := Some line\<rparr>
      | PickRowItem i \<Rightarrow> pick_item i st
      | PointerOutsideMenu \<Rightarrow> st\<lparr>cl_menu := None\<rparr>))"

section \<open>What is shown\<close>

text \<open>The lines shown are the scoped lines that pass, whatever query was compiled before.\<close>

lemma shown_is_filter:
  assumes "regex_valid compile cache"
  shows "fst (shown_lines compile cache f ls) = filter (\<lambda>l. passes compile (l, f)) ls"
    and "regex_valid compile (snd (shown_lines compile cache f ls))"
proof -
  have "fst (shown_lines compile cache f ls) = filter (\<lambda>l. passes compile (l, f)) ls \<and>
      regex_valid compile (snd (shown_lines compile cache f ls))"
    using assms
  proof (induction ls rule: rev_induct)
    case (snoc l ls)
    then show ?case using matchesFilters_memo [of compile "snd (shown_lines compile cache f ls)" l f]
      by (auto simp: shown_lines_def split: prod.splits)
  qed (simp add: shown_lines_def)
  then show "fst (shown_lines compile cache f ls) = filter (\<lambda>l. passes compile (l, f)) ls"
    "regex_valid compile (snd (shown_lines compile cache f ls))" by auto
qed

text \<open>Paused means frozen: the state invariant, and what it gives.\<close>

definition logs_view_inv :: "CommonLogs \<Rightarrow> bool" where
  "logs_view_inv st \<longleftrightarrow> (cl_paused st \<longleftrightarrow> cl_frozen st \<noteq> None) \<and> distinct (lf_exclude (cl_filters st))"

lemma withChip_distinct: "distinct (lf_exclude f) \<Longrightarrow> distinct (lf_exclude (withChip f c))"
  by (auto simp: withChip_def split: chip.split)

lemma logs_view_step_inv: "logs_view_inv st \<Longrightarrow> logs_view_inv (logs_view_step st le)"
  by (auto simp: logs_view_step_def logs_view_inv_def togglePause_def logs_key_def pick_item_def Let_def
        excludes_distinct withChip_distinct split: prod.split logs_view_event.split option.split menu_action.split)

interpretation logs_view: machine logs_view_step "\<lambda>_ _. True" logs_view_inv
  by unfold_locales (rule logs_view_step_inv)

text \<open>While paused, the view holds the lines of the moment it was paused.\<close>

lemma paused_view_frozen:
  assumes "logs_view_inv st" "\<not> cl_paused st"
    and "\<forall>le\<in>set es. snd le \<noteq> TogglePause"
  shows "sourceLines (run logs_view_step st ((logs, TogglePause) # es)) later = logs"
proof -
  have "cl_paused (run logs_view_step st' es) \<and> cl_frozen (run logs_view_step st' es) = Some logs"
    if "cl_paused st'" "cl_frozen st' = Some logs" for st'
    using that assms(3)
  proof (induction es arbitrary: st')
    case (Cons le es)
    then have "cl_paused (logs_view_step st' le)" "cl_frozen (logs_view_step st' le) = Some logs"
      by (auto simp: logs_view_step_def logs_key_def pick_item_def Let_def
          split: prod.split logs_view_event.split option.split menu_action.split)
    then show ?case using Cons by simp
  qed simp
  from this [of "logs_view_step st (logs, TogglePause)"] show ?thesis
    using assms(2) by (simp add: logs_view_step_def togglePause_def sourceLines_def)
qed

section \<open>The menu and the toolbar\<close>

text \<open>
  Picking in a row's menu: "Filter to" leaves only that container's lines, "Exclude" none of them,
  "Only" the row's stream. The row itself is still shown after "Filter to", unless its container is
  excluded as well: then nothing is.
\<close>

lemma picked_filter:
  "\<forall>l\<in>set (filter (\<lambda>l. passes compile (l, withChip f (IncludeChip c))) ls). c \<noteq> [] \<longrightarrow> ll_container l = Some c"
  "\<forall>l\<in>set (filter (\<lambda>l. passes compile (l, withChip f (ExcludeChip c))) ls). c \<noteq> [] \<longrightarrow> ll_container l \<noteq> Some c"
  "\<forall>l\<in>set (filter (\<lambda>l. passes compile (l, withChip f (StreamChip s))) ls). ll_stream l = s"
  by (auto simp: passes_def withChip_def truthy_def split: if_splits)

lemma row_survives_filter_to:
  assumes "passes compile (l, f)" "ll_container l = Some c" "c \<noteq> []"
  shows "passes compile (l, withChip f (IncludeChip c))" "passes compile (l, withChip f (StreamChip (ll_stream l)))"
  using assms by (auto simp: passes_def withChip_def truthy_def split: option.splits)

lemma include_excluded_shows_nothing:
  assumes "c \<noteq> []" "c \<in> set (lf_exclude f)"
  shows "filter (\<lambda>l. passes compile (l, withChip f (IncludeChip c))) ls = []"
  using assms by (auto simp: passes_def withChip_def truthy_def filter_empty_conv)

text \<open>Removing every chip shown takes every chip off and leaves the text alone.\<close>

lemma active_kinds:
  "map fst (activeChips f) = (if truthy (lf_include f) then [IncludeChip (the (lf_include f))] else [])
     @ map ExcludeChip (lf_exclude f) @ (case lf_stream f of None \<Rightarrow> [] | Some s \<Rightarrow> [StreamChip s])"
  by (simp add: activeChips_def comp_def split: option.split)

lemma chips_removable:
  assumes "chip \<in> set (map fst (activeChips f))"
  shows "map fst (activeChips (withoutChip f chip)) = filter (\<lambda>c. c \<noteq> chip) (map fst (activeChips f))"
proof (cases chip)
  case (IncludeChip c)
  then have "truthy (lf_include f)" "c = the (lf_include f)"
    using assms unfolding active_kinds by (auto split: option.splits if_splits)
  then show ?thesis unfolding active_kinds IncludeChip by (auto simp: withoutChip_def filter_map comp_def split: option.split)
next
  case (ExcludeChip c)
  show ?thesis unfolding active_kinds ExcludeChip by (auto simp: withoutChip_def filter_map comp_def split: option.split)
next
  case (StreamChip s)
  then have "lf_stream f = Some s"
    using assms unfolding active_kinds by (auto split: option.splits if_splits)
  then show ?thesis unfolding active_kinds StreamChip by (auto simp: withoutChip_def filter_map comp_def)
qed

lemma all_chips_removed:
  assumes "lf_include f \<noteq> Some []"
  shows "foldl withoutChip f (map fst (activeChips f)) = emptyFilters\<lparr>lf_text := lf_text f, lf_regex := lf_regex f\<rparr>"
proof -
  have ex: "foldl withoutChip g (map ExcludeChip cs) = g\<lparr>lf_exclude := filter (\<lambda>k. k \<notin> set cs) (lf_exclude g)\<rparr>" for g cs
    by (induction cs arbitrary: g) (auto simp: withoutChip_def intro!: filter_cong)
  have none: "filter (\<lambda>k. k \<notin> set (lf_exclude f)) (lf_exclude f) = []" by (simp add: filter_empty_conv)
  have "map fst (activeChips f) =
      (case lf_include f of None \<Rightarrow> [] | Some c \<Rightarrow> [IncludeChip c]) @ map ExcludeChip (lf_exclude f)
      @ (case lf_stream f of None \<Rightarrow> [] | Some s \<Rightarrow> [StreamChip s])"
    using assms by (auto simp: activeChips_def truthy_def comp_def split: option.split)
  then show ?thesis
    using ex none by (auto simp: withoutChip_def emptyFilters_def split: option.split)
qed

text \<open>
  A flaw: closing the find bar keeps its text, and the log is still given it, so the matches stay
  highlighted with no bar to clear them.
\<close>

lemma closed_find_highlights:
  "let st = run logs_view_step logs_view_initial [(ls, LogsKey True ''f''), (ls, SetFindText ''err''), (ls, LogsKey False ''Escape'')]
   in \<not> cl_findOpen st \<and> cl_findText st = ''err''"
  by (simp add: logs_view_step_def logs_key_def logs_view_initial_def to_lower_def Let_def)

end
