(* ===== verification/NodeCards.thy ===== *)
theory NodeCards
  imports Dashboard NodeLayout Deltas
begin

text \<open>
  What the nodes of the graph show: containers, services and volumes
  (\<^verbatim>\<open>components/ContainerNode.tsx\<close>, \<^verbatim>\<open>ServiceNode.tsx\<close>, \<^verbatim>\<open>VolumeNode.tsx\<close>, \<^verbatim>\<open>StatsMini.tsx\<close>), and the
  boxes, cards and badges of the per-node view (\<^verbatim>\<open>SwarmNodeGroup.tsx\<close>, \<^verbatim>\<open>NodeServiceCard.tsx\<close>,
  \<^verbatim>\<open>SwarmNodeBadges.tsx\<close>, \<^verbatim>\<open>ControlSummary.tsx\<close>, \<^verbatim>\<open>RoleGroup.tsx\<close>). A view is a record of the texts,
  colours and opacity computed from the data; an em dash or a star is a missing or a true field,
  and fixed styles are left out. The lemmas show that the ports shown and counted are all the
  ports, that a card's rows fit its height, and when a box and its cards are dimmed together.
\<close>

definition PAUSED_OPACITY :: real where
  [js_const]: "PAUSED_OPACITY = 7 / 10"

definition INACTIVE_OPACITY :: real where
  [js_const]: "INACTIVE_OPACITY = 5 / 10"

definition status_color :: "string \<Rightarrow> string" where
  "status_color s = nullish (map_get STATUS_COLORS s) (the (map_get STATUS_COLORS ''exited''))"

definition railColor :: "bool \<Rightarrow> string \<Rightarrow> string" where
  "railColor isGhost activeColor = (if isGhost then the (map_get STATUS_COLORS ''not_running'') else activeColor)"

section \<open>Stats and ports\<close>

record StatsMini =
  mini_color :: string
  mini_barWidth :: real
  mini_throttled :: bool
  mini_title :: string
  mini_text :: "string list"

definition stats_text :: "ContainerStatsData \<Rightarrow> string list" where
  "stats_text s = (to_fixed 0 (cs_cpuPercent s) @ ''%'') # (if cs_memUsage s > 0 then [formatBytesShort (cs_memUsage s)] else [])"

definition stats_mini :: "ContainerStatsData option \<Rightarrow> StatsMini option" where
  "stats_mini stats = map_option (\<lambda>s.
     \<lparr>mini_color = cpuColor (cs_cpuPercent s) (cs_cpuThrottled s), mini_barWidth = min (cs_cpuPercent s) 100,
      mini_throttled = (cs_cpuThrottled s > 0),
      mini_title = ''CPU: '' @ to_fixed 1 (cs_cpuPercent s) @ ''%''
        @ (if cs_cpuThrottled s > 0 then '' (throttled '' @ to_fixed 0 (cs_cpuThrottled s) @ ''%)'' else []),
      mini_text = stats_text s\<rparr>) stats"

text \<open>A port as its host side (missing when it is not shown) and its container side; three, and a count of the rest.\<close>

definition container_port :: "PortMapping \<Rightarrow> string option \<times> string" where
  "container_port p = (Some (hostPorts p), containerPorts p)"

definition service_port :: "PortMapping \<Rightarrow> string option \<times> string" where
  "service_port p = (if pm_host p \<noteq> 0 then Some (hostPorts p) else None, containerPorts p)"

definition port_chips :: "(PortMapping \<Rightarrow> string option \<times> string) \<Rightarrow> DGNode \<Rightarrow> (string option \<times> string) list \<times> nat" where
  "port_chips show_port n =
     (let ps = nullish (dg_ports n) [] in (map show_port (take 3 ps), if length ps > 3 then length ps - 3 else 0))"

section \<open>Nodes of the network view\<close>

record CardView =
  cv_name :: string
  cv_color :: string
  cv_rail :: string
  cv_ghost :: bool
  cv_opacity :: real
  cv_glow :: bool
  cv_label :: "string option"
  cv_image :: "string option"
  cv_ports :: "(string option \<times> string) list \<times> nat"
  cv_stats :: "StatsMini option"
  cv_badge :: "(string \<times> string) option"
  cv_mode :: "string option"

text \<open>At low zoom a card keeps its name (and a service its badge).\<close>

definition low_zoom :: "CardView \<Rightarrow> CardView" where
  "low_zoom v = v\<lparr>cv_label := None, cv_image := None, cv_ports := ([], 0), cv_stats := None, cv_mode := None\<rparr>"

definition container_active :: "DGNode \<Rightarrow> bool" where
  "container_active n \<longleftrightarrow> dg_status n = Some ''running'' \<or> dg_status n = Some ''unhealthy''"

definition container_view :: "bool \<Rightarrow> ContainerStatsData option \<Rightarrow> DGNode \<Rightarrow> CardView" where
  "container_view isLowZoom stats n =
     (let color = status_color (nullish (dg_status n) ''exited''); ghost = (dg_status n = Some ''not_running'');
          label = map_get STATUS_LABELS (nullish (dg_status n) ''exited'');
          v = \<lparr>cv_name = dg_name n, cv_color = color, cv_rail = railColor ghost color, cv_ghost = ghost,
            cv_opacity = (if container_active n then 1 else if dg_status n = Some ''paused'' then PAUSED_OPACITY else INACTIVE_OPACITY),
            cv_glow = container_active n, cv_label = (if label = None then dg_status n else label),
            cv_image = (if truthy (dg_image n) then dg_image n else None),
            cv_ports = port_chips container_port n, cv_stats = stats_mini stats, cv_badge = None, cv_mode = None\<rparr>
      in if isLowZoom then low_zoom v else v)"

definition modeLabel :: "string option \<Rightarrow> string option" where
  "modeLabel mode =
     (if mode = Some ''replicated'' then Some ''repl''
      else if mode = Some ''global'' then Some ''global''
      else if mode = Some ''replicated-job'' then Some ''job''
      else if mode = Some ''global-job'' then Some ''global job''
      else None)"

text \<open>The badge of a service: its title, up to the status label after the dash, and its text.\<close>

definition replica_badge :: "string \<Rightarrow> ReplicaCount \<Rightarrow> string \<times> string" where
  "replica_badge status r =
     (if status = ''completed'' then string_of_nat (nullish (rc_completed r) 0) @ '' tasks completed''
      else string_of_nat (rc_running r) @ '' of '' @ string_of_nat (rc_desired r) @ '' replicas running'',
      replicaText r (Some status))"

definition service_view :: "bool \<Rightarrow> ContainerStatsData option \<Rightarrow> DGNode \<Rightarrow> CardView" where
  "service_view isLowZoom stats n =
     (let status = nullish (dg_status n) ''stopped''; color = status_color status; ghost = (status = ''not_running'');
          v = \<lparr>cv_name = dg_name n, cv_color = color, cv_rail = railColor ghost color, cv_ghost = ghost,
            cv_opacity = (if isServiceLive n then 1 else INACTIVE_OPACITY), cv_glow = isServiceLive n,
            cv_label = Some (nullish (map_get STATUS_LABELS status) status),
            cv_image = (if truthy (dg_image n) then dg_image n else None),
            cv_ports = port_chips service_port n, cv_stats = stats_mini stats,
            cv_badge = map_option (\<lambda>s. replica_badge status (si_replicas s)) (dg_service n),
            cv_mode = (case dg_service n of None \<Rightarrow> None | Some s \<Rightarrow> modeLabel (si_mode s))\<rparr>
      in if isLowZoom then (low_zoom v)\<lparr>cv_label := cv_label v\<rparr> else v)"

definition volume_view :: "bool \<Rightarrow> DGNode \<Rightarrow> CardView" where
  "volume_view isLowZoom n =
     (let ghost = (dg_status n = Some ''not_running'')
      in \<lparr>cv_name = (if isLowZoom then [] else dg_name n), cv_color = railColor ghost VOLUME_COLOR,
        cv_rail = railColor ghost VOLUME_COLOR, cv_ghost = ghost,
        cv_opacity = (if ghost then INACTIVE_OPACITY else 1), cv_glow = False,
        cv_label = (if isLowZoom \<or> \<not> truthy (dg_driver n) then None else dg_driver n), cv_image = None,
        cv_ports = ([], 0), cv_stats = None, cv_badge = None, cv_mode = None\<rparr>)"

text \<open>Every port is shown or counted, and a service that is not published shows no host side.\<close>

lemma ports_shown_or_counted:
  "length (fst (port_chips f n)) + snd (port_chips f n) = length (nullish (dg_ports n) [])"
  by (auto simp: port_chips_def Let_def)

lemma service_port_host: "fst (service_port p) = None \<longleftrightarrow> pm_host p = 0"
  by (simp add: service_port_def)

text \<open>The inner glow and the full opacity go together, and a ghost has neither.\<close>

lemma glow_is_full_opacity:
  "cv_glow (container_view z st n) \<longleftrightarrow> cv_opacity (container_view z st n) = 1"
  "cv_glow (service_view z st n) \<longleftrightarrow> cv_opacity (service_view z st n) = 1"
  "cv_ghost (container_view z st n) \<Longrightarrow> \<not> cv_glow (container_view z st n)"
  by (auto simp: container_view_def service_view_def low_zoom_def container_active_def Let_def js_const split: if_splits)

section \<open>Cards of the per-node view\<close>

definition TASK_STATE_COLORS :: "(string, string) jsmap" where
  "TASK_STATE_COLORS =
     [(''running'', the (map_get STATUS_COLORS ''running'')), (''complete'', the (map_get STATUS_COLORS ''created'')),
      (''failed'', the (map_get STATUS_COLORS ''exited'')), (''rejected'', the (map_get STATUS_COLORS ''exited'')),
      (''shutdown'', the (map_get STATUS_COLORS ''not_running''))]"

definition taskStateColor :: "string option \<Rightarrow> string" where
  "taskStateColor state =
     nullish (map_get TASK_STATE_COLORS (nullish state [])) (the (map_get STATUS_COLORS ''unhealthy''))"

definition slotLabel :: "TaskInfo \<Rightarrow> string option \<Rightarrow> string" where
  "slotLabel task mode = (case taskSlot task mode of None \<Rightarrow> ''global'' | Some slot \<Rightarrow> CHR ''.'' # string_of_nat slot)"

record TaskRow =
  tr_title :: "string \<times> string \<times> string option"
  tr_running :: bool
  tr_color :: string
  tr_slot :: string
  tr_stats :: "(string \<times> string list) option"
  tr_text :: "string option"

definition task_row :: "string \<Rightarrow> string option \<Rightarrow> (string, ContainerStatsData) jsmap option \<Rightarrow> TaskInfo \<Rightarrow> TaskRow" where
  "task_row serviceName mode taskStats task =
     (let state = nullish (ti_state task) ''unknown'';
          stats = (case taskStats of None \<Rightarrow> None | Some m \<Rightarrow> map_get m (ti_id task))
      in \<lparr>tr_title = (taskLabel serviceName task mode, state, if truthy (ti_error task) then ti_error task else None),
          tr_running = (state = ''running''), tr_color = taskStateColor (Some state), tr_slot = slotLabel task mode,
          tr_stats = map_option (\<lambda>s. (cpuColor (cs_cpuPercent s) (cs_cpuThrottled s), stats_text s)) stats,
          tr_text = (if stats = None then Some (nullish (ti_error task) state) else None)\<rparr>)"

record ServiceCard =
  sc_name :: string
  sc_stripe :: string
  sc_height :: real
  sc_opacity :: real
  sc_glow :: bool
  sc_badge :: "nat \<times> nat"
  sc_badgeColor :: string
  sc_rows :: "TaskRow list"

definition service_card_view :: "(string, ContainerStatsData) jsmap option \<Rightarrow> NodeServiceCardData \<Rightarrow> ServiceCard" where
  "service_card_view taskStats d =
     (let running = length (filter (\<lambda>t. ti_state t = Some ''running'') (nc_tasks d)); total = length (nc_tasks d)
      in \<lparr>sc_name = nc_serviceName d, sc_stripe = stackColor (nc_stack d), sc_height = serviceCardHeight total,
          sc_opacity = (if nc_nodeInactive d then INACTIVE_OPACITY else 1), sc_glow = (running > 0),
          sc_badge = (running, total),
          sc_badgeColor = the (map_get STATUS_COLORS (if running = total then ''running'' else ''degraded'')),
          sc_rows = map (task_row (nc_serviceName d) (nc_mode d) taskStats) (nc_tasks d)\<rparr>)"

text \<open>The rows and the header fit the card's height, and the badge counts its rows.\<close>

lemma card_rows_fit:
  "SERVICE_CARD_HEADER_HEIGHT + real (length (sc_rows (service_card_view st d))) * SERVICE_CARD_ROW_HEIGHT
     \<le> sc_height (service_card_view st d)"
  "snd (sc_badge (service_card_view st d)) = length (sc_rows (service_card_view st d))"
  "fst (sc_badge (service_card_view st d)) = length (filter tr_running (sc_rows (service_card_view st d)))"
proof -
  have "tr_running (task_row n m s t) \<longleftrightarrow> ti_state t = Some ''running''" for n m s t
    by (cases "ti_state t") (simp_all add: task_row_def Let_def)
  then show "fst (sc_badge (service_card_view st d)) = length (filter tr_running (sc_rows (service_card_view st d)))"
    by (simp add: service_card_view_def Let_def filter_map comp_def)
qed (simp_all add: service_card_view_def Let_def serviceCardHeight_def js_const)

section \<open>Node boxes\<close>

text \<open>A badge of a swarm node: its text and colour; the star of a leader is a flag.\<close>

definition role_badge :: "bool \<Rightarrow> SwarmNodeInfo option \<Rightarrow> (string \<times> bool \<times> string) option" where
  "role_badge dark info = map_option (\<lambda>i.
     (sn_role i, sn_leader i = Some True, swarmRoleColor (if sn_role i = ''manager'' then Manager else Worker) dark)) info"

definition availability_chip :: "string \<Rightarrow> string \<Rightarrow> SwarmNodeInfo option \<Rightarrow> (string \<times> string) option" where
  "availability_chip danger warning info =
     (case info of None \<Rightarrow> None
      | Some i \<Rightarrow> if sn_availability i = [] \<or> sn_availability i = ''active'' then None
                 else Some (sn_availability i, if sn_availability i = ''drain'' then danger else warning))"

definition state_chip :: "string option \<Rightarrow> (string \<times> string) option" where
  "state_chip state = (if \<not> truthy state \<or> state = Some ''ready'' then None else Some (the state, swarmNodeStateColor state))"

record BoxView =
  bv_name :: string
  bv_dotColor :: string
  bv_opacity :: real
  bv_role :: "(string \<times> bool \<times> string) option"
  bv_state :: "(string \<times> string) option"
  bv_availability :: "(string \<times> string) option"
  bv_count :: nat
  bv_inspect :: bool
  bv_cpu :: "(real option \<times> string) option"
  bv_memory :: "(real option \<times> string) option"
  bv_noTasks :: bool

definition box_inactive :: "SwarmNodeGroupData \<Rightarrow> bool" where
  "box_inactive d \<longleftrightarrow>
     (\<not> ng_unassigned d \<and> node_state (ng_dgNode d) \<noteq> Some ''ready'') \<or>
     (case dg_swarmNode (ng_dgNode d) of None \<Rightarrow> False
      | Some i \<Rightarrow> sn_availability i = ''drain'' \<or> sn_availability i = ''pause'')"

definition box_view :: "bool \<Rightarrow> string \<Rightarrow> string \<Rightarrow> ContainerStatsData option \<Rightarrow> SwarmNodeGroupData \<Rightarrow> BoxView" where
  "box_view dark danger warning stats d =
     (let info = dg_swarmNode (ng_dgNode d); state = node_state (ng_dgNode d); usage = nodeUsage info stats
      in \<lparr>bv_name = dg_name (ng_dgNode d), bv_dotColor = (if ng_unassigned d then warning else swarmNodeStateColor state),
          bv_opacity = (if box_inactive d then 7 / 10 else 1), bv_role = role_badge dark info,
          bv_state = (if ng_unassigned d then None else state_chip state),
          bv_availability = availability_chip danger warning info, bv_count = ng_taskCount d,
          bv_inspect = (\<not> ng_unassigned d),
          bv_cpu = (if ng_unassigned d then None
            else map_option (\<lambda>s. (nu_cpuPercent usage, to_fixed 0 (nullish (nu_cpuPercent usage) (cs_cpuPercent s)) @ ''%'')) stats),
          bv_memory = (if ng_unassigned d then None
            else map_option (\<lambda>s. (nu_memPercent usage, formatBytesShort (cs_memUsage s))) stats),
          bv_noTasks = (ng_taskCount d = 0)\<rparr>)"

text \<open>
  A box and its cards are dimmed together. A node of which neither the swarm nor the graph gives a
  state would be the exception: its box is dimmed and its cards are not.
\<close>

lemma dimmed_together:
  assumes "node_state (ng_dgNode d) \<noteq> None" "\<not> ng_unassigned d"
  shows "bv_opacity (box_view dark danger warning st d) < 1 \<longleftrightarrow> isSwarmNodeInactive (ng_dgNode d)"
  using assms by (auto simp: box_view_def box_inactive_def isSwarmNodeInactive_def Let_def node_state_def split: option.splits)

lemma stateless_box_alone_dimmed:
  "dg_swarmNode (ng_dgNode d) = None \<Longrightarrow> dg_status (ng_dgNode d) = None \<Longrightarrow> \<not> ng_unassigned d \<Longrightarrow>
   bv_opacity (box_view dark danger warning st d) < 1 \<and> \<not> isSwarmNodeInactive (ng_dgNode d)"
  by (simp add: box_view_def box_inactive_def isSwarmNodeInactive_def Let_def node_state_def)

text \<open>A dimmed box says why: a chip for its state or its availability, or a state that is unknown.\<close>

lemma dimmed_box_explained:
  assumes "bv_opacity (box_view dark danger warning st d) < 1" "truthy (node_state (ng_dgNode d))"
  shows "bv_state (box_view dark danger warning st d) \<noteq> None \<or> bv_availability (box_view dark danger warning st d) \<noteq> None"
  using assms by (auto simp: box_view_def box_inactive_def state_chip_def availability_chip_def Let_def
      split: option.splits if_splits)

section \<open>Badge and legend\<close>

definition control_label :: "ControlSummaryData \<Rightarrow> string" where
  "control_label d =
     (let total = string_of_nat (ctl_total d)
      in if ctl_healthy d then ''control / tcp 2377 / '' @ string_of_nat (ctl_ready d) @ ''/'' @ total @ '' workers ready''
         else ''control / tcp 2377 / '' @ string_of_nat (ctl_total d - ctl_ready d) @ ''/'' @ total @ '' workers down'')"

definition role_legend :: "bool \<Rightarrow> RoleGroupData \<Rightarrow> string \<times> string \<times> string \<times> string" where
  "role_legend dark d =
     (swarmRoleColor (rg_role d) dark, roleTitle (rg_role d), formatCount (rg_nodeCount d) ''node'', formatCount (rg_taskCount d) ''task'')"

text \<open>The badge turns red exactly when some worker is down, and then counts at least one.\<close>

lemma control_badge_counts:
  "\<not> ctl_healthy (control_summary ws) \<Longrightarrow> 0 < ctl_total (control_summary ws) - ctl_ready (control_summary ws)"
  "ctl_healthy (control_summary ws) \<longleftrightarrow> (\<forall>w\<in>set ws. node_state w = Some ''ready'')"
proof -
  let ?p = "\<lambda>n. node_state n = Some ''ready''"
  have "length (filter ?p ws) \<noteq> length ws \<Longrightarrow> 0 < length ws - length (filter ?p ws)"
    using length_filter_le [of ?p ws] by linarith
  then show "\<not> ctl_healthy (control_summary ws) \<Longrightarrow> 0 < ctl_total (control_summary ws) - ctl_ready (control_summary ws)"
    by (simp add: control_summary_def Let_def del: zero_less_diff)
  have "length (filter ?p ws) = length ws \<longleftrightarrow> (\<forall>w\<in>set ws. ?p w)"
  proof (induction ws)
    case (Cons w ws)
    have "length (filter ?p ws) \<noteq> Suc (length ws)" using length_filter_le [of ?p ws] by linarith
    then show ?case using Cons by simp
  qed simp
  then show "ctl_healthy (control_summary ws) \<longleftrightarrow> (\<forall>w\<in>set ws. node_state w = Some ''ready'')"
    by (simp add: control_summary_def Let_def)
qed

end
