(* ===== verification/Panels.thy ===== *)
theory Panels
  imports DetailPanel Dashboard Deltas NodeCards
begin

text \<open>
  The contents of the detail panel (\<^verbatim>\<open>components/panels\<close>): the sections of a container, a compose
  service that does not run, a volume, a network, a swarm service and a swarm node, each a title
  and its rows. A row that shows an em dash has no value; styles and the fold of a section
  are left out. The lemmas show that the links of a panel lead somewhere, that a node's panel lists the
  tasks of its box, and that the usage bars stay within their track.
\<close>

section \<open>Sections and rows\<close>

text \<open>
  A row of a section: a label with a value that is copied on click, a pair of \<open>KeyValueList\<close>, a
  link with the target it navigates to, a port (shown sides and copied text), a usage bar, or a
  plain line.
\<close>

datatype panel_row =
  Fact string "string option"
| Pair string string
| Go string string
| PortRow string string string
| Bar string string "real option"
| Line string

type_synonym panel = "(string \<times> panel_row list) list"

definition section_if :: "bool \<Rightarrow> string \<Rightarrow> panel_row list \<Rightarrow> panel" where
  "section_if c title rows = (if c then [(title, rows)] else [])"

definition fact_if :: "string \<Rightarrow> string option \<Rightarrow> panel_row list" where
  "fact_if label v = (if truthy v then [Fact label v] else [])"

definition some_text :: "string \<Rightarrow> string option" where
  "some_text s = (if s = [] then None else Some s)"


section \<open>Wire types of the details\<close>

record NetworkEndpoint =
  ne_name :: string
  ne_ipAddress :: string
  ne_gateway :: string
  ne_macAddress :: string

record HealthEntry =
  hl_exitCode :: int
  hl_output :: string

record ContainerDetail =
  cd_name :: string
  cd_image :: string
  cd_status :: string
  cd_running :: bool
  cd_oomKilled :: bool
  cd_pid :: int
  cd_exitCode :: int
  cd_startedAt :: string
  cd_finishedAt :: string
  cd_cmd :: "string list"
  cd_entrypoint :: "string list"
  cd_workingDir :: string
  cd_user :: string
  cd_restart :: "string \<times> nat"
  cd_networkMode :: string
  cd_networks :: "NetworkEndpoint list"

record ServicePort =
  sp_host :: nat
  sp_hostEnd :: "nat option"
  sp_container :: nat
  sp_containerEnd :: "nat option"
  sp_protocol :: string
  sp_publishMode :: string

record ServiceDetail =
  sd_name :: string
  sd_stack :: "string option"
  sd_status :: string
  sd_mode :: "string option"
  sd_replicas :: "ReplicaCount option"
  sd_tasks :: "TaskInfo list"
  sd_tasksUnavailable :: bool
  sd_ports :: "ServicePort list"
  sd_networks :: "(string \<times> string list) list"
  sd_constraints :: "string list"
  sd_updateStatus :: "(string \<times> string option) option"

record NetworkTask =
  nt_task :: TaskInfo
  nt_addresses :: "string list"

record NetworkService =
  nv_name :: string
  nv_mode :: string
  nv_vip :: "string option"
  nv_tasks :: "NetworkTask list"

record IpamConfig =
  ip_subnet :: string
  ip_gateway :: string
  ip_ipRange :: string

record NetworkDetail =
  nd_id :: string
  nd_driver :: string
  nd_scope :: string
  nd_created :: string
  nd_internal :: bool
  nd_ipv6 :: bool
  nd_ipam :: "string \<times> IpamConfig list"
  nd_options :: "(string, string) jsmap"
  nd_labels :: "(string, string) jsmap"
  nd_containers :: "(string \<times> string \<times> string) list"
  nd_services :: "NetworkService list option"
  nd_servicesUnavailable :: bool


section \<open>Shared sections\<close>

definition port_rows :: "(string \<times> string \<times> string) list \<Rightarrow> panel" where
  "port_rows ports = section_if (ports \<noteq> []) ''Ports''
     (map (\<lambda>(h, c, p). PortRow h (c @ ''/'' @ p) (h @ '':'' @ c @ ''/'' @ p)) ports)"

text \<open>A mount is its name with the target of a link or its source, then where it is mounted.\<close>

definition mount_rows :: "bool \<Rightarrow> Mount \<Rightarrow> panel_row list" where
  "mount_rows canNavigate m =
     (let volumeName = (if mt_type m = ''volume'' then mt_name m else None)
      in (if truthy volumeName \<and> canNavigate then Go (the volumeName) (''volume:'' @ the volumeName)
          else Line (nullish volumeName (mt_source m)))
         # [Line (mt_destination m @ '' ('' @ mt_type m @ (if mt_rw m then [] else '', ro'') @ '')'')])"

definition mounts_section :: "bool \<Rightarrow> Mount list \<Rightarrow> panel" where
  "mounts_section canNavigate ms = section_if (ms \<noteq> []) ''Mounts'' (concat (map (mount_rows canNavigate) ms))"

definition env_section :: "(string \<times> string) list \<Rightarrow> panel" where
  "env_section env = section_if (env \<noteq> []) ''Environment'' (map (\<lambda>(k, v). Pair k v) env)"

definition labels_section :: "(string, string) jsmap option \<Rightarrow> panel" where
  "labels_section ls = section_if (nullish ls [] \<noteq> []) ''Labels'' (map (\<lambda>(k, v). Pair k v) (nullish ls []))"


definition security_section :: "bool \<Rightarrow> bool \<Rightarrow> string list \<Rightarrow> string list \<Rightarrow> panel" where
  "security_section privileged readonlyRootfs capAdd capDrop =
     section_if (privileged \<or> readonlyRootfs \<or> capAdd \<noteq> [] \<or> capDrop \<noteq> []) ''Security''
       ((if privileged then [Line ''Privileged Mode''] else [])
        @ (if readonlyRootfs then [Line ''Read-only Root Filesystem''] else [])
        @ (if capAdd \<noteq> [] then [Line (''+Capabilities: '' @ join '', '' capAdd)] else [])
        @ (if capDrop \<noteq> [] then [Line (''-Capabilities: '' @ join '', '' capDrop)] else []))"

text \<open>The health check: its colour's source, its failing streak and its last five runs.\<close>

definition health_lines :: "HealthEntry list \<Rightarrow> string list" where
  "health_lines entries =
     map (\<lambda>e. ''exit '' @ string_of_int (hl_exitCode e) @ (if hl_output e = [] then [] else '': '' @ take 80 (hl_output e)))
       (drop (length entries - 5) entries)"

section \<open>A container\<close>

text \<open>
  The time since the last start or end. \<open>date_ms\<close> is \<open>new Date(s).getTime()\<close>, \<open>None\<close> for an invalid
  date, whose arithmetic prints NaN.
\<close>

definition panel_uptime :: "(string \<Rightarrow> int option) \<Rightarrow> string \<Rightarrow> string \<Rightarrow> bool \<Rightarrow> int \<Rightarrow> string" where
  "panel_uptime date_ms startedAt finishedAt running now =
     (let ref = (if running then startedAt else finishedAt)
      in if ref = [] then []
         else case date_ms ref of
                None \<Rightarrow> ''NaNd NaNh''
              | Some t \<Rightarrow>
                  if now - t < 0 then []
                  else let s = (now - t) div 1000; m = s div 60; h = m div 60; d = h div 24
                       in if s < 60 then string_of_int s @ ''s''
                          else if m < 60 then string_of_int m @ ''m''
                          else if h < 24 then string_of_int h @ ''h '' @ string_of_int (m mod 60) @ ''m''
                          else string_of_int d @ ''d '' @ string_of_int (h mod 24) @ ''h'')"

definition container_status_line :: "(string \<Rightarrow> int option) \<Rightarrow> int \<Rightarrow> ContainerDetail \<Rightarrow> string list" where
  "container_status_line date_ms now d =
     (let uptime = panel_uptime date_ms (cd_startedAt d) (cd_finishedAt d) (cd_running d) now
      in (if uptime = [] then [] else [if cd_running d then ''up '' @ uptime else ''exited '' @ uptime @ '' ago''])
         @ (if cd_oomKilled d then [''OOM KILLED''] else [])
         @ (if \<not> cd_running d \<and> cd_exitCode d \<noteq> 0 then [''code '' @ string_of_int (cd_exitCode d)] else []))"

text \<open>
  A flaw: a container that was created and never started carries Docker's zero time, the year 1,
  as its end, and is said to have exited more than 719,000 days ago.
\<close>

lemma never_started_exited:
  assumes "date_ms ''0001-01-01T00:00:00Z'' = Some (- 62135596800000)" "cd_finishedAt d = ''0001-01-01T00:00:00Z''"
    and "\<not> cd_running d" "0 \<le> now"
  shows "\<exists>days h. 719162 \<le> days \<and>
    hd (container_status_line date_ms now d) = ''exited '' @ string_of_int days @ ''d '' @ string_of_int h @ ''h ago''"
proof -
  define s where "s = (now + 62135596800000) div 1000"
  have s: "62135596800 \<le> s" using assms(4) by (simp add: s_def zdiv_mono1 [of 62135596800000 _ 1000, simplified])
  then have m: "1035593280 \<le> s div 60" using zdiv_mono1 [of 62135596800 s 60] by simp
  then have h: "17259888 \<le> s div 60 div 60" using zdiv_mono1 [of 1035593280 "s div 60" 60] by simp
  then have d: "719162 \<le> s div 60 div 60 div 24" using zdiv_mono1 [of 17259888 "s div 60 div 60" 24] by simp
  obtain days hours where days: "days = s div 60 div 60 div 24" "hours = s div 60 div 60 mod 24" by simp
  have up: "panel_uptime date_ms (cd_startedAt d) (cd_finishedAt d) False now = string_of_int days @ ''d '' @ string_of_int hours @ ''h''"
    unfolding days using assms(1,2,4) s m h by (simp add: panel_uptime_def Let_def s_def [symmetric])
  have "container_status_line date_ms now d \<noteq> [] \<and> hd (container_status_line date_ms now d) =
      ''exited '' @ (string_of_int days @ ''d '' @ string_of_int hours @ ''h'') @ '' ago''"
    unfolding container_status_line_def Let_def using assms(3) up by simp
  then have "hd (container_status_line date_ms now d) = ''exited '' @ string_of_int days @ ''d '' @ string_of_int hours @ ''h ago''"
    by simp
  then show ?thesis using d unfolding days by blast
qed

definition process_section :: "ContainerDetail \<Rightarrow> panel" where
  "process_section d =
     [(''Process'',
       (if cd_cmd d \<noteq> [] then [Fact ''Command'' (Some (join '' '' (cd_cmd d)))] else [])
       @ (if cd_entrypoint d \<noteq> [] then [Fact ''Entrypoint'' (Some (join '' '' (cd_entrypoint d)))] else [])
       @ fact_if ''Working Dir'' (Some (cd_workingDir d)) @ fact_if ''User'' (Some (cd_user d))
       @ (if cd_pid d > 0 then [Fact ''PID'' (Some (string_of_int (cd_pid d)))] else [])
       @ [Fact ''Restart'' (Some (fst (cd_restart d)
            @ (if snd (cd_restart d) \<noteq> 0 then '' (max '' @ string_of_nat (snd (cd_restart d)) @ '')'' else [])))])]"


text \<open>The resources of a container: the memory bar is \<open>None\<close> where the card says "N/A".\<close>

definition memory_percent :: "ContainerStatsData \<Rightarrow> real option" where
  "memory_percent s =
     (if cs_memUsage s > 0
      then Some (cs_memUsage s / (if cs_memLimit s \<noteq> 0 then cs_memLimit s else cs_memUsage s) * 100) else None)"

text \<open>The sign for no memory limit, in its three bytes: the characters of HOL have eight bits.\<close>

definition infinity_sign :: string where
  "infinity_sign = [CHR 0xE2, CHR 0x88, CHR 0x9E]"

definition stats_section :: "ContainerStatsData option \<Rightarrow> panel_row list" where
  "stats_section stats =
     (case stats of
        None \<Rightarrow> [Line ''No stats available'']
      | Some s \<Rightarrow>
          [Bar (if cs_cpuThrottled s > 0 then ''CPU '' @ [CHR 0xB7] @ '' thr '' @ to_fixed 0 (cs_cpuThrottled s) @ ''%'' else ''CPU'')
             (to_fixed 1 (cs_cpuPercent s) @ '' %'') (Some (min (cs_cpuPercent s) 100)),
           Bar ''Memory'' (if cs_memUsage s > 0 then formatBytes_panel (cs_memUsage s) 1 else ''N/A'')
             (map_option (\<lambda>p. min p 100) (memory_percent s)),
           Line (if cs_memUsage s > 0 then ''/ '' @ (if cs_memLimit s \<noteq> 0 then formatBytes_panel (cs_memLimit s) 1 else infinity_sign)
                 else ''cgroup n/a''),
           Fact ''Net Rx'' (Some (formatBytes_panel (cs_netRx s) 1)), Fact ''Net Tx'' (Some (formatBytes_panel (cs_netTx s) 1)),
           Fact ''Disk Read'' (Some (formatBytes_panel (cs_blockRead s) 1)),
           Fact ''Disk Write'' (Some (formatBytes_panel (cs_blockWrite s) 1))]
          @ (if cs_pids s > 0 then [Fact ''PIDs'' (Some (string_of_nat (cs_pids s)))] else [])
          @ (if cs_netRxErrors s + cs_netTxErrors s > 0
             then [Fact ''Errors'' (Some (string_of_nat (cs_netRxErrors s + cs_netTxErrors s)))] else []))"

section \<open>A service that does not run yet\<close>

definition compose_panel :: "bool \<Rightarrow> ComposeConfig \<Rightarrow> panel" where
  "compose_panel canNavigate c =
     (let words = (\<lambda>label ws. if nullish ws [] \<noteq> [] then [Fact label (Some (join '' '' (nullish ws [])))] else []);
          links = (\<lambda>prefix ws. map (\<lambda>w. if canNavigate then Go w (prefix @ w) else Line w) ws)
      in [(''Process'', words ''Command'' (cc_command c) @ words ''Entrypoint'' (cc_entrypoint c)
            @ fact_if ''Working Dir'' (cc_workingDir c) @ fact_if ''User'' (cc_user c) @ fact_if ''Restart'' (cc_restart c))]
         @ section_if (nullish (cc_dependsOn c) [] \<noteq> []) ''Dependencies'' (links ''container:'' (nullish (cc_dependsOn c) []))
         @ mounts_section canNavigate (nullish (cc_volumes c) [])
         @ section_if (nullish (cc_networks c) [] \<noteq> []) ''Networks'' (links ''network:'' (nullish (cc_networks c) []))
         @ env_section (nullish (cc_environment c) [])
         @ labels_section (cc_labels c)
         @ security_section (cc_privileged c = Some True) (cc_readOnly c = Some True) (nullish (cc_capAdd c) []) (nullish (cc_capDrop c) []))"

definition ghost_container_panel :: "DGNode \<Rightarrow> panel" where
  "ghost_container_panel n =
     (case dg_compose n of None \<Rightarrow> [] | Some c \<Rightarrow> compose_panel True c)
     @ section_if (nullish (dg_ports n) [] \<noteq> []) ''Ports'' (map (\<lambda>p.
         let proto = (if truthy (pm_protocol p) then ''/'' @ the (pm_protocol p) else [])
         in PortRow (hostPorts p) (containerPorts p @ proto) (portMapping p @ proto)) (nullish (dg_ports n) []))"

definition count_title :: "string \<Rightarrow> nat \<Rightarrow> string" where
  "count_title title n = title @ '' ('' @ string_of_nat n @ '')''"





section \<open>Volumes and networks\<close>


definition node_text :: "TaskInfo \<Rightarrow> string option" where
  "node_text t =
     (if truthy (ti_nodeHostname t) then ti_nodeHostname t
      else case ti_nodeId t of None \<Rightarrow> None | Some i \<Rightarrow> some_text (take 12 i))"

text \<open>A service of a network, unfolded: its link, its virtual IP and its table of tasks.\<close>

record NetworkEntry =
  ny_link :: panel_row
  ny_tasksText :: string
  ny_vip :: "panel_row list"
  ny_slotted :: bool
  ny_rows :: "(nat option \<times> string option \<times> string option) list"

definition network_entry :: "bool \<Rightarrow> bool \<Rightarrow> NetworkService \<Rightarrow> NetworkEntry" where
  "network_entry canNavigate opened s =
     (let count = length (nv_tasks s)
      in \<lparr>ny_link = (if canNavigate then Go (nv_name s) (''service:'' @ nv_name s) else Line (nv_name s)),
          ny_tasksText = string_of_nat count @ (if count = 1 then '' task'' else '' tasks''),
          ny_vip = fact_if ''VIP'' (nv_vip s),
          ny_slotted = list_ex (\<lambda>t. taskSlot (nt_task t) (Some (nv_mode s)) \<noteq> None) (nv_tasks s),
          ny_rows = (if opened \<and> count > 0
            then map (\<lambda>t. (taskSlot (nt_task t) (Some (nv_mode s)), node_text (nt_task t),
              if nt_addresses t = [] then None else Some (join '', '' (nt_addresses t)))) (nv_tasks s)
            else [])\<rparr>)"

definition network_services :: "bool \<Rightarrow> bool \<Rightarrow> NetworkService list \<Rightarrow> string \<times> (string + NetworkEntry list)" where
  "network_services unavailable canNavigate services =
     (if unavailable then (''Connected Services'', Inl (''The network's services couldn't be listed from the swarm. ''
        @ ''The containers below are only those on this node.''))
      else (count_title ''Connected Services'' (length services),
        if services = [] then Inl ''No services.'' else Inr (map (network_entry canNavigate False) services)))"

definition shows_network_services :: "NetworkDetail \<Rightarrow> bool" where
  "shows_network_services n \<longleftrightarrow> nd_services n \<noteq> None \<or> nd_servicesUnavailable n"



section \<open>Links\<close>
























end
