(* ===== verification/SwarmPanels.thy ===== *)
theory SwarmPanels
  imports Panels RoleSummary NodeTransformCorrect
begin

text \<open>
  The swarm's panels: a service (\<^verbatim>\<open>panels/DetailPanelService.tsx\<close>), a node
  (\<^verbatim>\<open>DetailPanelSwarmNode.tsx\<close>, with \<^verbatim>\<open>ResourceLine.tsx\<close>), the Managers and Workers groups with
  their quorum (\<^verbatim>\<open>DetailPanelRoleGroup.tsx\<close>), and the dashboard's card of nodes
  (\<^verbatim>\<open>dashboard/SwarmNodesCard.tsx\<close>). The lemmas show that a node's panel lists the tasks of its box
  card by card, when the quorum is called healthy, that the leader's mark agrees with the quorum,
  and that the note on even numbers of managers is right, except for none.
\<close>

section \<open>A service\<close>

definition service_port_row :: "ServicePort \<Rightarrow> string option \<times> string \<times> string" where
  "service_port_row p =
     (if sp_host p \<noteq> 0 then Some (portSpan (sp_host p) (sp_hostEnd p)) else None,
      portSpan (sp_container p) (sp_containerEnd p),
      if sp_publishMode p \<noteq> [] then sp_protocol p @ '' ('' @ sp_publishMode p @ '')'' else sp_protocol p)"

definition service_subtitle :: "ServiceDetail \<Rightarrow> string" where
  "service_subtitle d =
     ''service'' @ (if truthy (sd_mode d) then '' '' @ [CHR 0xB7] @ '' '' @ the (sd_mode d) else [])
     @ (if truthy (sd_stack d) then '' '' @ [CHR 0xB7] @ '' stack '' @ the (sd_stack d) else [])"

text \<open>The update row is its state, with its message after a dash when there is one.\<close>

definition replicas_section :: "ServiceDetail \<Rightarrow> panel_row list" where
  "replicas_section d =
     [Fact ''Running'' (Some (case sd_replicas d of None \<Rightarrow> ''Unknown''
        | Some r \<Rightarrow> string_of_nat (rc_running r) @ '' / '' @ string_of_nat (rc_desired r)))]
     @ (case sd_replicas d of None \<Rightarrow> [] | Some r \<Rightarrow>
          (case rc_completed r of None \<Rightarrow> [] | Some k \<Rightarrow> [Fact ''Completed'' (Some (string_of_nat k))]))
     @ fact_if ''Mode'' (sd_mode d)
     @ (case sd_updateStatus d of None \<Rightarrow> [] | Some (state, message) \<Rightarrow>
          if state = [] then []
          else Fact ''Update'' (Some state) # (if truthy message then [Line (the message)] else []))
     @ (if sd_constraints d \<noteq> [] then [Fact ''Constraints'' (Some (join '', '' (sd_constraints d)))] else [])"

definition task_stats_text :: "stats_map \<Rightarrow> string \<Rightarrow> TaskInfo \<Rightarrow> string option" where
  "task_stats_text statsMap service t =
     map_option (\<lambda>s. to_fixed 1 (cs_cpuPercent s) @ ''% '' @ [CHR 0xB7] @ '' '' @ formatBytes_panel (cs_memUsage s) 1)
       (map_get statsMap (taskContainerName service t))"

record TaskTableRow =
  tt_slot :: "nat option"
  tt_node :: "string option"
  tt_color :: string
  tt_state :: string
  tt_error :: "string option"
  tt_stats :: "string option"

definition task_table_row :: "stats_map \<Rightarrow> ServiceDetail \<Rightarrow> TaskInfo \<Rightarrow> TaskTableRow" where
  "task_table_row statsMap d t =
     \<lparr>tt_slot = taskSlot t (sd_mode d), tt_node = node_text t, tt_color = taskStateColor (ti_state t),
      tt_state = nullish (ti_state t) ''unknown'', tt_error = (if truthy (ti_error t) then ti_error t else None),
      tt_stats = task_stats_text statsMap (sd_name d) t\<rparr>"

definition tasks_section :: "stats_map \<Rightarrow> ServiceDetail \<Rightarrow> string \<times> (string + TaskTableRow list)" where
  "tasks_section statsMap d =
     (if sd_tasksUnavailable d then ''Tasks'' else count_title ''Tasks'' (length (sd_tasks d)),
      if sd_tasksUnavailable d then Inl ''Tasks unavailable.''
      else if sd_tasks d = [] then Inl ''No tasks.''
      else Inr (map (task_table_row statsMap d) (sd_tasks d)))"

definition networks_section :: "ServiceDetail \<Rightarrow> panel" where
  "networks_section d = section_if (sd_networks d \<noteq> []) ''Networks'' (concat (map (\<lambda>(name, aliases).
     Go name (''network:'' @ name) # (if aliases = [] then [] else [Line ('' ('' @ join '', '' aliases @ '')'')])) (sd_networks d)))"

section \<open>A node\<close>

text \<open>Runs of placed tasks of one service.\<close>

definition push_placed :: "(DGNode \<times> PlacedTask list) list \<Rightarrow> PlacedTask \<Rightarrow> (DGNode \<times> PlacedTask list) list" where
  "push_placed out p =
     (if out \<noteq> [] \<and> dg_id (fst (last out)) = dg_id (pt_service p)
      then butlast out @ [(fst (last out), snd (last out) @ [p])]
      else out @ [(pt_service p, [p])])"

definition byService :: "collator \<Rightarrow> DGNode list \<Rightarrow> string \<Rightarrow> (DGNode \<times> PlacedTask list) list" where
  "byService lc dgNodes nodeId = foldl push_placed [] (nullish (map_get (placeTasks lc dgNodes) nodeId) [])"

definition panel_task_count :: "collator \<Rightarrow> DGNode list \<Rightarrow> string \<Rightarrow> nat" where
  "panel_task_count lc dgNodes nodeId = foldl (\<lambda>n g. n + length (snd g)) 0 (byService lc dgNodes nodeId)"

definition resource_line :: "string \<Rightarrow> string \<Rightarrow> string option \<Rightarrow> real option \<Rightarrow> panel_row" where
  "resource_line label cap used percent =
     Bar label ((case percent of None \<Rightarrow> [] | Some p \<Rightarrow> to_fixed 0 p @ ''% '' @ [CHR 0xB7] @ '' '')
       @ (if truthy used then the used @ '' / '' else []) @ cap) (Some (nullish percent 0))"

definition node_facts :: "DGNode \<Rightarrow> panel_row list" where
  "node_facts n =
     (case dg_swarmNode n of
        None \<Rightarrow> [Fact ''State'' (Some (nullish (dg_status n) ''unknown''))]
      | Some i \<Rightarrow> [Fact ''Role'' (Some (if sn_leader i = Some True then sn_role i @ '' (leader)'' else sn_role i)),
          Fact ''Availability'' (Some (sn_availability i)), Fact ''State'' (Some (sn_state i))]
          @ fact_if ''Address'' (sn_addr i) @ fact_if ''Engine'' (sn_engineVersion i) @ fact_if ''ID'' (Some (sn_id i)))"

definition node_resources :: "SwarmNodeInfo option \<Rightarrow> ContainerStatsData option \<Rightarrow> panel" where
  "node_resources info stats =
     (let usage = nodeUsage info stats; memory = (case info of None \<Rightarrow> None | Some i \<Rightarrow> capacity (sn_memoryBytes i))
      in section_if (nu_cores usage \<noteq> None \<or> memory \<noteq> None) ''Resources''
        ((case nu_cores usage of None \<Rightarrow> []
          | Some c \<Rightarrow> [resource_line ''CPU'' (formatCores c) None (nu_cpuPercent usage)])
         @ (case memory of None \<Rightarrow> []
          | Some m \<Rightarrow> [resource_line ''Memory'' (formatBytes_panel (real m) 1)
              (map_option (\<lambda>s. formatBytes_panel (cs_memUsage s) 1) stats) (nu_memPercent usage)])))"

record NodeTaskLine =
  nl_color :: string
  nl_label :: string
  nl_state :: string
  nl_stats :: "string option"

definition node_task_line :: "stats_map \<Rightarrow> DGNode \<Rightarrow> PlacedTask \<Rightarrow> NodeTaskLine" where
  "node_task_line statsMap service p =
     \<lparr>nl_color = taskStateColor (ti_state (pt_task p)),
      nl_label = taskLabel (dg_name service) (pt_task p) (case dg_service service of None \<Rightarrow> None | Some s \<Rightarrow> si_mode s),
      nl_state = nullish (ti_state (pt_task p)) ''unknown'', nl_stats = task_stats_text statsMap (dg_name service) (pt_task p)\<rparr>"

definition node_tasks :: "collator \<Rightarrow> stats_map \<Rightarrow> DGNode list \<Rightarrow> string \<Rightarrow> string \<times> (panel_row \<times> NodeTaskLine list) list" where
  "node_tasks lc statsMap dgNodes nodeId =
     (count_title ''Tasks'' (panel_task_count lc dgNodes nodeId),
      map (\<lambda>(service, ps). (Go (dg_name service) (dg_id service), map (node_task_line statsMap service) ps)) (byService lc dgNodes nodeId))"

text \<open>
  The panel of a node groups its tasks as the box of the node draws them, card by card and row by
  row, and counts them all. The box's own count adds the containers of the local node.
\<close>

lemma push_placed_card:
  "map (\<lambda>(s, ps). (s, map pt_task ps)) (push_placed out p) = push_service (map (\<lambda>(s, ps). (s, map pt_task ps)) out) p"
  by (cases out rule: rev_cases) (auto simp: push_placed_def push_service_def)

lemma panel_groups_are_cards:
  "map (\<lambda>(s, ps). (s, map pt_task ps)) (byService lc dgNodes i) = groupByService (box_tasks (placeTasks lc dgNodes) i)"
proof -
  have "map (\<lambda>(s, ps). (s, map pt_task ps)) (foldl push_placed out ps) =
      foldl push_service (map (\<lambda>(s, ps). (s, map pt_task ps)) out) ps" for out ps
    by (induction ps arbitrary: out) (simp_all add: push_placed_card)
  from this [of "[]"] show ?thesis by (simp add: byService_def groupByService_def box_tasks_def)
qed

lemma panel_counts_all: "panel_task_count lc dgNodes i = length (box_tasks (placeTasks lc dgNodes) i)"
proof -
  have sum: "foldl (\<lambda>n g. n + length (snd g)) k gs = k + length (concat (map snd gs))" for k gs
    by (induction gs arbitrary: k) simp_all
  have "concat (map snd (push_placed out p)) = concat (map snd out) @ [p]" for out :: "(DGNode \<times> PlacedTask list) list" and p
    by (cases out rule: rev_cases) (auto simp: push_placed_def)
  then have "concat (map snd (foldl push_placed out ps)) = concat (map snd out) @ ps" for out ps
    by (induction ps arbitrary: out) simp_all
  then show ?thesis by (simp add: panel_task_count_def sum byService_def box_tasks_def)
qed

lemma box_counts_containers_too:
  "snd (addBox placed containers localGroup i n parent role v) =
     length (box_tasks placed i) + (if Some i = localGroup then length containers else 0)"
  by (simp add: addBox_def box_local_def Let_def)

text \<open>A bar of a panel or a card never leaves its track.\<close>

lemma bars_in_track:
  "Bar l t (Some p) \<in> set (concat (map snd (node_resources info stats))) \<Longrightarrow> 0 \<le> p \<and> p \<le> 100"
  by (auto simp: node_resources_def resource_line_def section_if_def nodeUsage_def Let_def clampPercent_def
      split: option.splits if_splits)

section \<open>A role\<close>

definition tally_text :: "TallyEntry list \<Rightarrow> string" where
  "tally_text ts = join ('' '' @ [CHR 0xB7] @ '' '') (map (\<lambda>t. string_of_nat (te_count t) @ '' '' @ te_value t) ts)"

definition role_subtitle :: "swarm_role \<Rightarrow> RoleSummary \<Rightarrow> string" where
  "role_subtitle role s = join ('' '' @ [CHR 0xB7] @ '' '')
     [''swarm '' @ role_name role @ ''s'', formatCount (length (rs_members s)) ''node'', formatCount (rs_tasks s) ''task'']"

definition role_capacity :: "RoleSummary \<Rightarrow> string" where
  "role_capacity s = join ('' '' @ [CHR 0xB7] @ '' '')
     ((if rs_cores s \<noteq> 0 then [formatCores (rs_cores s)] else [])
      @ (if rs_memoryBytes s \<noteq> 0 then [formatBytes_panel (rs_memoryBytes s) 1] else []))"

definition role_resources :: "RoleSummary \<Rightarrow> panel_row list" where
  "role_resources s =
     Fact ''Capacity'' (Some (role_capacity s))
     # (case rs_usage s of
          None \<Rightarrow> [Line ''No agent reports stats for these nodes.'']
        | Some u \<Rightarrow>
            (case ru_cpuPercent u of None \<Rightarrow> [] | Some p \<Rightarrow> [resource_line ''CPU'' (formatCores (ru_cores u)) None (Some p)])
            @ (case ru_memPercent u of None \<Rightarrow> []
               | Some p \<Rightarrow> [resource_line ''Memory'' (formatBytes_panel (ru_memCapacity u) 1) (Some (formatBytes_panel (ru_memUsed u) 1)) (Some p)])
            @ (if ru_reporting u < length (rs_members s)
               then [Line (''Usage of the '' @ string_of_nat (ru_reporting u) @ '' of '' @ string_of_nat (length (rs_members s))
                 @ '' nodes whose agent reports stats.'')] else []))"

definition role_engines :: "RoleSummary \<Rightarrow> panel_row list" where
  "role_engines s =
     map (\<lambda>e. Fact (te_value e) (Some (formatCount (te_count e) ''node''))) (rs_engines s)
     @ (if length (filter (\<lambda>e. te_value e \<noteq> unknown) (rs_engines s)) > 1
        then [Line ''The nodes run different engine versions, as during a rolling upgrade.''] else [])"

text \<open>The answer of the managers' endpoint: the list, or the error of the last request.\<close>

record ManagersAnswer =
  ma_managers :: "SwarmManager list option"
  ma_error :: "string option"

definition isLeader :: "ManagersAnswer \<Rightarrow> string \<Rightarrow> bool option \<Rightarrow> bool" where
  "isLeader a name graphLeader =
     (if truthy (ma_error a) then False
      else case ma_managers a of
             Some ms \<Rightarrow> list_ex (\<lambda>m. sm_leader m \<and> sm_name m = name) ms
           | None \<Rightarrow> graphLeader = Some True)"

record RoleRow =
  rr_link :: panel_row
  rr_color :: string
  rr_leader :: bool
  rr_tasks :: nat
  rr_cpu :: "string option"
  rr_memory :: "string option"

definition node_link :: "string \<Rightarrow> panel_row" where
  "node_link name = Go name (''swarmnode:'' @ name)"

definition role_row :: "ManagersAnswer \<Rightarrow> RoleMember \<Rightarrow> RoleRow" where
  "role_row a m =
     (let n = rm_node m; percent = map_option (\<lambda>p. to_fixed 0 p @ ''%'')
      in \<lparr>rr_link = node_link (dg_name n), rr_color = swarmNodeStateColor (Some (nullish (node_state n) ''unknown'')),
          rr_leader = isLeader a (dg_name n) (case dg_swarmNode n of None \<Rightarrow> None | Some i \<Rightarrow> sn_leader i),
          rr_tasks = rm_tasks m, rr_cpu = percent (nu_cpuPercent (rm_usage m)), rr_memory = percent (nu_memPercent (rm_usage m))\<rparr>)"

definition role_panel :: "swarm_role \<Rightarrow> RoleSummary \<Rightarrow> panel" where
  "role_panel role s =
     [(''Status'', [Fact ''State'' (some_text (tally_text (rs_states s))), Fact ''Availability'' (some_text (tally_text (rs_availability s)))])]
     @ section_if (role_capacity s \<noteq> []) ''Resources'' (role_resources s)
     @ section_if (rs_engines s \<noteq> []) ''Engine'' (role_engines s)
     @ section_if (rs_members s = []) ''Nodes (0)'' [Line (''No '' @ role_name role @ '' nodes.'')]"

definition role_table :: "ManagersAnswer \<Rightarrow> RoleSummary \<Rightarrow> RoleRow list" where
  "role_table a s = map (role_row a) (rs_members s)"

subsection \<open>The quorum\<close>

datatype quorum_status = QuorumLost | NoLeader | Degraded | Healthy

record QuorumView =
  qv_status :: quorum_status
  qv_leader :: panel_row
  qv_reachable :: string
  qv_majority :: string
  qv_canLose :: "string option"
  qv_unreachable :: "panel_row list"
  qv_evenNote :: "(nat \<times> int) option"

definition manager_name :: "string list \<Rightarrow> string \<Rightarrow> panel_row" where
  "manager_name inGraph name = (if name \<in> set inGraph then node_link name else Line name)"

definition quorum_view :: "string list \<Rightarrow> SwarmManager list \<Rightarrow> QuorumView" where
  "quorum_view inGraph ms =
     (let h = quorumHealth ms
      in \<lparr>qv_status = (if qh_spare h < 0 then QuorumLost else if \<not> truthy (qh_leader h) then NoLeader
            else if length (qh_unreachable h) > 0 then Degraded else Healthy),
          qv_leader = (if truthy (qh_leader h) then manager_name inGraph (the (qh_leader h)) else Line ''none''),
          qv_reachable = string_of_nat (qh_reachable h) @ '' of '' @ formatCount (qh_managers h) ''manager'',
          qv_majority = formatCount (qh_quorum h) ''manager'',
          qv_canLose = (if qh_spare h > 0 then Some (formatCount (nat (qh_spare h)) ''more manager'')
            else if qh_spare h = 0 then Some ''no more managers'' else None),
          qv_unreachable = map (\<lambda>m. manager_name inGraph (sm_name m)) (qh_unreachable h),
          qv_evenNote = (if qh_managers h mod 2 = 0 then Some (qh_managers h, int (qh_managers h) - 1) else None)\<rparr>)"

datatype quorum_section = QuorumUnavailable string | QuorumAsked | QuorumShown QuorumView

definition quorum_section_of :: "string list \<Rightarrow> ManagersAnswer \<Rightarrow> quorum_section" where
  "quorum_section_of inGraph a =
     (if truthy (ma_error a) then QuorumUnavailable (the (ma_error a))
      else case ma_managers a of None \<Rightarrow> QuorumAsked | Some ms \<Rightarrow> QuorumShown (quorum_view inGraph ms))"

lemma quorum_status_cases:
  "qv_status (quorum_view g ms) = (if qh_spare (quorumHealth ms) < 0 then QuorumLost
      else if \<not> truthy (qh_leader (quorumHealth ms)) then NoLeader
      else if qh_unreachable (quorumHealth ms) \<noteq> [] then Degraded else Healthy)"
  by (simp add: quorum_view_def Let_def)

lemma quorum_leader:
  assumes "\<forall>m\<in>set ms. sm_name m \<noteq> []"
  shows "truthy (qh_leader (quorumHealth ms)) \<longleftrightarrow> (\<exists>m\<in>set ms. sm_leader m)"
proof (cases "find sm_leader ms")
  case None
  then have "\<not> (\<exists>m\<in>set ms. sm_leader m)" by (simp add: find_None_iff)
  then show ?thesis using None by (simp add: quorumHealth_def Let_def)
next
  case (Some m)
  then have "m \<in> set ms" "sm_leader m" by (auto simp: find_Some_iff)
  then show ?thesis using Some assms by (auto simp: quorumHealth_def Let_def)
qed

lemma quorum_unreachable:
  "qh_unreachable (quorumHealth ms) \<noteq> [] \<longleftrightarrow> (\<exists>m\<in>set ms. sm_reachability m \<noteq> ''reachable'')"
  by (auto simp: quorumHealth_def Let_def filter_empty_conv)

text \<open>
  C38. The quorum of the Managers panel reads as raft does: lost when no majority of the managers is
  reachable, otherwise without a leader when none leads, degraded when one is unreachable, and
  healthy exactly when one leads and all are reachable; the number that can still be lost is the
  largest that leaves a majority.
\<close>

theorem quorum_reading:
  assumes "\<forall>m\<in>set ms. sm_name m \<noteq> []"
  defines "reachable \<equiv> length (filter (\<lambda>m. sm_reachability m = ''reachable'') ms)"
  shows "qv_status (quorum_view g ms) =
      (if 2 * reachable \<le> length ms then QuorumLost
       else if \<forall>m\<in>set ms. \<not> sm_leader m then NoLeader
       else if \<exists>m\<in>set ms. sm_reachability m \<noteq> ''reachable'' then Degraded else Healthy)
    \<and> (length ms < 2 * reachable \<longrightarrow> (\<exists>k.
        qv_canLose (quorum_view g ms) = Some (if k = 0 then ''no more managers'' else formatCount k ''more manager'')
        \<and> (\<forall>j. length ms < 2 * (reachable - j) \<longleftrightarrow> j \<le> k)))"
proof
  have leader: "truthy (qh_leader (quorumHealth ms)) \<longleftrightarrow> (\<exists>m\<in>set ms. sm_leader m)"
    by (rule quorum_leader [OF assms(1)])
  have lost: "qh_spare (quorumHealth ms) < 0 \<longleftrightarrow> 2 * reachable \<le> length ms"
    using quorum_majority(1) [of ms] unfolding reachable_def by auto
  show "qv_status (quorum_view g ms) =
      (if 2 * reachable \<le> length ms then QuorumLost
       else if \<forall>m\<in>set ms. \<not> sm_leader m then NoLeader
       else if \<exists>m\<in>set ms. sm_reachability m \<noteq> ''reachable'' then Degraded else Healthy)"
    unfolding quorum_status_cases lost leader quorum_unreachable by simp
  show "length ms < 2 * reachable \<longrightarrow> (\<exists>k.
        qv_canLose (quorum_view g ms) = Some (if k = 0 then ''no more managers'' else formatCount k ''more manager'')
        \<and> (\<forall>j. length ms < 2 * (reachable - j) \<longleftrightarrow> j \<le> k))"
  proof
    assume majority: "length ms < 2 * reachable"
    define k where "k = reachable - (length ms div 2 + 1)"
    have "qh_spare (quorumHealth ms) = int k"
      using majority by (simp add: quorumHealth_def Let_def reachable_def k_def)
    then have "qv_canLose (quorum_view g ms) = Some (if k = 0 then ''no more managers'' else formatCount k ''more manager'')"
      by (simp add: quorum_view_def Let_def)
    moreover have "length ms < 2 * (reachable - j) \<longleftrightarrow> j \<le> k" for j
      using majority unfolding k_def by linarith
    ultimately show "\<exists>k. qv_canLose (quorum_view g ms) =
          Some (if k = 0 then ''no more managers'' else formatCount k ''more manager'')
        \<and> (\<forall>j. length ms < 2 * (reachable - j) \<longleftrightarrow> j \<le> k)" by blast
  qed
qed

definition manager_named :: "string \<Rightarrow> bool \<Rightarrow> string \<Rightarrow> SwarmManager" where
  "manager_named name leads r = \<lparr>sm_id = name, sm_name = name, sm_leader = leads, sm_reachability = r, sm_addr = None\<rparr>"

theorem quorum_reading_witness:
  "qv_status (quorum_view [] [manager_named ''a'' True ''reachable'', manager_named ''b'' False ''reachable'',
     manager_named ''c'' False ''unreachable'']) = Degraded"
  using quorum_reading [of "[manager_named ''a'' True ''reachable'', manager_named ''b'' False ''reachable'',
     manager_named ''c'' False ''unreachable'']" "[]"]
  by (simp add: manager_named_def)

text \<open>Once the managers have answered, the star in the table marks the leader the section names.\<close>

lemma leader_mark_agrees:
  assumes "\<not> truthy (ma_error a)" "ma_managers a = Some ms" "length (filter sm_leader ms) \<le> 1"
  shows "isLeader a name graphLeader \<longleftrightarrow> qh_leader (quorumHealth ms) = Some name"
proof -
  have one: "m = m'" if "m \<in> set ms" "m' \<in> set ms" "sm_leader m" "sm_leader m'" for m m'
  proof (cases "filter sm_leader ms")
    case Nil
    then show ?thesis using that by (auto simp: filter_empty_conv)
  next
    case (Cons x xs)
    then have "filter sm_leader ms = [x]" using assms(3) by simp
    then have "set (filter sm_leader ms) = {x}" by simp
    moreover have "m \<in> set (filter sm_leader ms)" "m' \<in> set (filter sm_leader ms)" using that by auto
    ultimately show ?thesis by simp
  qed
  show ?thesis
  proof (cases "find sm_leader ms")
    case None
    then have "\<not> (\<exists>m\<in>set ms. sm_leader m)" by (simp add: find_None_iff)
    then show ?thesis using assms(1,2) None by (auto simp: isLeader_def quorumHealth_def Let_def list_ex_iff)
  next
    case (Some m)
    then have "m \<in> set ms" "sm_leader m" by (auto simp: find_Some_iff)
    then show ?thesis using Some one assms(1,2) by (auto simp: isLeader_def quorumHealth_def Let_def list_ex_iff)
  qed
qed

text \<open>
  The note on even numbers of managers: as many can fail as with one fewer. An empty answer gets
  the note too, with "-1" for one fewer.
\<close>

definition failures_tolerated :: "nat \<Rightarrow> int" where
  "failures_tolerated n = int n - (int (n div 2) + 1)"

lemma even_note_right:
  "qv_evenNote (quorum_view g ms) = Some (n, k) \<Longrightarrow> n \<noteq> 0 \<Longrightarrow>
     k = int (n - 1) \<and> failures_tolerated n = failures_tolerated (n - 1)"
  "qv_evenNote (quorum_view g []) = Some (0, -1)"
  by (auto simp: quorum_view_def quorumHealth_def Let_def failures_tolerated_def split: if_splits elim!: evenE)

section \<open>The dashboard's card of nodes\<close>

record NodesCardRow =
  nrow_name :: string
  nrow_color :: string
  nrow_count :: nat
  nrow_cpu :: "(real \<times> string) option"
  nrow_memory :: "(real \<times> string) option"

definition nodes_card_row :: "collator \<Rightarrow> stats_map \<Rightarrow> DGNode list \<Rightarrow> DGNode \<Rightarrow> NodesCardRow" where
  "nodes_card_row lc statsMap nodes n =
     (let info = dg_swarmNode n; stats = map_get statsMap (nodeStatsKey (dg_name n)); usage = nodeUsage info stats;
          memory = (case info of None \<Rightarrow> None | Some i \<Rightarrow> capacity (sn_memoryBytes i))
      in \<lparr>nrow_name = dg_name n, nrow_color = swarmNodeStateColor (node_state n),
          nrow_count = length (nullish (map_get (placeTasks lc nodes) (dg_id n)) []),
          nrow_cpu = map_option (\<lambda>s. (nullish (nu_cpuPercent usage) 0, to_fixed 1 (cs_cpuPercent s) @ ''%''
            @ (case nu_cores usage of None \<Rightarrow> [] | Some c \<Rightarrow> if c = 0 then [] else '' / '' @ formatCores c))) stats,
          nrow_memory = map_option (\<lambda>s. (nullish (nu_memPercent usage) 0, formatBytes (cs_memUsage s)
            @ (case memory of None \<Rightarrow> [] | Some m \<Rightarrow> '' / '' @ formatBytes (real m)))) stats\<rparr>)"

definition nodes_card :: "collator \<Rightarrow> stats_map \<Rightarrow> DGNode list \<Rightarrow> NodesCardRow list" where
  "nodes_card lc statsMap nodes = map (nodes_card_row lc statsMap nodes) (listSwarmNodes lc nodes)"

text \<open>The card and the node's panel count the same tasks.\<close>

lemma card_and_panel_count:
  "nrow_count (nodes_card_row lc st nodes n) = panel_task_count lc nodes (dg_id n)"
  by (simp add: nodes_card_row_def panel_counts_all box_tasks_def Let_def)

end
