(* ===== verification/Views.thy ===== *)
theory Views
  imports Tables Dashboard Filters LogWindowsCorrect NodeCards
begin

text \<open>
  Small views around the canvas: the search field and its chips (\<^verbatim>\<open>components/SearchFilter.tsx\<close>,
  \<^verbatim>\<open>SearchFilterChips.tsx\<close>), the theme kept in the browser (\<^verbatim>\<open>theme.tsx\<close>), the sign-out button
  (\<^verbatim>\<open>LogoutButton.tsx\<close>), the error boundary (\<^verbatim>\<open>ErrorBoundary.tsx\<close>), the dock of minimised log
  windows (\<^verbatim>\<open>logwindow/LogDock.tsx\<close>), the rows and toolbars of the tables
  (\<^verbatim>\<open>components/table\<close>) and the disk, image and alert cards of the dashboard
  (\<^verbatim>\<open>components/dashboard\<close>). An em dash is a missing text.
\<close>

section \<open>The search field\<close>

definition STATUS_OPTIONS :: "string list" where
  "STATUS_OPTIONS = [''running'', ''exited'', ''paused'', ''unhealthy'']"

definition TYPE_OPTIONS :: "string list" where
  "TYPE_OPTIONS = [''container'', ''volume'', ''network'']"

definition status_chips :: "SearchFilter \<Rightarrow> (string \<times> bool) list" where
  "status_chips st = map (\<lambda>s. (s, s \<in> set (sf_statuses st))) STATUS_OPTIONS"

definition type_chips :: "SearchFilter \<Rightarrow> (string \<times> bool) list" where
  "type_chips st = map (\<lambda>t. (t, t \<in> set (sf_types st))) TYPE_OPTIONS"

definition chips_visible :: "SearchFilter \<Rightarrow> bool \<Rightarrow> bool" where
  "chips_visible st focused \<longleftrightarrow> hasActiveFilter st \<or> focused"

definition show_hint :: "SearchFilter \<Rightarrow> bool \<Rightarrow> bool" where
  "show_hint st focused \<longleftrightarrow> \<not> focused \<and> sf_query st = []"

definition search_count :: "SearchFilter \<Rightarrow> DGNode list \<Rightarrow> string option" where
  "search_count st ns = (if hasActiveFilter st
     then Some (string_of_nat (matchCount st ns) @ ''/'' @ string_of_nat (length ns)) else None)"

text \<open>The field with its focus: "/" focuses it from outside a field, Escape clears and leaves it.\<close>

datatype field_event = SlashKey bool | FieldFocus | FieldBlur | FieldEscape | FieldSearch search_event

definition field_step :: "SearchFilter \<times> bool \<Rightarrow> field_event \<Rightarrow> SearchFilter \<times> bool" where
  "field_step sf e = (case sf of (st, focused) \<Rightarrow>
     (case e of
        SlashKey inInput \<Rightarrow> (st, focused \<or> \<not> inInput)
      | FieldFocus \<Rightarrow> (st, True)
      | FieldBlur \<Rightarrow> (st, False)
      | FieldEscape \<Rightarrow> (search_step st ClearAll, False)
      | FieldSearch se \<Rightarrow> (search_step st se, focused)))"

text \<open>Escape leaves an empty field with no filter and no chips.\<close>

lemma escape_clears_field:
  "let (st, focused) = field_step sf FieldEscape in \<not> hasActiveFilter st \<and> \<not> chips_visible st focused \<and> show_hint st focused"
  by (cases sf) (simp add: field_step_def search_step_def hasActiveFilter_def chips_visible_def show_hint_def)

text \<open>
  A drill-down from the dashboard to a status of services filters by it, but no chip of the
  search field stands for it.
\<close>

lemma drilled_status_without_chip:
  assumes "s \<in> {''updating'', ''degraded'', ''stopped'', ''completed'', ''not_running''}"
  shows "sf_statuses (run search_step st [ClearAll, ToggleStatus s]) = [s]"
    and "\<forall>(label, active)\<in>set (status_chips (run search_step st [ClearAll, ToggleStatus s])). \<not> active"
  using assms by (auto simp: search_step_def set_toggle_def status_chips_def STATUS_OPTIONS_def)

section \<open>Theme, sign-out and errors\<close>

datatype theme_mode = DarkMode | LightMode

definition STORAGE_KEY :: string where
  "STORAGE_KEY = ''dockgraph-theme''"

fun mode_name :: "theme_mode \<Rightarrow> string" where
  "mode_name DarkMode = ''dark''"
| "mode_name LightMode = ''light''"

text \<open>The browser's storage; \<open>None\<close> when reading or writing it throws.\<close>

type_synonym storage = "(string, string) jsmap option"

definition getInitialMode :: "storage \<Rightarrow> theme_mode" where
  "getInitialMode store =
     (case store of
        None \<Rightarrow> DarkMode
      | Some m \<Rightarrow> if map_get m STORAGE_KEY = Some ''light'' then LightMode else DarkMode)"

definition toggle_theme :: "theme_mode \<times> storage \<Rightarrow> theme_mode \<times> storage" where
  "toggle_theme ms = (let next_mode = (if fst ms = DarkMode then LightMode else DarkMode)
     in (next_mode, map_option (\<lambda>m. map_set m STORAGE_KEY (mode_name next_mode)) (snd ms)))"

text \<open>After a toggle, a reload starts in the mode that was left, as long as the storage works.\<close>

lemma theme_survives_reload:
  "store \<noteq> None \<Longrightarrow> getInitialMode (snd (toggle_theme (mode, store))) = fst (toggle_theme (mode, store))"
  "fst (toggle_theme (toggle_theme (mode, store))) = mode"
  by (cases mode; auto simp: getInitialMode_def toggle_theme_def Let_def js.get_put)+

text \<open>The answer of the authentication check: its \<open>ok\<close> flag and content type, \<open>None\<close> on a network error.\<close>

definition logout_visible :: "(bool \<times> string option) option \<Rightarrow> bool" where
  "logout_visible answer =
     (case answer of None \<Rightarrow> False
      | Some (ok, contentType) \<Rightarrow> ok \<and> str_includes ''application/json'' (nullish contentType []))"

datatype boundary_event = RenderThrew string | Retry

definition boundary_step :: "string option \<Rightarrow> boundary_event \<Rightarrow> string option" where
  "boundary_step error e = (case e of RenderThrew m \<Rightarrow> Some m | Retry \<Rightarrow> None)"

section \<open>The dock\<close>

definition dock_label :: "LogWindowState \<Rightarrow> string \<times> nat option" where
  "dock_label w =
     (case js_index (lw_tabs w) (lw_activeTab w) of Some t \<Rightarrow> lt_title t | None \<Rightarrow> lt_title (lw_tabs w ! 0),
      if length (lw_tabs w) > 1 then Some (length (lw_tabs w)) else None)"

definition dock_items :: "LogWindowState list \<Rightarrow> (string \<times> string \<times> nat option) list" where
  "dock_items minimized = map (\<lambda>w. (lw_id w, dock_label w)) minimized"

text \<open>A docked window shows the title of its active tab: the fallback to the first one is never taken.\<close>

lemma dock_shows_active:
  "wf_windows s \<Longrightarrow> w \<in> set (ws_windows s) \<Longrightarrow> fst (dock_label w) = lt_title (lw_tabs w ! nat (lw_activeTab w))"
  by (fastforce simp: wf_windows_def wf_window_def dock_label_def js_index_def)

section \<open>Tables\<close>

definition formatPorts :: "DGNode \<Rightarrow> string option" where
  "formatPorts n =
     (let ps = nullish (dg_ports n) []; txt = join '', '' (map portMapping (take 3 ps))
      in if ps = [] then None
         else Some (if length ps > 3 then txt @ '' +'' @ string_of_nat (length ps - 3) else txt))"

definition formatNetwork :: "DGNode \<Rightarrow> string option" where
  "formatNetwork n = (if \<not> truthy (dg_networkId n) then None else Some (strip_network (the (dg_networkId n))))"

definition row_active :: "DGNode \<Rightarrow> bool" where
  "row_active n \<longleftrightarrow> (if dg_type n = Service then isServiceLive n
     else nullish (dg_status n) [] \<in> {''running'', ''unhealthy''})"

record ContainerRow =
  cr_opacity :: real
  cr_color :: string
  cr_dashed :: bool
  cr_cells :: "string option list"
  cr_replicas :: "string option"
  cr_stats :: "string list option"

definition container_row :: "ContainerStatsData option \<Rightarrow> DGNode \<Rightarrow> ContainerRow" where
  "container_row stats n =
     \<lparr>cr_opacity = (if row_active n then 1 else INACTIVE_OPACITY),
      cr_color = nullish (map_get STATUS_COLORS (nullish (dg_status n) [])) (the (map_get STATUS_COLORS ''created'')),
      cr_dashed = (dg_status n = Some ''not_running''),
      cr_cells = [Some (dg_name n), dg_image n, Some (nullish (dg_status n) ''unknown''), formatPorts n, formatNetwork n],
      cr_replicas = map_option (\<lambda>s. replicaText (si_replicas s) (dg_status n)) (dg_service n),
      cr_stats = map_option (\<lambda>s. [to_fixed 1 (cs_cpuPercent s) @ ''%'',
        formatBytes_panel (cs_memUsage s) 1 @ '' / '' @ formatBytes_panel (cs_memLimit s) 1,
        formatBytes_panel (cs_netRx s) 1, formatBytes_panel (cs_netTx s) 1]) stats\<rparr>"

definition row_network_color :: "(string, string) jsmap \<Rightarrow> DGNode \<Rightarrow> string option" where
  "row_network_color cache n = map_option (\<lambda>name. fst (networkColor cache name (projectOf n))) (formatNetwork n)"

definition network_row :: "nat \<Rightarrow> DGNode \<Rightarrow> string option list" where
  "network_row containerCount n =
     [Some (dg_name n), dg_driver n, if truthy (dg_subnet n) then dg_subnet n else None,
      if truthy (dg_gateway n) then dg_gateway n else None, Some (string_of_nat containerCount)]"

definition volume_row :: "string \<Rightarrow> nat \<Rightarrow> DGNode \<Rightarrow> string option list" where
  "volume_row mountPath containerCount n =
     [Some (dg_name n), dg_driver n, if mountPath = [] then None else Some mountPath, Some (string_of_nat containerCount)]"

text \<open>A container is as dim in the table as on the graph, except a paused one, which the graph dims less.\<close>

lemma row_and_card_opacity:
  "dg_type n = Container \<Longrightarrow> dg_status n \<noteq> Some ''paused'' \<Longrightarrow>
     cr_opacity (container_row st n) = cv_opacity (container_view z st n)"
  "dg_type n = Service \<Longrightarrow> cr_opacity (container_row st n) = cv_opacity (service_view z st n)"
  by (cases "dg_status n"; auto simp: container_row_def row_active_def container_view_def service_view_def low_zoom_def
      container_active_def Let_def)+

text \<open>The network of a row has the colour of its group on the graph when both belong to one project.\<close>

lemma row_network_color_agrees:
  assumes "color_cache cache" "color_cache cache'" "dg_networkId n = Some (''network:'' @ dg_name g)" "projectOf n = projectOf g"
  shows "row_network_color cache n = Some (fst (networkColor cache' (dg_name g) (projectOf g)))"
proof -
  have same: "fst (networkColor cache x p) = fst (networkColor cache' x p)" for x p
    using colors.look_pure [of cache "(x, p)"] colors.look_pure [of cache' "(x, p)"] assms(1,2)
    by (simp add: network_query_def)
  show ?thesis
    using assms(3,4) by (simp add: row_network_color_def formatNetwork_def strip_network_def starts_with_def same)
qed

text \<open>The heading of a column: its label and, when it is the sorted one, an arrow up or down.\<close>

definition header_cells :: "(string \<times> string) list \<Rightarrow> TableSort \<Rightarrow> (string \<times> bool option) list" where
  "header_cells columns s = map (\<lambda>(key, label). (label, if ts_column s = key then Some (ts_direction s = Asc) else None)) columns"

text \<open>The grouping menu: open or not, with the grouping it shows.\<close>

record GroupMenu =
  gm_open :: bool
  gm_groupBy :: string

datatype menu_event = MenuButton | MenuChoose string | MenuOutside

definition menu_step :: "GroupMenu \<Rightarrow> menu_event \<Rightarrow> GroupMenu" where
  "menu_step st e =
     (case e of
        MenuButton \<Rightarrow> st\<lparr>gm_open := \<not> gm_open st\<rparr>
      | MenuChoose k \<Rightarrow> if gm_open st then st\<lparr>gm_open := False, gm_groupBy := k\<rparr> else st
      | MenuOutside \<Rightarrow> st\<lparr>gm_open := False\<rparr>)"

definition active_label :: "(string \<times> string) list \<Rightarrow> GroupMenu \<Rightarrow> string" where
  "active_label options st = nullish (map_get options (gm_groupBy st)) (gm_groupBy st)"

section \<open>Cards of the dashboard\<close>

record DiskUsage =
  du_total :: real
  du_reclaimable :: real

record DiskView =
  dv_total :: string
  dv_bars :: "(string \<times> real) list"
  dv_legend :: "(string \<times> string) list"
  dv_reclaimable :: "string option"

definition SEGMENTS :: "string list" where
  "SEGMENTS = [''Images'', ''Containers'', ''Volumes'', ''Build cache'']"

text \<open>The four figures of the daemon, in the order of the segments; a sliver is not drawn.\<close>

definition segment_percent :: "real \<Rightarrow> real \<Rightarrow> real" where
  "segment_percent total1 v = (if total1 > 0 then v / total1 * 100 else 0)"

definition disk_view :: "DiskUsage list \<Rightarrow> DiskView" where
  "disk_view data =
     (let total1 = foldl (\<lambda>sum d. sum + du_total d) 0 data; reclaimable = foldl (\<lambda>sum d. sum + du_reclaimable d) 0 data
      in \<lparr>dv_total = formatBytes total1,
          dv_bars = filter (\<lambda>(_, pct). \<not> pct < 1 / 2) (zip SEGMENTS (map (\<lambda>d. segment_percent total1 (du_total d)) data)),
          dv_legend = zip SEGMENTS (map (\<lambda>d. formatBytes (du_total d)) data),
          dv_reclaimable = (if reclaimable > 0 then Some (formatBytes reclaimable) else None)\<rparr>)"

text \<open>The bars never overflow their track.\<close>

lemma disk_bars_fit:
  assumes "\<forall>d\<in>set data. 0 \<le> du_total d" "length data = 4"
  shows "sum_list (map snd (dv_bars (disk_view data))) \<le> 100"
proof -
  let ?total = "foldl (\<lambda>sum d. sum + du_total d) 0 data" and ?ps = "\<lambda>t. map (\<lambda>d. segment_percent t (du_total d)) data"
  have total: "?total = sum_list (map du_total data)"
  proof -
    have "foldl (\<lambda>sum d. sum + du_total d) k ds = k + sum_list (map du_total ds)" for k ds
      by (induction ds arbitrary: k) simp_all
    from this [of 0 data] show ?thesis by simp
  qed
  have pos: "0 \<le> ?total" using assms(1) unfolding total by (intro sum_list_nonneg) auto
  have le: "sum_list (map snd (filter (\<lambda>(_, pct). \<not> pct < 1 / 2) qs)) \<le> sum_list (map snd qs)"
    if "\<forall>q\<in>set qs. 0 \<le> snd q" for qs :: "(string \<times> real) list"
    using that by (induction qs) auto
  have scaled: "sum_list (map (\<lambda>d. du_total d / t * 100) ds) = sum_list (map du_total ds) / t * 100" for t ds
    by (induction ds) (simp_all add: add_divide_distrib distrib_right)
  have "sum_list (?ps ?total) \<le> 100"
  proof (cases "?total > 0")
    case True
    then have "sum_list (?ps ?total) = sum_list (map du_total data) / ?total * 100"
      by (simp only: segment_percent_def if_True scaled)
    then show ?thesis using True total by simp
  next
    case False
    then have "segment_percent ?total v = 0" for v by (simp only: segment_percent_def if_False)
    then show ?thesis by simp
  qed
  moreover have "map snd (zip SEGMENTS (?ps ?total)) = ?ps ?total" using assms(2) by (simp add: SEGMENTS_def)
  moreover have "\<forall>q\<in>set (zip SEGMENTS (?ps ?total)). 0 \<le> snd q"
    using assms(1) pos by (auto simp: segment_percent_def dest!: set_zip_rightD)
  ultimately have "sum_list (map snd (filter (\<lambda>(_, pct). \<not> pct < 1 / 2) (zip SEGMENTS (?ps ?total)))) \<le> 100"
    using le by fastforce
  then show ?thesis by (simp add: disk_view_def Let_def)
qed

definition images_view :: "nat \<Rightarrow> real \<Rightarrow> nat \<Rightarrow> nat \<Rightarrow> real \<Rightarrow> string list \<times> bool \<times> string option" where
  "images_view total1 totalSize uniqueTags dangling danglingSize =
     ([string_of_nat total1, formatBytes totalSize, string_of_nat uniqueTags, string_of_nat dangling], dangling > 0,
      if dangling > 0 then Some (formatBytes danglingSize) else None)"

text \<open>The alerts' badge: their number, in the colour of the most severe.\<close>

definition alerts_badge :: "DGNode list \<Rightarrow> stats_map \<Rightarrow> (nat \<times> severity) option" where
  "alerts_badge nodes statsMap =
     (case evaluateAlerts nodes (withoutNodeStats statsMap) of [] \<Rightarrow> None | a # as \<Rightarrow> Some (length (a # as), al_severity a))"

lemma badge_most_severe:
  "alerts_badge nodes statsMap = Some (k, s) \<Longrightarrow> a \<in> set (evaluateAlerts nodes (withoutNodeStats statsMap)) \<Longrightarrow>
   severity_order s \<le> severity_order (al_severity a)"
  using alerts_by_severity(2) [of nodes "withoutNodeStats statsMap"]
  by (auto simp: alerts_badge_def split: list.splits)

end
