(* ===== verification/Controls.thy ===== *)
theory Controls
  imports Prelude
begin

text \<open>
  The small controls the views are made of: a value copied on click with its flash
  (\<^verbatim>\<open>components/panels/Copyable.tsx\<close>), a folding section (\<^verbatim>\<open>panels/shared.tsx\<close>), the view tabs and
  the segmented toggles (\<^verbatim>\<open>components/ViewTabs.tsx\<close>, \<^verbatim>\<open>GroupByToggle.tsx\<close>,
  \<^verbatim>\<open>dashboard/TimeRangeSelector.tsx\<close>) with the option they highlight.
\<close>

section \<open>Copying a value\<close>

text \<open>The flash, the pending timers by the time they fire, and what the clipboard holds.\<close>

record Copyable =
  cp_copied :: bool
  cp_timers :: "nat list"
  cp_clipboard :: "string option"

definition FLASH_MS :: nat where
  "FLASH_MS = 1100"

definition copyable_initial :: Copyable where
  "copyable_initial = \<lparr>cp_copied = False, cp_timers = [], cp_clipboard = None\<rparr>"

text \<open>A click with or without a clipboard, the answer of a write at a time, and the clock.\<close>

datatype copy_event = WriteResolved string nat | WriteRejected | NoClipboard | ClockAt nat

definition copy_step :: "Copyable \<Rightarrow> copy_event \<Rightarrow> Copyable" where
  "copy_step st e =
     (case e of
        WriteResolved v now \<Rightarrow>
          st\<lparr>cp_copied := True, cp_timers := cp_timers st @ [now + FLASH_MS], cp_clipboard := Some v\<rparr>
      | WriteRejected \<Rightarrow> st
      | NoClipboard \<Rightarrow> st
      | ClockAt now \<Rightarrow>
          (if \<exists>t\<in>set (cp_timers st). t \<le> now
           then st\<lparr>cp_copied := False, cp_timers := filter (\<lambda>t. \<not> t \<le> now) (cp_timers st)\<rparr> else st))"

text \<open>A copied value flashes until its timer, and a flash always has a timer that ends it.\<close>

definition copy_inv :: "Copyable \<Rightarrow> bool" where
  "copy_inv st \<longleftrightarrow> (cp_copied st \<longrightarrow> cp_timers st \<noteq> [])"

interpretation copying: machine copy_step "\<lambda>_ _. True" copy_inv
  by unfold_locales (auto simp: copy_inv_def copy_step_def split: copy_event.split)

lemma flash_ends:
  "copy_inv st \<Longrightarrow> \<forall>t\<in>set (cp_timers st). t \<le> now \<Longrightarrow> \<not> cp_copied (copy_step st (ClockAt now))"
  by (auto simp: copy_step_def copy_inv_def neq_Nil_conv)

text \<open>
  Copying again before the flash has ended does not restart it: the timer of the first copy ends
  the flash of the second.
\<close>

lemma second_flash_cut_short:
  "now < later \<Longrightarrow> later < now + FLASH_MS \<Longrightarrow>
   \<not> cp_copied (run copy_step copyable_initial [WriteResolved v now, WriteResolved w later, ClockAt (now + FLASH_MS)])"
  by (simp add: copy_step_def copyable_initial_def)

section \<open>Folding, choosing and hovering\<close>

definition fold_click :: "bool \<Rightarrow> bool" where
  "fold_click opened = (\<not> opened)"

text \<open>A click on an option of a control: the active one, or any of a disabled control, does nothing.\<close>

definition option_click :: "bool \<Rightarrow> 'k \<Rightarrow> 'k \<Rightarrow> 'k option" where
  "option_click disabled current key = (if key = current \<or> disabled then None else Some key)"

definition tab_click :: "string \<Rightarrow> string \<Rightarrow> string option" where
  "tab_click activeView key = option_click False activeView key"

definition VIEWS :: "(string \<times> string) list" where
  "VIEWS = [(''graph'', ''Graph''), (''table'', ''Table''), (''dashboard'', ''Dashboard''), (''logs'', ''Logs'')]"

definition TOGGLE_OPTIONS :: "(string \<times> string) list" where
  "TOGGLE_OPTIONS = [(''network'', ''Network''), (''node'', ''Node'')]"

definition RANGES :: "string list" where
  "RANGES = [''5m'', ''1h'', ''6h'', ''24h'']"

text \<open>The hovered option: leaving one that is no longer hovered does not disturb the next.\<close>

datatype 'k hover_event = Enter 'k | Leave 'k

definition hover_step :: "'k option \<Rightarrow> 'k hover_event \<Rightarrow> 'k option" where
  "hover_step h e = (case e of Enter k \<Rightarrow> Some k | Leave k \<Rightarrow> if h = Some k then None else h)"

lemma hover_order: "k \<noteq> k' \<Longrightarrow> hover_step (hover_step h (Enter k')) (Leave k) = Some k'"
  by (simp add: hover_step_def)

lemma hover_left: "run hover_step h [Enter k, Leave k] = None"
  by (simp add: hover_step_def)

end
