(* ===== verification/TopologyKey.thy ===== *)
theory TopologyKey
  imports GraphLayout NodeTransformCorrect
begin

text \<open>
  What the topology fingerprint of the layout hook (\<^verbatim>\<open>topologyKey\<close> in
  \<^verbatim>\<open>hooks/useGraphLayout.ts\<close>, \<^verbatim>\<open>nodeGroupedTopologyKey\<close> in \<^verbatim>\<open>utils/nodeTransform.ts\<close>) tells: it is
  a string, and two graphs with the same string are drawn with the same nodes, edges and
  groups, provided ids hold none of the separators and tell the type of what they name, as
  Docker's do, and provided the workloads that mount one volume ask for one group: the group of a
  volume with consumers in several is that of its first edge, which the fingerprint does not tell.
\<close>

section \<open>Reading a joined string\<close>

lemma cut_unique:
  "c \<notin> set a \<Longrightarrow> c \<notin> set b \<Longrightarrow> a @ c # x = b @ c # y \<longleftrightarrow> a = b \<and> x = y"
proof (induction a arbitrary: b)
  case Nil
  then show ?case by (cases b) auto
next
  case (Cons u a)
  then show ?case by (cases b) auto
qed

definition word_of :: "char \<Rightarrow> string \<Rightarrow> bool" where
  "word_of c w \<longleftrightarrow> w \<noteq> [] \<and> c \<notin> set w"

lemma join_cons: "join [c] (x # xs) = (if xs = [] then x else x @ c # join [c] xs)"
  by (cases xs) simp_all

lemma join_parts:
  assumes "c \<notin> set x"
  shows "takeWhile (\<lambda>d. d \<noteq> c) (join [c] (x # xs)) = x"
    and "dropWhile (\<lambda>d. d \<noteq> c) (join [c] (x # xs)) = (if xs = [] then [] else c # join [c] xs)"
proof -
  have all: "\<forall>d\<in>set x. d \<noteq> c" using assms by auto
  then show "takeWhile (\<lambda>d. d \<noteq> c) (join [c] (x # xs)) = x"
    by (simp add: join_cons takeWhile_tail takeWhile_eq_all_conv)
  show "dropWhile (\<lambda>d. d \<noteq> c) (join [c] (x # xs)) = (if xs = [] then [] else c # join [c] xs)"
    using all by (simp add: join_cons dropWhile_append dropWhile_eq_Nil_conv)
qed

lemma join_Nil_iff: "\<forall>w\<in>set xs. word_of c w \<Longrightarrow> join [c] xs = [] \<longleftrightarrow> xs = []"
  by (cases xs) (auto simp: join_cons word_of_def)

lemma join_unique:
  assumes "\<forall>w\<in>set xs. word_of c w" "\<forall>w\<in>set ys. word_of c w" "join [c] xs = join [c] ys"
  shows "xs = ys"
  using assms
proof (induction xs arbitrary: ys)
  case Nil
  then show ?case using join_Nil_iff [of ys c] by simp
next
  case (Cons x xs)
  then obtain y zs where ys: "ys = y # zs" using join_Nil_iff [of "x # xs" c] by (cases ys) auto
  have c: "c \<notin> set x" "c \<notin> set y" using Cons.prems(1,2) ys by (simp_all add: word_of_def)
  have "x = y" using join_parts(1) [OF c(1), of xs] join_parts(1) [OF c(2), of zs] Cons.prems(3) ys by simp
  moreover have "(if xs = [] then [] else c # join [c] xs) = (if zs = [] then [] else c # join [c] zs)"
    using join_parts(2) [OF c(1), of xs] join_parts(2) [OF c(2), of zs] Cons.prems(3) ys by simp
  then have "xs = [] \<longleftrightarrow> zs = []" "join [c] xs = join [c] zs" by (auto split: if_splits)
  then have "xs = zs" using Cons.IH [of zs] Cons.prems(1,2) ys by simp
  ultimately show ?case using ys by simp
qed

lemma sorted_words:
  assumes "\<forall>w\<in>set xs. word_of c w" "\<forall>w\<in>set ys. word_of c w"
    and "join [c] (sort_strings xs) = join [c] (sort_strings ys)"
  shows "mset xs = mset ys"
  using join_unique [of "sort xs" c "sort ys"] assms by (metis mset_sort set_sort)

section \<open>Lists equal up to order, seen through functions\<close>

text \<open>If \<open>f\<close> of an element determines \<open>g\<close> of it, lists that agree on \<open>f\<close> agree on \<open>g\<close>.\<close>

lemma mset_map_via:
  assumes "mset (map f xs) = mset (map f ys)"
    and "\<And>x y. x \<in> set xs \<Longrightarrow> y \<in> set ys \<Longrightarrow> f x = f y \<Longrightarrow> g x = g y"
  shows "mset (map g xs) = mset (map g ys)"
proof -
  have same: "f ` set xs = f ` set ys" using mset_eq_setD [OF assms(1)] by simp
  define h where "h k = g (SOME y. y \<in> set ys \<and> f y = k)" for k
  have xs: "g x = h (f x)" if x: "x \<in> set xs" for x
  proof -
    have "f x \<in> f ` set ys" using x same by blast
    then have "\<exists>y. y \<in> set ys \<and> f y = f x" by force
    from someI_ex [OF this] show ?thesis unfolding h_def by (intro assms(2) [OF x]) auto
  qed
  have ys: "g y = h (f y)" if y: "y \<in> set ys" for y
  proof -
    have "f y \<in> f ` set xs" using y same by blast
    then obtain x where x: "x \<in> set xs" "f x = f y" by force
    then have "g x = g y" using assms(2) y by blast
    then show ?thesis using xs [OF x(1)] x(2) by simp
  qed
  have "map g zs = map h (map f zs)" if "\<forall>z\<in>set zs. g z = h (f z)" for zs
    using that by simp
  then have "map g xs = map h (map f xs)" "map g ys = map h (map f ys)" using xs ys by blast+
  then show ?thesis using arg_cong [OF assms(1), of "image_mset h"] by (simp only: mset_map)
qed

lemma mset_filter_via:
  assumes "mset (map f xs) = mset (map f ys)"
    and "\<And>x. x \<in> set xs \<Longrightarrow> p x = p' (f x)" "\<And>y. y \<in> set ys \<Longrightarrow> q y = p' (f y)"
  shows "mset (map f (filter p xs)) = mset (map f (filter q ys))"
proof -
  have "map f (filter p xs) = filter p' (map f xs)" "map f (filter q ys) = filter p' (map f ys)"
    using assms(2,3) by (induction xs, simp_all) (induction ys, simp_all)
  then show ?thesis using assms(1) by simp
qed

section \<open>Graphs whose ids can be read\<close>

text \<open>
  Ids and names as Docker has them: not empty and without the separators of the fingerprint.
  \<open>kind\<close> and \<open>ends\<close> say what an id stands for: the backend's ids start with the type of the
  resource, and an edge's id names its ends.
\<close>

definition plain :: "string \<Rightarrow> bool" where
  "plain s \<longleftrightarrow> s \<noteq> [] \<and> list_all (\<lambda>c. c \<notin> set '',>|#!'') s"

definition node_fits :: "(string \<Rightarrow> node_type) \<Rightarrow> DGNode \<Rightarrow> bool" where
  "node_fits kind n \<longleftrightarrow> plain (dg_id n) \<and> plain (dg_name n) \<and> kind (dg_id n) = dg_type n
     \<and> (case dg_networkId n of None \<Rightarrow> True | Some k \<Rightarrow> plain k)"

definition edge_fits :: "(string \<Rightarrow> edge_type \<times> string \<times> string) \<Rightarrow> DGEdge \<Rightarrow> bool" where
  "edge_fits ends e \<longleftrightarrow> plain (de_id e) \<and> ends (de_id e) = (de_type e, de_source e, de_target e)"

definition graph_fits :: "(string \<Rightarrow> node_type) \<Rightarrow> (string \<Rightarrow> edge_type \<times> string \<times> string) \<Rightarrow>
    DGNode list \<Rightarrow> DGEdge list \<Rightarrow> bool" where
  "graph_fits kind ends ns es \<longleftrightarrow> list_all (node_fits kind) ns \<and> list_all (edge_fits ends) es"

lemma plain_code_units:
  assumes "plain s"
  shows "s \<noteq> []" "CHR '','' \<notin> set s" "CHR ''>'' \<notin> set s" "CHR ''|'' \<notin> set s" "CHR ''#'' \<notin> set s"
    "CHR ''!'' \<notin> set s" "s \<noteq> ''!''"
proof -
  have s: "s \<noteq> []" "\<forall>c\<in>set s. c \<notin> set '',>|#!''" using assms unfolding plain_def list_all_iff by blast+
  then have bad: "c \<in> set '',>|#!'' \<Longrightarrow> c \<notin> set s" for c by blast
  show "s \<noteq> []" by (fact s(1))
  show "CHR '','' \<notin> set s" "CHR ''>'' \<notin> set s" "CHR ''|'' \<notin> set s" "CHR ''#'' \<notin> set s" "CHR ''!'' \<notin> set s"
    by (rule bad, simp)+
  then show "s \<noteq> ''!''" by auto
qed

section \<open>The fingerprint of the network view\<close>

text \<open>What a node adds to the fingerprint: its id and the group it asks for.\<close>

definition group_marker :: "DGNode \<Rightarrow> string" where
  "group_marker n = nullish (dg_networkId n) (if truthy (dg_source n) then [] else ''!'')"

definition seen :: "DGNode \<Rightarrow> string \<times> string" where
  "seen n = (dg_id n, group_marker n)"

definition seen_word :: "string \<times> string \<Rightarrow> string" where
  "seen_word s = fst s @ CHR ''>'' # snd s"

lemma network_key:
  "li_groupBy i = ByNetwork \<Longrightarrow> topologyKey lc i = ''network|'' @ join '','' (sort_strings (map (seen_word \<circ> seen) (li_nodes i)))
     @ CHR ''|'' # join '','' (sort_strings (map de_id (li_edges i)))"
  by (simp add: topologyKey_def seen_word_def seen_def group_marker_def comp_def)

lemma join_chars: "d \<noteq> c \<Longrightarrow> \<forall>w\<in>set ws. d \<notin> set w \<Longrightarrow> d \<notin> set (join [c] ws)"
  by (induction ws) (simp_all add: join_cons)

lemma marker_plain:
  "node_fits kind n \<Longrightarrow> CHR '','' \<notin> set (group_marker n) \<and> CHR ''|'' \<notin> set (group_marker n)"
  by (auto simp: node_fits_def group_marker_def plain_code_units split: option.splits)

lemma seen_words:
  assumes "list_all (node_fits kind) ns"
  shows "\<forall>w\<in>set (map (seen_word \<circ> seen) ns). word_of (CHR '','') w \<and> CHR ''|'' \<notin> set w"
  using assms marker_plain
  by (fastforce simp: list_all_iff word_of_def seen_word_def seen_def node_fits_def plain_code_units)

lemma seen_inj:
  assumes "list_all (node_fits kind) ns" "list_all (node_fits kind) ms"
    and "x \<in> set ns" "y \<in> set ms" "seen_word (seen x) = seen_word (seen y)"
  shows "seen x = seen y"
proof -
  have "CHR ''>'' \<notin> set (dg_id x)" "CHR ''>'' \<notin> set (dg_id y)"
    using assms(1-4) by (auto simp: list_all_iff node_fits_def plain_code_units)
  then show ?thesis using assms(5) by (simp add: seen_word_def seen_def cut_unique)
qed

lemma network_key_reads:
  assumes "graph_fits kind ends (li_nodes i) (li_edges i)" "graph_fits kind ends (li_nodes j) (li_edges j)"
    and "li_groupBy i = ByNetwork" "li_groupBy j = ByNetwork" "topologyKey lc i = topologyKey lc j"
  shows "mset (map seen (li_nodes i)) = mset (map seen (li_nodes j))"
    and "mset (map de_id (li_edges i)) = mset (map de_id (li_edges j))"
proof -
  have fits: "list_all (node_fits kind) (li_nodes i)" "list_all (node_fits kind) (li_nodes j)"
    "list_all (edge_fits ends) (li_edges i)" "list_all (edge_fits ends) (li_edges j)"
    using assms(1,2) by (simp_all add: graph_fits_def)
  note words = seen_words [OF fits(1)] seen_words [OF fits(2)]
  let ?n = "\<lambda>i. join '','' (sort_strings (map (seen_word \<circ> seen) (li_nodes i)))"
  let ?e = "\<lambda>i. join '','' (sort_strings (map de_id (li_edges i)))"
  have bar: "CHR ''|'' \<notin> set (?n i)" "CHR ''|'' \<notin> set (?n j)"
    using words by (simp_all add: join_chars)
  have "?n i @ CHR ''|'' # ?e i = ?n j @ CHR ''|'' # ?e j"
    using assms(5) unfolding network_key [OF assms(3)] network_key [OF assms(4)] by simp
  then have parts: "?n i = ?n j" "?e i = ?e j" by (simp_all only: cut_unique [OF bar])
  have "mset (map (seen_word \<circ> seen) (li_nodes i)) = mset (map (seen_word \<circ> seen) (li_nodes j))"
    by (rule sorted_words [OF _ _ parts(1)]) (use words in blast)+
  then show "mset (map seen (li_nodes i)) = mset (map seen (li_nodes j))"
    by (rule mset_map_via) (use seen_inj [OF fits(1,2)] in simp)
  show "mset (map de_id (li_edges i)) = mset (map de_id (li_edges j))"
    by (rule sorted_words [OF _ _ parts(2)])
      (use fits(3,4) in \<open>auto simp: list_all_iff edge_fits_def word_of_def plain_code_units\<close>)
qed

section \<open>What the network view draws\<close>

text \<open>A drawn node's id and the group it lies in; a volume's group depends on the order of edges.\<close>

definition anchor :: "RFNode \<Rightarrow> string \<times> string option" where
  "anchor n = (rf_id n, if rf_type n = ''volumeNode'' then None else rf_parentId n)"

text \<open>The groups that are wanted, read from what is seen of the nodes and edges.\<close>

definition is_workload_seen :: "(string \<Rightarrow> node_type) \<Rightarrow> string \<times> string \<Rightarrow> bool" where
  "is_workload_seen kind s \<longleftrightarrow> kind (fst s) = Container \<or> kind (fst s) = Service"

definition group_wanted :: "(string \<Rightarrow> node_type) \<Rightarrow> (string \<Rightarrow> edge_type \<times> string \<times> string) \<Rightarrow>
    (string \<times> string) set \<Rightarrow> string set \<Rightarrow> string \<Rightarrow> bool" where
  "group_wanted kind ends S E i \<longleftrightarrow> (\<exists>s\<in>S. is_workload_seen kind s \<and> snd s = i) \<or>
     (\<exists>e\<in>E. ends e = (SecondaryNetwork, fst (snd (ends e)), i))"

lemma marker_of:
  "node_fits kind n \<Longrightarrow> truthy (dg_networkId n) \<longleftrightarrow> group_marker n \<noteq> [] \<and> group_marker n \<noteq> ''!''"
  "node_fits kind n \<Longrightarrow> truthy (dg_networkId n) \<Longrightarrow> dg_networkId n = Some (group_marker n)"
  "node_fits kind n \<Longrightarrow> unmanaged n \<longleftrightarrow> group_marker n = ''!''"
  "node_fits kind n \<Longrightarrow> wanted_group n = (if group_marker n = [] then None
     else if group_marker n = ''!'' then Some UNMANAGED_GROUP_ID else Some (group_marker n))"
  by (auto simp: node_fits_def group_marker_def unmanaged_def wanted_group_def plain_code_units split: option.splits)

lemma network_wanted:
  assumes "graph_fits kind ends ns es" "n \<in> set ns" "dg_type n = Network"
  shows "(Some (dg_id n) \<in> set (map dg_networkId (filter (\<lambda>c. truthy (dg_networkId c)) (flow_containers ns))) \<or>
      dg_id n \<in> set (map de_target (filter (\<lambda>e. de_type e = SecondaryNetwork) es))) \<longleftrightarrow>
    group_wanted kind ends (seen ` set ns) (de_id ` set es) (dg_id n)"
proof -
  have fit: "node_fits kind m" if "m \<in> set ns" for m using assms(1) that by (simp add: graph_fits_def list_all_iff)
  have fite: "edge_fits ends e" if "e \<in> set es" for e using assms(1) that by (simp add: graph_fits_def list_all_iff)
  have id: "dg_id n \<noteq> []" "dg_id n \<noteq> ''!''" using fit [OF assms(2)] by (simp_all add: node_fits_def plain_code_units)
  have "Some (dg_id n) \<in> set (map dg_networkId (filter (\<lambda>c. truthy (dg_networkId c)) (flow_containers ns))) \<longleftrightarrow>
      (\<exists>s\<in>seen ` set ns. is_workload_seen kind s \<and> snd s = dg_id n)" (is "?l \<longleftrightarrow> ?r")
  proof
    assume ?l
    then obtain c where "c \<in> set (filter (\<lambda>c. truthy (dg_networkId c)) (flow_containers ns))"
        and net: "Some (dg_id n) = dg_networkId c" unfolding set_map by (elim imageE)
    then have c: "c \<in> set ns" "dg_type c = Container \<or> dg_type c = Service"
      unfolding flow_containers_def by simp_all
    then have "is_workload_seen kind (seen c) \<and> snd (seen c) = dg_id n"
      using fit [OF c(1)] net [symmetric] by (simp add: is_workload_seen_def seen_def node_fits_def group_marker_def)
    then show ?r using c(1) by blast
  next
    assume ?r
    then obtain c where c: "c \<in> set ns" "is_workload_seen kind (seen c)" "group_marker c = dg_id n"
      by (auto simp: seen_def)
    note m = marker_of(1,2) [OF fit [OF c(1)]]
    have "truthy (dg_networkId c)" using m(1) c(3) id by simp
    moreover from this have "dg_networkId c = Some (dg_id n)" using m(2) c(3) by simp
    moreover have "dg_type c = Container \<or> dg_type c = Service"
      using c(2) fit [OF c(1)] by (simp add: is_workload_seen_def seen_def node_fits_def)
    ultimately show ?l using c(1) by (force simp: flow_containers_def)
  qed
  moreover have "dg_id n \<in> set (map de_target (filter (\<lambda>e. de_type e = SecondaryNetwork) es)) \<longleftrightarrow>
      (\<exists>e\<in>de_id ` set es. ends e = (SecondaryNetwork, fst (snd (ends e)), dg_id n))"
    using fite by (force simp: edge_fits_def)
  ultimately show ?thesis by (simp add: group_wanted_def)
qed

lemma some_unmanaged:
  assumes "graph_fits kind ends ns es"
  shows "list_ex unmanaged (flow_containers ns) \<longleftrightarrow> (\<exists>s\<in>seen ` set ns. is_workload_seen kind s \<and> snd s = ''!'')"
proof -
  have "node_fits kind m" if "m \<in> set ns" for m using assms that by (simp add: graph_fits_def list_all_iff)
  then show ?thesis
    using marker_of(3) [of kind]
    by (fastforce simp: list_ex_iff flow_containers_def is_workload_seen_def seen_def node_fits_def)
qed

lemma anchor_nodes:
  "map anchor (buildNetworkGroups nets cs es) = map (\<lambda>i. (i, None)) (map rf_id (buildNetworkGroups nets cs es))"
  "map anchor (buildContainerNodes cs ids) = map (\<lambda>c. (dg_id c, within_group ids (wanted_group c))) cs"
  "map anchor (buildVolumeNodes vs cs es ids) = map (\<lambda>v. (dg_id v, None)) vs"
proof -
  have "anchor n = (rf_id n, None)" if "n \<in> set (buildNetworkGroups nets cs es)" for n
    using groups_are_groups [OF that] by (simp add: anchor_def)
  then show "map anchor (buildNetworkGroups nets cs es) = map (\<lambda>i. (i, None)) (map rf_id (buildNetworkGroups nets cs es))"
    by simp
  show "map anchor (buildContainerNodes cs ids) = map (\<lambda>c. (dg_id c, within_group ids (wanted_group c))) cs"
    by (simp add: buildContainerNodes_def anchor_def rf_node_def)
  show "map anchor (buildVolumeNodes vs cs es ids) = map (\<lambda>v. (dg_id v, None)) vs"
    by (simp add: buildVolumeNodes_def Let_def anchor_def rf_node_def)
qed

lemma of_kind:
  assumes "mset (map seen ns) = mset (map seen ms)" "list_all (node_fits kind) ns" "list_all (node_fits kind) ms"
    and "\<And>n. node_fits kind n \<Longrightarrow> p n = p' (seen n)"
  shows "mset (map seen (filter p ns)) = mset (map seen (filter p ms))"
  by (rule mset_filter_via [OF assms(1), where p' = p']) (use assms(2-4) in \<open>auto simp: list_all_iff\<close>)

lemma groups_same:
  assumes fits: "graph_fits kind ends ns es" "graph_fits kind ends ms fs"
    and same: "mset (map seen ns) = mset (map seen ms)" "mset (map de_id es) = mset (map de_id fs)"
  shows "mset (map rf_id (buildNetworkGroups (filter (\<lambda>n. dg_type n = Network) ns) (flow_containers ns) es)) =
    mset (map rf_id (buildNetworkGroups (filter (\<lambda>n. dg_type n = Network) ms) (flow_containers ms) fs))"
proof -
  have nf: "list_all (node_fits kind) ns" "list_all (node_fits kind) ms" using fits by (simp_all add: graph_fits_def)
  have sets: "seen ` set ms = seen ` set ns" "de_id ` set fs = de_id ` set es"
    using mset_eq_setD [OF same(1)] mset_eq_setD [OF same(2)] by simp_all
  let ?w = "\<lambda>n. group_wanted kind ends (seen ` set ns) (de_id ` set es) (dg_id n)"
  have "filter (\<lambda>n. Some (dg_id n) \<in> set (map dg_networkId (filter (\<lambda>c. truthy (dg_networkId c)) (flow_containers ns))) \<or>
       dg_id n \<in> set (map de_target (filter (\<lambda>e. de_type e = SecondaryNetwork) es))) (filter (\<lambda>n. dg_type n = Network) ns) =
      filter ?w (filter (\<lambda>n. dg_type n = Network) ns)"
    using network_wanted [OF fits(1)] by (intro filter_cong) auto
  moreover have "filter (\<lambda>n. Some (dg_id n) \<in> set (map dg_networkId (filter (\<lambda>c. truthy (dg_networkId c)) (flow_containers ms))) \<or>
       dg_id n \<in> set (map de_target (filter (\<lambda>e. de_type e = SecondaryNetwork) fs))) (filter (\<lambda>n. dg_type n = Network) ms) =
      filter ?w (filter (\<lambda>n. dg_type n = Network) ms)"
    using network_wanted [OF fits(2)] unfolding sets by (intro filter_cong) auto
  moreover have "mset (map seen (filter ?w (filter (\<lambda>n. dg_type n = Network) ns))) =
      mset (map seen (filter ?w (filter (\<lambda>n. dg_type n = Network) ms)))"
  proof -
    have "mset (map seen (filter (\<lambda>n. dg_type n = Network) ns)) = mset (map seen (filter (\<lambda>n. dg_type n = Network) ms))"
      by (rule of_kind [OF same(1) nf, where p' = "\<lambda>s. kind (fst s) = Network"]) (simp add: node_fits_def seen_def)
    then show ?thesis
      by (rule mset_filter_via [where p' = "\<lambda>s. group_wanted kind ends (seen ` set ns) (de_id ` set es) (fst s)"])
        (simp_all add: seen_def)
  qed
  then have "mset (map dg_id (filter ?w (filter (\<lambda>n. dg_type n = Network) ns))) =
      mset (map dg_id (filter ?w (filter (\<lambda>n. dg_type n = Network) ms)))"
    by (rule mset_map_via) (simp add: seen_def)
  moreover have "list_ex unmanaged (flow_containers ns) = list_ex unmanaged (flow_containers ms)"
    unfolding some_unmanaged [OF fits(1)] some_unmanaged [OF fits(2)] sets ..
  ultimately show ?thesis unfolding group_ids by (simp del: mset_map)
qed

lemma network_drawn_same:
  assumes fits: "graph_fits kind ends ns es" "graph_fits kind ends ms fs"
    and same: "mset (map seen ns) = mset (map seen ms)" "mset (map de_id es) = mset (map de_id fs)"
  shows "mset (map anchor (toReactFlowNodes ns es)) = mset (map anchor (toReactFlowNodes ms fs))"
proof -
  have nf: "list_all (node_fits kind) ns" "list_all (node_fits kind) ms" using fits by (simp_all add: graph_fits_def)
  let ?g = "\<lambda>ns es. map rf_id (buildNetworkGroups (filter (\<lambda>n. dg_type n = Network) ns) (flow_containers ns) es)"
  note groups = groups_same [OF assms]
  have "mset (map (\<lambda>i. (i, None :: string option)) (?g ns es)) = mset (map (\<lambda>i. (i, None)) (?g ms fs))"
    by (rule mset_map_cong [OF groups])
  moreover have "within_group (?g ns es) = within_group (?g ms fs)"
    unfolding within_group_def using mset_eq_setD [OF groups] by (intro ext) simp
  moreover have "mset (map (\<lambda>c. (dg_id c, within_group ids (wanted_group c))) (flow_containers ns)) =
      mset (map (\<lambda>c. (dg_id c, within_group ids (wanted_group c))) (flow_containers ms))" for ids
  proof (rule mset_map_via [where f = seen])
    show "mset (map seen (flow_containers ns)) = mset (map seen (flow_containers ms))"
      unfolding flow_containers_def
      by (rule of_kind [OF same(1) nf, where p' = "is_workload_seen kind"])
        (simp add: node_fits_def seen_def is_workload_seen_def)
    fix x y assume "x \<in> set (flow_containers ns)" "y \<in> set (flow_containers ms)" "seen x = seen y"
    then show "(dg_id x, within_group ids (wanted_group x)) = (dg_id y, within_group ids (wanted_group y))"
      using nf marker_of(4) [of kind x] marker_of(4) [of kind y]
      by (simp add: seen_def flow_containers_def list_all_iff)
  qed
  moreover have "mset (map (\<lambda>v. (dg_id v, None :: string option)) (filter (\<lambda>n. dg_type n = Volume) ns)) =
      mset (map (\<lambda>v. (dg_id v, None)) (filter (\<lambda>n. dg_type n = Volume) ms))"
    by (rule mset_map_via [OF of_kind [OF same(1) nf, where p' = "\<lambda>s. kind (fst s) = Volume"]])
      (simp_all add: node_fits_def seen_def)
  ultimately show ?thesis
    by (simp add: toReactFlowNodes_def Let_def anchor_nodes del: mset_map)
qed

lemma node_map_has: "map_has (foldl (\<lambda>m n. map_set m (dg_id n) n) [] ns) i \<longleftrightarrow> i \<in> dg_id ` set ns"
proof -
  have "map_has (foldl (\<lambda>m n. map_set m (dg_id n) n) m ns) i \<longleftrightarrow> map_has m i \<or> i \<in> dg_id ` set ns" for m
    by (induction ns arbitrary: m) (auto simp: map_has_def js.get_put)
  then show ?thesis by (simp add: map_has_def)
qed

lemma network_edges:
  "li_groupBy i = ByNetwork \<Longrightarrow> drawn_edges lc i = map de_id (filter (\<lambda>e. de_source e \<in> dg_id ` set (li_nodes i) \<and>
     de_target e \<in> dg_id ` set (li_nodes i)) (li_edges i))"
  by (simp add: drawn_edges_def buildFlow_def toReactFlowEdges_def Let_def flow_edge_ids node_map_has)

lemma network_edges_same:
  assumes "graph_fits kind ends (li_nodes i) (li_edges i)" "graph_fits kind ends (li_nodes j) (li_edges j)"
    and "li_groupBy i = ByNetwork" "li_groupBy j = ByNetwork"
    and same: "mset (map seen (li_nodes i)) = mset (map seen (li_nodes j))"
      "mset (map de_id (li_edges i)) = mset (map de_id (li_edges j))"
  shows "mset (drawn_edges lc i) = mset (drawn_edges lc j)"
proof -
  have "fst ` seen ` set (li_nodes i) = fst ` seen ` set (li_nodes j)" using mset_eq_setD [OF same(1)] by simp
  then have ids: "dg_id ` set (li_nodes j) = dg_id ` set (li_nodes i)" by (simp add: image_image seen_def)
  show ?thesis
    unfolding network_edges [OF assms(3)] network_edges [OF assms(4)] ids
    by (rule mset_filter_via [OF same(2), where p' = "\<lambda>k. fst (snd (ends k)) \<in> dg_id ` set (li_nodes i)
        \<and> snd (snd (ends k)) \<in> dg_id ` set (li_nodes i)"])
      (use assms(1,2) in \<open>simp_all add: graph_fits_def list_all_iff edge_fits_def\<close>)
qed

section \<open>The fingerprint of the per-node view\<close>

definition row_word :: "RFNode \<Rightarrow> string" where
  "row_word n = rf_id n @ CHR ''>'' # nullish (rf_parentId n) [] @ CHR ''#'' #
     string_of_nat (if rf_type n = ''nodeServiceCard'' then length (card_tasks n) else 0)"

lemma node_key:
  "li_groupBy i = ByNode \<Longrightarrow> topologyKey lc i = ''node|'' @ join '','' (sort_strings (map row_word (drawn_nodes lc i)))"
  by (simp add: topologyKey_def nodeGroupedTopologyKey_def Let_def drawn_nodes_def buildFlow_def row_word_def [abs_def])

text \<open>What the per-node view draws has readable ids, made of those of the graph.\<close>

definition row_ok :: "RFNode \<Rightarrow> bool" where
  "row_ok n \<longleftrightarrow> rf_type n \<noteq> ''volumeNode'' \<and> plain (rf_id n) \<and> (case rf_parentId n of None \<Rightarrow> True | Some p \<Rightarrow> plain p)"

lemma plain_append: "plain s \<Longrightarrow> plain t \<Longrightarrow> plain (s @ t)"
  unfolding plain_def by simp

lemma plain_consts:
  "plain (roleGroupId r)" "plain CONTROL_SUMMARY_ID" "plain UNASSIGNED_NODE_GROUP_ID" "plain UNASSIGNED_CARD_HOST"
  "plain ''nodesvc:''" "plain '':''"
  by (cases r; simp add: plain_def roleGroupId_def ROLE_GROUP_PREFIX_def)
    (simp_all add: plain_def CONTROL_SUMMARY_ID_def UNASSIGNED_NODE_GROUP_ID_def UNASSIGNED_CARD_HOST_def)

definition view_ok :: "GroupedView \<Rightarrow> bool" where
  "view_ok v \<longleftrightarrow> (\<forall>n\<in>set (gv_roles v) \<union> set (gv_boxes v) \<union> set (gv_cards v). row_ok n)"

lemma run_services: "r \<in> set (groupByService ts) \<Longrightarrow> fst r \<in> pt_service ` set ts"
proof -
  have push: "fst ` set (push_service out p) \<subseteq> insert (pt_service p) (fst ` set out)" for out p
    by (cases out rule: rev_cases) (auto simp: push_service_def)
  have "fst ` set (foldl push_service out ts) \<subseteq> fst ` set out \<union> pt_service ` set ts" for out
  proof (induction ts arbitrary: out)
    case (Cons p ts)
    show ?case using Cons [of "push_service out p"] push [of out p] by auto
  qed simp
  from this [of "[]"] show "r \<in> set (groupByService ts) \<Longrightarrow> fst r \<in> pt_service ` set ts"
    unfolding groupByService_def by auto
qed

lemma box_services: "p \<in> set (box_tasks (placeTasks lc ns) k) \<Longrightarrow> pt_service p \<in> set ns"
  using mset_eq_setD [OF mset_box_tasks [of lc ns k]] by (auto simp: active_tasks_def)

lemma addBox_ok:
  assumes "list_all (node_fits kind) ns" "view_ok v" "plain i"
    and "case parent of None \<Rightarrow> True | Some p \<Rightarrow> plain p" "role \<noteq> None \<Longrightarrow> plain (dg_name d)"
  shows "view_ok (fst (addBox (placeTasks lc ns) (view_containers ns) lg i d parent role v))"
proof -
  let ?host = "if role \<noteq> None then dg_name d else UNASSIGNED_CARD_HOST"
  let ?inactive = "role \<noteq> None \<and> isSwarmNodeInactive d"
  have fit: "plain (dg_id n) \<and> plain (dg_name n)" if "n \<in> set ns" for n
    using assms(1) that by (simp add: list_all_iff node_fits_def)
  have host: "plain ?host" using assms(5) plain_consts(4) by simp
  have "row_ok (service_card i ?host b r)"
    if "r \<in> set (groupByService (box_tasks (placeTasks lc ns) i))" for r b
  proof -
    have "fst r \<in> set ns" using run_services [OF that] box_services by auto
    then have "plain (nodeServiceCardId ?host (dg_name (fst r)))"
      unfolding nodeServiceCardId_def using fit host plain_consts(5,6) by (intro plain_append) auto
    then show ?thesis using assms(3) by (simp add: row_ok_def service_card_def Let_def rf_node_def)
  qed
  moreover have "row_ok (container_card (Some i) c)" if "c \<in> set (box_local (view_containers ns) lg i)" for c
  proof -
    have "c \<in> set ns" using that by (auto simp: box_local_def view_containers_def split: if_splits)
    then show ?thesis using assms(3) fit by (simp add: row_ok_def container_card_def rf_node_def)
  qed
  ultimately show ?thesis
    using assms(2-4) unfolding addBox_def Let_def view_ok_def by (auto simp: row_ok_def rf_node_def)
qed

lemma add_role_ok:
  assumes "list_all (node_fits kind) ns" "view_ok v" "set sw \<subseteq> set ns"
  shows "view_ok (add_role (placeTasks lc ns) (view_containers ns) lg sw v r)"
proof -
  have "view_ok (fst (foldl (add_member (placeTasks lc ns) (view_containers ns) lg r) acc ms))"
    if "view_ok (fst acc)" "set ms \<subseteq> set ns" for acc ms
    using that
  proof (induction ms arbitrary: acc)
    case (Cons m ms)
    have "plain (dg_id m) \<and> plain (dg_name m)"
      using assms(1) Cons.prems(2) by (simp add: list_all_iff node_fits_def)
    then have "view_ok (fst (add_member (placeTasks lc ns) (view_containers ns) lg r acc m))"
      using addBox_ok [OF assms(1) Cons.prems(1), of "dg_id m" "Some (roleGroupId r)" "Some r" m lc lg] plain_consts(1)
      by (simp add: add_member_def Let_def case_prod_beta)
    then show ?case using Cons by simp
  qed simp
  from this [of "(v, 0)" "filter (\<lambda>n. swarmRole n = r) sw"] assms(2,3)
  have "view_ok (fst (foldl (add_member (placeTasks lc ns) (view_containers ns) lg r) (v, 0)
      (filter (\<lambda>n. swarmRole n = r) sw)))" by auto
  then show ?thesis
    using assms(2) plain_consts(1) [of r]
    by (auto simp: add_role_def Let_def view_ok_def row_ok_def rf_node_def split: prod.splits)
qed

lemma node_rows_ok:
  assumes "list_all (node_fits kind) ns" "n \<in> set (toNodeGroupedFlowNodes lc ns local)"
  shows "row_ok n"
proof -
  have sw: "set (listSwarmNodes lc ns) \<subseteq> set ns" by (auto simp: listSwarmNodes_def)
  have "view_ok (role_view lc ns local)"
    unfolding role_view_def foldl.simps
    by (intro add_role_ok [OF assms(1) _ sw]) (simp add: view_ok_def)
  then have "view_ok (control_view lc ns local)"
    using plain_consts(2) by (auto simp: control_view_def Let_def view_ok_def row_ok_def rf_node_def)
  then have "view_ok (grouped_view lc ns local)"
    using addBox_ok [OF assms(1), of "control_view lc ns local" UNASSIGNED_NODE_GROUP_ID None None] plain_consts(3)
    by (simp add: grouped_view_def Let_def)
  moreover have "row_ok (container_card None c)" if "c \<in> set (view_containers ns)" for c
    using that assms(1) by (simp add: view_containers_def list_all_iff node_fits_def row_ok_def container_card_def rf_node_def)
  ultimately show ?thesis
    using assms(2) by (auto simp: toNodeGroupedFlowNodes_def Let_def view_ok_def split: if_splits)
qed

lemma row_inj:
  assumes "row_ok a" "row_ok b" "row_word a = row_word b"
  shows "(rf_id a, nullish (rf_parentId a) []) = (rf_id b, nullish (rf_parentId b) [])"
proof -
  have gt: "CHR ''>'' \<notin> set (rf_id a)" "CHR ''>'' \<notin> set (rf_id b)"
    using assms(1,2) by (simp_all add: row_ok_def plain_code_units)
  have hash: "CHR ''#'' \<notin> set (nullish (rf_parentId a) [])" "CHR ''#'' \<notin> set (nullish (rf_parentId b) [])"
    using assms(1,2) by (auto simp: row_ok_def plain_code_units split: option.splits)
  show ?thesis using assms(3) unfolding row_word_def cut_unique [OF gt] cut_unique [OF hash] by simp
qed

lemma row_words:
  assumes "\<forall>n\<in>set ns. row_ok n"
  shows "\<forall>w\<in>set (map row_word ns). word_of (CHR '','') w"
proof -
  have digit: "CHR '','' \<notin> set (string_of_nat k)" for k
    using string_of_nat_digits [of "CHR '',''" k] by (auto simp: is_digit_def)
  have "CHR '','' \<notin> set (row_word n)" if "row_ok n" for n
    using that digit by (auto simp: row_word_def row_ok_def plain_code_units split: option.splits)
  then show ?thesis using assms by (simp add: word_of_def row_word_def)
qed

lemma node_drawn_same:
  assumes "list_all (node_fits kind) (li_nodes i)" "list_all (node_fits kind) (li_nodes j)"
    and "li_groupBy i = ByNode" "li_groupBy j = ByNode" "topologyKey lc i = topologyKey lc j"
  shows "mset (map anchor (drawn_nodes lc i)) = mset (map anchor (drawn_nodes lc j))"
proof -
  have ok: "row_ok n" if "li_groupBy k = ByNode" "list_all (node_fits kind) (li_nodes k)" "n \<in> set (drawn_nodes lc k)" for k n
    using that node_rows_ok by (auto simp: drawn_nodes_def buildFlow_def)
  have "join '','' (sort_strings (map row_word (drawn_nodes lc i))) = join '','' (sort_strings (map row_word (drawn_nodes lc j)))"
    using assms(5) unfolding node_key [OF assms(3)] node_key [OF assms(4)] by simp
  then have "mset (map row_word (drawn_nodes lc i)) = mset (map row_word (drawn_nodes lc j))"
    by (rule sorted_words [rotated 2]) (intro row_words; use ok assms in blast)+
  then show ?thesis
  proof (rule mset_map_via)
    fix a b assume a: "a \<in> set (drawn_nodes lc i)" "b \<in> set (drawn_nodes lc j)" "row_word a = row_word b"
    note rows = ok [OF assms(3,1) a(1)] ok [OF assms(4,2) a(2)]
    have "rf_id a = rf_id b \<and> rf_parentId a = rf_parentId b"
      using row_inj [OF rows a(3)] rows by (auto simp: row_ok_def plain_def split: option.splits)
    then show "anchor a = anchor b" using rows by (simp add: anchor_def row_ok_def)
  qed
qed

section \<open>Where volumes go\<close>

text \<open>
  The groups the consumers of a volume ask for, and the graphs in which they agree: the volume then
  has one place to go, whatever the order of the edges.
\<close>

definition home_group :: "DGNode \<Rightarrow> string option" where
  "home_group c = (if truthy (dg_networkId c) then dg_networkId c
     else if truthy (dg_source c) then None else Some UNMANAGED_GROUP_ID)"

definition asks :: "DGNode list \<Rightarrow> string \<Rightarrow> string \<Rightarrow> bool" where
  "asks ns k g \<longleftrightarrow> (\<exists>c\<in>set (flow_containers ns). dg_id c = k \<and> home_group c = Some g)"

definition consumer_asks :: "DGNode list \<Rightarrow> DGEdge list \<Rightarrow> string \<Rightarrow> string \<Rightarrow> bool" where
  "consumer_asks ns es v g \<longleftrightarrow> (\<exists>e\<in>set es. de_type e = VolumeMount \<and> de_source e = v \<and> asks ns (de_target e) g)"

definition one_home :: "DGNode list \<Rightarrow> DGEdge list \<Rightarrow> bool" where
  "one_home ns es \<longleftrightarrow> (\<forall>v g g'. consumer_asks ns es v g \<longrightarrow> consumer_asks ns es v g' \<longrightarrow> g = g')"

definition volume_home :: "DGNode list \<Rightarrow> DGEdge list \<Rightarrow> string \<Rightarrow> string option" where
  "volume_home ns es v = map_get (foldl (volume_group (foldl container_group [] (flow_containers ns))) []
     (filter (\<lambda>e. de_type e = VolumeMount) es)) v"

lemma container_group_step:
  "map_get (container_group m c) k = (if dg_id c = k \<and> home_group c \<noteq> None then home_group c else map_get m k)"
  by (auto simp: container_group_def home_group_def js.get_put truthy_iff)

lemma container_group_asks:
  "map_get (foldl container_group [] cs) k = Some g \<Longrightarrow> \<exists>c\<in>set cs. dg_id c = k \<and> home_group c = Some g"
  "c \<in> set cs \<Longrightarrow> home_group c \<noteq> None \<Longrightarrow> map_get (foldl container_group [] cs) (dg_id c) \<noteq> None"
  by (induction cs rule: rev_induct) (auto simp: container_group_step split: if_splits)

lemma home_nonempty: "home_group c = Some g \<Longrightarrow> g \<noteq> []"
  by (auto simp: home_group_def UNMANAGED_GROUP_ID_def truthy_iff split: if_splits)

lemma volume_group_step:
  assumes "\<forall>k g. map_get cg k = Some g \<longrightarrow> g \<noteq> []"
  shows "map_get (volume_group cg m e) v = (if de_source e = v \<and> map_get m v = None then map_get cg (de_target e) else map_get m v)"
proof -
  have "truthy (map_get cg (de_target e)) \<longleftrightarrow> map_get cg (de_target e) \<noteq> None"
    using assms by (cases "map_get cg (de_target e)") auto
  then show ?thesis by (auto simp: volume_group_def Let_def js.get_put map_has_def)
qed

lemma volume_group_first:
  assumes "\<forall>k g. map_get cg k = Some g \<longrightarrow> g \<noteq> []"
  shows "map_get (foldl (volume_group cg) [] es) v = Some g \<Longrightarrow> \<exists>e\<in>set es. de_source e = v \<and> map_get cg (de_target e) = Some g"
    and "e \<in> set es \<Longrightarrow> map_get cg (de_target e) \<noteq> None \<Longrightarrow> map_get (foldl (volume_group cg) [] es) (de_source e) \<noteq> None"
  by (induction es rule: rev_induct) (auto simp: volume_group_step [OF assms] split: if_splits)

lemma home_asked:
  assumes "one_home ns es"
  shows "volume_home ns es v = Some g \<longleftrightarrow> consumer_asks ns es v g"
proof -
  let ?cg = "foldl container_group [] (flow_containers ns)"
  have cg: "map_get ?cg k = Some g \<Longrightarrow> asks ns k g" "asks ns k g \<Longrightarrow> map_get ?cg k \<noteq> None" for k g
    using container_group_asks(1) [of "flow_containers ns"] container_group_asks(2) [of _ "flow_containers ns"]
    unfolding asks_def by (blast, fastforce)
  have full: "\<forall>k g. map_get ?cg k = Some g \<longrightarrow> g \<noteq> []"
    using cg(1) home_nonempty by (auto simp: asks_def)
  note first = volume_group_first [OF full, where es = "filter (\<lambda>e. de_type e = VolumeMount) es"]
  have some: "consumer_asks ns es v g" if "volume_home ns es v = Some g" for g
    using first(1) [OF that [unfolded volume_home_def]] cg(1) by (auto simp: consumer_asks_def)
  moreover have "volume_home ns es v \<noteq> None" if "consumer_asks ns es v g" for g
    using that first(2) cg(2) unfolding consumer_asks_def volume_home_def by fastforce
  ultimately show ?thesis using assms unfolding one_home_def by (metis not_Some_eq)
qed

text \<open>Read from what is seen of the nodes and edges.\<close>

definition asked_seen :: "(string \<Rightarrow> node_type) \<Rightarrow> (string \<Rightarrow> edge_type \<times> string \<times> string) \<Rightarrow>
    (string \<times> string) set \<Rightarrow> string set \<Rightarrow> string \<Rightarrow> string \<Rightarrow> bool" where
  "asked_seen kind ends S E v g \<longleftrightarrow> (\<exists>x\<in>E. \<exists>s\<in>S. ends x = (VolumeMount, v, fst s) \<and> is_workload_seen kind s
     \<and> (if snd s = [] then None else if snd s = ''!'' then Some UNMANAGED_GROUP_ID else Some (snd s)) = Some g)"

lemma consumer_asks_seen:
  assumes "graph_fits kind ends ns es"
  shows "consumer_asks ns es v g \<longleftrightarrow> asked_seen kind ends (seen ` set ns) (de_id ` set es) v g"
proof -
  have nf: "\<And>n. n \<in> set ns \<Longrightarrow> node_fits kind n" and ef: "\<And>e. e \<in> set es \<Longrightarrow> edge_fits ends e"
    using assms by (auto simp: graph_fits_def list_all_iff)
  have workload: "n \<in> set (flow_containers ns) \<longleftrightarrow> n \<in> set ns \<and> is_workload_seen kind (seen n)" for n
    using nf [of n] by (auto simp: flow_containers_def is_workload_seen_def seen_def node_fits_def)
  have ends: "ends (de_id e) = (VolumeMount, v, k) \<longleftrightarrow> de_type e = VolumeMount \<and> de_source e = v \<and> de_target e = k"
    if "e \<in> set es" for e k using ef [OF that] by (auto simp: edge_fits_def)
  have wanted: "home_group n = (if snd (seen n) = [] then None else if snd (seen n) = ''!''
      then Some UNMANAGED_GROUP_ID else Some (snd (seen n)))" if "n \<in> set ns" for n
    using nf [OF that]
    by (cases "dg_networkId n") (auto simp: node_fits_def plain_code_units seen_def home_group_def group_marker_def truthy_iff)
  have "consumer_asks ns es v g \<longleftrightarrow> (\<exists>e\<in>set es. \<exists>n\<in>set ns. (de_type e = VolumeMount \<and> de_source e = v \<and> de_target e = dg_id n)
      \<and> is_workload_seen kind (seen n) \<and> home_group n = Some g)"
    unfolding consumer_asks_def asks_def using workload by metis
  also have "\<dots> \<longleftrightarrow> asked_seen kind ends (seen ` set ns) (de_id ` set es) v g"
    unfolding asked_seen_def using ends wanted by (simp add: seen_def cong: conj_cong)
  finally show ?thesis .
qed

text \<open>A drawn node's id and the group it lies in.\<close>

definition node_place :: "RFNode \<Rightarrow> string \<times> string option" where
  "node_place n = (rf_id n, rf_parentId n)"

lemma place_nodes:
  "map node_place (buildNetworkGroups nets cs es) = map anchor (buildNetworkGroups nets cs es)"
  "map node_place (buildContainerNodes cs ids) = map anchor (buildContainerNodes cs ids)"
  "map node_place (buildVolumeNodes vs (flow_containers ns) es ids) =
     map (\<lambda>v. (dg_id v, within_group ids (volume_home ns es (dg_id v)))) vs"
proof -
  have "node_place n = anchor n" if "n \<in> set (buildNetworkGroups nets cs es)" for n
    using groups_are_groups [OF that] by (simp add: anchor_def node_place_def)
  then show "map node_place (buildNetworkGroups nets cs es) = map anchor (buildNetworkGroups nets cs es)" by simp
  show "map node_place (buildContainerNodes cs ids) = map anchor (buildContainerNodes cs ids)"
    by (simp add: buildContainerNodes_def anchor_def node_place_def rf_node_def)
  show "map node_place (buildVolumeNodes vs (flow_containers ns) es ids) =
     map (\<lambda>v. (dg_id v, within_group ids (volume_home ns es (dg_id v)))) vs"
    by (simp add: buildVolumeNodes_def Let_def node_place_def rf_node_def volume_home_def)
qed

text \<open>The network view without its volumes, and the volumes.\<close>

lemma network_split:
  fixes ns :: "DGNode list" and es :: "DGEdge list"
  defines "G \<equiv> buildNetworkGroups (filter (\<lambda>n. dg_type n = Network) ns) (flow_containers ns) es"
  defines "V \<equiv> filter (\<lambda>n. dg_type n = Volume) ns"
  shows "map anchor (toReactFlowNodes ns es)
      = map node_place (filter (\<lambda>n. rf_type n \<noteq> ''volumeNode'') (toReactFlowNodes ns es)) @ map (\<lambda>v. (dg_id v, None)) V"
    and "map node_place (toReactFlowNodes ns es)
      = map node_place (filter (\<lambda>n. rf_type n \<noteq> ''volumeNode'') (toReactFlowNodes ns es))
        @ map (\<lambda>v. (dg_id v, within_group (map rf_id G) (volume_home ns es (dg_id v)))) V"
proof -
  let ?ids = "map rf_id G"
  let ?C = "buildContainerNodes (flow_containers ns) ?ids" and ?VN = "buildVolumeNodes V (flow_containers ns) es ?ids"
  have all: "toReactFlowNodes ns es = (G @ ?C) @ ?VN"
    by (simp add: toReactFlowNodes_def Let_def G_def V_def)
  have "filter (\<lambda>n. rf_type n \<noteq> ''volumeNode'') G = G"
    unfolding G_def using groups_are_groups by (intro filter_True) (fastforce simp: isGroupType_def)
  moreover have "filter (\<lambda>n. rf_type n \<noteq> ''volumeNode'') ?C = ?C"
    by (intro filter_True) (auto simp: buildContainerNodes_def)
  moreover have "filter (\<lambda>n. rf_type n \<noteq> ''volumeNode'') ?VN = []"
    by (auto simp: buildVolumeNodes_def Let_def filter_empty_conv)
  ultimately have rest: "filter (\<lambda>n. rf_type n \<noteq> ''volumeNode'') (toReactFlowNodes ns es) = G @ ?C" by (simp add: all)
  have same: "map anchor (G @ ?C) = map node_place (G @ ?C)"
    using place_nodes(1,2) by (simp add: G_def)
  show "map anchor (toReactFlowNodes ns es)
      = map node_place (filter (\<lambda>n. rf_type n \<noteq> ''volumeNode'') (toReactFlowNodes ns es)) @ map (\<lambda>v. (dg_id v, None)) V"
    unfolding rest unfolding all map_append [of anchor "G @ ?C"] same anchor_nodes(3) ..
  show "map node_place (toReactFlowNodes ns es)
      = map node_place (filter (\<lambda>n. rf_type n \<noteq> ''volumeNode'') (toReactFlowNodes ns es))
        @ map (\<lambda>v. (dg_id v, within_group ?ids (volume_home ns es (dg_id v)))) V"
    unfolding rest unfolding all map_append [of node_place "G @ ?C"] place_nodes(3) ..
qed

lemma network_places_same:
  assumes fits: "graph_fits kind ends ns es" "graph_fits kind ends ms fs"
    and same: "mset (map seen ns) = mset (map seen ms)" "mset (map de_id es) = mset (map de_id fs)"
  shows "mset (map node_place (filter (\<lambda>n. rf_type n \<noteq> ''volumeNode'') (toReactFlowNodes ns es)))
      = mset (map node_place (filter (\<lambda>n. rf_type n \<noteq> ''volumeNode'') (toReactFlowNodes ms fs)))"
    and "one_home ns es \<Longrightarrow> mset (map node_place (toReactFlowNodes ns es)) = mset (map node_place (toReactFlowNodes ms fs))"
proof -
  have nf: "list_all (node_fits kind) ns" "list_all (node_fits kind) ms" using fits by (simp_all add: graph_fits_def)
  let ?ids = "\<lambda>ns es. map rf_id (buildNetworkGroups (filter (\<lambda>n. dg_type n = Network) ns) (flow_containers ns) es)"
  let ?V = "\<lambda>ns. filter (\<lambda>n. dg_type n = Volume) ns"
  let ?v = "\<lambda>ns es v. (dg_id v, within_group (?ids ns es) (volume_home ns es (dg_id v)))"
  have by_id: "mset (map f (?V ns)) = mset (map f (?V ms))" if "\<And>x y. dg_id x = dg_id y \<Longrightarrow> f x = f y" for f :: "DGNode \<Rightarrow> 'b"
  proof (rule mset_map_via)
    show "mset (map seen (?V ns)) = mset (map seen (?V ms))"
      by (rule of_kind [OF same(1) nf, where p' = "\<lambda>s. kind (fst s) = Volume"]) (simp add: node_fits_def seen_def)
    show "f x = f y" if "seen x = seen y" for x y
      by (rule \<open>\<And>x y. dg_id x = dg_id y \<Longrightarrow> f x = f y\<close>) (use that in \<open>simp add: seen_def\<close>)
  qed
  have "mset (map (\<lambda>v. (dg_id v, None :: string option)) (?V ns)) = mset (map (\<lambda>v. (dg_id v, None)) (?V ms))"
    by (rule by_id) simp
  then show rest: "mset (map node_place (filter (\<lambda>n. rf_type n \<noteq> ''volumeNode'') (toReactFlowNodes ns es)))
      = mset (map node_place (filter (\<lambda>n. rf_type n \<noteq> ''volumeNode'') (toReactFlowNodes ms fs)))"
    using network_drawn_same [OF assms] unfolding network_split(1) mset_append by (simp only: add_right_cancel)
  assume home: "one_home ns es"
  have asks: "consumer_asks ns es = consumer_asks ms fs"
    using consumer_asks_seen [OF fits(1)] consumer_asks_seen [OF fits(2)]
      mset_eq_setD [OF same(1)] mset_eq_setD [OF same(2)] by (simp add: fun_eq_iff)
  then have "one_home ms fs" using home by (simp add: one_home_def)
  then have agree: "volume_home ns es v = Some g \<longleftrightarrow> volume_home ms fs v = Some g" for v g
    using home_asked [OF home] home_asked [of ms fs] asks by simp
  have "volume_home ns es v = volume_home ms fs v" for v
    using agree [of v "the (volume_home ns es v)"] agree [of v "the (volume_home ms fs v)"]
    by (cases "volume_home ns es v"; cases "volume_home ms fs v") simp_all
  moreover have "within_group (?ids ns es) = within_group (?ids ms fs)"
    unfolding within_group_def using mset_eq_setD [OF groups_same [OF assms]] by (intro ext) simp
  ultimately have v: "?v ns es = ?v ms fs" by simp
  have "mset (map (?v ns es) (?V ns)) = mset (map (?v ns es) (?V ms))" by (rule by_id) simp
  then have "mset (map (?v ns es) (?V ns)) = mset (map (?v ms fs) (?V ms))" unfolding v .
  then show "mset (map node_place (toReactFlowNodes ns es)) = mset (map node_place (toReactFlowNodes ms fs))"
    by (simp only: network_split(2) mset_append rest)
qed

section \<open>The fingerprint is exact\<close>

lemma key_view: "topologyKey lc i = topologyKey lc j \<Longrightarrow> li_groupBy i = li_groupBy j"
  by (cases "li_groupBy i"; cases "li_groupBy j") (simp_all add: topologyKey_def)

lemma drawn_same:
  assumes fits: "graph_fits kind ends (li_nodes i) (li_edges i)" "graph_fits kind ends (li_nodes j) (li_edges j)"
    and key: "topologyKey lc i = topologyKey lc j"
  shows "mset (map anchor (drawn_nodes lc i)) = mset (map anchor (drawn_nodes lc j))"
    and "mset (drawn_edges lc i) = mset (drawn_edges lc j)"
    and "mset (map rf_id (drawn_nodes lc i)) = mset (map rf_id (drawn_nodes lc j))"
proof -
  note view = key_view [OF key]
  have "mset (map anchor (drawn_nodes lc i)) = mset (map anchor (drawn_nodes lc j)) \<and>
      mset (drawn_edges lc i) = mset (drawn_edges lc j)"
  proof (cases "li_groupBy i")
    case ByNetwork
    then have v: "li_groupBy i = ByNetwork" "li_groupBy j = ByNetwork" using view by simp_all
    note same = network_key_reads [OF fits v key]
    have "drawn_nodes lc i = toReactFlowNodes (li_nodes i) (li_edges i)"
      "drawn_nodes lc j = toReactFlowNodes (li_nodes j) (li_edges j)"
      using v by (simp_all add: drawn_nodes_def buildFlow_def)
    then show ?thesis using network_drawn_same [OF fits same] network_edges_same [OF fits v same] by simp
  next
    case ByNode
    then have v: "li_groupBy i = ByNode" "li_groupBy j = ByNode" using view by simp_all
    then have "drawn_edges lc i = []" "drawn_edges lc j = []" by (simp_all add: drawn_edges_def buildFlow_def)
    then show ?thesis
      using node_drawn_same [of kind i j lc, OF _ _ v key] fits by (simp add: graph_fits_def del: mset_map)
  qed
  then show "mset (map anchor (drawn_nodes lc i)) = mset (map anchor (drawn_nodes lc j))"
    "mset (drawn_edges lc i) = mset (drawn_edges lc j)" by blast+
  have ids: "rf_id = fst \<circ> anchor" by (auto simp: anchor_def)
  show "mset (map rf_id (drawn_nodes lc i)) = mset (map rf_id (drawn_nodes lc j))"
    using mset_map_cong [OF \<open>mset (map anchor (drawn_nodes lc i)) = mset (map anchor (drawn_nodes lc j))\<close>, of fst]
    unfolding ids by (simp only: map_map)
qed

lemma places_same:
  assumes fits: "graph_fits kind ends (li_nodes i) (li_edges i)" "graph_fits kind ends (li_nodes j) (li_edges j)"
    and key: "topologyKey lc i = topologyKey lc j"
  shows "mset (map node_place (filter (\<lambda>n. rf_type n \<noteq> ''volumeNode'') (drawn_nodes lc i)))
      = mset (map node_place (filter (\<lambda>n. rf_type n \<noteq> ''volumeNode'') (drawn_nodes lc j)))"
    and "one_home (li_nodes i) (li_edges i) \<Longrightarrow> mset (map node_place (drawn_nodes lc i)) = mset (map node_place (drawn_nodes lc j))"
proof -
  have "mset (map node_place (filter (\<lambda>n. rf_type n \<noteq> ''volumeNode'') (drawn_nodes lc i)))
      = mset (map node_place (filter (\<lambda>n. rf_type n \<noteq> ''volumeNode'') (drawn_nodes lc j)))
    \<and> (one_home (li_nodes i) (li_edges i) \<longrightarrow> mset (map node_place (drawn_nodes lc i)) = mset (map node_place (drawn_nodes lc j)))"
  proof (cases "li_groupBy i")
    case ByNetwork
    then have v: "li_groupBy i = ByNetwork" "li_groupBy j = ByNetwork" using key_view [OF key] by simp_all
    have "drawn_nodes lc i = toReactFlowNodes (li_nodes i) (li_edges i)"
      "drawn_nodes lc j = toReactFlowNodes (li_nodes j) (li_edges j)"
      using v by (simp_all add: drawn_nodes_def buildFlow_def)
    then show ?thesis using network_places_same [OF fits network_key_reads [OF fits v key]] by simp
  next
    case ByNode
    then have v: "li_groupBy i = ByNode" "li_groupBy j = ByNode" using key_view [OF key] by simp_all
    have nf: "list_all (node_fits kind) (li_nodes i)" "list_all (node_fits kind) (li_nodes j)"
      using fits by (simp_all add: graph_fits_def)
    have card: "rf_type n \<noteq> ''volumeNode''" if "n \<in> set (drawn_nodes lc i) \<union> set (drawn_nodes lc j)" for n
      using that node_rows_ok [OF nf(1)] node_rows_ok [OF nf(2)] v
      by (auto simp: drawn_nodes_def buildFlow_def row_ok_def)
    have "mset (map node_place (drawn_nodes lc i)) = mset (map node_place (drawn_nodes lc j))"
      by (rule mset_map_via [OF node_drawn_same [OF nf v key]]) (use card in \<open>auto simp: anchor_def node_place_def\<close>)
    moreover have "filter (\<lambda>n. rf_type n \<noteq> ''volumeNode'') (drawn_nodes lc i) = drawn_nodes lc i"
      "filter (\<lambda>n. rf_type n \<noteq> ''volumeNode'') (drawn_nodes lc j) = drawn_nodes lc j"
      using card by (auto intro: filter_True)
    ultimately show ?thesis by (simp del: mset_map)
  qed
  then show "mset (map node_place (filter (\<lambda>n. rf_type n \<noteq> ''volumeNode'') (drawn_nodes lc i)))
      = mset (map node_place (filter (\<lambda>n. rf_type n \<noteq> ''volumeNode'') (drawn_nodes lc j)))"
    "one_home (li_nodes i) (li_edges i) \<Longrightarrow> mset (map node_place (drawn_nodes lc i)) = mset (map node_place (drawn_nodes lc j))"
    by blast+
qed

text \<open>
  C34. What the topology fingerprint tells. Two graphs with the same fingerprint are drawn, in either
  view, with the same nodes and the same edges, and every node but a volume lies in the same network
  group or node box; the volumes do too, provided the workloads that mount one volume ask for one
  group (else the first mount edge decides, which the fingerprint does not tell). And in the network
  view the fingerprints are equal exactly when the graphs have the same nodes asking for the same
  groups and the same edges. Ids are assumed to be readable: nonempty, without the separators of the
  fingerprint, telling the type of their node, and an edge's its type and ends.
\<close>

theorem topology_key_exact:
  assumes fits: "graph_fits kind ends (li_nodes i) (li_edges i)" "graph_fits kind ends (li_nodes j) (li_edges j)"
  shows "(topologyKey lc i = topologyKey lc j \<longrightarrow> li_groupBy i = li_groupBy j \<and>
      mset (map rf_id (drawn_nodes lc i)) = mset (map rf_id (drawn_nodes lc j)) \<and>
      mset (drawn_edges lc i) = mset (drawn_edges lc j) \<and>
      mset (map node_place (filter (\<lambda>n. rf_type n \<noteq> ''volumeNode'') (drawn_nodes lc i)))
        = mset (map node_place (filter (\<lambda>n. rf_type n \<noteq> ''volumeNode'') (drawn_nodes lc j))) \<and>
      (one_home (li_nodes i) (li_edges i) \<longrightarrow>
        mset (map node_place (drawn_nodes lc i)) = mset (map node_place (drawn_nodes lc j)))) \<and>
    (li_groupBy i = ByNetwork \<and> li_groupBy j = ByNetwork \<longrightarrow>
      (topologyKey lc i = topologyKey lc j \<longleftrightarrow>
        mset (map seen (li_nodes i)) = mset (map seen (li_nodes j)) \<and>
        mset (map de_id (li_edges i)) = mset (map de_id (li_edges j))))"
proof -
  have equal: "topologyKey lc i = topologyKey lc j"
    if v: "li_groupBy i = ByNetwork" "li_groupBy j = ByNetwork"
      and same: "mset (map seen (li_nodes i)) = mset (map seen (li_nodes j))"
        "mset (map de_id (li_edges i)) = mset (map de_id (li_edges j))"
  proof -
    have "mset (map (seen_word \<circ> seen) (li_nodes i)) = mset (map (seen_word \<circ> seen) (li_nodes j))"
      using mset_map_cong [OF same(1), of seen_word] by (simp only: map_map)
    note words = this same(2)
    have "sort (map (seen_word \<circ> seen) (li_nodes i)) = sort (map (seen_word \<circ> seen) (li_nodes j))"
      "sort (map de_id (li_edges i)) = sort (map de_id (li_edges j))"
      using words by (metis properties_for_sort mset_sort sorted_sort)+
    then show ?thesis unfolding network_key [OF v(1)] network_key [OF v(2)] by simp
  qed
  then show ?thesis
    using key_view [of lc i j] drawn_same(2,3) [OF fits, of lc] places_same [OF fits, of lc]
      network_key_reads [OF fits, of lc] by blast
qed

definition member_of :: "string \<Rightarrow> DGNode" where
  "member_of net = (bare_node ''container:web'' Container ''web'')\<lparr>dg_networkId := Some net\<rparr>"

text \<open>A container that moves to another network changes the fingerprint, so it is laid out again.\<close>

theorem topology_key_exact_witness:
  "topologyKey code_unit_compare (canvas_of [member_of ''network:a'']) \<noteq>
    topologyKey code_unit_compare (canvas_of [member_of ''network:b''])"
proof -
  have fits: "graph_fits (\<lambda>_. Container) (\<lambda>_. (DependsOn, [], [])) (li_nodes (canvas_of [member_of net]))
      (li_edges (canvas_of [member_of net]))" if "plain net" for net
    using that by (simp add: graph_fits_def node_fits_def member_of_def bare_node_def canvas_of_def plain_def)
  have "plain ''network:a''" "plain ''network:b''" by (simp_all add: plain_def)
  from conjunct2 [OF topology_key_exact [OF fits [OF this(1)] fits [OF this(2)], of code_unit_compare]]
  show ?thesis by (simp add: member_of_def seen_def group_marker_def)
qed

text \<open>
  A flaw: a volume mounted from two networks keeps its fingerprint when its mount edges arrive in the
  other order, but would be drawn in the other network's group: the same graph looks different
  depending on which order was laid out last.
\<close>

definition shared_volume :: "string \<Rightarrow> string \<Rightarrow> LayoutInputs" where
  "shared_volume first second = (canvas_of
     [bare_node ''network:a'' Network ''a'', bare_node ''network:b'' Network ''b'',
      (bare_node ''container:a'' Container ''a'')\<lparr>dg_networkId := Some ''network:a''\<rparr>,
      (bare_node ''container:b'' Container ''b'')\<lparr>dg_networkId := Some ''network:b''\<rparr>,
      bare_node ''volume:v'' Volume ''v''])
     \<lparr>li_edges := map (\<lambda>c. \<lparr>de_id = ''m:'' @ c, de_type = VolumeMount, de_source = ''volume:v'',
        de_target = ''container:'' @ c, de_mountPath = None\<rparr>) [first, second]\<rparr>"

lemma reordered_mounts_move_volume:
  "topologyKey lc (shared_volume ''a'' ''b'') = topologyKey lc (shared_volume ''b'' ''a'')"
  "map node_place (filter (\<lambda>n. rf_type n = ''volumeNode'') (drawn_nodes lc (shared_volume ''a'' ''b'')))
    = [(''volume:v'', Some ''network:a'')]"
  "map node_place (filter (\<lambda>n. rf_type n = ''volumeNode'') (drawn_nodes lc (shared_volume ''b'' ''a'')))
    = [(''volume:v'', Some ''network:b'')]"
proof -
  have view: "li_groupBy (shared_volume c d) = ByNetwork" for c d
    by (simp add: shared_volume_def canvas_of_def)
  have "sort [''m:a'', ''m:b''] = sort [''m:b'', ''m:a'']" by simp
  then show "topologyKey lc (shared_volume ''a'' ''b'') = topologyKey lc (shared_volume ''b'' ''a'')"
    unfolding network_key [OF view] by (simp add: shared_volume_def canvas_of_def)
  have drawn: "drawn_nodes lc (shared_volume c d) = toReactFlowNodes (li_nodes (shared_volume c d)) (li_edges (shared_volume c d))" for c d
    by (simp add: drawn_nodes_def buildFlow_def view)
  show "map node_place (filter (\<lambda>n. rf_type n = ''volumeNode'') (drawn_nodes lc (shared_volume ''a'' ''b'')))
      = [(''volume:v'', Some ''network:a'')]"
    "map node_place (filter (\<lambda>n. rf_type n = ''volumeNode'') (drawn_nodes lc (shared_volume ''b'' ''a'')))
      = [(''volume:v'', Some ''network:b'')]"
    unfolding drawn by code_simp+
qed

end
