(* ===== verification/ServerFeed.thy ===== *)
theory ServerFeed
  imports DockGraph StackCorrect TopologyKey
begin

text \<open>
  A server that sends its first graph and then what changes (\<^verbatim>\<open>hooks/useDockGraph.ts\<close>,
  \<^verbatim>\<open>utils/deltaUtils.ts\<close>): the page holds the server's graph up to the order of its nodes and
  edges, and neither the scope nor the network view depends on that order.
\<close>

section \<open>Graphs equal up to order\<close>

definition unique_ids :: "GraphSnapshot \<Rightarrow> bool" where
  "unique_ids g \<longleftrightarrow> distinct (map dg_id (gs_nodes g)) \<and> distinct (map de_id (gs_edges g))"

definition same_graph :: "GraphSnapshot \<Rightarrow> GraphSnapshot \<Rightarrow> bool" where
  "same_graph g h \<longleftrightarrow> mset (gs_nodes g) = mset (gs_nodes h) \<and> mset (gs_edges g) = mset (gs_edges h)"

lemma same_graph_refl [simp]: "same_graph g g"
  by (simp add: same_graph_def)

lemma distinct_keys_mset: "mset xs = mset ys \<Longrightarrow> distinct (map f xs) \<longleftrightarrow> distinct (map f ys)"
  by (rule mset_eq_imp_distinct_iff) simp

lemma same_unique: "same_graph g h \<Longrightarrow> unique_ids g \<longleftrightarrow> unique_ids h"
  unfolding same_graph_def unique_ids_def
  using distinct_keys_mset [of "gs_nodes g" "gs_nodes h" dg_id] distinct_keys_mset [of "gs_edges g" "gs_edges h" de_id]
  by simp

text \<open>Two lists with unique keys and the same lookups hold the same elements.\<close>

lemma find_unique:
  assumes "distinct (map f zs)"
  shows "find (\<lambda>y. f y = k) zs = Some x \<longleftrightarrow> x \<in> set zs \<and> f x = k"
  using assms
proof (induction zs)
  case (Cons z zs)
  then show ?case by (cases "f z = k") (auto simp: image_iff)
qed simp

lemma mset_of_lookup:
  assumes "distinct (map f xs)" "distinct (map f ys)"
    and "\<And>k. find (\<lambda>x. f x = k) xs = find (\<lambda>x. f x = k) ys"
  shows "mset xs = mset ys"
proof -
  have "x \<in> set xs \<longleftrightarrow> x \<in> set ys" for x
    using find_unique [OF assms(1), of "f x" x] find_unique [OF assms(2), of "f x" x] assms(3) [of "f x"] by simp
  then have "set xs = set ys" by blast
  moreover have "distinct xs" "distinct ys" using assms(1,2) unfolding distinct_map by blast+
  ultimately show ?thesis using set_eq_iff_mset_eq_distinct by blast
qed

lemma lookup_of_mset:
  assumes "mset xs = mset ys" "distinct (map f ys)"
  shows "find (\<lambda>x. f x = k) xs = find (\<lambda>x. f x = k) ys"
proof -
  have xs: "distinct (map f xs)" "set xs = set ys"
    using assms(2) distinct_keys_mset [OF assms(1), of f] mset_eq_setD [OF assms(1)] by simp_all
  have "find (\<lambda>x. f x = k) xs = Some x \<longleftrightarrow> find (\<lambda>x. f x = k) ys = Some x" for x
    by (simp only: find_unique [OF xs(1)] find_unique [OF assms(2)] xs(2))
  then show ?thesis by (cases "find (\<lambda>x. f x = k) ys") (metis not_None_eq, simp)
qed

section \<open>Following the server\<close>

text \<open>
  What a step of the server's graph is assumed to keep (see \<open>delta_follows_server\<close>): no changed node
  loses an optional field and no edge changes under its id.
\<close>

definition evolves :: "GraphSnapshot \<Rightarrow> GraphSnapshot \<Rightarrow> bool" where
  "evolves prev cur \<longleftrightarrow> unique_ids cur \<and>
     list_all (\<lambda>m. case node_at (gs_nodes prev) (dg_id m) of None \<Rightarrow> True | Some n \<Rightarrow> keeps_fields n m) (gs_nodes cur) \<and>
     list_all (\<lambda>f. case edge_at (gs_edges prev) (de_id f) of None \<Rightarrow> True | Some e \<Rightarrow> e = f) (gs_edges cur)"

fun evolution :: "GraphSnapshot \<Rightarrow> GraphSnapshot list \<Rightarrow> bool" where
  "evolution prev [] = True"
| "evolution prev (cur # rest) = (evolves prev cur \<and> evolution cur rest)"

text \<open>The messages of such a server on socket \<open>k\<close>.\<close>

fun delta_feed :: "nat \<Rightarrow> StorageFaults \<Rightarrow> GraphSnapshot \<Rightarrow> GraphSnapshot list \<Rightarrow> ws_event list" where
  "delta_feed k st prev [] = []"
| "delta_feed k st prev (cur # rest) =
     WsMessage k (DeltaMsg PROTOCOL_VERSION (Some (server_delta prev cur))) st # delta_feed k st cur rest"

definition server_feed :: "nat \<Rightarrow> StorageFaults \<Rightarrow> GraphSnapshot \<Rightarrow> GraphSnapshot list \<Rightarrow> ws_event list" where
  "server_feed k st first rest =
     WsMessage k (SnapshotMsg PROTOCOL_VERSION (Some first)) st # delta_feed k st first rest"

lemma update_ids: "map dg_id (foldl update_node ns us) = map dg_id ns"
proof (induction us arbitrary: ns)
  case (Cons u us)
  have "map dg_id (update_node ns u) = map dg_id ns" for ns by (induction ns) auto
  then show ?case using Cons by simp
qed simp

lemma distinct_grown:
  "distinct (map f xs) \<Longrightarrow> distinct (map f ys) \<Longrightarrow> (\<And>y. y \<in> set ys \<Longrightarrow> q y \<Longrightarrow> f y \<notin> f ` set xs) \<Longrightarrow>
     distinct (map f (filter p xs @ filter q ys))"
proof -
  assume d: "distinct (map f xs)" "distinct (map f ys)" and new: "\<And>y. y \<in> set ys \<Longrightarrow> q y \<Longrightarrow> f y \<notin> f ` set xs"
  have "f x \<noteq> f y" if "x \<in> set xs" "y \<in> set ys" "q y" for x y
    using new [OF that(2,3)] that(1) by (metis imageI)
  then have "f ` set (filter p xs) \<inter> f ` set (filter q ys) = {}" by auto
  then show ?thesis unfolding map_append distinct_append set_map using d distinct_map_filter by blast
qed

lemma delta_unique:
  assumes "same_graph g prev" "unique_ids prev" "unique_ids cur"
  shows "unique_ids (applyDelta g (server_delta prev cur))"
proof -
  have g: "unique_ids g" "set (gs_nodes g) = set (gs_nodes prev)" "set (gs_edges g) = set (gs_edges prev)"
    using assms(1,2) same_unique [OF assms(1)] unfolding same_graph_def by (blast dest: mset_eq_setD)+
  have u: "distinct (map dg_id (gs_nodes g))" "distinct (map dg_id (gs_nodes cur))"
    "distinct (map de_id (gs_edges g))" "distinct (map de_id (gs_edges cur))"
    using g(1) assms(3) by (simp_all add: unique_ids_def)
  have "distinct (map dg_id (filter p (gs_nodes g) @ filter (\<lambda>n. node_at (gs_nodes prev) (dg_id n) = None) (gs_nodes cur)))" for p
    by (rule distinct_grown [OF u(1,2)]) (simp add: node_at_None g(2))
  moreover have "distinct (map de_id (filter p (gs_edges g) @ filter (\<lambda>e. edge_at (gs_edges prev) (de_id e) = None) (gs_edges cur)))" for p
    by (rule distinct_grown [OF u(3,4)]) (simp add: edge_at_None g(3))
  ultimately show ?thesis
    by (simp only: unique_ids_def applyDelta_def server_delta_def Let_def DeltaUpdate.select_convs option.case
      GraphSnapshot.select_convs update_ids simp_thms)
qed

lemma delta_same:
  assumes "same_graph g prev" "unique_ids prev" "evolves prev cur"
  shows "same_graph (applyDelta g (server_delta prev cur)) cur"
proof -
  let ?d = "server_delta prev cur"
  have cur: "unique_ids cur" using assms(3) by (simp add: evolves_def)
  have at: "node_at (gs_nodes g) i = node_at (gs_nodes prev) i" "edge_at (gs_edges g) i = edge_at (gs_edges prev) i" for i
    using assms(1,2) lookup_of_mset [of "gs_nodes g" "gs_nodes prev" dg_id i]
      lookup_of_mset [of "gs_edges g" "gs_edges prev" de_id i]
    by (simp_all add: same_graph_def unique_ids_def node_at_def edge_at_def)
  have as: "node_at (gs_nodes (applyDelta g ?d)) i = node_at (gs_nodes (applyDelta prev ?d)) i"
    "edge_at (gs_edges (applyDelta g ?d)) i = edge_at (gs_edges (applyDelta prev ?d)) i" for i
    by (simp_all only: applied_node applied_edge at)
  have keeps: "keeps_fields n m" if "node_at (gs_nodes prev) i = Some n" "node_at (gs_nodes cur) i = Some m" for i n m
    using that assms(3) node_at_Some [OF that(2)] by (auto simp: evolves_def list_all_iff)
  have still: "e = f" if "edge_at (gs_edges prev) i = Some e" "edge_at (gs_edges cur) i = Some f" for i e f
    using that assms(3) edge_at_Some [OF that(2)] by (auto simp: evolves_def list_all_iff)
  have "node_at (gs_nodes (applyDelta prev ?d)) i = node_at (gs_nodes cur) i" for i
    using cur keeps by (auto simp: server_delta_node unique_ids_def merge_kept split: option.split)
  moreover have "edge_at (gs_edges (applyDelta prev ?d)) i = edge_at (gs_edges cur) i" for i
    using still by (auto simp: server_delta_edge split: option.split)
  ultimately show ?thesis
    using delta_unique [OF assms(1,2) cur] cur as
    by (auto simp: same_graph_def unique_ids_def node_at_def edge_at_def intro!: mset_of_lookup)
qed

lemma feed_deltas:
  assumes "dk_ws (pg_hook p) = Some k" "same_graph (dk_graph (pg_hook p)) prev" "unique_ids prev" "evolution prev rest"
  shows "same_graph (dk_graph (pg_hook (run dock_step p (delta_feed k st prev rest)))) (last (prev # rest))
    \<and> pg_reloads (run dock_step p (delta_feed k st prev rest)) = pg_reloads p"
  using assms
proof (induction rest arbitrary: p prev)
  case (Cons cur rest)
  let ?p = "dock_step p (WsMessage k (DeltaMsg PROTOCOL_VERSION (Some (server_delta prev cur))) st)"
  have p: "dk_graph (pg_hook ?p) = applyDelta (dk_graph (pg_hook p)) (server_delta prev cur)"
    "dk_ws (pg_hook ?p) = Some k" "pg_reloads ?p = pg_reloads p"
    using Cons.prems(1) by (auto simp: gated_def protocolAction_def hook_delta_def)
  have ev: "evolves prev cur" "evolution cur rest" using Cons.prems(4) by simp_all
  have "same_graph (dk_graph (pg_hook ?p)) cur" unfolding p(1) by (rule delta_same [OF Cons.prems(2,3) ev(1)])
  from Cons.IH [OF p(2) this _ ev(2)] show ?case using ev(1) p(3) by (simp add: evolves_def)
qed simp

lemma feed_followed:
  assumes "dk_ws (pg_hook p) = Some k" "dk_fingerprint (pg_hook p) = []" "unique_ids first" "evolution first rest"
  shows "same_graph (dk_graph (pg_hook (run dock_step p (server_feed k st first rest)))) (last (first # rest))"
proof -
  let ?p = "dock_step p (WsMessage k (SnapshotMsg PROTOCOL_VERSION (Some first)) st)"
  have "dk_graph (pg_hook ?p) = first" "dk_ws (pg_hook ?p) = Some k"
    using assms(1,2) fingerprint_nonempty [of "gs_nodes first" "gs_edges first"]
    by (auto simp: gated_def protocolAction_def applySnapshot_def Let_def)
  then show ?thesis using feed_deltas [of ?p k first rest] assms(3,4) by (simp add: server_feed_def)
qed

text \<open>Between its graph messages the server may open the socket and send stats; neither touches the graph.\<close>

definition no_graph :: "ws_event \<Rightarrow> bool" where
  "no_graph w = (case w of
     WsOpen k \<Rightarrow> True | WsMessage k (StatsMsg v d) st \<Rightarrow> v = PROTOCOL_VERSION | _ \<Rightarrow> False)"

definition graph_message :: "ws_event \<Rightarrow> bool" where
  "graph_message w = (case w of
     WsMessage k (SnapshotMsg v d) st \<Rightarrow> v = PROTOCOL_VERSION
   | WsMessage k (DeltaMsg v d) st \<Rightarrow> v = PROTOCOL_VERSION | _ \<Rightarrow> False)"

definition graph_core :: "Page \<Rightarrow> GraphSnapshot \<times> nat option \<times> string" where
  "graph_core p = (dk_graph (pg_hook p), dk_ws (pg_hook p), dk_fingerprint (pg_hook p))"

lemma core_quiet: "no_graph w \<Longrightarrow> graph_core (dock_step p w) = graph_core p"
  by (auto simp: no_graph_def graph_core_def gated_def protocolAction_def split: ws_event.splits wire_message.splits
      option.splits)

lemma core_message:
  assumes "graph_message w" "graph_core p = graph_core q"
  shows "graph_core (dock_step p w) = graph_core (dock_step q w)"
proof -
  obtain k msg st where w: "w = WsMessage k msg st" using assms(1) by (cases w) (simp_all add: graph_message_def)
  then show ?thesis
    using assms
    by (cases msg) (auto simp: graph_message_def graph_core_def gated_def protocolAction_def applySnapshot_def
        hook_delta_def Let_def split: option.splits)
qed

lemma core_run:
  assumes "graph_core p = graph_core q" "list_all graph_message (filter (\<lambda>w. \<not> no_graph w) ws)"
  shows "graph_core (run dock_step p ws) = graph_core (run dock_step q (filter (\<lambda>w. \<not> no_graph w) ws))"
  using assms
proof (induction ws arbitrary: p q)
  case (Cons w ws)
  show ?case
  proof (cases "no_graph w")
    case True
    then show ?thesis using Cons core_quiet [OF True, of p] by simp
  next
    case False
    then show ?thesis using Cons core_message [of w p q] by simp
  qed
qed simp

lemma feed_messages: "list_all graph_message (server_feed k st first rest)"
proof -
  have "list_all graph_message (delta_feed k st prev rest)" for prev
    by (induction rest arbitrary: prev) (simp_all add: graph_message_def)
  then show ?thesis by (simp add: server_feed_def graph_message_def)
qed

lemma server_followed:
  assumes "filter (\<lambda>w. \<not> no_graph w) ws = server_feed k st first rest"
    and "dk_ws (pg_hook p) = Some k" "dk_fingerprint (pg_hook p) = []" "unique_ids first" "evolution first rest"
  shows "same_graph (dk_graph (pg_hook (run dock_step p ws))) (last (first # rest))"
proof -
  have "graph_core (run dock_step p ws) = graph_core (run dock_step p (server_feed k st first rest))"
    using core_run [of p p ws] feed_messages [of k st first rest] unfolding assms(1) by simp
  then have "dk_graph (pg_hook (run dock_step p ws)) = dk_graph (pg_hook (run dock_step p (server_feed k st first rest)))"
    by (simp add: graph_core_def)
  then show ?thesis using feed_followed [OF assms(2-5)] by simp
qed

lemma evolution_unique: "unique_ids first \<Longrightarrow> evolution first rest \<Longrightarrow> unique_ids (last (first # rest))"
  by (induction rest arbitrary: first) (auto simp: evolves_def)

section \<open>The order does not matter to what is drawn\<close>

lemma scope_same:
  assumes "same_graph g h" "unique_ids h"
  shows "same_graph (filterGraphByStack g s) (filterGraphByStack h s)"
proof (cases s)
  case None
  then show ?thesis using assms(1) by (simp add: filterGraphByStack_def)
next
  case (Some stack)
  show ?thesis
  proof (cases "stack = []")
    case True
    then show ?thesis using Some assms(1) by (simp add: filterGraphByStack_def)
  next
    case False
    have d: "distinct (map dg_id (gs_nodes g))" "distinct (map dg_id (gs_nodes h))"
      using assms same_unique [OF assms(1)] by (simp_all add: unique_ids_def)
    have m: "mset (gs_nodes g) = mset (gs_nodes h)" "mset (gs_edges g) = mset (gs_edges h)"
      using assms(1) by (simp_all add: same_graph_def)
    note sets = mset_eq_setD [OF m(1)] mset_eq_setD [OF m(2)]
    have ref: "referenced g stack = referenced h stack"
      by (intro ext) (simp only: referenced_def scoped_workload_def sets)
    have "set (filter p (gs_nodes g)) = set (filter p (gs_nodes h))" for p using sets(1) by simp
    then show ?thesis
      unfolding Some filter_graph_eq [OF d(1) False] filter_graph_eq [OF d(2) False] Let_def same_graph_def ref
      using m by simp
  qed
qed

text \<open>What a drawn node shows: its id and its data.\<close>

definition face :: "RFNode \<Rightarrow> string \<times> rf_data" where
  "face n = (rf_id n, rf_data n)"

lemma face_nodes:
  "map face (buildContainerNodes cs ids) = map (\<lambda>c. (dg_id c, PlainData c)) cs"
  "map face (buildVolumeNodes vs cs es ids) = map (\<lambda>v. (dg_id v, PlainData v)) vs"
  "face (group_node d) = (dg_id d, PlainData d)"
  by (simp_all add: face_def buildContainerNodes_def buildVolumeNodes_def Let_def rf_node_def)

lemma network_faces_same:
  assumes "mset ns = mset ms" "mset es = mset fs"
  shows "mset (map face (toReactFlowNodes ns es)) = mset (map face (toReactFlowNodes ms fs))"
proof -
  have part: "mset (filter p ns) = mset (filter p ms)" for p using assms(1) by simp
  have cs: "mset (flow_containers ns) = mset (flow_containers ms)" unfolding flow_containers_def by (rule part)
  note sets = mset_eq_setD [OF cs] mset_eq_setD [OF assms(2)]
  have groups: "mset (map face (buildNetworkGroups nets (flow_containers ns) es)) =
      mset (map face (buildNetworkGroups nets' (flow_containers ms) fs))" if "mset nets = mset nets'" for nets nets'
  proof -
    have "set (map dg_networkId (filter (\<lambda>c. truthy (dg_networkId c)) (flow_containers ns))) =
        set (map dg_networkId (filter (\<lambda>c. truthy (dg_networkId c)) (flow_containers ms)))"
      "set (map de_target (filter (\<lambda>e. de_type e = SecondaryNetwork) es)) =
        set (map de_target (filter (\<lambda>e. de_type e = SecondaryNetwork) fs))"
      "list_ex unmanaged (flow_containers ns) = list_ex unmanaged (flow_containers ms)"
      using sets by (simp_all add: list_ex_iff)
    then show ?thesis using that unfolding buildNetworkGroups_def Let_def by simp
  qed
  show ?thesis
    unfolding toReactFlowNodes_def Let_def map_append mset_append face_nodes
    by (simp only: groups [OF part] mset_map_cong [OF cs] mset_map_cong [OF part])
qed

lemma network_edges_order:
  assumes "mset (li_nodes i) = mset (li_nodes j)" "mset (li_edges i) = mset (li_edges j)"
    and "li_groupBy i = ByNetwork" "li_groupBy j = ByNetwork"
  shows "mset (drawn_edges lc i) = mset (drawn_edges lc j)"
  unfolding network_edges [OF assms(3)] network_edges [OF assms(4)] mset_eq_setD [OF assms(1)]
  using assms(2) by simp

end
