(* ===== verification/CanvasCurrent.thy ===== *)
theory CanvasCurrent
  imports ServerFeed
begin

text \<open>
  What the canvas shows once the layout hook has settled (\<^verbatim>\<open>hooks/useGraphLayout.ts\<close>): exactly the
  nodes and edges of the current graph, because the fingerprint is exact; and with the current
  data, as long as no layout answers for the topology that is already on screen and the reader deletes
  nothing on the canvas.
\<close>

section \<open>Exactly the current nodes and edges\<close>

definition fit_inputs :: "(string \<Rightarrow> node_type) \<Rightarrow> (string \<Rightarrow> edge_type \<times> string \<times> string) \<Rightarrow> LayoutInputs set" where
  "fit_inputs kind ends = {i. graph_fits kind ends (li_nodes i) (li_edges i)}"

definition shows_graph :: "collator \<Rightarrow> GraphLayout \<Rightarrow> bool" where
  "shows_graph lc st \<longleftrightarrow>
     mset (map rf_id (gl_nodes st)) = mset (map rf_id (drawn_nodes lc (gl_inputs st))) \<and>
     mset (map re_id (gl_edges st)) = mset (drawn_edges lc (gl_inputs st))"

lemma key_nonempty_nodes:
  assumes "i \<in> fit_inputs kind ends" "j \<in> fit_inputs kind ends" "topologyKey lc i = topologyKey lc j"
    and "li_nodes j \<noteq> []" "draws lc i ns es"
  shows "mset (map rf_id ns) = mset (map rf_id (drawn_nodes lc j)) \<and> mset (map re_id es) = mset (drawn_edges lc j)"
proof (cases "li_nodes i = []")
  case False
  then show ?thesis
    using assms(5) drawn_same(2,3) [OF _ _ assms(3), of kind ends] assms(1,2)
    by (simp add: draws_def fit_inputs_def del: mset_map)
next
  case True
  have fits: "graph_fits kind ends (li_nodes i) (li_edges i)" "graph_fits kind ends (li_nodes j) (li_edges j)"
    using assms(1,2) by (simp_all add: fit_inputs_def)
  have "drawn_nodes lc i = [] \<and> drawn_edges lc i = []"
  proof (cases "li_groupBy i")
    case ByNetwork
    then show ?thesis
      using True network_edges [OF ByNetwork, of lc]
      by (simp add: drawn_nodes_def buildFlow_def toReactFlowNodes_def Let_def flow_containers_def
          buildNetworkGroups_def buildContainerNodes_def buildVolumeNodes_def)
  next
    case ByNode
    have "toNodeGroupedFlowNodes lc [] loc = []" for loc
      by (simp add: toNodeGroupedFlowNodes_def grouped_view_def control_view_def role_view_def Let_def
          listSwarmNodes_def add_role_def placeTasks_def active_tasks_def group_on_def map_has_def
          view_containers_def js_sort_def)
    then show ?thesis using True ByNode by (simp add: drawn_nodes_def drawn_edges_def buildFlow_def)
  qed
  then show ?thesis
    using True assms(5) drawn_same(2,3) [OF fits assms(3)] by (simp add: draws_def)
qed

lemma settled_shows_graph:
  assumes "layout_inv (fit_inputs kind ends) lc st" "gl_inputs st \<in> fit_inputs kind ends"
    and "gl_settled st = topologyKey lc (gl_inputs st)" "li_nodes (gl_inputs st) \<noteq> []"
  shows "shows_graph lc st"
proof -
  obtain i where "i \<in> fit_inputs kind ends" "topologyKey lc i = topologyKey lc (gl_inputs st)"
      "draws lc i (gl_nodes st) (gl_edges st)"
    using assms(1,3) by (auto simp: layout_inv_def screen_ok_def)
  from key_nonempty_nodes [OF this(1) assms(2) this(2) assms(4) this(3)]
  show ?thesis by (simp add: shows_graph_def)
qed

section \<open>With the current data\<close>

definition shows_data :: "collator \<Rightarrow> GraphLayout \<Rightarrow> bool" where
  "shows_data lc st \<longleftrightarrow> mset (map face (gl_nodes st)) = mset (map face (drawn_nodes lc (gl_inputs st)))"

text \<open>A layout that answers for the topology already on screen, whose update does not run after it.\<close>

definition relays :: "GraphLayout \<Rightarrow> layout_event \<Rightarrow> bool" where
  "relays st e \<longleftrightarrow> (case e of
     Render i \<Rightarrow> False
   | LayoutArrived k answer \<Rightarrow> (case find (\<lambda>j. lj_id j = k) (gl_jobs st) of
       None \<Rightarrow> False | Some j \<Rightarrow> \<not> lj_cancelled j \<and> lj_key j = gl_settled st)
   | Removed ns es \<Rightarrow> False)"

lemma node_map_get:
  "distinct (map rf_id ns) \<Longrightarrow> n \<in> set ns \<Longrightarrow> map_get (foldl (\<lambda>m n. map_set m (rf_id n) n) m ns) (rf_id n) = Some n"
proof (induction ns arbitrary: m)
  case (Cons a ns)
  have keep: "i \<notin> rf_id ` set ns \<Longrightarrow> map_get (foldl (\<lambda>m n. map_set m (rf_id n) n) m ns) i = map_get m i" for m i
    by (induction ns arbitrary: m) (auto simp: js.get_put)
  show ?case using Cons keep [of "rf_id a" "map_set m (rf_id a) a"] by (auto simp: js.get_put)
qed simp

lemma patched_faces:
  assumes "mset (map rf_id ns) = mset (map rf_id ds)" "distinct (map rf_id ds)"
  shows "mset (map face (map (patch_node (foldl (\<lambda>m n. map_set m (rf_id n) n) [] ds)) ns)) = mset (map face ds)"
proof -
  let ?m = "foldl (\<lambda>m n. map_set m (rf_id n) n) [] ds"
  define h where "h i = (i, rf_data (the (map_get ?m i)))" for i
  have get: "map_get ?m (rf_id d) = Some d" if "d \<in> set ds" for d using node_map_get [OF assms(2) that] .
  have "face (patch_node ?m n) = h (rf_id n)" if "n \<in> set ns" for n
  proof -
    have "rf_id n \<in> rf_id ` set ds" using mset_eq_setD [OF assms(1)] that by auto
    then obtain d where "d \<in> set ds" "rf_id d = rf_id n" by force
    then show ?thesis using get [of d] by (simp add: patch_node_def face_def h_def)
  qed
  then have screen: "map face (map (patch_node ?m) ns) = map h (map rf_id ns)" by simp
  have "map face ds = map h (map rf_id ds)" using get by (simp add: face_def h_def)
  then show ?thesis unfolding screen by (simp only: mset_map_cong [OF assms(1), of h])
qed

lemma lightweight_faces:
  assumes "gl_settled st = topologyKey lc (gl_inputs st)" "li_nodes (gl_inputs st) \<noteq> []"
    and "shows_graph lc st" "distinct (map rf_id (drawn_nodes lc (gl_inputs st)))"
  shows "shows_data lc (lightweight_update lc st)"
proof -
  obtain ns es c where flow: "buildFlow lc (gl_inputs st) (gl_colors st) = (ns, es, c)" by (metis prod_cases3)
  then have ns: "ns = drawn_nodes lc (gl_inputs st)" using buildFlow_ids(1) [of lc "gl_inputs st" "gl_colors st"] by simp
  have "gl_nodes (lightweight_update lc st) =
      map (patch_node (foldl (\<lambda>m n. map_set m (rf_id n) n) [] ns)) (gl_nodes st)"
    using assms(1,2) flow by (simp add: lightweight_update_def Let_def)
  then show ?thesis
    using patched_faces [of "gl_nodes st" "drawn_nodes lc (gl_inputs st)"] assms(3,4)
    by (simp add: shows_data_def shows_graph_def ns del: mset_map)
qed

definition fresh :: "collator \<Rightarrow> GraphLayout \<Rightarrow> bool" where
  "fresh lc st \<longleftrightarrow> (gl_settled st = topologyKey lc (gl_inputs st) \<and> li_nodes (gl_inputs st) \<noteq> [] \<and>
     distinct (map rf_id (drawn_nodes lc (gl_inputs st))) \<longrightarrow> shows_data lc st)"

definition canvas_inv :: "(string \<Rightarrow> node_type) \<Rightarrow> (string \<Rightarrow> edge_type \<times> string \<times> string) \<Rightarrow> collator \<Rightarrow>
    GraphLayout \<Rightarrow> bool" where
  "canvas_inv kind ends lc st \<longleftrightarrow> layout_inv (fit_inputs kind ends) lc st \<and> gl_inputs st \<in> fit_inputs kind ends
     \<and> fresh lc st"

lemma fresh_lightweight:
  assumes "layout_inv (fit_inputs kind ends) lc st" "gl_inputs st \<in> fit_inputs kind ends"
  shows "fresh lc (lightweight_update lc st)"
  using lightweight_faces [of st lc] settled_shows_graph [OF assms] by (simp add: fresh_def)

lemma effect_sel [simp]:
  "gl_inputs (layout_effect lc st) = gl_inputs st" "gl_settled (layout_effect lc st) = gl_settled st"
  by (simp_all add: layout_effect_def Let_def split: prod.split)

lemma inputs_arrived: "gl_inputs (layout_step lc msr family st (LayoutArrived k a)) = gl_inputs st"
  by (simp add: layout_step_def finish_job_def Let_def split: option.split)

lemma render_fresh:
  assumes "layout_inv (fit_inputs kind ends) lc st" "i \<in> fit_inputs kind ends"
  shows "fresh lc (layout_step lc msr family st (Render i))"
proof -
  let ?st = "layout_effect lc (st\<lparr>gl_inputs := i\<rparr>)"
  have "screen_ok (fit_inputs kind ends) lc (st\<lparr>gl_inputs := i\<rparr>)" "jobs_ok (fit_inputs kind ends) lc (st\<lparr>gl_inputs := i\<rparr>)"
    using assms(1) by (simp_all add: layout_inv_def screen_ok_def jobs_ok_def)
  then have "layout_inv (fit_inputs kind ends) lc ?st"
    using layout_effect_keeps [where I = "fit_inputs kind ends" and lc = lc and st = "st\<lparr>gl_inputs := i\<rparr>"] assms(2)
    by (simp add: layout_inv_def)
  then have "fresh lc (lightweight_update lc ?st)" using assms(2) by (intro fresh_lightweight) simp_all
  then show ?thesis by (simp add: layout_step_def)
qed

lemma arrived_fresh:
  assumes "canvas_inv kind ends lc st" "\<not> relays st (LayoutArrived k a)"
  shows "fresh lc (layout_step lc msr family st (LayoutArrived k a))"
proof (cases "find (\<lambda>j. lj_id j = k) (gl_jobs st)")
  case None
  then show ?thesis using assms(1) by (simp add: layout_step_def canvas_inv_def)
next
  case (Some j)
  let ?st = "st\<lparr>gl_jobs := filter (\<lambda>j. lj_id j \<noteq> k) (gl_jobs st)\<rparr>"
  have still: "fresh lc (st'\<lparr>gl_error := e\<rparr>) = fresh lc st'" for st' e
    by (simp add: fresh_def shows_data_def)
  have same: "fresh lc ?st" using assms(1) by (simp add: canvas_inv_def fresh_def shows_data_def)
  have step: "layout_step lc msr family st (LayoutArrived k a) = finish_job lc msr family a j ?st"
    using Some by (simp add: layout_step_def)
  show ?thesis
  proof (cases "task_result msr family a (gl_widths ?st) (lj_task j)")
    case None
    then show ?thesis using same still [where st' = ?st] unfolding step finish_job_def by simp
  next
    case (Some r)
    obtain ns es widths where r: "r = (ns, es, widths)" by (metis prod_cases3)
    let ?st1 = "?st\<lparr>gl_widths := widths, gl_nodes := ns, gl_edges := es, gl_error := None, gl_settled := lj_key j\<rparr>"
    show ?thesis
    proof (cases "lj_cancelled j")
      case True
      then show ?thesis using Some r same unfolding step finish_job_def by (simp add: fresh_def shows_data_def Let_def)
    next
      case False
      then have key: "lj_key j \<noteq> gl_settled st" using assms(2) \<open>find _ _ = Some j\<close> by (simp add: relays_def)
      then have fin: "layout_step lc msr family st (LayoutArrived k a) = lightweight_update lc ?st1"
        unfolding step finish_job_def using Some r False by (simp add: Let_def)
      have "j \<in> set (gl_jobs st)" using \<open>find _ _ = Some j\<close> by (auto simp: find_Some_iff)
      then obtain i where i: "i \<in> fit_inputs kind ends" "topologyKey lc i = lj_key j" "task_for lc i (lj_task j)"
        using assms(1) by (auto simp: canvas_inv_def layout_inv_def jobs_ok_def)
      then have "draws lc i ns es" using task_shows [OF i(3)] Some r by blast
      then have "layout_inv (fit_inputs kind ends) lc ?st1"
        using i assms(1) by (auto simp: canvas_inv_def layout_inv_def screen_ok_def jobs_ok_def)
      then show ?thesis unfolding fin
        by (rule fresh_lightweight) (use assms(1) in \<open>simp add: canvas_inv_def\<close>)
    qed
  qed
qed

lemma canvas_inv_step:
  assumes "canvas_inv kind ends lc st" "rendered_in (fit_inputs kind ends) e" "\<not> relays st e"
  shows "canvas_inv kind ends lc (layout_step lc msr family st e)"
proof (cases e)
  case (Render i)
  then show ?thesis
    using assms render_fresh [of kind ends lc st i] layout_step_inv [of "fit_inputs kind ends" lc st e]
    by (simp add: canvas_inv_def rendered_in_def)
next
  case (LayoutArrived k a)
  then show ?thesis
    using assms arrived_fresh [OF assms(1)] layout_step_inv [of "fit_inputs kind ends" lc st e]
    by (simp add: canvas_inv_def rendered_in_def inputs_arrived)
next
  case (Removed ns es)
  then show ?thesis using assms(2) by (simp add: rendered_in_def)
qed

interpretation current: machine "layout_step lc msr family"
    "\<lambda>st e. rendered_in (fit_inputs kind ends) e \<and> \<not> relays st e" "canvas_inv kind ends lc"
  by unfold_locales (use canvas_inv_step in blast)

end
