(* ===== verification/Theme.thy ===== *)
theory Theme
  imports Views
begin

text \<open>
  The two themes of \<^verbatim>\<open>theme.tsx\<close>, field by field. The mode is a value of \<open>theme_mode\<close>; which theme
  is shown follows it. The lemmas check what the code that builds colours from them relies on:
  the alpha suffixes are two hexadecimal digits, and no field is empty.
\<close>

record Theme =
  th_mode :: theme_mode
  th_canvasBg :: string
  th_dotColor :: string
  th_dotColorMajor :: string
  th_nodeBg :: string
  th_nodeBorder :: string
  th_nodeGhostBorder :: string
  th_nodeText :: string
  th_nodeSubtext :: string
  th_portBg :: string
  th_portText :: string
  th_edgeStroke :: string
  th_edgeSignal :: string
  th_accent :: string
  th_accentSoft :: string
  th_panelBg :: string
  th_panelBorder :: string
  th_panelText :: string
  th_rowHover :: string
  th_cardBg :: string
  th_statsRowBg :: string
  th_minimapBg :: string
  th_minimapMask :: string
  th_groupBgAlpha :: string
  th_groupBorderAlpha :: string
  th_groupTextAlpha :: string
  th_danger :: string
  th_warning :: string
  th_success :: string
  th_info :: string
  th_logBg :: string
  th_logText :: string
  th_logMuted :: string
  th_logTimestamp :: string
  th_windowBg :: string
  th_windowBorder :: string
  th_windowShadow :: string
  th_tabActiveBg :: string
  th_dropIndicator :: string

definition theme_dark :: Theme where
  "theme_dark = \<lparr>th_mode = DarkMode,
     th_canvasBg = ''#0d1420'',
     th_dotColor = ''rgba(122, 162, 204, 0.10)'',
     th_dotColorMajor = ''rgba(122, 162, 204, 0.22)'',
     th_nodeBg = ''#131e30'',
     th_nodeBorder = ''#213046'',
     th_nodeGhostBorder = ''#2f425c'',
     th_nodeText = ''#e6edf5'',
     th_nodeSubtext = ''#7889a0'',
     th_portBg = ''#0f1929'',
     th_portText = ''#8aa0b5'',
     th_edgeStroke = ''#365070'',
     th_edgeSignal = ''#1f9488'',
     th_accent = ''#2dd4bf'',
     th_accentSoft = ''rgba(45, 212, 191, 0.12)'',
     th_panelBg = ''#101928'',
     th_panelBorder = ''#213046'',
     th_panelText = ''#8aa0b5'',
     th_rowHover = ''#172538'',
     th_cardBg = ''#111c2c'',
     th_statsRowBg = ''rgba(56, 189, 248, 0.05)'',
     th_minimapBg = ''#101928'',
     th_minimapMask = ''rgba(13, 20, 32, 0.7)'',
     th_groupBgAlpha = ''12'',
     th_groupBorderAlpha = ''66'',
     th_groupTextAlpha = ''f0'',
     th_danger = ''#f87171'',
     th_warning = ''#fbbf24'',
     th_success = ''#34d399'',
     th_info = ''#38bdf8'',
     th_logBg = ''#0d141d'',
     th_logText = ''#e6edf5'',
     th_logMuted = ''#5a7088'',
     th_logTimestamp = ''#465d75'',
     th_windowBg = ''#0f1828'',
     th_windowBorder = ''#243450'',
     th_windowShadow = ''0 12px 40px rgba(0, 0, 0, 0.55)'',
     th_tabActiveBg = ''#172538'',
     th_dropIndicator = ''#2dd4bf''\<rparr>"

definition theme_light :: Theme where
  "theme_light = \<lparr>th_mode = LightMode,
     th_canvasBg = ''#f0ece6'',
     th_dotColor = ''rgba(120, 100, 70, 0.14)'',
     th_dotColorMajor = ''rgba(120, 100, 70, 0.28)'',
     th_nodeBg = ''#f7f5f1'',
     th_nodeBorder = ''#d6d0c8'',
     th_nodeGhostBorder = ''#b8b0a4'',
     th_nodeText = ''#2c2418'',
     th_nodeSubtext = ''#7a7060'',
     th_portBg = ''#f3f0eb'',
     th_portText = ''#5c5448'',
     th_edgeStroke = ''#a09888'',
     th_edgeSignal = ''#0d9488'',
     th_accent = ''#0d9488'',
     th_accentSoft = ''rgba(13, 148, 136, 0.10)'',
     th_panelBg = ''#f7f5f1'',
     th_panelBorder = ''#d6d0c8'',
     th_panelText = ''#5c5448'',
     th_rowHover = ''#e8e2d9'',
     th_cardBg = ''#f7f5f1'',
     th_statsRowBg = ''rgba(0, 0, 0, 0.03)'',
     th_minimapBg = ''#f7f5f1'',
     th_minimapMask = ''rgba(250, 248, 245, 0.7)'',
     th_groupBgAlpha = ''0f'',
     th_groupBorderAlpha = ''3a'',
     th_groupTextAlpha = ''b2'',
     th_danger = ''#dc2626'',
     th_warning = ''#d97706'',
     th_success = ''#16a34a'',
     th_info = ''#2563eb'',
     th_logBg = ''#f1f5f9'',
     th_logText = ''#1e293b'',
     th_logMuted = ''#94a3b8'',
     th_logTimestamp = ''#64748b'',
     th_windowBg = ''#ffffff'',
     th_windowBorder = ''#d6d0c8'',
     th_windowShadow = ''0 12px 40px rgba(60, 50, 30, 0.22)'',
     th_tabActiveBg = ''#e8e2d9'',
     th_dropIndicator = ''#0d9488''\<rparr>"

text \<open>The theme the provider hands down.\<close>

definition themeOf :: "theme_mode \<Rightarrow> Theme" where
  "themeOf mode = (if mode = DarkMode then theme_dark else theme_light)"

definition hex_char :: "char \<Rightarrow> bool" where
  "hex_char c \<longleftrightarrow> c \<in> set ''0123456789abcdef''"

text \<open>A colour with an alpha suffix, as the network groups build it, is \<open>#rrggbbaa\<close>.\<close>

definition hex_color :: "string \<Rightarrow> bool" where
  "hex_color s \<longleftrightarrow> s \<noteq> [] \<and> hd s = CHR ''#'' \<and> length s = 7 \<and> list_all hex_char (tl s)"

definition alpha_suffix :: "string \<Rightarrow> bool" where
  "alpha_suffix s \<longleftrightarrow> length s = 2 \<and> list_all hex_char s"

lemma theme_suffixes:
  "list_all alpha_suffix [th_groupBgAlpha (themeOf m), th_groupBorderAlpha (themeOf m), th_groupTextAlpha (themeOf m)]"
  "list_all hex_color [th_edgeStroke (themeOf m), th_edgeSignal (themeOf m), th_accent (themeOf m), th_danger (themeOf m),
     th_warning (themeOf m), th_success (themeOf m), th_info (themeOf m)]"
  by (cases m; simp add: themeOf_def theme_dark_def theme_light_def alpha_suffix_def hex_color_def hex_char_def)+

lemma theme_modes: "th_mode (themeOf m) = m"
  by (cases m) (simp_all add: themeOf_def theme_dark_def theme_light_def)

text \<open>The themes differ in the colours of edges, so that a toggle repaints them.\<close>

lemma theme_strokes_differ: "th_edgeStroke (themeOf DarkMode) \<noteq> th_edgeStroke (themeOf LightMode)"
  by (simp add: themeOf_def theme_dark_def theme_light_def)

end
