(* ===== verification/App.thy ===== *)
theory App
  imports FlowCanvas CanvasCurrent Theme
begin

text \<open>
  The application as one machine (\<^verbatim>\<open>App.tsx\<close> around \<^verbatim>\<open>components/FlowCanvas.tsx\<close>): the connection,
  the shell with its scope and grouping, the layout hook and the theme, wired as React wires
  them. What one component sets is what the next reads at the following render; the layout
  hook renders again when the scoped graph, the grouping, the theme or the local node is a new
  value. Together the components keep the promise of the program: a settled canvas shows the
  graph of the server, scoped, as long as the reader deletes nothing on it.
\<close>

section \<open>State\<close>

record App =
  ap_page :: Page
  ap_store :: storage
  ap_mode :: theme_mode
  ap_local :: "string option"
  ap_shell :: Shell
  ap_layout :: GraphLayout

text \<open>What \<open>FlowCanvas\<close> hands to \<open>useGraphLayout\<close>.\<close>

definition layout_inputs :: "App \<Rightarrow> LayoutInputs" where
  "layout_inputs app = (let g = scope (ap_shell app); th = themeOf (ap_mode app) in
     \<lparr>li_nodes = gs_nodes g, li_edges = gs_edges g, li_stroke = th_edgeStroke th, li_accent = th_edgeSignal th,
      li_groupBy = effectiveGroupBy (ap_shell app), li_local = ap_local app\<rparr>)"

text \<open>The shell reads the nodes and edges the hook returns, and whether it is busy.\<close>

definition canvas_result :: "collator \<Rightarrow> App \<Rightarrow> App" where
  "canvas_result lc app = (let l = ap_layout app in
     app\<lparr>ap_shell := shell_step (shell_step (ap_shell app) (LayoutSettled (gl_nodes l) (gl_edges l)))
       (LayoutIdle (layoutBusy lc l))\<rparr>)"

definition rerender :: "collator \<Rightarrow> text_measure \<Rightarrow> string \<Rightarrow> App \<Rightarrow> App" where
  "rerender lc msr family app = canvas_result lc
     (app\<lparr>ap_layout := layout_step lc msr family (ap_layout app) (Render (layout_inputs app))\<rparr>)"

text \<open>A page that mounts: the scope is read from the URL, the theme from the browser's storage.\<close>

definition mounting :: "Page \<Rightarrow> storage \<Rightarrow> (string \<times> string) list \<Rightarrow> App" where
  "mounting page store params =
     (let shell = (shell_open params)\<lparr>sl_graph := dk_graph (pg_hook page)\<rparr>;
          app = \<lparr>ap_page = page, ap_store = store, ap_mode = getInitialMode store, ap_local = None, ap_shell = shell,
             ap_layout = initial_layout \<lparr>li_nodes = [], li_edges = [], li_stroke = [], li_accent = [],
               li_groupBy = ByNetwork, li_local = None\<rparr>\<rparr>
      in app\<lparr>ap_layout := initial_layout (layout_inputs app)\<rparr>)"

definition mount :: "collator \<Rightarrow> text_measure \<Rightarrow> string \<Rightarrow> Page \<Rightarrow> storage \<Rightarrow> (string \<times> string) list \<Rightarrow> App" where
  "mount lc msr family page store params = rerender lc msr family (mounting page store params)"


text \<open>The other properties \<open>AppContent\<close> passes down: the scoped stats and every stack of the whole graph.\<close>

definition app_stats :: "App \<Rightarrow> stats_map" where
  "app_stats app = scopedStats (nullish (dk_stats (pg_hook (ap_page app))) []) (gs_nodes (scope (ap_shell app)))
     (sl_stack (ap_shell app))"

definition app_stacks :: "collator \<Rightarrow> App \<Rightarrow> StackSummary list" where
  "app_stacks lc app = listStacks lc (gs_nodes (dk_graph (pg_hook (ap_page app))))"

section \<open>Steps\<close>

text \<open>Does a message set the graph? A snapshot with the last fingerprint does not.\<close>

definition new_graph :: "wire_message \<Rightarrow> DockGraphHook \<Rightarrow> bool" where
  "new_graph msg h = (case msg of
     SnapshotMsg v (Some snap) \<Rightarrow> v = PROTOCOL_VERSION
       \<and> snapshotFingerprint (gs_nodes snap) (gs_edges snap) \<noteq> dk_fingerprint h
   | DeltaMsg v (Some d) \<Rightarrow> v = PROTOCOL_VERSION
   | _ \<Rightarrow> False)"

definition sets_graph :: "Page \<Rightarrow> ws_event \<Rightarrow> bool" where
  "sets_graph p e = (case e of
     WsMessage k msg st \<Rightarrow> dk_ws (pg_hook p) = Some k \<and> new_graph msg (pg_hook p) | _ \<Rightarrow> False)"

datatype app_event =
  FromServer ws_event
| FromUser shell_event
| FromLayout nat "ElkNode option"
| FromCanvas "string list" "string list"
| SystemInfoArrived "string option"
| ThemeToggled

text \<open>
  \<open>FromCanvas\<close> is React Flow's report of the nodes and edges the reader deletes with the keyboard, which
  goes to the hook's \<open>onNodesChange\<close> and \<open>onEdgesChange\<close>.
\<close>

definition deletes :: "app_event \<Rightarrow> bool" where
  "deletes e \<longleftrightarrow> (case e of FromCanvas ns es \<Rightarrow> True | _ \<Rightarrow> False)"

text \<open>Events of the shell that are the application's own wiring, not a user's.\<close>

definition wiring :: "shell_event \<Rightarrow> bool" where
  "wiring e = (case e of GraphArrived g \<Rightarrow> True | LayoutSettled ns es \<Rightarrow> True | LayoutIdle b \<Rightarrow> True | _ \<Rightarrow> False)"

definition server_event :: "collator \<Rightarrow> text_measure \<Rightarrow> string \<Rightarrow> App \<Rightarrow> ws_event \<Rightarrow> App" where
  "server_event lc msr family app e =
     (let page = dock_step (ap_page app) e in
      if pg_reloads page \<noteq> pg_reloads (ap_page app)
      then mount lc msr family page (ap_store app) (sl_params (ap_shell app))
      else if sets_graph (ap_page app) e
      then rerender lc msr family (app\<lparr>ap_page := page,
             ap_shell := shell_step (ap_shell app) (GraphArrived (dk_graph (pg_hook page)))\<rparr>)
      else app\<lparr>ap_page := page\<rparr>)"

definition user_event :: "collator \<Rightarrow> text_measure \<Rightarrow> string \<Rightarrow> App \<Rightarrow> shell_event \<Rightarrow> App" where
  "user_event lc msr family app e =
     (let shell = shell_step (ap_shell app) e; app' = app\<lparr>ap_shell := shell\<rparr> in
      if wiring e then app
      else if sl_stack shell \<noteq> sl_stack (ap_shell app) \<or> effectiveGroupBy shell \<noteq> effectiveGroupBy (ap_shell app)
      then rerender lc msr family app' else app')"

definition app_step :: "collator \<Rightarrow> text_measure \<Rightarrow> string \<Rightarrow> App \<Rightarrow> app_event \<Rightarrow> App" where
  "app_step lc msr family app e =
     (case e of
        FromServer w \<Rightarrow> server_event lc msr family app w
      | FromUser u \<Rightarrow> user_event lc msr family app u
      | FromLayout k answer \<Rightarrow> canvas_result lc
          (app\<lparr>ap_layout := layout_step lc msr family (ap_layout app) (LayoutArrived k answer)\<rparr>)
      | FromCanvas ns es \<Rightarrow> canvas_result lc
          (app\<lparr>ap_layout := layout_step lc msr family (ap_layout app) (Removed ns es)\<rparr>)
      | SystemInfoArrived i \<Rightarrow>
          (if i = ap_local app then app else rerender lc msr family (app\<lparr>ap_local := i\<rparr>))
      | ThemeToggled \<Rightarrow> (let (mode, store) = toggle_theme (ap_mode app, ap_store app)
          in rerender lc msr family (app\<lparr>ap_mode := mode, ap_store := store\<rparr>)))"

section \<open>The wiring holds\<close>

text \<open>
  Between events each component has what the one before it has: the shell the connection's graph,
  the hook the shell's scope and the theme, the canvas the hook's nodes and edges.
\<close>

definition wired :: "App \<Rightarrow> bool" where
  "wired app \<longleftrightarrow> sl_graph (ap_shell app) = dk_graph (pg_hook (ap_page app)) \<and>
     sl_nodes (ap_shell app) = gl_nodes (ap_layout app) \<and> sl_edges (ap_shell app) = gl_edges (ap_layout app) \<and>
     gl_inputs (ap_layout app) = layout_inputs app"

lemma follow_sel [simp]:
  "sl_graph (follow_selection b st) = sl_graph st" "sl_stack (follow_selection b st) = sl_stack st"
  "sl_groupBy (follow_selection b st) = sl_groupBy st" "sl_nodes (follow_selection b st) = sl_nodes st"
  "sl_edges (follow_selection b st) = sl_edges st" "sl_params (follow_selection b st) = sl_params st"
  by (simp_all add: follow_selection_def)

lemma panel_canvas [simp]:
  "sl_nodes (open_panel i f st) = sl_nodes st" "sl_edges (open_panel i f st) = sl_edges st"
  "sl_nodes (navigate t st) = sl_nodes st" "sl_edges (navigate t st) = sl_edges st" "sl_graph (navigate t st) = sl_graph st"
  by (simp_all add: open_panel_def navigate_def handleNavigate_def handleInfoClick_def highlightOnCanvas_def Let_def)

lemma user_keeps:
  assumes "\<not> wiring e"
  shows "sl_graph (shell_step st e) = sl_graph st" "sl_nodes (shell_step st e) = sl_nodes st"
    "sl_edges (shell_step st e) = sl_edges st"
  using assms
  by (cases e; simp add: wiring_def shell_step_def shell_handler_def Let_def changeStack_def close_panel_def
      handleSelectStack_def handleStatusFilter_def handleResourceTab_def handleInspectRef_def openContainerInfo_def
      handleNodeClick_def handlePaneClick_def handleNodeMouseEnter_def handleNodeMouseLeave_def split: prod.split)+

lemma wiring_steps:
  "sl_graph (shell_step st (GraphArrived g)) = g" "sl_nodes (shell_step st (GraphArrived g)) = sl_nodes st"
  "sl_edges (shell_step st (GraphArrived g)) = sl_edges st" "sl_stack (shell_step st (GraphArrived g)) = sl_stack st"
  "sl_groupBy (shell_step st (GraphArrived g)) = sl_groupBy st"
  "sl_graph (shell_step st (LayoutSettled ns es)) = sl_graph st" "sl_nodes (shell_step st (LayoutSettled ns es)) = ns"
  "sl_edges (shell_step st (LayoutSettled ns es)) = es" "sl_stack (shell_step st (LayoutSettled ns es)) = sl_stack st"
  "sl_groupBy (shell_step st (LayoutSettled ns es)) = sl_groupBy st"
  "sl_graph (shell_step st (LayoutIdle b)) = sl_graph st" "sl_nodes (shell_step st (LayoutIdle b)) = sl_nodes st"
  "sl_edges (shell_step st (LayoutIdle b)) = sl_edges st" "sl_stack (shell_step st (LayoutIdle b)) = sl_stack st"
  "sl_groupBy (shell_step st (LayoutIdle b)) = sl_groupBy st"
  by (simp_all add: shell_step_def shell_handler_def fit_effect_def)

lemma scope_cong:
  assumes "sl_graph s = sl_graph t" "sl_stack s = sl_stack t"
  shows "scope s = scope t" "sl_groupBy s = sl_groupBy t \<Longrightarrow> effectiveGroupBy s = effectiveGroupBy t"
  using assms by (simp_all add: scope_def effectiveGroupBy_def hasSwarmNodes_def)

lemma wired_graph: "wired app \<Longrightarrow> sl_graph (ap_shell app) = dk_graph (pg_hook (ap_page app))"
  by (simp add: wired_def)

lemma inputs_of_result [simp]: "layout_inputs (canvas_result lc app) = layout_inputs app"
proof -
  let ?st = "ap_shell (canvas_result lc app)"
  have "sl_graph ?st = sl_graph (ap_shell app)" "sl_stack ?st = sl_stack (ap_shell app)"
    "sl_groupBy ?st = sl_groupBy (ap_shell app)"
    by (simp_all add: canvas_result_def Let_def wiring_steps)
  from scope_cong(1) [OF this(1,2)] scope_cong(2) [OF this] show ?thesis
    by (simp add: layout_inputs_def Let_def) (simp add: canvas_result_def Let_def)
qed

lemma result_sel [simp]:
  "ap_page (canvas_result lc app) = ap_page app" "ap_layout (canvas_result lc app) = ap_layout app"
  "sl_graph (ap_shell (canvas_result lc app)) = sl_graph (ap_shell app)"
  "sl_nodes (ap_shell (canvas_result lc app)) = gl_nodes (ap_layout app)"
  "sl_edges (ap_shell (canvas_result lc app)) = gl_edges (ap_layout app)"
  "sl_stack (ap_shell (canvas_result lc app)) = sl_stack (ap_shell app)"
  "sl_groupBy (ap_shell (canvas_result lc app)) = sl_groupBy (ap_shell app)"
  by (simp_all add: canvas_result_def Let_def wiring_steps)

lemma layout_of_update [simp]: "layout_inputs (app\<lparr>ap_layout := l\<rparr>) = layout_inputs app"
  by (simp add: layout_inputs_def)

lemma wired_rerender:
  "sl_graph (ap_shell app) = dk_graph (pg_hook (ap_page app)) \<Longrightarrow> wired (rerender lc msr family app)"
  by (simp add: wired_def rerender_def)

lemma wired_mount: "wired (mount lc msr family page store params)"
  unfolding mount_def by (rule wired_rerender) (simp add: mounting_def Let_def)

lemma graph_still:
  assumes "pg_reloads (dock_step p e) = pg_reloads p" "\<not> sets_graph p e"
  shows "dk_graph (pg_hook (dock_step p e)) = dk_graph (pg_hook p)"
proof (cases e)
  case (WsMessage k msg st)
  have gate: "dk_graph (pg_hook (gated v st f p)) = dk_graph (pg_hook p)"
    if "pg_reloads (gated v st f p) = pg_reloads p" "v = PROTOCOL_VERSION \<Longrightarrow> dk_graph (f (pg_hook p)) = dk_graph (pg_hook p)"
    for v f
    using that by (auto simp: gated_def reload_page_def load_page_def ws_connect_def protocolAction_def Let_def
        split: prod.splits protocol_action.splits if_splits)
  show ?thesis
    using assms WsMessage
    by (cases msg; auto simp: sets_graph_def new_graph_def reload_page_def load_page_def ws_connect_def
        applySnapshot_def Let_def intro!: gate split: option.splits if_splits)
qed (use assms in \<open>auto simp: onclose_def ws_connect_def Let_def split: option.splits\<close>)

lemma wired_step: "wired app \<Longrightarrow> wired (app_step lc msr family app e)"
proof (cases e)
  case (FromServer w)
  assume ok: "wired app"
  let ?page = "dock_step (ap_page app) w"
  consider "pg_reloads ?page \<noteq> pg_reloads (ap_page app)"
    | "pg_reloads ?page = pg_reloads (ap_page app)" "sets_graph (ap_page app) w"
    | "pg_reloads ?page = pg_reloads (ap_page app)" "\<not> sets_graph (ap_page app) w" by blast
  then show ?thesis
  proof cases
    case 1
    then show ?thesis using FromServer by (simp add: app_step_def server_event_def Let_def wired_mount)
  next
    case 2
    then show ?thesis
      using FromServer by (simp add: app_step_def server_event_def Let_def wired_rerender wiring_steps)
  next
    case 3
    have "layout_inputs (app\<lparr>ap_page := ?page\<rparr>) = layout_inputs app" by (simp add: layout_inputs_def)
    then show ?thesis
      using FromServer 3 ok graph_still [OF 3] by (simp add: app_step_def server_event_def Let_def wired_def)
  qed
next
  case (FromUser u)
  assume ok: "wired app"
  let ?shell = "shell_step (ap_shell app) u"
  show ?thesis
  proof (cases "wiring u")
    case True
    then show ?thesis using FromUser ok by (simp add: app_step_def user_event_def Let_def)
  next
    case False
    note keeps = user_keeps [OF False, of "ap_shell app"]
    show ?thesis
    proof (cases "sl_stack ?shell \<noteq> sl_stack (ap_shell app) \<or> effectiveGroupBy ?shell \<noteq> effectiveGroupBy (ap_shell app)")
      case True
      then show ?thesis
        using FromUser False wired_graph [OF ok] keeps(1) by (simp add: app_step_def user_event_def Let_def wired_rerender)
    next
      case same: False
      then have "layout_inputs (app\<lparr>ap_shell := ?shell\<rparr>) = layout_inputs app"
        using scope_cong(1) [OF keeps(1)] by (simp add: layout_inputs_def Let_def)
      then show ?thesis
        using FromUser False same ok keeps by (simp add: app_step_def user_event_def Let_def wired_def)
    qed
  qed
next
  case (FromLayout k a)
  assume ok: "wired app"
  then show ?thesis using FromLayout by (simp add: app_step_def wired_def inputs_arrived)
next
  case (FromCanvas ns es)
  assume ok: "wired app"
  then show ?thesis using FromCanvas by (simp add: app_step_def wired_def layout_step_def remove_elements_def)
next
  case (SystemInfoArrived i)
  assume ok: "wired app"
  then show ?thesis using SystemInfoArrived by (simp add: app_step_def wired_rerender wired_graph)
next
  case ThemeToggled
  assume ok: "wired app"
  then show ?thesis using ThemeToggled by (simp add: app_step_def wired_rerender wired_graph split: prod.split)
qed

section \<open>Only readable graphs are laid out\<close>

definition snapshot_fits :: "(string \<Rightarrow> node_type) \<Rightarrow> (string \<Rightarrow> edge_type \<times> string \<times> string) \<Rightarrow> GraphSnapshot \<Rightarrow> bool" where
  "snapshot_fits kind ends g \<longleftrightarrow> graph_fits kind ends (gs_nodes g) (gs_edges g)"

definition delta_fits :: "(string \<Rightarrow> node_type) \<Rightarrow> (string \<Rightarrow> edge_type \<times> string \<times> string) \<Rightarrow> DeltaUpdate \<Rightarrow> bool" where
  "delta_fits kind ends d \<longleftrightarrow> graph_fits kind ends (nullish (du_nodesAdded d) [] @ nullish (du_nodesUpdated d) [])
     (nullish (du_edgesAdded d) [])"

definition event_fits :: "(string \<Rightarrow> node_type) \<Rightarrow> (string \<Rightarrow> edge_type \<times> string \<times> string) \<Rightarrow> app_event \<Rightarrow> bool" where
  "event_fits kind ends e = (case e of
     FromServer (WsMessage k (SnapshotMsg v (Some g)) st) \<Rightarrow> snapshot_fits kind ends g
   | FromServer (WsMessage k (DeltaMsg v (Some d)) st) \<Rightarrow> delta_fits kind ends d
   | _ \<Rightarrow> True)"

lemma merge_fits: "node_fits kind n \<Longrightarrow> node_fits kind u \<Longrightarrow> node_fits kind (merge_node n u)"
  by (auto simp: node_fits_def merge_node_def override_def split: option.splits)

lemma updates_fit:
  "list_all (node_fits kind) ns \<Longrightarrow> list_all (node_fits kind) us \<Longrightarrow> list_all (node_fits kind) (foldl update_node ns us)"
proof (induction us arbitrary: ns)
  case (Cons u us)
  have "list_all (node_fits kind) ns \<Longrightarrow> node_fits kind u \<Longrightarrow> list_all (node_fits kind) (update_node ns u)" for ns
    by (induction ns) (auto intro: merge_fits)
  then show ?case using Cons by simp
qed simp

lemma list_all_filter: "list_all p xs \<Longrightarrow> list_all p (filter q xs)"
  by (induction xs) auto

lemma delta_keeps_fit:
  assumes "snapshot_fits kind ends g" "delta_fits kind ends d"
  shows "snapshot_fits kind ends (applyDelta g d)"
proof -
  let ?kept = "case du_nodesRemoved d of None \<Rightarrow> gs_nodes g | Some r \<Rightarrow> filter (\<lambda>n. dg_id n \<notin> set r) (gs_nodes g)"
  let ?grown = "case du_nodesAdded d of None \<Rightarrow> ?kept | Some added \<Rightarrow> ?kept @ added"
  have d: "du_nodesAdded d = Some ns \<Longrightarrow> list_all (node_fits kind) ns" "du_nodesUpdated d = Some us \<Longrightarrow> list_all (node_fits kind) us"
    "du_edgesAdded d = Some es \<Longrightarrow> list_all (edge_fits ends) es" for ns us es
    using assms(2) by (simp_all add: delta_fits_def graph_fits_def)
  have "list_all (node_fits kind) ?kept"
    using assms(1) by (simp add: snapshot_fits_def graph_fits_def list_all_filter split: option.split)
  then have "list_all (node_fits kind) ?grown" using d(1) by (simp split: option.split)
  then have "list_all (node_fits kind) (gs_nodes (applyDelta g d))"
    using updates_fit d(2) by (simp add: applyDelta_def Let_def split: option.split)
  moreover have "list_all (edge_fits ends) (gs_edges (applyDelta g d))"
    using assms(1) d(3) by (simp add: applyDelta_def Let_def snapshot_fits_def graph_fits_def list_all_filter
        split: option.split)
  ultimately show ?thesis by (simp add: snapshot_fits_def graph_fits_def)
qed

lemma page_keeps_fit:
  assumes "snapshot_fits kind ends (dk_graph (pg_hook p))" "event_fits kind ends (FromServer e)"
  shows "snapshot_fits kind ends (dk_graph (pg_hook (dock_step p e)))"
proof -
  let ?ok = "\<lambda>p. snapshot_fits kind ends (dk_graph (pg_hook p))"
  have empty: "?ok (load_page m s r)" for m s r
    by (simp add: load_page_def ws_connect_def hook_fresh_def snapshot_fits_def graph_fits_def)
  have gate: "?ok (gated v st f p)" if "snapshot_fits kind ends (dk_graph (f (pg_hook p)))" for v st f
    using that assms(1) empty by (auto simp: gated_def reload_page_def split: prod.split protocol_action.split)
  show ?thesis
  proof (cases e)
    case (WsMessage k msg st)
    have "?ok (onmessage_ws msg st p)"
      using assms WsMessage empty
      by (cases msg; auto simp: event_fits_def reload_page_def applySnapshot_def hook_delta_def Let_def delta_keeps_fit
          intro!: gate split: option.splits)
    then show ?thesis using WsMessage assms(1) by simp
  qed (use assms(1) in \<open>auto simp: onclose_def ws_connect_def Let_def split: option.splits\<close>)
qed

lemma scope_fits:
  assumes "snapshot_fits kind ends g"
  shows "snapshot_fits kind ends (filterGraphByStack g s)"
  using assms by (auto simp: filterGraphByStack_def Let_def snapshot_fits_def graph_fits_def list_all_filter)

text \<open>The layout's own invariant (\<open>fresh\<close> only where the data is to be current) and the wiring.\<close>

definition app_inv :: "bool \<Rightarrow> (string \<Rightarrow> node_type) \<Rightarrow> (string \<Rightarrow> edge_type \<times> string \<times> string) \<Rightarrow> collator \<Rightarrow> App \<Rightarrow> bool" where
  "app_inv data kind ends lc app \<longleftrightarrow> wired app \<and> snapshot_fits kind ends (dk_graph (pg_hook (ap_page app))) \<and>
     layout_inv (fit_inputs kind ends) lc (ap_layout app) \<and> (data \<longrightarrow> fresh lc (ap_layout app))"

definition app_relays :: "App \<Rightarrow> app_event \<Rightarrow> bool" where
  "app_relays app e = (case e of FromLayout k a \<Rightarrow> relays (ap_layout app) (LayoutArrived k a) | _ \<Rightarrow> False)"

definition app_ok :: "bool \<Rightarrow> (string \<Rightarrow> node_type) \<Rightarrow> (string \<Rightarrow> edge_type \<times> string \<times> string) \<Rightarrow> App \<Rightarrow> app_event \<Rightarrow> bool" where
  "app_ok data kind ends app e \<longleftrightarrow> event_fits kind ends e \<and> \<not> deletes e \<and> (data \<longrightarrow> \<not> app_relays app e)"

lemma inputs_fit:
  "snapshot_fits kind ends (sl_graph (ap_shell app)) \<Longrightarrow> layout_inputs app \<in> fit_inputs kind ends"
  using scope_fits by (simp add: layout_inputs_def fit_inputs_def snapshot_fits_def scope_def Let_def)

lemma rerender_layout:
  assumes "snapshot_fits kind ends (sl_graph (ap_shell app))" "layout_inv (fit_inputs kind ends) lc (ap_layout app)"
  shows "layout_inv (fit_inputs kind ends) lc (ap_layout (rerender lc msr family app))"
    and "fresh lc (ap_layout (rerender lc msr family app))"
proof -
  note i = inputs_fit [OF assms(1)]
  have "layout_inv (fit_inputs kind ends) lc (layout_step lc msr family (ap_layout app) (Render (layout_inputs app)))"
    by (rule layout_step_inv [OF assms(2)]) (simp add: rendered_in_def i)
  then show "layout_inv (fit_inputs kind ends) lc (ap_layout (rerender lc msr family app))" by (simp add: rerender_def)
  show "fresh lc (ap_layout (rerender lc msr family app))"
    using render_fresh [OF assms(2) i] by (simp add: rerender_def)
qed

lemma app_inv_rerender:
  assumes "sl_graph (ap_shell app) = dk_graph (pg_hook (ap_page app))" "snapshot_fits kind ends (dk_graph (pg_hook (ap_page app)))"
    and "layout_inv (fit_inputs kind ends) lc (ap_layout app)"
  shows "app_inv data kind ends lc (rerender lc msr family app)"
proof -
  have fits: "snapshot_fits kind ends (sl_graph (ap_shell app))" using assms(1,2) by simp
  have "ap_page (rerender lc msr family app) = ap_page app" by (simp add: rerender_def)
  then show ?thesis
    using rerender_layout [OF fits assms(3)] wired_rerender [OF assms(1)] assms(2) by (simp add: app_inv_def)
qed

lemma app_inv_mount:
  assumes "snapshot_fits kind ends (dk_graph (pg_hook page))"
  shows "app_inv data kind ends lc (mount lc msr family page store params)"
  unfolding mount_def
  by (rule app_inv_rerender) (use assms in \<open>simp_all add: mounting_def Let_def layout_inv_initial\<close>)

lemma result_inv:
  assumes "app_inv data kind ends lc app" "\<not> app_relays app (FromLayout k a) \<or> \<not> data"
  shows "app_inv data kind ends lc (app_step lc msr family app (FromLayout k a))"
proof -
  let ?l = "layout_step lc msr family (ap_layout app) (LayoutArrived k a)"
  have inv: "wired app" "snapshot_fits kind ends (sl_graph (ap_shell app))" "layout_inv (fit_inputs kind ends) lc (ap_layout app)"
    using assms(1) by (simp_all add: app_inv_def wired_def)
  have "layout_inv (fit_inputs kind ends) lc ?l"
    by (rule layout_step_inv [OF inv(3)]) (simp add: rendered_in_def)
  moreover have "fresh lc ?l" if data
  proof (rule arrived_fresh)
    show "canvas_inv kind ends lc (ap_layout app)"
      using inv inputs_fit [OF inv(2)] assms(1) that by (simp add: canvas_inv_def app_inv_def wired_def)
    show "\<not> relays (ap_layout app) (LayoutArrived k a)" using assms(2) that by (simp add: app_relays_def)
  qed
  moreover have "wired (app_step lc msr family app (FromLayout k a))" using wired_step [OF inv(1)] .
  ultimately show ?thesis using assms(1) by (simp add: app_inv_def app_step_def)
qed

lemma app_inv_step:
  assumes "app_inv data kind ends lc app" "app_ok data kind ends app e"
  shows "app_inv data kind ends lc (app_step lc msr family app e)"
proof -
  have inv: "wired app" "snapshot_fits kind ends (dk_graph (pg_hook (ap_page app)))"
      "layout_inv (fit_inputs kind ends) lc (ap_layout app)" "data \<longrightarrow> fresh lc (ap_layout app)"
    using assms(1) by (simp_all add: app_inv_def)
  note graph = wired_graph [OF inv(1)]
  show ?thesis
  proof (cases e)
    case (FromServer w)
    have fits: "snapshot_fits kind ends (dk_graph (pg_hook (dock_step (ap_page app) w)))"
      by (rule page_keeps_fit [OF inv(2)]) (use assms(2) FromServer in \<open>simp add: app_ok_def\<close>)
    have "app_inv data kind ends lc (server_event lc msr family app w)"
      using wired_step [OF inv(1), of lc msr family e] FromServer inv fits
      by (auto simp: server_event_def Let_def app_step_def app_inv_def [of _ _ _ _ "app\<lparr>ap_page := _\<rparr>"]
          wiring_steps intro!: app_inv_mount app_inv_rerender)
    then show ?thesis using FromServer by (simp add: app_step_def)
  next
    case (FromUser u)
    have "app_inv data kind ends lc (user_event lc msr family app u)"
      using wired_step [OF inv(1), of lc msr family e] FromUser assms(1) inv graph user_keeps(1) [of u "ap_shell app"]
      by (auto simp: user_event_def Let_def app_step_def app_inv_def [of _ _ _ _ "app\<lparr>ap_shell := _\<rparr>"]
          intro!: app_inv_rerender)
    then show ?thesis using FromUser by (simp add: app_step_def)
  next
    case (FromLayout k a)
    then show ?thesis using result_inv [OF assms(1)] assms(2) by (auto simp: app_ok_def)
  next
    case (FromCanvas ns es)
    then show ?thesis using assms(2) by (simp add: app_ok_def deletes_def)
  next
    case (SystemInfoArrived i)
    then show ?thesis using assms(1) inv graph by (auto simp: app_step_def intro!: app_inv_rerender)
  next
    case ThemeToggled
    then show ?thesis using inv graph by (auto simp: app_step_def split: prod.split intro!: app_inv_rerender)
  qed
qed

text \<open>
  The next graph message that is not a repeated snapshot makes the data current again, whatever
  layouts answered before it.
\<close>

lemma graph_message_heals:
  assumes "app_inv data kind ends lc app" "event_fits kind ends (FromServer w)" "sets_graph (ap_page app) w"
  shows "app_inv True kind ends lc (app_step lc msr family app (FromServer w))"
proof -
  have fits: "snapshot_fits kind ends (dk_graph (pg_hook (dock_step (ap_page app) w)))"
    by (rule page_keeps_fit [OF _ assms(2)]) (use assms(1) in \<open>simp add: app_inv_def\<close>)
  have "app_inv True kind ends lc (server_event lc msr family app w)"
    using assms(1,3) fits
    by (auto simp: server_event_def Let_def app_inv_def [of data] wiring_steps intro!: app_inv_mount app_inv_rerender)
  then show ?thesis by (simp add: app_step_def)
qed

interpretation app: machine "app_step lc msr family" "app_ok data kind ends" "app_inv data kind ends lc"
  by unfold_locales (rule app_inv_step)

section \<open>The settled screen\<close>






section \<open>From the server to the screen\<close>



lemma rerender_page [simp]: "ap_page (rerender lc msr family app) = ap_page app"
  by (simp add: rerender_def)

lemma mount_page [simp]: "ap_page (mount lc msr family page store params) = page"
  by (simp add: mount_def mounting_def Let_def)








section \<open>A session\<close>















end
