(* ===== verification/DashboardScreen.thy ===== *)
theory DashboardScreen
  imports Views Controls SwarmPanels FlowCanvas Theme
begin

text \<open>
  The dashboard as it is shown (\<^verbatim>\<open>components/dashboard\<close>): the cards with their rows, and the event of
  the shell that a click on a row is; the page that arranges them (\<^verbatim>\<open>Dashboard.tsx\<close>); and the life of
  a chart's plot (\<^verbatim>\<open>ResourceChart.tsx\<close>), an object of the uPlot library that must be destroyed. The
  figures themselves are in \<open>Dashboard\<close>, \<open>Views\<close> and \<open>SwarmPanels\<close>.
\<close>

section \<open>A card\<close>

text \<open>A card shows a spinner, a message, or its contents; \<open>node\<close> names the only node it is about.\<close>

datatype 'b card_body = CardLoading | CardMessage string | CardBody 'b

record 'b Card =
  cd_title :: string
  cd_node :: "string option"
  cd_badge :: "string option"
  cd_body :: "'b card_body"

definition dashboard_card :: "string \<Rightarrow> string option \<Rightarrow> string option \<Rightarrow> bool \<Rightarrow> string option \<Rightarrow> 'b \<Rightarrow> 'b Card" where
  "dashboard_card title badge node loading emptyMessage body =
     \<lparr>cd_title = title, cd_node = (if truthy node then node else None), cd_badge = badge,
      cd_body = (if loading then CardLoading
        else if truthy emptyMessage then CardMessage (the emptyMessage) else CardBody body)\<rparr>"

text \<open>A row with a bar: its label, dot, figure, the bar's width in percent and colour, and its click.\<close>

record BarRow =
  bw_label :: string
  bw_figure :: string
  bw_percent :: real
  bw_color :: string
  bw_click :: "shell_event option"

section \<open>Status summary\<close>

definition status_palette :: "bool \<Rightarrow> (string \<times> string \<times> string) list" where
  "status_palette swarm =
     (if swarm
      then [(''running'', ''Running'', ''#22c55e''), (''updating'', ''Updating'', ''#3b82f6''),
        (''degraded'', ''Degraded'', ''#f59e0b''), (''stopped'', ''Stopped'', ''#64748b''),
        (''completed'', ''Completed'', ''#14b8a6''), (''not_running'', ''Pending'', ''#8b5cf6'')]
      else [(''running'', ''Running'', ''#22c55e''), (''paused'', ''Paused'', ''#f59e0b''),
        (''exited'', ''Exited'', ''#ef4444''), (''not_running'', ''Pending'', ''#64748b'')])"

lemma status_palette_keys: "map fst (status_palette swarm) = (if swarm then SERVICE_STATUSES else CONTAINER_STATUSES)"
  by (simp add: status_palette_def SERVICE_STATUSES_def CONTAINER_STATUSES_def)

definition status_bar :: "StatusSummary \<Rightarrow> bool \<Rightarrow> string \<times> string \<times> string \<Rightarrow> BarRow" where
  "status_bar sy swarm entry = (case entry of (key, label, color) \<Rightarrow>
     let count = nullish (map_get (sy_counts sy) key) 0
     in \<lparr>bw_label = label, bw_figure = string_of_nat count,
         bw_percent = (if sy_total sy > 0 then real count / real (sy_total sy) * 100 else 0), bw_color = color,
         bw_click = Some (StatusDrill key (if swarm then TabServices else TabContainers))\<rparr>)"

definition status_totals :: "StatusSummary \<Rightarrow> bool \<Rightarrow> (string \<times> nat \<times> shell_event) list" where
  "status_totals sy swarm =
     (if swarm \<and> sy_containers sy > 0 then [(''Containers'', sy_containers sy, TabDrill TabContainers)] else [])
     @ [(''Networks'', sy_networks sy, TabDrill TabNetworks), (''Volumes'', sy_volumes sy, TabDrill TabVolumes)]"

definition status_card :: "DGNode list \<Rightarrow> bool \<Rightarrow> (BarRow list \<times> (string \<times> nat \<times> shell_event) list) Card" where
  "status_card nodes swarm =
     (let sy = status_summary nodes swarm
      in dashboard_card (if swarm then ''Services'' else ''Containers'') (Some (string_of_nat (sy_total sy))) None False None
           (map (status_bar sy swarm) (status_palette swarm), status_totals sy swarm))"

text \<open>
  When every workload has one of the listed statuses, the bars share out the whole width; the
  figure beside a total is the number of nodes its click opens a tab of.
\<close>

lemma status_bars_share:
  assumes "set (map (\<lambda>n. nullish (dg_status n) ''not_running'')
      (filter (\<lambda>n. dg_type n = (if swarm then Service else Container)) nodes)) \<subseteq> set (map fst (status_palette swarm))"
    and "0 < sy_total (status_summary nodes swarm)"
  shows "sum_list (map bw_percent (map (status_bar (status_summary nodes swarm) swarm) (status_palette swarm))) = 100"
proof -
  let ?sy = "status_summary nodes swarm"
  let ?n = "\<lambda>k. nullish (map_get (sy_counts ?sy) k) 0"
  have "distinct (map fst (status_palette swarm))" by (simp add: status_palette_def)
  then have sum: "sum_list (map ?n (map fst (status_palette swarm))) = sy_total ?sy"
    by (rule status_bars [OF assms(1)])
  have shares: "sum_list (map bw_percent (map (status_bar ?sy swarm) xs)) =
      real (sum_list (map ?n (map fst xs))) / real (sy_total ?sy) * 100" for xs
    using assms(2) by (induction xs) (auto simp: status_bar_def Let_def split_beta add_divide_distrib distrib_right)
  show ?thesis unfolding shares sum using assms(2) by simp
qed

lemma status_totals_count:
  "(label, k, TabDrill tab) \<in> set (status_totals (status_summary nodes swarm) swarm) \<Longrightarrow>
   k = length (filter (\<lambda>n. dg_type n = tab_type tab) nodes)"
  by (auto simp: status_totals_def status_summary_def Let_def split: if_splits)

section \<open>Top consumers\<close>

definition METRIC_COLORS :: "sort_key \<Rightarrow> string" where
  "METRIC_COLORS k = (case k of SortCpu \<Rightarrow> ''#64b5f6'' | SortMem \<Rightarrow> ''#c084fc'' | SortNet \<Rightarrow> ''#4ade80'' | SortDisk \<Rightarrow> ''#fb923c'')"

definition consumer_columns :: "(sort_key \<times> string \<times> (real \<Rightarrow> string)) list" where
  "consumer_columns = [(SortCpu, ''CPU'', formatPercent), (SortMem, ''Mem'', formatBytes),
     (SortNet, ''Net'', formatBytes), (SortDisk, ''Disk'', formatBytes)]"

text \<open>A column's header is marked when it is the sorting one; a row has a cell per column, with its colour.\<close>

definition consumer_header :: "sort_key \<Rightarrow> (string \<times> bool) list" where
  "consumer_header sortBy = map (\<lambda>(k, label, fmt). (label, k = sortBy)) consumer_columns"

record ConsumerView =
  cw_name :: string
  cw_cells :: "(string \<times> string) list"
  cw_percent :: real
  cw_color :: string
  cw_click :: shell_event

definition consumer_view :: "Theme \<Rightarrow> sort_key \<Rightarrow> ConsumerRow list \<Rightarrow> ConsumerRow \<Rightarrow> ConsumerView" where
  "consumer_view theme sortBy rows r =
     \<lparr>cw_name = cr_name r,
      cw_cells = map (\<lambda>(k, label, fmt). (fmt (metric k r), if k = sortBy then METRIC_COLORS k else th_nodeText theme))
        consumer_columns,
      cw_percent = consumer_bar rows sortBy r, cw_color = METRIC_COLORS sortBy,
      cw_click = InspectRef (''container:'' @ cr_name r)\<rparr>"

definition consumers_card :: "Theme \<Rightarrow> stats_map \<Rightarrow> sort_key \<Rightarrow> ((string \<times> bool) list \<times> ConsumerView list) Card" where
  "consumers_card theme statsMap sortBy =
     (let rows = top_consumers statsMap sortBy
      in dashboard_card ''Top Consumers'' None None False (if rows = [] then Some ''No stats available'' else None)
           (consumer_header sortBy, map (consumer_view theme sortBy rows) rows))"

section \<open>Projects, alerts, events\<close>

definition project_row :: "bool \<Rightarrow> StackSummary \<Rightarrow> BarRow" where
  "project_row selectable p =
     \<lparr>bw_label = (if ss_name p = STANDALONE_STACK then ''standalone'' else ss_name p),
      bw_figure = string_of_nat (ss_running p) @ ''/'' @ string_of_nat (ss_total p),
      bw_percent = project_percent p, bw_color = project_color p,
      bw_click = (if selectable then Some (StackDrill (ss_name p)) else None)\<rparr>"

definition projects_card :: "collator \<Rightarrow> DGNode list \<Rightarrow> bool \<Rightarrow> bool \<Rightarrow> BarRow list Card" where
  "projects_card lc nodes swarm selectable =
     (let projects = projects_by_size lc nodes
      in dashboard_card (if swarm then ''Stacks / Projects'' else ''Compose Projects'') None None False
           (if projects = [] then Some ''No containers'' else None) (map (project_row selectable) projects))"

definition severity_style :: "severity \<Rightarrow> string \<times> string" where
  "severity_style s = (case s of ErrorAlert \<Rightarrow> (''ERR'', ''#ef4444'') | WarningAlert \<Rightarrow> (''WRN'', ''#f59e0b'')
     | InfoAlert \<Rightarrow> (''INF'', ''#3b82f6''))"

record AlertRow =
  aw_label :: string
  aw_color :: string
  aw_container :: string
  aw_message :: string
  aw_click :: shell_event

definition alert_row :: "Alert \<Rightarrow> AlertRow" where
  "alert_row a = \<lparr>aw_label = fst (severity_style (al_severity a)), aw_color = snd (severity_style (al_severity a)),
     aw_container = al_container a, aw_message = al_message a, aw_click = InspectRef (al_nodeId a)\<rparr>"

definition alerts_card :: "DGNode list \<Rightarrow> stats_map \<Rightarrow> AlertRow list Card" where
  "alerts_card nodes statsMap =
     (let alerts = evaluateAlerts nodes (withoutNodeStats statsMap)
      in dashboard_card ''Alerts'' (map_option (\<lambda>(k, _). string_of_nat k) (alerts_badge nodes statsMap)) None False
           (if alerts = [] then Some ''No issues detected'' else None) (map alert_row alerts))"

record DockerEvent =
  dev_timestamp :: string
  dev_action :: string
  dev_type :: string
  dev_name :: string

definition ACTION_COLORS :: "(string, string) jsmap" where
  "ACTION_COLORS = [(''start'', ''#22c55e''), (''stop'', ''#ef4444''), (''create'', ''#3b82f6''),
     (''destroy'', ''#ef4444''), (''die'', ''#ef4444''), (''connect'', ''#8b5cf6''), (''disconnect'', ''#f59e0b''),
     (''kill'', ''#ef4444''), (''pause'', ''#f59e0b''), (''unpause'', ''#22c55e'')]"

record EventRow =
  ew_time :: string
  ew_action :: string
  ew_color :: string
  ew_name :: string
  ew_type :: string
  ew_click :: "shell_event option"

definition event_row :: "Theme \<Rightarrow> (string \<Rightarrow> string) \<Rightarrow> DGNode list \<Rightarrow> DockerEvent \<Rightarrow> EventRow" where
  "event_row theme formatTime nodes e =
     \<lparr>ew_time = formatTime (dev_timestamp e), ew_action = dev_action e,
      ew_color = nullish (map_get ACTION_COLORS (dev_action e)) (th_nodeSubtext theme),
      ew_name = dev_name e, ew_type = dev_type e,
      ew_click = map_option InspectRef (resolveNodeId nodes (dev_type e) (dev_name e))\<rparr>"

definition events_card :: "Theme \<Rightarrow> (string \<Rightarrow> string) \<Rightarrow> DGNode list \<Rightarrow> DockerEvent list option \<Rightarrow> EventRow list Card" where
  "events_card theme formatTime nodes data =
     (let events = nullish data []
      in dashboard_card ''Events'' None None False (if events = [] then Some ''No recent events'' else None)
           (map (event_row theme formatTime nodes) events))"

text \<open>
  An alert or an event can only be clicked to open the panel of a node of the graph, and it opens
  exactly that node.
\<close>

definition opens_node :: "DGNode list \<Rightarrow> shell_event \<Rightarrow> string \<Rightarrow> bool" where
  "opens_node nodes e i \<longleftrightarrow> e = InspectRef i \<and> i \<in> dg_id ` set nodes \<and> resolveNodeRef nodes i None = i"

lemma opens_live: "i \<in> dg_id ` set nodes \<Longrightarrow> opens_node nodes (InspectRef i) i"
  by (auto simp: opens_node_def resolveNodeRef_def)

lemma alert_click_opens:
  "cd_body (alerts_card nodes statsMap) = CardBody rows \<Longrightarrow> r \<in> set rows \<Longrightarrow>
   \<exists>n\<in>set nodes. dg_name n = aw_container r \<and> opens_node nodes (aw_click r) (dg_id n)"
proof -
  assume "cd_body (alerts_card nodes statsMap) = CardBody rows" "r \<in> set rows"
  then obtain a where a: "a \<in> set (evaluateAlerts nodes (withoutNodeStats statsMap))" "r = alert_row a"
    by (auto simp: alerts_card_def dashboard_card_def Let_def split: if_splits)
  from alerts_of_workloads [OF a(1)] obtain n where n: "n \<in> set nodes" "al_nodeId a = dg_id n"
      "a \<in> set (node_alerts (withoutNodeStats statsMap) n)" by auto
  then show ?thesis
    using a(2) alert_node [OF n(3)] opens_live [of "dg_id n" nodes] by (auto simp: alert_row_def)
qed

lemma event_click_opens:
  "ew_click (event_row theme fmt nodes e) = Some c \<Longrightarrow> \<exists>i. opens_node nodes c i"
  using resolved_live opens_live by (fastforce simp: event_row_def)

section \<open>The host\<close>

record SystemInfo =
  si_hostname :: "string option"
  si_dockerVersion :: string
  si_os :: string
  si_arch :: string
  si_kernel :: string
  si_storageDriver :: string
  si_cpus :: nat
  si_memTotal :: real
  si_mode :: "string option"

definition host_card :: "string option \<Rightarrow> SystemInfo option \<Rightarrow> (string \<times> string) list Card" where
  "host_card node data =
     (case data of
        None \<Rightarrow> dashboard_card ''Docker Host'' None node True None []
      | Some d \<Rightarrow> dashboard_card ''Docker Host'' None node False None
          [(''Docker'', si_dockerVersion d), (''OS'', si_os d), (''Arch'', si_arch d), (''Kernel'', si_kernel d),
           (''Storage'', si_storageDriver d), (''CPUs'', string_of_nat (si_cpus d)),
           (''Memory'', formatBytes (si_memTotal d))])"

section \<open>Charts\<close>

text \<open>
  A plot is an object of the library, here a number; it holds the browser's resources until it is
  destroyed. The chart's effect runs after a render that changed the data, the metric or the
  theme, its cleanup before it runs again and when the chart goes away; a resize reaches the plot
  that is alive.
\<close>

definition hasData :: "StatsHistory option \<Rightarrow> bool" where
  "hasData data = (case data of None \<Rightarrow> False | Some d \<Rightarrow> sh_timestamps d \<noteq> [] \<and> sh_containers d \<noteq> [])"

definition axis_text :: "chart_metric \<Rightarrow> real \<Rightarrow> string" where
  "axis_text m v = (if m = ChartCpu then formatPercent v else formatBytes v)"

definition CHART_HEIGHT :: nat where
  "CHART_HEIGHT = 160"

record Plot =
  po_id :: nat
  po_width :: nat
  po_metric :: chart_metric
  po_times :: "real list"
  po_series :: "ChartSeries list"

record Chart =
  ch_width :: nat
  ch_data :: "StatsHistory option"
  ch_plot :: "Plot option"
  ch_cleanup :: bool
  ch_made :: nat
  ch_destroyed :: "nat list"

datatype chart_event = ChartRender chart_metric "StatsHistory option" | ChartResized nat | ChartUnmount

definition destroy_plot :: "Chart \<Rightarrow> Chart" where
  "destroy_plot c = (case ch_plot c of None \<Rightarrow> c
     | Some p \<Rightarrow> c\<lparr>ch_plot := None, ch_destroyed := ch_destroyed c @ [po_id p]\<rparr>)"

definition chart_cleanup :: "Chart \<Rightarrow> Chart" where
  "chart_cleanup c = (if ch_cleanup c then (destroy_plot c)\<lparr>ch_cleanup := False\<rparr> else c)"

definition chart_effect :: "chart_metric \<Rightarrow> Chart \<Rightarrow> Chart" where
  "chart_effect m c =
     (case ch_data c of
        None \<Rightarrow> c
      | Some d \<Rightarrow>
          if \<not> hasData (Some d) then c
          else let c1 = destroy_plot c
               in c1\<lparr>ch_plot := Some \<lparr>po_id = ch_made c1, po_width = ch_width c1, po_metric = m,
                      po_times = sh_timestamps d, po_series = buildSeries m d\<rparr>,
                    ch_made := ch_made c1 + 1, ch_cleanup := True\<rparr>)"

definition chart_step :: "Chart \<Rightarrow> chart_event \<Rightarrow> Chart" where
  "chart_step c e =
     (case e of
        ChartRender m data \<Rightarrow> chart_effect m ((chart_cleanup c)\<lparr>ch_data := data\<rparr>)
      | ChartResized w \<Rightarrow> c\<lparr>ch_width := w, ch_plot := map_option (\<lambda>p. p\<lparr>po_width := w\<rparr>) (ch_plot c)\<rparr>
      | ChartUnmount \<Rightarrow> (chart_cleanup c)\<lparr>ch_data := None\<rparr>)"

definition chart_new :: "nat \<Rightarrow> Chart" where
  "chart_new w = \<lparr>ch_width = w, ch_data = None, ch_plot = None, ch_cleanup = False, ch_made = 0, ch_destroyed = []\<rparr>"

text \<open>
  Every plot ever made but the one on screen has been destroyed, once each; there is one on screen
  exactly when there is data; it has the chart's width and the data's times and series.
\<close>

definition chart_inv :: "Chart \<Rightarrow> bool" where
  "chart_inv c \<longleftrightarrow> ch_destroyed c @ map po_id (case ch_plot c of None \<Rightarrow> [] | Some p \<Rightarrow> [p]) = [0..<ch_made c] \<and>
     (ch_plot c \<noteq> None \<longleftrightarrow> hasData (ch_data c)) \<and> (ch_plot c \<noteq> None \<longleftrightarrow> ch_cleanup c) \<and>
     (\<forall>p. ch_plot c = Some p \<longrightarrow> po_width p = ch_width c \<and>
        po_times p = sh_timestamps (the (ch_data c)) \<and> po_series p = buildSeries (po_metric p) (the (ch_data c)))"

lemma cleaned:
  assumes "chart_inv c"
  shows "ch_plot (chart_cleanup c) = None" "\<not> ch_cleanup (chart_cleanup c)"
    "ch_destroyed (chart_cleanup c) = [0..<ch_made c]" "ch_made (chart_cleanup c) = ch_made c"
    "ch_width (chart_cleanup c) = ch_width c"
  using assms by (auto simp: chart_inv_def chart_cleanup_def destroy_plot_def split: option.splits)

interpretation chart: machine chart_step "\<lambda>_ _. True" chart_inv
proof
  fix c e
  assume inv: "chart_inv c"
  show "chart_inv (chart_step c e)"
  proof (cases e)
    case (ChartRender m data)
    then show ?thesis using cleaned [OF inv]
      by (auto simp: chart_step_def chart_effect_def chart_inv_def destroy_plot_def hasData_def Let_def split: option.splits)
  next
    case (ChartResized w)
    then show ?thesis using inv by (auto simp: chart_step_def chart_inv_def split: option.splits)
  next
    case ChartUnmount
    then show ?thesis using cleaned [OF inv] by (simp add: chart_step_def chart_inv_def hasData_def)
  qed
qed

text \<open>Whatever was drawn, a chart that has gone away has destroyed every plot it made.\<close>

lemma chart_leaks_nothing:
  "let c = run chart_step (chart_new w) (es @ [ChartUnmount])
   in ch_plot c = None \<and> mset (ch_destroyed c) = mset [0..<ch_made c]"
proof -
  have inv: "chart_inv (run chart_step (chart_new w) (es @ [ChartUnmount]))"
    by (rule chart.run_inv) (simp_all add: chart_new_def chart_inv_def hasData_def)
  have "ch_data (run chart_step (chart_new w) (es @ [ChartUnmount])) = None"
    by (simp add: run_append chart_step_def)
  then show ?thesis using inv by (auto simp: Let_def chart_inv_def hasData_def)
qed

text \<open>What the card shows: the plot, a spinner while there is no answer yet, or that there is nothing.\<close>

definition chart_placeholder :: "StatsHistory option \<Rightarrow> (bool \<times> string) option" where
  "chart_placeholder data = (if hasData data then None
     else Some (if data = None then (True, ''Waiting for data'') else (False, ''No data available'')))"

section \<open>The page\<close>

record DashboardView =
  dw_scopeToggle :: "(bool \<times> (string \<times> bool) list) option"
  dw_ranges :: "(string \<times> bool) list"
  dw_node :: "string option"
  dw_swarm :: bool
  dw_request :: "string option \<times> nat"
  dw_history :: "StatsHistory option"
  dw_charts :: "(string \<times> chart_metric) list"
  dw_nodesCard :: bool
  dw_columns :: "nat \<times> nat"

definition isSwarm :: "SystemInfo option \<Rightarrow> bool" where
  "isSwarm info = (case info of None \<Rightarrow> False | Some i \<Rightarrow> si_mode i = Some ''swarm'')"

definition effectiveScope :: "bool \<Rightarrow> string option \<Rightarrow> history_scope \<Rightarrow> history_scope" where
  "effectiveScope swarm stack chosen = (if swarm \<and> \<not> truthy stack then chosen else Workloads)"

definition dashboard_view :: "DGNode list \<Rightarrow> SystemInfo option \<Rightarrow> string option \<Rightarrow> history_scope \<Rightarrow> time_range \<Rightarrow>
    StatsHistory option \<Rightarrow> bool \<Rightarrow> DashboardView" where
  "dashboard_view nodes info stack chosen rng raw narrow =
     (let swarm = isSwarm info; eff = effectiveScope swarm stack chosen
      in \<lparr>dw_scopeToggle = (if swarm
            then Some (truthy stack, [(''Workload'', eff = Workloads), (''Node'', eff = Nodes)]) else None),
          dw_ranges = map (\<lambda>r. (r, r = range_name rng)) RANGES,
          dw_node = (if swarm then Option.bind info si_hostname else None),
          dw_swarm = showsSwarmWorkloads nodes swarm stack,
          dw_request = history_request swarm stack chosen rng,
          dw_history = (if eff = Nodes then raw else map_option (\<lambda>d. scopeHistory d nodes stack) raw),
          dw_charts = [(''CPU Usage'', ChartCpu), (''Memory Usage'', ChartMem), (''Network I/O'', ChartNet),
            (''Disk I/O'', ChartDisk)],
          dw_nodesCard = swarm, dw_columns = (if narrow then (1, 1) else (4, 2))\<rparr>)"

text \<open>
  The charts never mix the two scopes: what is asked of the server and how its answer is narrowed
  follow the same choice, the one the toggle shows; and exactly one option of each is marked.
\<close>

lemma dashboard_one_scope:
  assumes "v = dashboard_view nodes info stack chosen rng raw narrow"
  shows "dw_request v = history_request (isSwarm info) stack (effectiveScope (isSwarm info) stack chosen) rng"
    "dw_scopeToggle v = Some (disabled, options) \<Longrightarrow> length (filter snd options) = 1 \<and>
       (disabled \<longrightarrow> options = [(''Workload'', True), (''Node'', False)])"
    "length (filter snd (dw_ranges v)) = 1"
  using assms by (cases rng; cases "effectiveScope (isSwarm info) stack chosen";
      auto simp: dashboard_view_def history_request_def effectiveScope_def Let_def RANGES_def split: if_splits)+

end
