(* ===== verification/LogScreen.thy ===== *)
theory LogScreen
  imports LogStream Windowing Theme UseLogs FlowCanvas
begin

text \<open>
  What the log views show. \<open>stream_children\<close> are the children of the scroll box of
  \<^verbatim>\<open>components/logwindow/LogStream.tsx\<close>, in order: banners and rows, a row cut into the segments of
  \<open>LogStream\<close> with one hit active; \<open>bar_step\<close> is its search bar. \<open>log_window\<close> is a window of
  \<^verbatim>\<open>components/logwindow/LogWindow.tsx\<close>: its title, its tab bar and the stream of its active tab, with
  what a click on it does; \<open>panel_logs\<close> is the log section of the detail panel.
\<close>

section \<open>The stream\<close>

record StreamProps =
  sp_lines :: "LogLine list"
  sp_connected :: bool
  sp_loading :: bool
  sp_loadingMore :: bool
  sp_hasMore :: bool
  sp_hasNewer :: bool
  sp_loadingNewer :: bool
  sp_active :: bool
  sp_showSearch :: bool
  sp_search :: string
  sp_showContainer :: bool

text \<open>\<open><LogStream {...logs} active={active} />\<close>: the props a hook and its caller give.\<close>

definition stream_props :: "LogsHook \<Rightarrow> bool \<Rightarrow> string option \<Rightarrow> StreamProps" where
  "stream_props h active search =
     \<lparr>sp_lines = lh_lines h, sp_connected = lh_connected h, sp_loading = lh_loading h,
      sp_loadingMore = lh_loadingMore h, sp_hasMore = lh_hasMore h, sp_hasNewer = lh_hasNewer h,
      sp_loadingNewer = lh_loadingNewer h, sp_active = active, sp_showSearch = (search \<noteq> None),
      sp_search = nullish search [], sp_showContainer = False\<rparr>"

datatype banner = LoadingOlder | BeginningOfLogs | LoadingLogs | PanelClosed | NoOutputYet | StillConnecting
  | LoadingNewer | NewerAvailable

record Mark =
  mk_text :: string
  mk_hit :: bool
  mk_active :: bool

text \<open>A row: its menu button and container badge (in the aggregate view), its time, its text.\<close>

record LogRow =
  rw_id :: nat
  rw_menu :: bool
  rw_badge :: "(string \<times> string) option"
  rw_time :: "string option"
  rw_color :: string
  rw_marks :: "Mark list"

datatype stream_child = Banner banner | Row LogRow

definition mark_of :: "nat \<Rightarrow> Segment \<Rightarrow> Mark" where
  "mark_of current seg = \<lparr>mk_text = sg_text seg, mk_hit = (0 \<le> sg_matchIndex seg),
     mk_active = (0 \<le> sg_matchIndex seg \<and> sg_matchIndex seg = int current)\<rparr>"

text \<open>The colour of a badge does not depend on the cache, and \<open>formatTime\<close> formats in the reader's time zone.\<close>

definition log_row :: "Theme \<Rightarrow> (string, string) jsmap \<Rightarrow> (string \<Rightarrow> string) \<Rightarrow> StreamProps \<Rightarrow> nat \<Rightarrow>
    LogLine \<Rightarrow> Segment list \<Rightarrow> LogRow" where
  "log_row theme cache formatTime p current line segs =
     \<lparr>rw_id = ll_id line, rw_menu = sp_showContainer p,
      rw_badge = (if sp_showContainer p \<and> truthy (ll_container line)
        then Some (the (ll_container line), fst (networkColor cache (the (ll_container line)) None)) else None),
      rw_time = (if truthy (ll_timestamp line) then Some (formatTime (the (ll_timestamp line)) @ ''  '') else None),
      rw_color = (if ll_stream line = Stderr then th_danger theme else th_logText theme),
      rw_marks = map (mark_of current) segs\<rparr>"

definition top_banners :: "StreamProps \<Rightarrow> banner list" where
  "top_banners p =
     (if sp_loadingMore p then [LoadingOlder] else [])
     @ (if \<not> sp_loadingMore p \<and> \<not> sp_hasMore p \<and> sp_lines p \<noteq> [] then [BeginningOfLogs] else [])
     @ (if sp_loading p \<and> sp_lines p = [] then [LoadingLogs] else [])
     @ (if \<not> sp_loading p \<and> sp_lines p = []
        then [if \<not> sp_active p then PanelClosed else if sp_connected p then NoOutputYet else StillConnecting] else [])"

definition bottom_banners :: "StreamProps \<Rightarrow> banner list" where
  "bottom_banners p = (if sp_hasNewer p \<and> sp_lines p \<noteq> []
     then [if sp_loadingNewer p then LoadingNewer else NewerAvailable] else [])"

definition stream_rows :: "Theme \<Rightarrow> (string, string) jsmap \<Rightarrow> (string \<Rightarrow> string) \<Rightarrow> StreamProps \<Rightarrow> nat \<Rightarrow> LogRow list" where
  "stream_rows theme cache formatTime p activeMatch =
     (let (rendered, num) = buildSegments (sp_lines p) (sp_search p)
      in map2 (log_row theme cache formatTime p (effectiveActive activeMatch num)) (sp_lines p) rendered)"

definition stream_children :: "Theme \<Rightarrow> (string, string) jsmap \<Rightarrow> (string \<Rightarrow> string) \<Rightarrow> StreamProps \<Rightarrow> nat \<Rightarrow>
    stream_child list" where
  "stream_children theme cache formatTime p activeMatch =
     map Banner (top_banners p) @ map Row (stream_rows theme cache formatTime p activeMatch)
     @ map Banner (bottom_banners p)"

lemma map_map2_fst: "length xs = length ys \<Longrightarrow> (\<And>x y. f (g x y) = h x) \<Longrightarrow> map f (map2 g xs ys) = map h xs"
  by (induction xs ys rule: list_induct2) simp_all

lemma map_map2_snd: "length xs = length ys \<Longrightarrow> (\<And>x y. f (g x y) = h y) \<Longrightarrow> map f (map2 g xs ys) = map h ys"
  by (induction xs ys rule: list_induct2) simp_all

lemma length_rendered: "length (fst (buildSegments ls query)) = length ls"
proof -
  have "map (\<lambda>segs. concat (map sg_text segs)) (fst (buildSegments ls query)) = map ll_text ls"
    using segments_split_lines [of ls query] by (simp add: split_beta Let_def)
  then show ?thesis by (metis length_map)
qed

lemma stream_rows_alt:
  "stream_rows theme cache fmt p activeMatch =
     map2 (log_row theme cache fmt p (effectiveActive activeMatch (snd (buildSegments (sp_lines p) (sp_search p)))))
       (sp_lines p) (fst (buildSegments (sp_lines p) (sp_search p)))"
  by (simp add: stream_rows_def split_beta)

lemma filter_eq_upt: "k < n \<Longrightarrow> filter (\<lambda>i. i = k) [0..<n] = [k]"
  by (induction n) (auto simp: less_Suc_eq filter_empty_conv)

text \<open>Every line is a row, under its own id, in order, and its row shows its whole text.\<close>

lemma stream_rows_lines:
  "map rw_id (stream_rows theme cache fmt p activeMatch) = map ll_id (sp_lines p)"
  "map (\<lambda>r. concat (map mk_text (rw_marks r))) (stream_rows theme cache fmt p activeMatch) = map ll_text (sp_lines p)"
proof -
  note len = length_rendered [of "sp_lines p" "sp_search p", symmetric]
  show "map rw_id (stream_rows theme cache fmt p activeMatch) = map ll_id (sp_lines p)"
    unfolding stream_rows_alt by (rule map_map2_fst [OF len]) (simp add: log_row_def)
  have "map (\<lambda>r. concat (map mk_text (rw_marks r))) (stream_rows theme cache fmt p activeMatch) =
      map (\<lambda>segs. concat (map sg_text segs)) (fst (buildSegments (sp_lines p) (sp_search p)))"
    unfolding stream_rows_alt
    by (rule map_map2_snd [OF len]) (simp add: log_row_def mark_of_def comp_def)
  also have "\<dots> = map ll_text (sp_lines p)"
    using segments_split_lines [of "sp_lines p" "sp_search p"] by (simp add: split_beta Let_def)
  finally show "map (\<lambda>r. concat (map mk_text (rw_marks r))) (stream_rows theme cache fmt p activeMatch) =
    map ll_text (sp_lines p)" .
qed

text \<open>When there are matches, exactly one of the marks of all rows is active, and it is a match of the query.\<close>

lemma stream_marks:
  "concat (map rw_marks (stream_rows theme cache fmt p activeMatch)) =
     map (mark_of (effectiveActive activeMatch (snd (buildSegments (sp_lines p) (sp_search p)))))
       (concat (fst (buildSegments (sp_lines p) (sp_search p))))"
proof -
  let ?cur = "effectiveActive activeMatch (snd (buildSegments (sp_lines p) (sp_search p)))"
  have "map rw_marks (stream_rows theme cache fmt p activeMatch) =
      map (map (mark_of ?cur)) (fst (buildSegments (sp_lines p) (sp_search p)))"
    unfolding stream_rows_alt
    by (rule map_map2_snd [OF length_rendered [symmetric]]) (simp add: log_row_def)
  then show ?thesis by (simp add: map_concat)
qed

lemma active_marks:
  "filter mk_active (map (mark_of k) segs) = map (mark_of k) (filter (\<lambda>s. sg_matchIndex s = int k) (hits segs))"
  by (induction segs) (auto simp: hits_def mark_of_def)

lemma one_active_match:
  assumes "0 < snd (buildSegments (sp_lines p) (sp_search p))"
  shows "\<exists>m. filter mk_active (concat (map rw_marks (stream_rows theme cache fmt p activeMatch))) = [m] \<and>
    to_lower (mk_text m) = to_lower (sp_search p)"
proof -
  let ?b = "buildSegments (sp_lines p) (sp_search p)"
  let ?cur = "effectiveActive activeMatch (snd ?b)"
  have idx: "map sg_matchIndex (hits (concat (fst ?b))) = map int [0..<snd ?b]"
      "list_all (\<lambda>s. to_lower (sg_text s) = to_lower (sp_search p)) (hits (concat (fst ?b)))"
    using segments_split_lines [of "sp_lines p" "sp_search p"] by (simp_all add: split_beta Let_def)
  have cur: "?cur < snd ?b" using assms by (auto simp: effectiveActive_def min_def)
  have "filter (\<lambda>i. i = int ?cur) (map int [0..<snd ?b]) = [int ?cur]"
    using cur by (simp add: filter_map comp_def filter_eq_upt)
  then have "map sg_matchIndex (filter (\<lambda>s. sg_matchIndex s = int ?cur) (hits (concat (fst ?b)))) = [int ?cur]"
    unfolding idx(1) [symmetric] by (simp add: filter_map comp_def)
  then obtain s where s: "filter (\<lambda>s. sg_matchIndex s = int ?cur) (hits (concat (fst ?b))) = [s]"
    by (auto simp: map_eq_Cons_conv)
  then have "s \<in> set (hits (concat (fst ?b)))"
    by (metis filter_is_subset list.set_intros(1) subsetD)
  then have "to_lower (sg_text s) = to_lower (sp_search p)" using idx(2) by (simp add: list_all_iff)
  then show ?thesis
    unfolding stream_marks active_marks s by (simp add: mark_of_def)
qed

text \<open>
  The box of \<open>LogStream\<close> holds these children: a row carries its id, a banner none. Whatever the box
  measures, the row that keeps the reader's place is one of the lines.
\<close>

definition box_shows :: "stream_child list \<Rightarrow> ScrollBox \<Rightarrow> bool" where
  "box_shows children box \<longleftrightarrow> map bc_lineId (bx_children box) =
     map (\<lambda>c. case c of Banner _ \<Rightarrow> None | Row r \<Rightarrow> Some (string_of_nat (rw_id r))) children"

lemma anchor_is_line:
  assumes "box_shows (stream_children theme cache fmt p activeMatch) box"
    and "ls_anchor (captureAnchor (st\<lparr>ls_box := box\<rparr>)) = Some (i, offset)"
  shows "\<exists>l\<in>set (sp_lines p). i = string_of_nat (ll_id l)"
proof -
  obtain c where c: "firstVisibleRow box = Some c" "i = key_of (bc_lineId c)"
    using assms(2) by (auto simp: captureAnchor_def)
  then have "c \<in> set (bx_children box)" "truthy (bc_lineId c)"
    unfolding firstVisibleRow_def by (auto simp: find_Some_iff dest: in_set_dropD)
  then have "Some i \<in> set (map bc_lineId (bx_children box))"
    using c(2) by (cases "bc_lineId c") (auto simp: key_of_def intro: rev_image_eqI)
  then obtain r where "r \<in> set (stream_rows theme cache fmt p activeMatch)" "i = string_of_nat (rw_id r)"
    unfolding assms(1) [unfolded box_shows_def] stream_children_def by auto
  moreover from this(1) have "rw_id r \<in> set (map ll_id (sp_lines p))"
    unfolding stream_rows_lines(1) [of theme cache fmt p activeMatch, symmetric] by simp
  ultimately show ?thesis by auto
qed

text \<open>An empty view says one thing about why; a view with lines never does.\<close>

lemma empty_view_reason:
  "sp_lines p = [] \<Longrightarrow> \<exists>b. filter (\<lambda>b. b \<noteq> LoadingOlder) (top_banners p) = [b] \<and> b \<noteq> BeginningOfLogs"
  "sp_lines p \<noteq> [] \<Longrightarrow> set (top_banners p) \<inter> {LoadingLogs, PanelClosed, NoOutputYet, StillConnecting} = {}"
  by (auto simp: top_banners_def)

section \<open>The search bar\<close>

text \<open>
  What the bar shows: its text, and with a query the place of the active match and the buttons,
  enabled when there is a match.
\<close>

definition search_bar :: "StreamProps \<Rightarrow> nat \<Rightarrow> (string \<times> (string \<times> bool) option) option" where
  "search_bar p activeMatch =
     (if \<not> sp_showSearch p then None
      else let num = snd (buildSegments (sp_lines p) (sp_search p))
           in Some (sp_search p,
                if sp_search p = [] then None
                else Some (if num = 0 then ''0/0''
                           else string_of_nat (effectiveActive activeMatch num + 1) @ ''/'' @ string_of_nat num, num \<noteq> 0)))"

text \<open>The bar's events; typing sets the query of the caller, and lines may arrive in between.\<close>

datatype bar_event = Typed string | EnterKey bool | MatchButton int | LinesChange "LogLine list"

definition bar_step :: "StreamProps \<times> nat \<Rightarrow> bar_event \<Rightarrow> StreamProps \<times> nat" where
  "bar_step st e = (case st of (p, m) \<Rightarrow>
     let num = snd (buildSegments (sp_lines p) (sp_search p)) in
     case e of
       Typed q \<Rightarrow> if sp_showSearch p then (p\<lparr>sp_search := q\<rparr>, 0) else st
     | EnterKey back \<Rightarrow> if sp_showSearch p then (p, match_step (if back then -1 else 1) num m) else st
     | MatchButton delta \<Rightarrow>
         if sp_showSearch p \<and> sp_search p \<noteq> [] \<and> num \<noteq> 0 then (p, match_step delta num m) else st
     | LinesChange ls \<Rightarrow> (p\<lparr>sp_lines := ls\<rparr>, m))"

text \<open>Typing a query and pressing Enter \<open>k\<close> times activates the matches in turn, round and round.\<close>

lemma enter_cycles:
  assumes "sp_showSearch p" "num = snd (buildSegments (sp_lines p) q)" "0 < num"
  shows "run bar_step (p, m) (Typed q # replicate k (EnterKey False)) = (p\<lparr>sp_search := q\<rparr>, k mod num)"
proof -
  have "run bar_step (p\<lparr>sp_search := q\<rparr>, j mod num) (replicate k (EnterKey False)) = (p\<lparr>sp_search := q\<rparr>, (j + k) mod num)" for j
  proof (induction k arbitrary: j)
    case (Suc k)
    have "match_step 1 num (j mod num) = Suc j mod num"
      using match_step_cycles [of "j mod num" num] assms(3) by (auto simp: mod_Suc)
    then have "bar_step (p\<lparr>sp_search := q\<rparr>, j mod num) (EnterKey False) = (p\<lparr>sp_search := q\<rparr>, Suc j mod num)"
      using assms(1,2) by (simp add: bar_step_def)
    then show ?case using Suc [of "Suc j"] by simp
  qed simp
  from this [of 0] show ?thesis using assms(1,3) by (simp add: bar_step_def)
qed

text \<open>Going back undoes going forward, wherever it starts.\<close>

lemma back_undoes_forward:
  assumes "sp_showSearch p" "m < snd (buildSegments (sp_lines p) (sp_search p))"
  shows "run bar_step (p, m) [EnterKey False, EnterKey True] = (p, m)"
proof -
  let ?num = "snd (buildSegments (sp_lines p) (sp_search p))"
  have "match_step 1 ?num m < ?num" "match_step (-1) ?num (match_step 1 ?num m) = m"
    using match_step_cycles [OF assms(2)] match_step_cycles [of "match_step 1 ?num m" ?num] assms(2)
    by (auto split: if_splits)
  then show ?thesis using assms(1) by (simp add: bar_step_def)
qed

section \<open>The windows\<close>

record TabView =
  tv_key :: string
  tv_title :: string
  tv_active :: bool

record WindowView =
  wv_title :: string
  wv_border :: string
  wv_tabs :: "TabView list"
  wv_stream :: string
  wv_search :: string

text \<open>
  A window; the tab bar only exists with several tabs. Without an active tab rendering throws, here
  \<open>None\<close>, and the error boundary replaces the view.
\<close>

definition log_window :: "Theme \<Rightarrow> bool \<Rightarrow> LogWindowState \<Rightarrow> WindowView option" where
  "log_window theme flashed w =
     map_option (\<lambda>tab.
       \<lparr>wv_title = lt_title tab, wv_border = (if flashed then th_dropIndicator theme else th_windowBorder theme),
        wv_tabs = (if 1 < length (lw_tabs w)
          then map (\<lambda>(i, t). \<lparr>tv_key = lt_containerId t, tv_title = lt_title t, tv_active = (int i = lw_activeTab w)\<rparr>)
            (enumerate 0 (lw_tabs w)) else []),
        wv_stream = lt_containerId tab, wv_search = lt_search tab\<rparr>)
     (js_index (lw_tabs w) (lw_activeTab w))"

text \<open>What a click or typing in it does: an action on the windows, or the panel of its container.\<close>

datatype window_click = TitleClick | MinimizeClick | CloseClick | TabCloseClick nat | SearchTyped string

definition window_click :: "LogWindowState \<Rightarrow> window_click \<Rightarrow> win_action + shell_event" where
  "window_click w c =
     (case c of
        TitleClick \<Rightarrow> Inr (LogTitle (lt_containerId (lw_tabs w ! nat (lw_activeTab w))))
      | MinimizeClick \<Rightarrow> Inl (Minimize (lw_id w))
      | CloseClick \<Rightarrow> Inl (Close (lw_id w))
      | TabCloseClick i \<Rightarrow> Inl (CloseTab (lw_id w) (int i))
      | SearchTyped q \<Rightarrow> Inl (SetSearch (lw_id w) (lw_activeTab w) q))"

text \<open>The layer: the windows that are not minimised, with their stacking; the others are in the dock.\<close>

definition window_layer :: "Theme \<Rightarrow> LogWindowsHook \<Rightarrow> (nat \<times> WindowView option) list \<times> (string \<times> string \<times> nat option) list" where
  "window_layer theme h =
     (map (\<lambda>w. (lw_z w, log_window theme (hk_flashId h = Some (lw_id w)) w))
        (filter (\<lambda>w. \<not> lw_minimized w) (ws_windows (hk_state h))),
      dock_items (filter lw_minimized (ws_windows (hk_state h))))"

text \<open>
  Whatever was done with the windows, each renders; no two of those on screen stream the same
  container or lie at the same depth; and a window with a tab bar marks exactly one tab, the one it streams.
\<close>

lemma window_active_tab:
  assumes "wf_windows s" "w \<in> set (ws_windows s)"
  shows "js_index (lw_tabs w) (lw_activeTab w) = Some (lw_tabs w ! nat (lw_activeTab w))"
    "nat (lw_activeTab w) < length (lw_tabs w)" "0 \<le> lw_activeTab w"
  using assms by (auto simp: wf_windows_def wf_window_def js_index_def)

lemma one_active_tab:
  assumes "wf_windows s" "w \<in> set (ws_windows s)" "log_window theme flashed w = Some v" "wv_tabs v \<noteq> []"
  shows "map tv_key (filter tv_active (wv_tabs v)) = [wv_stream v]"
proof -
  note tab = window_active_tab [OF assms(1,2)]
  let ?k = "nat (lw_activeTab w)"
  have "filter (\<lambda>p. int (fst p) = lw_activeTab w) (enumerate 0 (lw_tabs w)) = [(?k, lw_tabs w ! ?k)]"
  proof -
    have eq: "enumerate 0 (lw_tabs w) = map (\<lambda>i. (i, lw_tabs w ! i)) [0..<length (lw_tabs w)]"
      by (rule nth_equalityI) (simp_all add: enumerate_eq_zip)
    have "filter (\<lambda>i. int i = lw_activeTab w) [0..<length (lw_tabs w)] = filter (\<lambda>i. i = ?k) [0..<length (lw_tabs w)]"
      using tab(3) by (intro filter_cong) auto
    then show ?thesis unfolding eq by (simp add: filter_map comp_def filter_eq_upt [OF tab(2)])
  qed
  then show ?thesis
    using assms(3,4) unfolding log_window_def tab(1)
    by (auto simp: filter_map comp_def split_beta split: if_splits)
qed

lemma distinct_picks:
  "distinct (concat (map f ws)) \<Longrightarrow> (\<And>w. w \<in> set ws \<Longrightarrow> P w \<Longrightarrow> c w \<in> set (f w)) \<Longrightarrow> distinct (map c (filter P ws))"
proof (induction ws)
  case (Cons w ws)
  have all: "distinct (concat (map f ws))" "set (f w) \<inter> set (concat (map f ws)) = {}"
    using Cons.prems(1) by simp_all
  have "c ` set (filter P ws) \<subseteq> set (concat (map f ws))" using Cons.prems(2) by force
  moreover have "P w \<Longrightarrow> c w \<in> set (f w)" using Cons.prems(2) by simp
  ultimately have "P w \<Longrightarrow> c w \<notin> c ` set (filter P ws)" using all(2) by blast
  moreover have "distinct (map c (filter P ws))"
    by (rule Cons.IH [OF all(1)]) (use Cons.prems(2) in simp)
  ultimately show ?case by simp
qed simp

lemma visible_streams:
  assumes "wf_windows (hk_state h)"
  shows "list_all (\<lambda>(z, v). v \<noteq> None) (fst (window_layer theme h))"
    "distinct (map fst (fst (window_layer theme h)))"
    "distinct (map (\<lambda>(z, v). wv_stream (the v)) (fst (window_layer theme h)))"
proof -
  let ?ws = "filter (\<lambda>w. \<not> lw_minimized w) (ws_windows (hk_state h))"
  let ?c = "\<lambda>w. lt_containerId (lw_tabs w ! nat (lw_activeTab w))"
  have tab: "js_index (lw_tabs w) (lw_activeTab w) = Some (lw_tabs w ! nat (lw_activeTab w))"
    "nat (lw_activeTab w) < length (lw_tabs w)" if "w \<in> set ?ws" for w
    using window_active_tab [OF assms, of w] that by simp_all
  show "list_all (\<lambda>(z, v). v \<noteq> None) (fst (window_layer theme h))"
    unfolding window_layer_def log_window_def list_all_iff using tab(1) by fastforce
  show "distinct (map fst (fst (window_layer theme h)))"
    using assms by (simp add: window_layer_def comp_def wf_windows_def distinct_map_filter)
  have all: "distinct (concat (map (\<lambda>w. map lt_containerId (lw_tabs w)) (ws_windows (hk_state h))))"
    using assms by (simp add: wf_windows_def all_tabs_def map_concat comp_def)
  have "distinct (map ?c ?ws)"
    by (rule distinct_picks [OF all]) (use tab in auto)
  moreover have "map (\<lambda>(z, v). wv_stream (the v)) (fst (window_layer theme h)) = map ?c ?ws"
    unfolding window_layer_def log_window_def using tab(1) by simp
  ultimately show "distinct (map (\<lambda>(z, v). wv_stream (the v)) (fst (window_layer theme h)))" by simp
qed

lemma nth_map_at: "i < length xs \<Longrightarrow> map_at k f xs ! i = (if int i = k then f (xs ! i) else xs ! i)"
  by (simp add: map_at_def enumerate_eq_zip)

lemma js_index_map_at: "js_index (map_at k f xs) k = map_option f (js_index xs k)"
  by (auto simp: js_index_def nth_map_at nat_less_iff)

text \<open>What is typed in a window's search bar is the query of the tab on screen, and of no other window.\<close>

lemma search_typed:
  assumes "wf_windows (hk_state h)" "w \<in> set (ws_windows (hk_state h))" "window_click w (SearchTyped q) = Inl a"
    and "w' \<in> set (ws_windows (hk_state (hook_step h a)))" "log_window theme flashed w' = Some v"
  shows "if lw_id w' = lw_id w then wv_search v = q
    else w' \<in> set (ws_windows (hk_state h))"
proof -
  have "hk_state (hook_step h a) = setSearch (hk_state h) (lw_id w) (lw_activeTab w) q"
    using assms(3) by (auto simp: window_click_def)
  then obtain u where u: "u \<in> set (ws_windows (hk_state h))"
      "w' = (if lw_id u = lw_id w then u\<lparr>lw_tabs := map_at (lw_activeTab w) (\<lambda>t. t\<lparr>lt_search := q\<rparr>) (lw_tabs u)\<rparr> else u)"
    using assms(4) by (auto simp: setSearch_def on_window_def)
  show ?thesis
  proof (cases "lw_id u = lw_id w")
    case True
    then have "u = w" using u(1) assms(1,2) by (auto simp: wf_windows_def distinct_map dest: inj_onD)
    then show ?thesis using u(2) window_active_tab [OF assms(1,2)] assms(5)
      by (auto simp: log_window_def js_index_map_at)
  next
    case False
    then show ?thesis using u by simp
  qed
qed

section \<open>The panel's logs\<close>

text \<open>
  The log section of the detail panel: the connection's dot, the button that opens the logs in a
  window, and the stream, without a search bar.
\<close>

record PanelLogs =
  pl_dot :: string
  pl_popOut :: bool
  pl_stream :: StreamProps

definition panel_logs :: "Theme \<Rightarrow> bool \<Rightarrow> bool \<Rightarrow> LogsHook \<Rightarrow> PanelLogs" where
  "panel_logs theme popOut active h =
     \<lparr>pl_dot = (if lh_connected h then th_success theme else th_danger theme), pl_popOut = popOut,
      pl_stream = stream_props h active None\<rparr>"

lemma panel_has_no_search: "search_bar (pl_stream (panel_logs theme popOut active h)) m = None"
  by (simp add: panel_logs_def stream_props_def search_bar_def)

end
