(* ===== verification/Screens.thy ===== *)
theory Screens
  imports DashboardScreen LogScreen LogsView App
begin

text \<open>
  What is on screen around the canvas. The header of \<^verbatim>\<open>components/FlowCanvas.tsx\<close> (view tabs, grouping
  switch, search field, connection badge), the view below it, chosen by the tab: the graph with its
  minimap and overlays, the tables of \<^verbatim>\<open>components/table\<close>, the dashboard or the logs; and the group boxes
  of \<^verbatim>\<open>components/NetworkGroup.tsx\<close>. The lemmas check that a control shown as active is the state, that a
  click on another one makes it active, and that the figures beside tabs and groups are the rows shown.
\<close>

section \<open>The header\<close>

text \<open>A control of a segmented switch: its label, whether it is active, and the event of its click.\<close>

type_synonym control = "string \<times> bool \<times> shell_event option"

definition segment_of :: "bool \<Rightarrow> 'k \<Rightarrow> ('k \<Rightarrow> shell_event) \<Rightarrow> 'k \<times> string \<Rightarrow> control" where
  "segment_of disabled current click o1 =
     (snd o1, fst o1 = current, map_option click (option_click disabled current (fst o1)))"

definition view_tabs :: "view_key \<Rightarrow> control list" where
  "view_tabs current = map (segment_of False current ViewTab)
     [(GraphView, ''Graph''), (TableTabs, ''Table''), (DashboardView, ''Dashboard''), (LogsView, ''Logs'')]"

definition group_toggle :: "Shell \<Rightarrow> control list option" where
  "group_toggle st = (if sl_view st = GraphView \<and> hasSwarmNodes st
     then Some (map (segment_of False (sl_groupBy st) GroupToggle) [(ByNetwork, ''Network''), (ByNode, ''Node'')]) else None)"

definition status_badge :: "Theme \<Rightarrow> bool \<Rightarrow> string \<times> string \<times> string \<times> bool" where
  "status_badge theme online =
     (if online then (''LIVE'', ''Backend connected'', th_success theme, True)
      else (''OFFLINE'', ''Backend disconnected'', th_danger theme, False))"

record SearchField =
  sfv_text :: string
  sfv_border :: string
  sfv_hint :: bool
  sfv_count :: "string option"
  sfv_chips :: bool

definition search_field :: "Theme \<Rightarrow> SearchFilter \<Rightarrow> DGNode list \<Rightarrow> bool \<Rightarrow> SearchField" where
  "search_field theme st ns focused =
     \<lparr>sfv_text = sf_query st, sfv_border = (if focused then th_accent theme else th_panelBorder theme),
      sfv_hint = show_hint st focused, sfv_count = search_count st ns, sfv_chips = chips_visible st focused\<rparr>"

text \<open>One tab is active, the view's; a click on another leads to its view, and only there.\<close>

lemma view_tabs_one: "map fst (filter (\<lambda>c. fst (snd c)) (view_tabs v)) =
    [case v of GraphView \<Rightarrow> ''Graph'' | TableTabs \<Rightarrow> ''Table'' | DashboardView \<Rightarrow> ''Dashboard'' | LogsView \<Rightarrow> ''Logs'']"
  by (cases v) (simp_all add: view_tabs_def segment_of_def)

lemma segment_clicked:
  "(label, active, Some e) \<in> set (map (segment_of False current click) os) \<Longrightarrow>
   \<not> active \<and> (\<exists>k. (k, label) \<in> set os \<and> k \<noteq> current \<and> e = click k)"
  by (auto simp: segment_of_def option_click_def split: if_splits)

lemma view_tab_click:
  assumes "(label, active, Some e) \<in> set (view_tabs (sl_view st))"
  shows "\<not> active" "(label, True, None) \<in> set (view_tabs (sl_view (shell_step st e)))"
proof -
  obtain k where k: "(k, label) \<in> set [(GraphView, ''Graph''), (TableTabs, ''Table''), (DashboardView, ''Dashboard''), (LogsView, ''Logs'')]"
      "e = ViewTab k" "\<not> active"
    using segment_clicked [OF assms [unfolded view_tabs_def]] by blast
  then have "sl_view (shell_step st e) = k" by (simp add: shell_step_def shell_handler_def follow_selection_def)
  moreover have "(label, True, None) = segment_of False k ViewTab (k, label)" by (simp add: segment_of_def option_click_def)
  ultimately show "(label, True, None) \<in> set (view_tabs (sl_view (shell_step st e)))"
    using k(1) unfolding view_tabs_def set_map by (metis image_eqI)
  show "\<not> active" by (rule k(3))
qed

text \<open>
  The switch is shown where it has an effect: a click on its other option changes the grouping the
  canvas is drawn in, and the address bar says so.
\<close>

lemma group_toggle_click:
  assumes "group_toggle st = Some cs" "(label, active, Some e) \<in> set cs"
  shows "effectiveGroupBy (shell_step st e) \<noteq> effectiveGroupBy st" "url_ok st \<Longrightarrow> url_ok (shell_step st e)"
proof -
  obtain m where e: "e = GroupToggle m" "m \<noteq> sl_groupBy st"
    using assms segment_clicked [of label active e "sl_groupBy st" GroupToggle "[(ByNetwork, ''Network''), (ByNode, ''Node'')]"]
    by (auto simp: group_toggle_def simp del: list.map split: if_splits)
  have "sl_groupBy (shell_step st e) = m" "scope (shell_step st e) = scope st"
    by (simp_all add: e shell_step_def shell_handler_def follow_selection_def setGroupBy_def scope_def Let_def split_beta)
  then show "effectiveGroupBy (shell_step st e) \<noteq> effectiveGroupBy st"
    using assms(1) e(2) by (auto simp: effectiveGroupBy_def hasSwarmNodes_def group_toggle_def split: if_splits)
  assume "url_ok st"
  then show "url_ok (shell_step st e)" by (rule url_step)
qed

section \<open>The graph view\<close>

text \<open>The colour of a node on the minimap.\<close>

definition minimap_color :: "Theme \<Rightarrow> (string, string) jsmap \<Rightarrow> RFNode \<Rightarrow> string" where
  "minimap_color theme cache n =
     (let dark = (th_mode theme = DarkMode) in
      if rf_type n = ''networkGroup'' then
        (case rf_data n of PlainData d \<Rightarrow> fst (networkColor cache (dg_name d) (projectOf d)) @ ''40'' | _ \<Rightarrow> th_nodeBorder theme)
      else if rf_type n = ''volumeNode'' then ''#f9731640''
      else if rf_type n = ''roleGroup'' then
        (case rf_data n of RoleData d \<Rightarrow> swarmRoleColor (rg_role d) dark @ ''30'' | _ \<Rightarrow> th_nodeBorder theme)
      else if rf_type n = ''nodeGroup'' then
        (case rf_data n of BoxData d \<Rightarrow> (case ng_role d of Some r \<Rightarrow> swarmRoleColor r dark @ ''60''
           | None \<Rightarrow> th_nodeGhostBorder theme @ ''60'') | _ \<Rightarrow> th_nodeBorder theme)
      else if rf_type n = ''nodeServiceCard'' then
        (case rf_data n of CardData d \<Rightarrow> stackColor (nc_stack d) | _ \<Rightarrow> th_nodeBorder theme)
      else th_nodeBorder theme)"

text \<open>
  The canvas: a large graph has its edges on the layer behind, culled nodes, and neither dots nor
  a minimap; the overlay messages are those of \<open>FlowCanvas\<close>.
\<close>

record CanvasView =
  vw_overlays :: "overlay list"
  vw_canvasLayer :: bool
  vw_culled :: bool
  vw_background :: bool
  vw_minimap :: "string list option"

definition canvas_view :: "Theme \<Rightarrow> (string, string) jsmap \<Rightarrow> bool \<Rightarrow> bool \<Rightarrow> bool \<Rightarrow> Shell \<Rightarrow> CanvasView" where
  "canvas_view theme cache ready busy failed st =
     \<lparr>vw_overlays = overlays ready busy failed st, vw_canvasLayer = largeGraph st, vw_culled = largeGraph st,
      vw_background = (\<not> largeGraph st),
      vw_minimap = (if largeGraph st then None else Some (map (minimap_color theme cache) (sl_nodes st)))\<rparr>"

text \<open>A group box of the network view: border, background, text and dot, and its inspect button.\<close>

record NetworkGroupView =
  nv_border :: string
  nv_background :: string
  nv_text :: string
  nv_dot :: string
  nv_name :: string
  nv_inspect :: shell_event

definition network_group :: "Theme \<Rightarrow> (string, string) jsmap \<Rightarrow> DGNode \<Rightarrow> NetworkGroupView" where
  "network_group theme cache n =
     (let color = fst (networkColor cache (dg_name n) (projectOf n))
      in \<lparr>nv_border = color @ th_groupBorderAlpha theme, nv_background = color @ th_groupBgAlpha theme,
          nv_text = color @ th_groupTextAlpha theme, nv_dot = color, nv_name = dg_name n,
          nv_inspect = OpenInfo (dg_id n) None\<rparr>)"

section \<open>The tables\<close>

text \<open>
  A group of a table: its heading (unless the table is not grouped) with its label, the number of
  its nodes, whether it is folded, and its dot; then, unless folded, the column headings and the rows.
\<close>

record 'r GroupView =
  grv_key :: string
  grv_heading :: "(string \<times> nat \<times> bool \<times> string option) option"
  grv_columns :: "(string \<times> bool option) list"
  grv_rows :: "'r list"

definition group_view :: "collator \<Rightarrow> TableSort \<Rightarrow> TableGrouping \<Rightarrow> (string \<times> string) list \<Rightarrow>
    (TableGroup \<Rightarrow> string option) \<Rightarrow> (DGNode \<Rightarrow> string \<Rightarrow> cell option) \<Rightarrow> (DGNode \<Rightarrow> 'r) \<Rightarrow> TableGroup \<Rightarrow> 'r GroupView" where
  "group_view lc s g columns groupColor keyFn renderRow gr =
     (let folded = isCollapsed g (tg_key gr)
      in \<lparr>grv_key = tg_key gr,
          grv_heading = (if tu_groupBy g = GroupNone then None
            else Some (tg_label gr, length (tg_items gr), folded, groupColor gr)),
          grv_columns = (if folded then [] else header_cells columns s),
          grv_rows = (if folded then [] else map renderRow (sortItems lc s (tg_items gr) keyFn))\<rparr>)"

definition grouped_table :: "collator \<Rightarrow> TableSort \<Rightarrow> TableGrouping \<Rightarrow> (string \<times> string) list \<Rightarrow> string \<Rightarrow>
    (TableGroup \<Rightarrow> string option) \<Rightarrow> (DGNode \<Rightarrow> string \<Rightarrow> cell option) \<Rightarrow> (DGNode \<Rightarrow> 'r) \<Rightarrow> DGNode list \<Rightarrow>
    'r GroupView list \<times> string option" where
  "grouped_table lc s g columns emptyMessage groupColor keyFn renderRow nodes =
     (map (group_view lc s g columns groupColor keyFn renderRow) (groupNodes nodes (tu_groupBy g)),
      if nodes = [] then Some emptyMessage else None)"

definition container_columns :: "(string \<times> string) list" where
  "container_columns = [(''name'', ''Name''), (''image'', ''Image''), (''status'', ''Status''), (''ports'', ''Ports''),
     (''network'', ''Network'')]"

definition network_columns :: "(string \<times> string) list" where
  "network_columns = [(''name'', ''Name''), (''driver'', ''Driver''), (''subnet'', ''Subnet''), (''gateway'', ''Gateway''),
     (''containers'', ''Containers'')]"

definition volume_columns :: "(string \<times> string) list" where
  "volume_columns = [(''name'', ''Name''), (''driver'', ''Driver''), (''mountpoint'', ''Mounted At''),
     (''containers'', ''Containers'')]"

text \<open>A row with whether it is the selected one, and the event of its click.\<close>

datatype table_row = ContainerRowView ContainerRow | NetworkRowView "string option list" | VolumeRowView "string option list"

type_synonym row_view = "table_row \<times> bool \<times> shell_event"

definition row_with :: "string option \<Rightarrow> (DGNode \<Rightarrow> table_row) \<Rightarrow> DGNode \<Rightarrow> row_view" where
  "row_with selected cells n = (cells n, Some (dg_id n) = selected, OpenInfo (dg_id n) None)"

text \<open>The dot of a network's group among the containers.\<close>

definition container_group_color :: "(string, string) jsmap \<Rightarrow> TableGroup \<Rightarrow> string option" where
  "container_group_color cache gr =
     (if starts_with ''network:'' (tg_key gr) then Some (fst (networkColor cache (tg_label gr) None)) else None)"

definition table_shown :: "collator \<Rightarrow> (string, string) jsmap \<Rightarrow> TableSort \<Rightarrow> TableGrouping \<Rightarrow> stats_map \<Rightarrow>
    DGNode list \<Rightarrow> DGEdge list \<Rightarrow> string list option \<Rightarrow> string option \<Rightarrow> resource_tab \<Rightarrow> row_view GroupView list \<times> string option" where
  "table_shown lc cache s g statsMap nodes edges matching selected tab =
     (let rows = tab_nodes nodes matching tab;
          containers = (\<lambda>msg. grouped_table lc s g container_columns msg (container_group_color cache) container_cells
            (row_with selected (\<lambda>n. ContainerRowView (container_row (map_get statsMap (dg_name n)) n))) rows)
      in case tab of
           TabContainers \<Rightarrow> containers ''No containers found''
         | TabServices \<Rightarrow> containers ''No services found''
         | TabNetworks \<Rightarrow>
             (let counts = network_counts nodes edges
              in grouped_table lc s g network_columns ''No networks found'' (\<lambda>_. None) (network_cells counts)
                (row_with selected (\<lambda>n. NetworkRowView (network_row (nullish (map_get counts (dg_id n)) 0) n))) rows)
         | TabVolumes \<Rightarrow>
             (let counted = volume_counts edges
              in grouped_table lc s g volume_columns ''No volumes found'' (\<lambda>_. None) (volume_cells counted)
                (row_with selected (\<lambda>n. VolumeRowView (volume_row (nullish (map_get (snd counted) (dg_id n)) [])
                   (nullish (map_get (fst counted) (dg_id n)) 0) n))) rows))"

definition tab_label :: "resource_tab \<Rightarrow> string" where
  "tab_label t = (case t of TabContainers \<Rightarrow> ''Containers'' | TabServices \<Rightarrow> ''Services'' | TabNetworks \<Rightarrow> ''Networks''
     | TabVolumes \<Rightarrow> ''Volumes'')"

text \<open>The subtabs: label, number of rows, active or not, and what a click does.\<close>

definition table_tabs :: "DGNode list \<Rightarrow> string list option \<Rightarrow> resource_tab \<Rightarrow> (string \<times> nat \<times> bool \<times> shell_event) list" where
  "table_tabs nodes matching active =
     map (\<lambda>t. (tab_label t, length (tab_nodes nodes matching t), t = active, TableTab t)) (visibleTabs nodes active)"

text \<open>
  What the headings say holds: a group's count is the number of its rows when unfolded, the counts of
  all groups add up to the number beside the active tab, and unfolded groups show each node once.
\<close>

lemma group_view_rows:
  "grv_rows (group_view lc s g columns color keyFn render gr) = map render (group_rows lc s g keyFn gr)"
  by (simp add: group_view_def group_rows_def Let_def)

lemma group_view_counts:
  assumes "grv_heading (group_view lc s g columns color keyFn render gr) = Some (label, k, folded, dot)"
  shows "length (grv_rows (group_view lc s g columns color keyFn render gr)) = (if folded then 0 else k)"
proof -
  have "k = length (tg_items gr)" "folded = isCollapsed g (tg_key gr)"
    using assms by (auto simp: group_view_def Let_def split: if_splits)
  then show ?thesis
    using mset_eq_length [OF mset_sortItems, of lc s "tg_items gr" keyFn] by (simp add: group_view_rows group_rows_def)
qed

lemma grouped_rows:
  "concat (map grv_rows (fst (grouped_table lc s g columns msg color keyFn render nodes))) =
     map render (table_rows lc s g keyFn nodes)"
  by (simp add: grouped_table_def group_view_rows table_rows_def map_concat comp_def)

lemma table_shows_tab:
  assumes "(label, k, True, e) \<in> set (table_tabs nodes matching tab)" "tu_collapsed g = []"
  shows "length (concat (map grv_rows (fst (table_shown lc cache s g statsMap nodes edges matching selected tab)))) = k"
    "(snd (table_shown lc cache s g statsMap nodes edges matching selected tab) \<noteq> None) = (k = 0)"
proof -
  have k: "length (tab_nodes nodes matching tab) = k" using assms(1) by (auto simp: table_tabs_def)
  have all: "length (table_rows lc s g keyFn ns) = length ns" for keyFn ns
    using mset_eq_length [OF table_rows_shown [of lc s g keyFn ns]] assms(2) by (simp add: isCollapsed_def)
  have rows: "length (concat (map grv_rows (fst (grouped_table lc s g columns msg color keyFn render ns)))) = length ns"
    for columns msg color keyFn and render :: "DGNode \<Rightarrow> row_view" and ns
    unfolding grouped_rows by (simp add: all)
  show "length (concat (map grv_rows (fst (table_shown lc cache s g statsMap nodes edges matching selected tab)))) = k"
    using k by (cases tab) (simp_all only: table_shown_def Let_def rows resource_tab.case)
  show "(snd (table_shown lc cache s g statsMap nodes edges matching selected tab) \<noteq> None) = (k = 0)"
    using k by (cases tab) (auto simp: table_shown_def grouped_table_def Let_def)
qed

text \<open>
  A flaw: the dot of a network's group is coloured from the network's full name, the rows below it
  and the graph from the name without its project's prefix, so that they disagree.
\<close>

lemma group_dot_disagrees:
  assumes "color_cache cache" "color_cache cache'"
  shows "container_group_color cache \<lparr>tg_key = ''network:app_web'', tg_label = ''app_web'', tg_items = []\<rparr> = Some ''#22c55e''"
    "row_network_color cache' ((bare_node ''container:api'' Container ''api'')\<lparr>dg_networkId := Some ''network:app_web'',
      dg_stack := Some ''app''\<rparr>) = Some ''#ef4444''"
proof -
  have pure: "fst (networkColor c x p) = palette_color (stripStackPrefix x p)" if "color_cache c" for c x p
    using colors.look_pure [OF that, of "(x, p)"] by (simp add: network_query_def)
  have "palette_color ''app_web'' = ''#22c55e''" "palette_color ''web'' = ''#ef4444''" 
    by (simp_all add: palette_color_def hashString_def hash_char_def PALETTE_def)
  moreover have "stripStackPrefix ''app_web'' (Some ''app'') = ''web''" "stripStackPrefix ''app_web'' None = ''app_web''"
    by (simp_all add: stripStackPrefix_def starts_with_def)
  ultimately show "container_group_color cache \<lparr>tg_key = ''network:app_web'', tg_label = ''app_web'', tg_items = []\<rparr> = Some ''#22c55e''"
    "row_network_color cache' ((bare_node ''container:api'' Container ''api'')\<lparr>dg_networkId := Some ''network:app_web'',
      dg_stack := Some ''app''\<rparr>) = Some ''#ef4444''"
    by (simp_all add: container_group_color_def row_network_color_def formatNetwork_def strip_network_def starts_with_def
        projectOf_def or_else_def pure assms)
qed

section \<open>The logs view\<close>

text \<open>
  The toolbar of the logs view: the filter field, the chips with their removal, the counts of lines shown
  and in scope, and the pause button; then the log, with a badge and a menu per row.
\<close>

record LogsToolbarView =
  lt_placeholder :: string
  lt_regex :: bool
  lt_chips :: "string list"
  lt_clear :: bool
  lt_counts :: string
  lt_paused :: bool

definition logs_toolbar :: "CommonLogs \<Rightarrow> LogLine list \<Rightarrow> LogLine list \<Rightarrow> LogsToolbarView" where
  "logs_toolbar st kept scoped =
     \<lparr>lt_placeholder = (if lf_regex (cl_filters st) then ''Filter logs (regex)'' else ''Filter logs''),
      lt_regex = lf_regex (cl_filters st), lt_chips = map snd (activeChips (cl_filters st)),
      lt_clear = (activeChips (cl_filters st) \<noteq> []),
      lt_counts = string_of_nat (length kept) @ '' / '' @ string_of_nat (length scoped), lt_paused = cl_paused st\<rparr>"

definition common_stream :: "LogsHook \<Rightarrow> CommonLogs \<Rightarrow> bool \<Rightarrow> LogLine list \<Rightarrow> StreamProps" where
  "common_stream h st active kept = (stream_props h active None)
     \<lparr>sp_lines := kept, sp_showSearch := cl_findOpen st, sp_search := cl_findText st, sp_showContainer := True\<rparr>"

definition logs_page :: "(string \<Rightarrow> regex option) \<Rightarrow> regex_cache \<Rightarrow> string option \<Rightarrow> string list option \<Rightarrow> bool \<Rightarrow>
    LogsHook \<Rightarrow> CommonLogs \<Rightarrow> LogsToolbarView \<times> StreamProps" where
  "logs_page compile cache stack names active h st =
     (let scoped = scopedLines stack names st (lh_lines h);
          kept = fst (shown_lines compile cache (cl_filters st) scoped)
      in (logs_toolbar st kept scoped, common_stream h st active kept))"

text \<open>The badge of a row opens its container's panel.\<close>

definition badge_click :: "LogRow \<Rightarrow> shell_event option" where
  "badge_click r = map_option (\<lambda>(c, _). LogTitle c) (rw_badge r)"

lemma badge_opens_container:
  "r \<in> set (stream_rows theme cache fmt (snd (logs_page compile rc stack names active h st)) m) \<Longrightarrow>
   badge_click r = Some e \<Longrightarrow> \<exists>l\<in>set (fst (shown_lines compile rc (cl_filters st) (scopedLines stack names st (lh_lines h)))).
     ll_id l = rw_id r \<and> e = LogTitle (the (ll_container l))"
  by (auto simp: stream_rows_alt logs_page_def common_stream_def Let_def badge_click_def log_row_def
      dest: set_zip_leftD split: if_splits)

section \<open>The view below the header\<close>

text \<open>
  The logs are keyed by the scope: another scope, or leaving the view, discards their state. An empty
  name and no scope have one key.
\<close>

definition logs_key_of :: "Shell \<Rightarrow> string option" where
  "logs_key_of st = (if sl_view st = LogsView then Some (nullish (sl_stack st) []) else None)"

definition logs_after :: "Shell \<Rightarrow> Shell \<Rightarrow> CommonLogs \<Rightarrow> CommonLogs" where
  "logs_after before st logs = (if logs_key_of st = logs_key_of before then logs else logs_view_initial)"

text \<open>The state of the views that \<open>FlowCanvas\<close> does not share: the table's sorting and grouping, the dashboard's choices and data.\<close>

record ViewLocals =
  vl_sort :: TableSort
  vl_grouping :: TableGrouping
  vl_info :: "SystemInfo option"
  vl_scope :: history_scope
  vl_range :: time_range
  vl_history :: "StatsHistory option"
  vl_narrow :: bool

datatype page_view =
  GraphPage CanvasView
| TablePage "(string \<times> nat \<times> bool \<times> shell_event) list" "row_view GroupView list \<times> string option"
| DashboardPage DashboardView
| LogsPage string "string option" "string list"

definition page_view :: "collator \<Rightarrow> (string, string) jsmap \<Rightarrow> ViewLocals \<Rightarrow> App \<Rightarrow> page_view" where
  "page_view lc cache vl app =
     (let st = ap_shell app; g = scope st; matching = matchingNodeIds (sl_search st) (gs_nodes g)
      in case sl_view st of
           TableTabs \<Rightarrow> TablePage (table_tabs (gs_nodes g) matching (sl_tab st))
             (table_shown lc cache (vl_sort vl) (vl_grouping vl) (app_stats app) (gs_nodes g) (gs_edges g) matching
               (dp_detailNodeId (sl_detail st)) (sl_tab st))
         | DashboardView \<Rightarrow> DashboardPage (dashboard_view (gs_nodes g) (vl_info vl) (sl_stack st) (vl_scope vl)
             (vl_range vl) (vl_history vl) (vl_narrow vl))
         | LogsView \<Rightarrow> LogsPage (nullish (sl_stack st) []) (sl_stack st) (scopeNames st)
         | GraphView \<Rightarrow> GraphPage (canvas_view (themeOf (ap_mode app)) cache (dk_ready (pg_hook (ap_page app)))
             (layoutBusy lc (ap_layout app)) (layoutError lc (ap_layout app)) st))"

text \<open>
  A click on a figure of the status card leads to the page that shows it: the table on its tab, whose
  badge and rows are that figure.
\<close>

lemma status_total_page:
  assumes "(label, k, e) \<in> set (status_totals (status_summary (gs_nodes (scope (ap_shell app))) swarm) swarm)"
    and "tu_collapsed (vl_grouping vl) = []"
  shows "\<exists>tabs groups msg name click. page_view lc cache vl (app\<lparr>ap_shell := shell_step (ap_shell app) e\<rparr>) = TablePage tabs (groups, msg) \<and>
    (name, k, True, click) \<in> set tabs \<and> length (concat (map grv_rows groups)) = k"
proof -
  let ?st = "ap_shell app" and ?ns = "gs_nodes (scope (ap_shell app))"
  obtain tab where e: "e = TabDrill tab" using assms(1) by (auto simp: status_totals_def split: if_splits)
  have k: "k = length (tab_nodes ?ns None tab)"
    using status_totals_count assms(1) unfolding e by (simp add: tab_nodes_def)
  define st' where "st' = shell_step ?st e"
  have st': "sl_view st' = TableTabs" "sl_tab st' = tab" "scope st' = scope ?st" "matchingNodeIds (sl_search st') ?ns = None"
    by (simp_all add: st'_def e shell_step_def shell_handler_def handleResourceTab_def close_panel_def closeDetail_def detail_closed_def
        follow_selection_def tabForSelection_def scope_def Let_def matchingNodeIds_def hasActiveFilter_def search_step_def)
  have tab: "(tab_label tab, k, True, TableTab tab) \<in> set (table_tabs ?ns None tab)"
    using selection_tab_visible [of tab ?ns] by (force simp: table_tabs_def k)
  let ?app = "app\<lparr>ap_shell := st'\<rparr>"
  let ?shown = "table_shown lc cache (vl_sort vl) (vl_grouping vl) (app_stats ?app) ?ns (gs_edges (scope ?st)) None
    (dp_detailNodeId (sl_detail st')) tab"
  have "page_view lc cache vl ?app = TablePage (table_tabs ?ns None tab) (fst ?shown, snd ?shown)"
    by (simp add: page_view_def st' Let_def)
  moreover have "length (concat (map grv_rows (fst ?shown))) = k"
    by (rule table_shows_tab(1) [OF tab assms(2)])
  ultimately show ?thesis unfolding st'_def using tab by blast
qed

end
