(* ===== verification/ShownParts.thy ===== *)
theory ShownParts
  imports NodeCards StackSelector Views Theme
begin

text \<open>
  Parts of the screen in full: the box of a swarm node with its header, bars and messages
  (\<^verbatim>\<open>components/SwarmNodeGroup.tsx\<close>, over \<open>NodeCards\<close>), the dropdown of stacks
  (\<^verbatim>\<open>components/StackSelector.tsx\<close>, over \<open>StackSelector\<close>) and the grouping menu of a table
  (\<^verbatim>\<open>components/table/TableToolbar.tsx\<close>, over \<open>Views\<close>). The lemmas show that no bar overflows, that
  a box with a coloured border is dimmed, and that a list marks exactly the option its button names.
\<close>

section \<open>The box of a node\<close>

text \<open>A bar: caption, filled percentage, colour, text and tooltip.\<close>

record UsageBar =
  ub_label :: string
  ub_percent :: real
  ub_color :: string
  ub_text :: string
  ub_title :: string

text \<open>Below the header: a note, two bars, or that no agent reports, with the capacities that are known.\<close>

datatype box_usage = TasksWaiting | UsageBars UsageBar UsageBar | NoAgent "string list"

definition mini_bar :: "string \<Rightarrow> real option \<Rightarrow> string \<Rightarrow> string \<Rightarrow> string \<Rightarrow> UsageBar" where
  "mini_bar label percent color txt title =
     \<lparr>ub_label = label, ub_percent = nullish percent 0, ub_color = color, ub_text = txt, ub_title = title\<rparr>"

definition box_usage_view :: "Theme \<Rightarrow> ContainerStatsData option \<Rightarrow> SwarmNodeGroupData \<Rightarrow> box_usage" where
  "box_usage_view theme stats d =
     (let info = dg_swarmNode (ng_dgNode d); usage = nodeUsage info stats;
          cores = (case nu_cores usage of None \<Rightarrow> [] | Some c \<Rightarrow> if c = 0 then [] else [formatCores c]);
          memory = (case info of None \<Rightarrow> [] | Some i \<Rightarrow>
            (case capacity (sn_memoryBytes i) of None \<Rightarrow> [] | Some m \<Rightarrow> [formatBytesShort (real m)]));
          of_capacity = (\<lambda>c. concat (map (\<lambda>t. '' of '' @ t) c))
      in if ng_unassigned d then TasksWaiting
         else case stats of
             None \<Rightarrow> NoAgent (cores @ memory)
           | Some s \<Rightarrow> UsageBars
               (mini_bar ''CPU'' (nu_cpuPercent usage) (cpuColor (nullish (nu_cpuPercent usage) 0) 0)
                 (to_fixed 0 (nullish (nu_cpuPercent usage) (cs_cpuPercent s)) @ ''%'')
                 (''CPU: '' @ to_fixed 1 (cs_cpuPercent s) @ ''%'' @ of_capacity cores))
               (mini_bar ''MEM'' (nu_memPercent usage) (th_info theme) (formatBytesShort (cs_memUsage s))
                 (''Memory: '' @ formatBytesShort (cs_memUsage s) @ of_capacity memory)))"

text \<open>The box: what \<open>BoxView\<close> holds, its border (dashed or not, with its colour), stripe, tooltip and texts.\<close>

record NodeBoxShown =
  nb_view :: BoxView
  nb_dashed :: bool
  nb_border :: string
  nb_background :: string
  nb_stripe :: "string option"
  nb_dotTitle :: string
  nb_italic :: bool
  nb_tasks :: string
  nb_usage :: box_usage

definition box_down :: "SwarmNodeGroupData \<Rightarrow> bool" where
  "box_down d \<longleftrightarrow> \<not> ng_unassigned d \<and> node_state (ng_dgNode d) \<noteq> Some ''ready''"

definition node_box :: "Theme \<Rightarrow> ContainerStatsData option \<Rightarrow> SwarmNodeGroupData \<Rightarrow> NodeBoxShown" where
  "node_box theme stats d =
     (let dark = (th_mode theme = DarkMode); v = box_view dark (th_danger theme) (th_warning theme) stats d
      in \<lparr>nb_view = v, nb_dashed = ng_unassigned d,
          nb_border = (if box_down d then bv_dotColor v else th_nodeGhostBorder theme),
          nb_background = th_panelBg theme @ (if dark then ''cc'' else ''e6''),
          nb_stripe = map_option (\<lambda>r. swarmRoleColor r dark) (ng_role d),
          nb_dotTitle = (if ng_unassigned d then ''Not placed on a node''
            else ''State: '' @ nullish (node_state (ng_dgNode d)) ''unknown''),
          nb_italic = ng_unassigned d,
          nb_tasks = formatCount (ng_taskCount d) ''task'',
          nb_usage = box_usage_view theme stats d\<rparr>)"

text \<open>No bar is wider than its track or negative, whatever an agent reports.\<close>

lemma usage_percent:
  "nu_cpuPercent (nodeUsage info stats) = Some p \<Longrightarrow> 0 \<le> p \<and> p \<le> 100"
  "nu_memPercent (nodeUsage info stats) = Some p \<Longrightarrow> 0 \<le> p \<and> p \<le> 100"
  by (auto simp: nodeUsage_def clampPercent_def Let_def split: option.splits)

lemma usage_bars_fit:
  assumes "nb_usage (node_box theme stats d) = UsageBars c m"
  shows "0 \<le> ub_percent c \<and> ub_percent c \<le> 100" "0 \<le> ub_percent m \<and> ub_percent m \<le> 100"
proof -
  have fits: "0 \<le> nullish (nu_cpuPercent (nodeUsage info stats)) 0 \<and> nullish (nu_cpuPercent (nodeUsage info stats)) 0 \<le> 100"
    "0 \<le> nullish (nu_memPercent (nodeUsage info stats)) 0 \<and> nullish (nu_memPercent (nodeUsage info stats)) 0 \<le> 100" for info stats
    using usage_percent [of info stats] by (auto simp: nullish_def split: option.split)
  show "0 \<le> ub_percent c \<and> ub_percent c \<le> 100" "0 \<le> ub_percent m \<and> ub_percent m \<le> 100"
    using assms fits by (auto simp: node_box_def box_usage_view_def mini_bar_def Let_def split: if_splits option.splits)
qed

text \<open>
  A box whose border shows its state is dimmed. The CPU bar is a share of the capacity: with the capacity
  unknown it stays empty and green, and only its text shows the load.
\<close>

lemma coloured_border_dimmed: "box_down d \<Longrightarrow> bv_opacity (nb_view (node_box theme stats d)) = 7 / 10"
  by (simp add: node_box_def box_view_def box_inactive_def box_down_def Let_def)

lemma unknown_capacity_empty_bar:
  assumes "\<not> ng_unassigned d" "dg_swarmNode (ng_dgNode d) = None"
  shows "\<exists>c m. nb_usage (node_box theme (Some s) d) = UsageBars c m \<and> ub_percent c = 0 \<and> ub_color c = ''#22c55e'' \<and>
    ub_text c = to_fixed 0 (cs_cpuPercent s) @ ''%''"
  using assms by (simp add: node_box_def box_usage_view_def mini_bar_def nodeUsage_def cpuColor_def js_const Let_def)

section \<open>The dropdown of stacks\<close>

record OptionShown =
  ox_label :: string
  ox_figure :: string
  ox_selected :: bool
  ox_highlighted :: bool
  ox_background :: string
  ox_italic :: bool

record SelectorShown =
  sw_label :: string
  sw_accent :: bool
  sw_open :: bool
  sw_options :: "OptionShown list"

definition option_shown :: "Theme \<Rightarrow> string option \<Rightarrow> nat \<Rightarrow> nat \<times> StackOption \<Rightarrow> OptionShown" where
  "option_shown theme selected active io = (case io of (i, o1) \<Rightarrow>
     \<lparr>ox_label = so_label o1, ox_figure = string_of_nat (so_running o1) @ ''/'' @ string_of_nat (so_total o1),
      ox_selected = (so_key o1 = selected), ox_highlighted = (i = active),
      ox_background = (if so_key o1 = selected then th_panelBorder theme
        else if i = active then th_rowHover theme else ''transparent''),
      ox_italic = (so_key o1 = Some STANDALONE_STACK)\<rparr>)"

definition selector_shown :: "Theme \<Rightarrow> StackSummary list \<Rightarrow> string option \<Rightarrow> Selector \<Rightarrow> SelectorShown option" where
  "selector_shown theme stacks selected st =
     (if selector_hidden stacks selected then None
      else Some \<lparr>sw_label = so_label (active_option stacks selected), sw_accent = truthy selected, sw_open = sx_open st,
        sw_options = (if sx_open st then map (option_shown theme selected (sx_active st))
          (enumerate 0 (stack_options stacks selected)) else [])\<rparr>)"

text \<open>The open list marks one option as selected, the one whose label the button shows.\<close>

lemma option_keys_distinct:
  assumes "distinct (map ss_name stacks)"
  shows "distinct (map so_key (stack_options stacks selected))"
proof -
  have "map so_key (map (\<lambda>s. \<lparr>so_key = Some (ss_name s), so_label = stackLabel (ss_name s), so_running = ss_running s,
      so_total = ss_total s\<rparr>) stacks) = map Some (map ss_name stacks)" by simp
  then show ?thesis
    using assms by (auto simp: stack_options_def all_option_def list_ex_iff distinct_map inj_on_def)
qed

lemma filter_key:
  "distinct (map f xs) \<Longrightarrow> k < length xs \<Longrightarrow> f (xs ! k) = c \<Longrightarrow> filter (\<lambda>x. f x = c) xs = [xs ! k]"
proof (induction xs arbitrary: k)
  case (Cons x xs)
  show ?case
  proof (cases k)
    case 0
    then have "filter (\<lambda>y. f y = c) xs = []" using Cons.prems by (auto simp: filter_empty_conv) (metis image_eqI)
    then show ?thesis using Cons.prems 0 by simp
  next
    case (Suc j)
    then have "f x \<noteq> c" using Cons.prems by (metis distinct.simps(2) length_Cons list.simps(9) nth_Cons_Suc nth_mem
        Suc_less_eq image_eqI list.set_map)
    then show ?thesis using Cons Suc by simp
  qed
qed simp

lemma first_found: "filter P xs = y # ys \<Longrightarrow> find P xs = Some y"
  by (induction xs) (auto split: if_splits)

lemma one_selected_option:
  assumes "distinct (map ss_name stacks)" "selected \<noteq> Some []" "sx_open st" "selector_shown theme stacks selected st = Some v"
  shows "map ox_label (filter ox_selected (sw_options v)) = [sw_label v]"
proof -
  let ?os = "stack_options stacks selected" and ?k = "selectedIndex stacks selected"
  note at = selected_listed [OF assms(2), of stacks]
  have one: "filter (\<lambda>o1. so_key o1 = selected) ?os = [?os ! ?k]"
    by (rule filter_key [OF option_keys_distinct [OF assms(1)] at(2,1)])
  have "find (\<lambda>o1. so_key o1 = selected) ?os = Some (?os ! ?k)"
    by (rule first_found [OF one])
  then have label: "sw_label v = so_label (?os ! ?k)"
    using assms(4) by (auto simp: selector_shown_def active_option_def split: if_splits)
  have "map ox_label (filter ox_selected (map (option_shown theme selected a) (enumerate n os))) =
      map so_label (filter (\<lambda>o1. so_key o1 = selected) os)" for a n os
    by (induction os arbitrary: n) (simp_all add: option_shown_def)
  then show ?thesis using assms(3,4) one label by (auto simp: selector_shown_def split: if_splits)
qed

section \<open>The grouping menu\<close>

definition menu_shown :: "Theme \<Rightarrow> (string \<times> string) list \<Rightarrow> GroupMenu \<Rightarrow> string option \<Rightarrow>
    string \<times> (string \<times> bool \<times> string) list" where
  "menu_shown theme options st hovered =
     (active_label options st,
      if gm_open st then map (\<lambda>(k, label). (label, k = gm_groupBy st,
        if k = gm_groupBy st then th_panelBorder theme else if Some k = hovered then th_rowHover theme else ''transparent'')) options
      else [])"

lemma menu_marks_label:
  assumes "distinct (map fst options)" "gm_groupBy st \<in> fst ` set options" "gm_open st"
  shows "map fst (filter (\<lambda>(l, sel, bg). sel) (snd (menu_shown theme options st hovered))) = [fst (menu_shown theme options st hovered)]"
proof -
  obtain label where at: "(gm_groupBy st, label) \<in> set options" using assms(2) by auto
  then obtain k where "k < length options" "options ! k = (gm_groupBy st, label)" by (auto simp: in_set_conv_nth)
  then have one: "filter (\<lambda>o1. fst o1 = gm_groupBy st) options = [(gm_groupBy st, label)]"
    using filter_key [OF assms(1), of k "gm_groupBy st"] by simp
  have "map_get options (gm_groupBy st) = Some label"
    using assms(1) at by (simp add: map_get_in [symmetric] map_keys_def)
  moreover have marks: "map fst (filter (\<lambda>(l, sel, bg). sel) (map (\<lambda>(k, label). (label, k = gm_groupBy st, b k)) os)) =
      map snd (filter (\<lambda>o1. fst o1 = gm_groupBy st) os)" for b :: "string \<Rightarrow> string" and os
    by (induction os) auto
  ultimately show ?thesis
    using assms(3) one marks [of "\<lambda>k. if k = gm_groupBy st then th_panelBorder theme
      else if Some k = hovered then th_rowHover theme else ''transparent''" options]
    by (simp add: menu_shown_def active_label_def)
qed

end
