(* ===== verification/Spec2Isabelle.thy ===== *)
theory Spec2Isabelle
  imports LogWindowsCorrect LogRuns DockGraph NodeTransformCorrect NodeLayoutCorrect
    GraphLayout SelectionGraphCorrect
    SwarmLinks RoleSummary Tables Filters Dashboard LogStream DetailPanel Windowing CanvasEdges FlowCanvas
    StackSelector LinkEdges LogsView SwarmPanels Views Controls App Screens ShownParts
begin

text \<open>
  A model of the dockgraph frontend (\<^verbatim>\<open>frontend/src\<close>, TypeScript and React), the part of dockgraph
  that holds the graph of a Docker host or swarm, lays it out, draws it and shows logs, details,
  tables and a dashboard. The Go backend is not modelled; the formats it sends are the data model.
  File names below are relative to \<^verbatim>\<open>frontend/src\<close>.

  \<^bold>\<open>How the program works.\<close> A WebSocket delivers a snapshot of the graph and then deltas and stats
  (\<^verbatim>\<open>hooks/useDockGraph.ts\<close>). \<^verbatim>\<open>components/FlowCanvas.tsx\<close> scopes the graph to a stack
  (\<^verbatim>\<open>utils/stack.ts\<close>), has it laid out by network (\<^verbatim>\<open>layout/elk.ts\<close>, with the ELK library) or by
  swarm node (\<^verbatim>\<open>utils/nodeTransform.ts\<close>, \<^verbatim>\<open>layout/nodeLayout.ts\<close>) through
  \<^verbatim>\<open>hooks/useGraphLayout.ts\<close>, highlights what is selected, searched or hovered, and draws it with
  React Flow, the edges of a large graph on a canvas. The same nodes feed the tables, the dashboard
  and the detail panel, which polls the REST API. Logs come over REST (pages of history) and
  server-sent events (the tail), in windows that the user opens, moves, merges and docks.

  \<^bold>\<open>How code is modelled.\<close> A component with state is a record and a step function over a datatype of
  events: the calls of its user, the answers of the network, timers and animation frames; React
  renders between two events, so a handler reads the state of the last one. \<open>run step s es\<close> is the
  state after the events \<open>es\<close>, and the locale \<open>machine\<close> gives invariants over all of them. A hook's
  effect is part of the step that changes its dependencies. Pure functions are functions of the same
  name; a thrown error or an early return is a branch, an absent value \<open>None\<close>. A JavaScript
  \<open>Map\<close> or object is an association list in insertion order (\<open>jsmap\<close>), a \<open>Set\<close> a list without
  duplicates where its order is observed; a string is a list of 8-bit code units; a number is a
  \<open>nat\<close> or \<open>int\<close> where the code counts and an exact \<open>real\<close> where it measures (pixels, seconds,
  percentages), so rounding errors of doubles are outside the model except where a lemma is about
  printing them; bitwise code is on 32-bit words. A shown view is a record of its texts, colours
  and flags, without fixed styles; an em dash is a missing text.

  \<^bold>\<open>Parameters.\<close> Code that is not in the repository is an argument of the definitions that use it:
  the ELK layout, the bezier path of React Flow, the collator of \<open>localeCompare\<close> (assumed to be a total
  preorder where a result depends on it: locale \<open>comparator\<close>), the REST API, the RegExp constructor,
  the date parser, the formatting of a time of day, the text metrics of the browser.

  \<^bold>\<open>Theories.\<close>
  \<^item> \<open>Prelude\<close>: strings, JavaScript maps, arrays and sorting, and the locales \<open>ordered_map\<close>,
    \<open>comparator\<close> and \<open>machine\<close>; \<open>Constants\<close> and \<open>DataModel\<close>: \<^verbatim>\<open>utils/constants.ts\<close>, \<^verbatim>\<open>types.ts\<close>,
    \<^verbatim>\<open>types/stats.ts\<close>; \<open>Numbers\<close>: numbers printed and read as JavaScript does.
  \<^item> Log windows. \<open>LogWindows\<close> (\<^verbatim>\<open>hooks/logWindowsState.ts\<close>, \<^verbatim>\<open>useLogWindows.ts\<close>) has every
    transition, \<open>LogWindowsCorrect\<close> the invariant, that opening focuses, that merging and detaching lose
    no tab, and what closing does to the active tab; \<open>Windowing\<close>: dragging and resizing
    (\<^verbatim>\<open>hooks/useDragResize.ts\<close>, \<^verbatim>\<open>components/logwindow\<close>).
  \<^item> Logs. \<open>UseLogs\<close> (\<^verbatim>\<open>hooks/useLogs.ts\<close> and its two configurations), \<open>UseLogsCorrect\<close> (the buffer's
    invariant, the stuck loading flag), \<open>LogRuns\<close> (the hook against an abstract server log: the buffer
    is a contiguous run of it until a late page or a reconnected event source breaks it), \<open>LogStream\<close> (matches, following the tail, keeping the place),
    \<open>Filters\<close> (search and log filters), \<open>LogsView\<close> (the Logs view with pause, menu and find bar).
  \<^item> Graph data. \<open>Deltas\<close> (\<^verbatim>\<open>utils/deltaUtils.ts\<close>, \<^verbatim>\<open>ports.ts\<close>: deltas against the backend's own,
    the fingerprint), \<open>DockGraph\<close> (\<^verbatim>\<open>utils/protocol.ts\<close>, \<^verbatim>\<open>hooks/useDockGraph.ts\<close>: versions, the reloads
    of a session, reconnection, snapshots), \<open>Stack\<close> and \<open>StackCorrect\<close> (\<^verbatim>\<open>utils/stack.ts\<close>: scope, stacks, names of tasks),
    \<open>StackSelector\<close> (its dropdown), \<open>ServerFeed\<close> (a server's graphs over time and the connection that
    follows them), \<open>GraphTransform\<close>, \<open>NodeTransform\<close> with \<open>NodeTransformCorrect\<close> (the
    two views as React Flow nodes), \<open>SwarmLinks\<close>, \<open>RoleSummary\<close>.
  \<^item> Layout. \<open>NodeLayout\<close> with \<open>NodeLayoutCorrect\<close> (the grid of boxes), \<open>Components\<close>, \<open>ElkGraph\<close> with
    \<open>ElkGraphCorrect\<close>, \<open>EdgePaths\<close>, \<open>PathUtils\<close>, \<open>Elk\<close> (the pipeline around ELK), \<open>GraphLayout\<close> (the
    hook, with its cancellations and the deletions React Flow reports to it), \<open>TopologyKey\<close> (what the key
    that triggers a layout tells apart, and the volume it does not).
  \<^item> Drawing. \<open>Colors\<close>, \<open>SelectionGraph\<close> with \<open>SelectionGraphCorrect\<close> (what a selection lights),
    \<open>CanvasEdges\<close> (\<^verbatim>\<open>components/CanvasEdgeLayer.tsx\<close>, \<^verbatim>\<open>canvas/\<close>: frames and redraws), \<open>LinkEdges\<close>
    (\<^verbatim>\<open>SwarmLinkEdge.tsx\<close>, \<^verbatim>\<open>ElkEdge.tsx\<close>), \<open>NodeCards\<close> (the nodes themselves), \<open>FlowCanvas\<close> (the shell's
    handlers over the shared state).
  \<^item> Panels and tables. \<open>Fetching\<close> (the polling and the detail hooks), \<open>DetailPanel\<close> (which panel, its
    header and body), \<open>Panels\<close> and \<open>SwarmPanels\<close> (\<^verbatim>\<open>components/panels\<close>), \<open>Tables\<close>
    (\<^verbatim>\<open>hooks/useTableSort.ts\<close>, \<^verbatim>\<open>useTableGrouping.ts\<close>, \<^verbatim>\<open>components/table\<close>), \<open>Dashboard\<close>
    (\<^verbatim>\<open>components/dashboard\<close>, \<^verbatim>\<open>utils/format.ts\<close>, \<^verbatim>\<open>alerts.ts\<close>), \<open>Views\<close> (search field, theme switch, rows,
    cards), \<open>Theme\<close> (the tables of colours), \<open>Controls\<close> (copying, folding, choosing).
  \<^item> The whole. \<open>App\<close> (\<^verbatim>\<open>App.tsx\<close>, \<^verbatim>\<open>components/FlowCanvas.tsx\<close>) composes the connection, the graph state,
    the layout hook and the shell into one machine, in which every message, click, deletion and finished layout
    is an event; \<open>CanvasCurrent\<close> holds the invariant that ties the layout hook to the graph it was given.
  \<^item> What is shown. \<open>LogScreen\<close> (rows, banners, search bar, windows and their tabs), \<open>DashboardScreen\<close> (cards,
    page, the life of a chart's plot), \<open>Screens\<close> (header, tables, minimap, logs toolbar, and the view the
    application shows), \<open>ShownParts\<close> (a swarm node's box, the dropdown of stacks, the grouping menu): what a
    figure or a mark stands for, and what a click on it does.

  \<^bold>\<open>What the properties show.\<close> Each stands with its component, after a text block that states it.
  C1 and C2 are about the whole application, as long as nothing is deleted on the canvas. C1: over one
  connection, for any server graphs each a change of the last that loses no optional field and alters no
  edge under its id (\<open>evolution\<close>) and well-formed (\<open>snapshot_fits\<close>: ids as the collector writes them,
  without the separators of the keys), and with user clicks, stats and layouts interleaved freely, a
  settled screen shows the server's last graph in the scope chosen, unless that is empty. C2 has no such
  server: over any messages and reconnections, a settled screen shows the graph the application holds. C3 to C6 are about log windows, C7 to C9
  about the log buffer, C10 to C16 about deltas, the fingerprint, protocol versions and the connection,
  C17 to C20 about stacks and stats, C21 to C24 about the per-node view and its grid, C25 to C29 about
  components, ELK's graph and routes, C30 to C37 about what is drawn, lit, laid out and fetched, C38 to
  C40 about panels and overlay links. Where the code does not do what it means to, the property (or a
  lemma named in the list of findings) states what it does.

  \<^bold>\<open>Locales.\<close> \<open>ordered_map\<close> is interpreted on \<open>jsmap\<close>, \<open>comparator\<close> on the code's own comparisons,
  \<open>memo\<close> (a memoised function answers as the pure one) on the colour, text-width and RegExp caches,
  \<open>machine\<close> on the state machines, from the log windows to the whole application, each in the theory
  of the component.

  \<^bold>\<open>Bounds.\<close> Loops are structural or carry a measure; nothing needs fuel that could run out. Three counts
  bound a search over doubles and cover their whole range: 17 decimals when a number is printed, 330
  shifts by ten to find its exponent, 110 divisions by 1024 to find the unit of a byte count.

  \<^bold>\<open>Not modelled.\<close> The Go backend (another language and program); styles, icons and fixed markup; the
  drawing of React Flow, its minimap and its own drag state; the bezier of a link; the wall-clock
  format of times (\<open>formatLogTimestamp\<close>, \<open>formatTime\<close>, parameters of the views); the Path2D cache, device pixel scaling and
  the loading of fonts and chunks, which are browser objects; StrictMode's double mount; the drawing of uPlot's charts.
\<close>

end
